(* ===== verification/Qf_Prelude.thy ===== *)
theory Qf_Prelude
  imports Main "HOL-Library.Word" "HOL-Library.Multiset" "HOL-Library.Sublist"
begin

text \<open>
  Shared vocabulary of the development: machine integers and byte strings, Go's
  \<open>error\<close> results as a sum type, the list loops the code writes with early
  returns, little- and big-endian encodings, decimal printing, and the lemmas about
  them that the component theories use.
\<close>

unbundle bit_operations_syntax

section \<open>Types\<close>

type_synonym u8 = "8 word"
type_synonym u16 = "16 word"
type_synonym u32 = "32 word"
type_synonym u64 = "64 word"
type_synonym bytes = "8 word list"

text \<open>
  A signed Go integer of width n is an n-bit word read by \<^term>\<open>sint\<close>; conversions
  between widths are \<^term>\<open>ucast\<close> (truncation, zero extension) and \<^term>\<open>scast\<close>.
\<close>

type_synonym i32 = "32 word"
type_synonym i64 = "64 word"

section \<open>Errors\<close>

text \<open>
  \<open>fmt.Errorf(msg)\<close> is \<open>Errorf msg\<close>; \<open>fmt.Errorf(msg, %w)\<close> is
  \<open>Wrapf msg e\<close>. The literal part of the message is kept; formatted
  values are not. A sentinel error variable is \<open>Sentinel name\<close>, and
  \<open>errors.Is\<close> looks through the wrappers.
\<close>

datatype goerr = Errorf string | Wrapf string goerr | Sentinel string

type_synonym 'a res = "goerr + 'a"

fun errors_Is :: "goerr \<Rightarrow> string \<Rightarrow> bool" where
  "errors_Is (Errorf m) n = False"
| "errors_Is (Wrapf m e) n = errors_Is e n"
| "errors_Is (Sentinel s) n = (s = n)"

definition bindR :: "'a res \<Rightarrow> ('a \<Rightarrow> 'b res) \<Rightarrow> 'b res" where
  "bindR m f = (case m of Inl e \<Rightarrow> Inl e | Inr x \<Rightarrow> f x)"

definition wrapR :: "string \<Rightarrow> 'a res \<Rightarrow> 'a res" where
  "wrapR msg m = (case m of Inl e \<Rightarrow> Inl (Wrapf msg e) | Inr x \<Rightarrow> Inr x)"

definition is_ok :: "'a res \<Rightarrow> bool" where
  "is_ok m = (case m of Inl _ \<Rightarrow> False | Inr _ \<Rightarrow> True)"

text \<open>The loop that appends each converted element and returns at the first error.\<close>

fun mapR :: "('a \<Rightarrow> 'b res) \<Rightarrow> 'a list \<Rightarrow> 'b list res" where
  "mapR f [] = Inr []"
| "mapR f (x # xs) =
     (case f x of Inl e \<Rightarrow> Inl e
      | Inr y \<Rightarrow> (case mapR f xs of Inl e \<Rightarrow> Inl e | Inr ys \<Rightarrow> Inr (y # ys)))"

named_theorems res_simps \<open>results\<close>

lemma bindR_simps [simp, res_simps]:
  "bindR (Inl e) f = Inl e" "bindR (Inr x) f = f x"
  by (simp_all add: bindR_def)

lemma wrapR_simps [simp, res_simps]:
  "wrapR m (Inl e) = Inl (Wrapf m e)" "wrapR m (Inr x) = Inr x"
  by (simp_all add: wrapR_def)

lemma is_ok_simps [simp, res_simps]: "is_ok (Inr x)" "\<not> is_ok (Inl e)"
  by (simp_all add: is_ok_def)

lemma is_ok_iff: "is_ok m \<longleftrightarrow> (\<exists>x. m = Inr x)"
  by (cases m) auto

lemma bindR_eq_Inr [res_simps]: "bindR m f = Inr y \<longleftrightarrow> (\<exists>x. m = Inr x \<and> f x = Inr y)"
  by (cases m) auto

lemma wrapR_eq_Inr [simp, res_simps]: "wrapR s m = Inr y \<longleftrightarrow> m = Inr y"
  by (cases m) auto

lemma mapR_Cons_Inr:
  "mapR f (x # xs) = Inr zs \<longleftrightarrow> (\<exists>y ys. zs = y # ys \<and> f x = Inr y \<and> mapR f xs = Inr ys)"
  by (cases "f x"; cases "mapR f xs") auto

lemma mapR_Inr: "mapR f xs = Inr ys \<longleftrightarrow> list_all2 (\<lambda>x y. f x = Inr y) xs ys"
proof (induction xs arbitrary: ys)
  case Nil
  then show ?case by auto
next
  case (Cons x xs)
  then show ?case unfolding mapR_Cons_Inr list_all2_Cons1 by blast
qed

lemma mapR_length: "mapR f xs = Inr ys \<Longrightarrow> length ys = length xs"
  by (auto simp: mapR_Inr dest: list_all2_lengthD)

lemma mapR_ok: "(\<And>x. x \<in> set xs \<Longrightarrow> f x = Inr (g x)) \<Longrightarrow> mapR f xs = Inr (map g xs)"
  by (induction xs) auto

section \<open>Little- and big-endian words\<close>

fun le_word :: "bytes \<Rightarrow> 'a::len word" where
  "le_word [] = 0"
| "le_word (b # bs) = ucast b OR push_bit 8 (le_word bs)"

definition le_bytes :: "nat \<Rightarrow> 'a::len word \<Rightarrow> bytes" where
  "le_bytes n w = map (\<lambda>i. ucast (drop_bit (8 * i) w)) [0..<n]"

definition be_word :: "bytes \<Rightarrow> 'a::len word" where
  "be_word bs = le_word (rev bs)"

definition be_bytes :: "nat \<Rightarrow> 'a::len word \<Rightarrow> bytes" where
  "be_bytes n w = rev (le_bytes n w)"

lemma bit_le_word:
  "bit (le_word bs :: 'a::len word) i \<longleftrightarrow>
     i < LENGTH('a) \<and> i div 8 < length bs \<and> bit (bs ! (i div 8)) (i mod 8)"
proof (induction bs arbitrary: i)
  case Nil
  then show ?case by simp
next
  case (Cons b bs)
  show ?case
  proof (cases "i < 8")
    case True
    then show ?thesis by (auto simp: bit_or_iff bit_push_bit_iff bit_ucast_iff)
  next
    case False
    then have d: "i div 8 = Suc ((i - 8) div 8)" and m: "i mod 8 = (i - 8) mod 8"
      by (simp_all add: le_div_geq le_mod_geq)
    have nb: "\<not> bit b i" using False bit_imp_le_length [of b i] by auto
    show ?thesis using False nb
      by (auto simp: bit_or_iff bit_push_bit_iff bit_ucast_iff Cons.IH d m)
  qed
qed

lemma length_le_bytes [simp]: "length (le_bytes n w) = n"
  by (simp add: le_bytes_def)

lemma nth_le_bytes [simp]: "i < n \<Longrightarrow> le_bytes n w ! i = ucast (drop_bit (8 * i) w)"
  by (simp add: le_bytes_def)

lemma length_be_bytes [simp]: "length (be_bytes n w) = n"
  by (simp add: be_bytes_def)

lemma le_bytes_le_word:
  assumes "length bs = n" and "8 * n \<le> LENGTH('a::len)"
  shows "le_bytes n (le_word bs :: 'a word) = bs"
proof (rule nth_equalityI)
  show "length (le_bytes n (le_word bs :: 'a word)) = length bs" using assms by simp
next
  fix i assume "i < length (le_bytes n (le_word bs :: 'a word))"
  then have i: "i < n" by simp
  show "le_bytes n (le_word bs :: 'a word) ! i = bs ! i"
  proof (rule bit_word_eqI)
    fix k assume "k < LENGTH(8)"
    then have k: "k < 8" by simp
    then have "(8 * i + k) div 8 = i" "(8 * i + k) mod 8 = k" by auto
    moreover have "8 * i + k < LENGTH('a)" using i k assms(2) by linarith
    ultimately show "bit (le_bytes n (le_word bs :: 'a word) ! i) k = bit (bs ! i) k"
      using i k assms(1) by (simp add: bit_ucast_iff bit_drop_bit_eq bit_le_word)
  qed
qed

lemma le_word_le_bytes:
  assumes "LENGTH('a::len) = 8 * n"
  shows "le_word (le_bytes n (w :: 'a word)) = w"
proof (rule bit_word_eqI)
  fix k assume k: "k < LENGTH('a)"
  then have d: "k div 8 < n" using assms by (simp add: less_mult_imp_div_less mult.commute)
  have "8 * (k div 8) + k mod 8 = k" by simp
  then show "bit (le_word (le_bytes n w) :: 'a word) k = bit w k"
    using k d by (auto simp: bit_le_word bit_ucast_iff bit_drop_bit_eq)
qed

lemma be_bytes_be_word:
  "length bs = n \<Longrightarrow> 8 * n \<le> LENGTH('a::len) \<Longrightarrow> be_bytes n (be_word bs :: 'a word) = bs"
  by (simp add: be_bytes_def be_word_def le_bytes_le_word)

lemma be_word_be_bytes:
  "LENGTH('a::len) = 8 * n \<Longrightarrow> be_word (be_bytes n (w :: 'a word)) = w"
  by (simp add: be_bytes_def be_word_def le_word_le_bytes)

lemma le_word_and:
  "length xs = length ys \<Longrightarrow>
   le_word (map2 (AND) xs ys) = (le_word xs AND le_word ys :: 'a::len word)"
  by (rule bit_word_eqI) (auto simp: bit_le_word bit_and_iff)

lemma le_word_inj:
  assumes "length xs = n" and "length ys = n" and "8 * n \<le> LENGTH('a::len)"
  shows "(le_word xs :: 'a word) = le_word ys \<longleftrightarrow> xs = ys"
  using assms le_bytes_le_word by metis

section \<open>Bits of a byte string, most significant first\<close>

definition byte_bits :: "u8 \<Rightarrow> bool list" where
  "byte_bits b = map (\<lambda>i. bit b (7 - i)) [0..<8]"

definition bytes_bits :: "bytes \<Rightarrow> bool list" where
  "bytes_bits bs = concat (map byte_bits bs)"

lemma length_byte_bits [simp]: "length (byte_bits b) = 8"
  by (simp add: byte_bits_def)

lemma nth_byte_bits: "i < 8 \<Longrightarrow> byte_bits b ! i = bit b (7 - i)"
  by (simp add: byte_bits_def)

lemma length_bytes_bits [simp]: "length (bytes_bits bs) = 8 * length bs"
  by (induction bs) (simp_all add: bytes_bits_def)

lemma bytes_bits_simps [simp]:
  "bytes_bits [] = []" "bytes_bits (b # bs) = byte_bits b @ bytes_bits bs"
  "bytes_bits (xs @ ys) = bytes_bits xs @ bytes_bits ys"
  by (simp_all add: bytes_bits_def)

lemma byte_bits_inj: "byte_bits a = byte_bits b \<longleftrightarrow> a = b"
proof
  assume eq: "byte_bits a = byte_bits b"
  show "a = b"
  proof (rule bit_word_eqI)
    fix i assume "i < LENGTH(8)"
    then have "i < 8" by simp
    then show "bit a i = bit b i"
      using arg_cong [OF eq, of "\<lambda>xs. xs ! (7 - i)"] by (simp add: nth_byte_bits)
  qed
qed simp

lemma bytes_bits_inj:
  "length xs = length ys \<Longrightarrow> bytes_bits xs = bytes_bits ys \<longleftrightarrow> xs = ys"
  by (induction xs ys rule: list_induct2) (auto simp: byte_bits_inj)

section \<open>First match in a list\<close>

fun findi :: "('a \<Rightarrow> bool) \<Rightarrow> nat \<Rightarrow> 'a list \<Rightarrow> (nat \<times> 'a) option" where
  "findi P i [] = None"
| "findi P i (x # xs) = (if P x then Some (i, x) else findi P (Suc i) xs)"

lemma findi_find: "map_option snd (findi P i xs) = List.find P xs"
  by (induction P i xs rule: findi.induct) auto

lemma findi_Some:
  "findi P i xs = Some (j, x) \<Longrightarrow> i \<le> j \<and> j < i + length xs \<and> xs ! (j - i) = x \<and> P x"
  by (induction P i xs rule: findi.induct) (auto split: if_splits simp: nth_Cons')

lemma find_list_all2:
  "list_all2 R xs ys \<Longrightarrow> (\<And>x y. R x y \<Longrightarrow> P x \<longleftrightarrow> Q y) \<Longrightarrow>
   rel_option R (List.find P xs) (List.find Q ys)"
  by (induction rule: list_all2_induct) auto

section \<open>Decimal digits\<close>

definition is_digit :: "char \<Rightarrow> bool" where
  "is_digit c \<longleftrightarrow> 48 \<le> (of_char c :: nat) \<and> (of_char c :: nat) \<le> 57"

definition digit_val :: "char \<Rightarrow> nat" where
  "digit_val c = of_char c - 48"

definition digit_char :: "nat \<Rightarrow> char" where
  "digit_char d = char_of (48 + d)"

fun dec :: "nat \<Rightarrow> string" where
  "dec n = (if n < 10 then [digit_char n] else dec (n div 10) @ [digit_char (n mod 10)])"

declare dec.simps [simp del]

lemma of_digit_char [simp]: "d < 10 \<Longrightarrow> (of_char (digit_char d) :: nat) = 48 + d"
  by (simp add: digit_char_def)

lemma digit_char_props [simp]:
  "d < 10 \<Longrightarrow> is_digit (digit_char d)" "d < 10 \<Longrightarrow> digit_val (digit_char d) = d"
  by (simp_all add: is_digit_def digit_val_def)

lemma dec_small: "n < 10 \<Longrightarrow> dec n = [digit_char n]"
  by (simp add: dec.simps)

lemma dec_2: "10 \<le> n \<Longrightarrow> n < 100 \<Longrightarrow> dec n = [digit_char (n div 10), digit_char (n mod 10)]"
  by (subst dec.simps) (simp add: dec_small)

lemma dec_3:
  "100 \<le> n \<Longrightarrow> n < 1000 \<Longrightarrow>
   dec n = [digit_char (n div 100), digit_char (n div 10 mod 10), digit_char (n mod 10)]"
  by (subst dec.simps) (simp add: dec_2 div_mult2_eq [symmetric])

lemma dec_digits: "c \<in> set (dec n) \<Longrightarrow> is_digit c"
  by (induction n rule: dec.induct) (subst (asm) (2) dec.simps, auto split: if_splits)

lemma dec_not_Nil [simp]: "dec n \<noteq> []"
  by (subst dec.simps) simp

section \<open>Fallible operations on a state\<close>

text \<open>
  An operation that mutates its receiver and may return an error: the state reached is
  kept on the error path too, since Go code does not roll back.
\<close>

type_synonym ('s, 'a) st = "'s \<Rightarrow> 'a res \<times> 's"

definition retS :: "'a \<Rightarrow> ('s, 'a) st" where
  "retS x = (\<lambda>s. (Inr x, s))"

definition failS :: "goerr \<Rightarrow> ('s, 'a) st" where
  "failS e = (\<lambda>s. (Inl e, s))"

definition bindS :: "('s, 'a) st \<Rightarrow> ('a \<Rightarrow> ('s, 'b) st) \<Rightarrow> ('s, 'b) st" where
  "bindS m f = (\<lambda>s. case m s of (Inl e, s') \<Rightarrow> (Inl e, s') | (Inr x, s') \<Rightarrow> f x s')"

definition wrapS :: "string \<Rightarrow> ('s, 'a) st \<Rightarrow> ('s, 'a) st" where
  "wrapS msg m = (\<lambda>s. case m s of (r, s') \<Rightarrow> (wrapR msg r, s'))"

definition liftS :: "'a res \<Rightarrow> ('s, 'a) st" where
  "liftS r = (\<lambda>s. (r, s))"

text \<open>A \<open>for range\<close> loop whose body may return an error.\<close>

fun forS :: "('a \<Rightarrow> ('s, unit) st) \<Rightarrow> 'a list \<Rightarrow> ('s, unit) st" where
  "forS f [] s = (Inr (), s)"
| "forS f (x # xs) s = bindS (f x) (\<lambda>_. forS f xs) s"

lemma st_simps [simp]:
  "retS x s = (Inr x, s)" "failS e s = (Inl e, s)" "liftS r s = (r, s)"
  by (simp_all add: retS_def failS_def liftS_def)

lemma bindS_apply: "bindS m f s = (case m s of (Inl e, s') \<Rightarrow> (Inl e, s') | (Inr x, s') \<Rightarrow> f x s')"
  by (simp add: bindS_def)

lemma bindS_Inr:
  "bindS m f s = (Inr y, t) \<longleftrightarrow> (\<exists>x u. m s = (Inr x, u) \<and> f x u = (Inr y, t))"
  by (auto simp: bindS_def split: prod.splits sum.splits)

lemma wrapS_Inr: "wrapS msg m s = (Inr y, t) \<longleftrightarrow> m s = (Inr y, t)"
  by (auto simp: wrapS_def split: prod.splits)

lemma forS_Cons_Inr:
  "forS f (x # xs) s = (Inr (), t) \<longleftrightarrow> (\<exists>u. f x s = (Inr (), u) \<and> forS f xs u = (Inr (), t))"
  by (simp add: bindS_Inr)

text \<open>The loop that collects a result per element.\<close>

fun mapS :: "('a \<Rightarrow> ('s, 'b) st) \<Rightarrow> 'a list \<Rightarrow> ('s, 'b list) st" where
  "mapS f [] s = (Inr [], s)"
| "mapS f (x # xs) s = bindS (f x) (\<lambda>y. bindS (mapS f xs) (\<lambda>ys. retS (y # ys))) s"

text \<open>What every iteration keeps, the loop keeps, whether it finishes or fails.\<close>

lemma forS_invariant:
  assumes "\<And>x u. x \<in> set xs \<Longrightarrow> P u \<Longrightarrow> P (snd (f x u))" and "P s"
  shows "P (snd (forS f xs s))"
  using assms
proof (induction xs arbitrary: s)
  case Nil
  then show ?case by simp
next
  case (Cons x xs)
  have u: "P (snd (f x s))" using Cons.prems by simp
  obtain r u where ru: "f x s = (r, u)" by (cases "f x s")
  have "P (snd (forS f xs u))" using Cons.prems u ru by (intro Cons.IH) auto
  then show ?case using u ru by (cases r) (simp_all add: bindS_def)
qed

text \<open>The same for sequencing and for error wrapping.\<close>

lemma snd_wrapS [simp]: "snd (wrapS msg m s) = snd (m s)"
  by (simp add: wrapS_def split: prod.splits)

lemma bindS_invariant:
  assumes "\<And>u. P u \<Longrightarrow> P (snd (m u))" and "\<And>x u. P u \<Longrightarrow> P (snd (f x u))" and "P s"
  shows "P (snd (bindS m f s))"
proof -
  obtain r u where ru: "m s = (r, u)" by (cases "m s")
  then have "P u" using assms(1) [OF assms(3)] by simp
  then show ?thesis using assms(2) by (cases r) (simp_all add: bindS_def ru)
qed

lemmas st_Inr = bindS_Inr wrapS_Inr forS_Cons_Inr

end
