(* ===== verification/Qf_Net.thy ===== *)
theory Qf_Net
  imports Qf_Prelude
begin

text \<open>
  The part of Go's \<open>net\<close>, \<open>net/netip\<close>, \<open>strings\<close> and \<open>strconv\<close> that the program uses:
  addresses as byte strings (\<open>To4\<close>, printing, masks), \<open>ParseCIDR\<close>, \<open>ParseIP\<close>,
  \<open>ParseUint\<close>, and the loader's conversion of an IPv4 address to the word stored in a
  BPF map (agent/internal/loader/conntrack.go). The main results are the round trip
  of a printed prefix through \<open>ParseCIDR\<close> and the meaning of a masked comparison as
  agreement of the leading bits.
\<close>

section \<open>Addresses\<close>

text \<open>\<open>net.IP\<close> is a byte string; \<open>nil\<close> is the empty one.\<close>

type_synonym netIP = bytes

definition v4InV6Prefix :: bytes where
  "v4InV6Prefix = [0,0,0,0,0,0,0,0,0,0,255,255]"

definition To4 :: "netIP \<Rightarrow> bytes option" where
  "To4 ip = (if length ip = 4 then Some ip
             else if length ip = 16 \<and> take 12 ip = v4InV6Prefix then Some (drop 12 ip)
             else None)"

definition To16 :: "netIP \<Rightarrow> bytes option" where
  "To16 ip = (if length ip = 4 then Some (v4InV6Prefix @ ip)
              else if length ip = 16 then Some ip
              else None)"

text \<open>\<open>netip.AddrFrom4(b).String()\<close>: dotted decimal.\<close>

definition ip4String :: "bytes \<Rightarrow> string" where
  "ip4String b = dec (unat (b ! 0)) @ ''.'' @ dec (unat (b ! 1)) @ ''.''
                 @ dec (unat (b ! 2)) @ ''.'' @ dec (unat (b ! 3))"

section \<open>Masks\<close>

text \<open>\<open>net.CIDRMask(ones, bits)\<close> for \<open>0 \<le> ones \<le> bits\<close>, one byte at a time.\<close>

fun mask_bytes :: "nat \<Rightarrow> nat \<Rightarrow> bytes" where
  "mask_bytes 0 n = []"
| "mask_bytes (Suc l) n =
     (if 8 \<le> n then 255 # mask_bytes l (n - 8)
      else NOT (drop_bit n 255) # mask_bytes l 0)"

definition CIDRMask :: "nat \<Rightarrow> nat \<Rightarrow> bytes" where
  "CIDRMask ones nbits = mask_bytes (nbits div 8) ones"

text \<open>\<open>IPMask.Size\<close>: the number of leading ones (the masks here are canonical).\<close>

definition maskOnes :: "bytes \<Rightarrow> nat" where
  "maskOnes m = length (takeWhile id (bytes_bits m))"

text \<open>\<open>IP.Mask\<close>: a 4-byte mask applies to the last four bytes of a v4-in-v6 address.\<close>

definition ipMask :: "netIP \<Rightarrow> bytes \<Rightarrow> netIP" where
  "ipMask ip m =
     (let ip' = (if length m = 4 \<and> length ip = 16 \<and> take 12 ip = v4InV6Prefix
                 then drop 12 ip else ip)
      in if length ip' = length m then map2 (AND) ip' m else [])"

section \<open>Parsing\<close>

text \<open>\<open>strings.Cut\<close> at the first separator byte.\<close>

definition strCut :: "char \<Rightarrow> string \<Rightarrow> (string \<times> string) option" where
  "strCut c s = (if c \<in> set s
                 then Some (takeWhile (\<lambda>x. x \<noteq> c) s, tl (dropWhile (\<lambda>x. x \<noteq> c) s))
                 else None)"

text \<open>\<open>net.dtoi\<close>: value, number of bytes read, success; it gives up at 0xFFFFFF.\<close>

fun dtoi_loop :: "string \<Rightarrow> nat \<Rightarrow> nat \<Rightarrow> nat \<times> nat \<times> bool" where
  "dtoi_loop [] n i = (if i = 0 then (0, 0, False) else (n, i, True))"
| "dtoi_loop (c # cs) n i =
     (if is_digit c then
        (let n' = n * 10 + digit_val c
         in if 16777215 \<le> n' then (16777215, i, False) else dtoi_loop cs n' (Suc i))
      else if i = 0 then (0, 0, False) else (n, i, True))"

definition dtoi :: "string \<Rightarrow> nat \<times> nat \<times> bool" where
  "dtoi s = dtoi_loop s 0 0"

text \<open>
  \<open>netip.parseIPv4Fields\<close>. The loop variables are the previous byte, the octet read so
  far, its number of digits, and the finished octets.
\<close>

fun parseIPv4Fields_loop :: "string \<Rightarrow> char option \<Rightarrow> nat \<Rightarrow> nat \<Rightarrow> bytes \<Rightarrow> bytes res" where
  "parseIPv4Fields_loop [] prev val digLen acc =
     (if length acc < 3 then Inl (Errorf ''IPv4 address too short'')
      else Inr (acc @ [of_nat val]))"
| "parseIPv4Fields_loop (c # cs) prev val digLen acc =
     (if is_digit c then
        if digLen = 1 \<and> val = 0 then Inl (Errorf ''IPv4 field has octet with leading zero'')
        else let val' = val * 10 + digit_val c in
          if 255 < val' then Inl (Errorf ''IPv4 field has value >255'')
          else parseIPv4Fields_loop cs (Some c) val' (Suc digLen) acc
      else if c = CHR ''.'' then
        if prev = None \<or> cs = [] \<or> prev = Some (CHR ''.'')
        then Inl (Errorf ''IPv4 field must have at least one digit'')
        else if length acc = 3 then Inl (Errorf ''IPv4 address too long'')
        else parseIPv4Fields_loop cs (Some c) 0 0 (acc @ [of_nat val])
      else Inl (Errorf ''unexpected character''))"

definition parseIPv4Fields :: "string \<Rightarrow> bytes res" where
  "parseIPv4Fields s = parseIPv4Fields_loop s None 0 0 []"

text \<open>The value of a hexadecimal digit.\<close>

definition hex_val :: "char \<Rightarrow> nat option" where
  "hex_val c =
     (let n = of_char c :: nat in
      if 48 \<le> n \<and> n \<le> 57 then Some (n - 48)
      else if 97 \<le> n \<and> n \<le> 102 then Some (n - 87)
      else if 65 \<le> n \<and> n \<le> 70 then Some (n - 55)
      else None)"

text \<open>\<open>hex.EncodeToString\<close>, and \<open>%x\<close> on a byte slice.\<close>

definition hex_digit :: "nat \<Rightarrow> char" where
  "hex_digit n = (if n < 10 then char_of (48 + n) else char_of (87 + n))"

definition hexEncode :: "bytes \<Rightarrow> string" where
  "hexEncode bs = concat (map (\<lambda>b. [hex_digit (unat b div 16), hex_digit (unat b mod 16)]) bs)"

text \<open>One hexadecimal group of \<open>netip.parseIPv6\<close>: its value and the number of digits.\<close>

fun hexGroup :: "string \<Rightarrow> nat \<Rightarrow> nat \<Rightarrow> (nat \<times> nat) res" where
  "hexGroup [] acc off = Inr (acc, off)"
| "hexGroup (c # cs) acc off =
     (case hex_val c of
        None \<Rightarrow> Inr (acc, off)
      | Some d \<Rightarrow>
          (let acc' = acc * 16 + d in
           if 3 < off then Inl (Errorf ''each group must have 4 or less digits'')
           else if 65535 < acc' then Inl (Errorf ''IPv6 field has value >=2^16'')
           else hexGroup cs acc' (Suc off)))"

text \<open>
  The group loop of \<open>netip.parseIPv6\<close>, on the rest of the string, the bytes written so
  far (the code's \<open>ip[0..i)\<close>) and the position of the ellipsis. Each round writes
  at least two bytes, so eight rounds suffice; the fuel counts the rounds the
  \<open>for i < 16\<close> loop can still make.
\<close>

fun parseIPv6_loop :: "nat \<Rightarrow> string \<Rightarrow> bytes \<Rightarrow> nat option \<Rightarrow> (string \<times> bytes \<times> nat option) res" where
  "parseIPv6_loop 0 s ip ell = Inr (s, ip, ell)"
| "parseIPv6_loop (Suc k) s ip ell =
     (if 16 \<le> length ip then Inr (s, ip, ell) else
      case hexGroup s 0 0 of
        Inl e \<Rightarrow> Inl e
      | Inr (acc, off) \<Rightarrow>
          if off = 0 then Inl (Errorf ''each colon-separated field must have at least one digit'')
          else if off < length s \<and> s ! off = CHR ''.'' then
            if ell = None \<and> length ip \<noteq> 12
            then Inl (Errorf ''embedded IPv4 address must replace the final 2 fields of the address'')
            else if 16 < length ip + 4
            then Inl (Errorf ''too many hex fields to fit an embedded IPv4 at the end of the address'')
            else (case parseIPv4Fields s of Inl e \<Rightarrow> Inl e | Inr v4 \<Rightarrow> Inr ([], ip @ v4, ell))
          else
            let ip' = ip @ [of_nat (acc div 256), of_nat acc]; s' = drop off s in
            if s' = [] then Inr ([], ip', ell)
            else if hd s' \<noteq> CHR '':'' then Inl (Errorf ''unexpected character, want colon'')
            else if length s' = 1 then Inl (Errorf ''colon must be followed by more characters'')
            else
              let s'' = tl s' in
              if hd s'' = CHR '':'' then
                if ell \<noteq> None then Inl (Errorf ''multiple :: in address'')
                else if tl s'' = [] then Inr ([], ip', Some (length ip'))
                else parseIPv6_loop k (tl s'') ip' (Some (length ip'))
              else parseIPv6_loop k s'' ip' ell)"

definition parseIPv6_expand :: "bytes \<Rightarrow> nat option \<Rightarrow> bytes res" where
  "parseIPv6_expand ip ell =
     (if length ip < 16 then
        (case ell of
           None \<Rightarrow> Inl (Errorf ''address string too short'')
         | Some e \<Rightarrow> Inr (take e ip @ replicate (16 - length ip) 0 @ drop e ip))
      else if ell \<noteq> None
      then Inl (Errorf ''the :: must expand to at least one field of zeros'')
      else Inr ip)"

text \<open>\<open>netip.parseIPv6\<close>: the address bytes and the zone.\<close>

definition parseIPv6 :: "string \<Rightarrow> (bytes \<times> string) res" where
  "parseIPv6 input =
     (case (case strCut (CHR ''%'') input of
              None \<Rightarrow> Inr (input, '''')
            | Some (s, zone) \<Rightarrow>
                if zone = '''' then Inl (Errorf ''zone must be a non-empty string'')
                else Inr (s, zone)) of
        Inl e \<Rightarrow> Inl e
      | Inr (s, zone) \<Rightarrow>
          (let lead = (take 2 s = ''::'');
               s1 = (if lead then drop 2 s else s);
               ell = (if lead then Some 0 else None)
           in if lead \<and> s1 = [] then Inr (replicate 16 0, zone)
              else bindR (parseIPv6_loop 8 s1 [] ell) (\<lambda>(s2, ip, ell2).
                     if s2 \<noteq> [] then Inl (Errorf ''trailing garbage after address'')
                     else bindR (parseIPv6_expand ip ell2) (\<lambda>ip16. Inr (ip16, zone)))))"

text \<open>\<open>netip.ParseAddr\<close>: 4 or 16 bytes and a zone; the first of \<open>.\<close> \<open>:\<close> \<open>%\<close> decides.\<close>

definition netipParseAddr :: "string \<Rightarrow> (bytes \<times> string) res" where
  "netipParseAddr s =
     (case filter (\<lambda>c. c = CHR ''.'' \<or> c = CHR '':'' \<or> c = CHR ''%'') s of
        [] \<Rightarrow> Inl (Errorf ''unable to parse IP'')
      | c # _ \<Rightarrow>
          if c = CHR ''.'' then bindR (parseIPv4Fields s) (\<lambda>b. Inr (b, ''''))
          else if c = CHR '':'' then parseIPv6 s
          else Inl (Errorf ''missing IPv6 address''))"

text \<open>\<open>net.ParseIP\<close>: \<open>nil\<close> on failure or with a zone, else the 16-byte form.\<close>

definition netParseIP :: "string \<Rightarrow> netIP option" where
  "netParseIP s = (case netipParseAddr s of
     Inl _ \<Rightarrow> None
   | Inr (b, zone) \<Rightarrow> if zone \<noteq> '''' then None else To16 b)"

text \<open>\<open>net.ParseCIDR\<close>: the address in 16 bytes, the network address and its mask.\<close>

definition netParseCIDR :: "string \<Rightarrow> (netIP \<times> netIP \<times> bytes) res" where
  "netParseCIDR s =
     (case strCut (CHR ''/'') s of
        None \<Rightarrow> Inl (Errorf ''invalid CIDR address'')
      | Some (addr, msk) \<Rightarrow>
          (case netipParseAddr addr of
             Inl e \<Rightarrow> Inl (Errorf ''invalid CIDR address'')
           | Inr (b, zone) \<Rightarrow>
               if zone \<noteq> '''' then Inl (Errorf ''invalid CIDR address'')
               else
                 (let (n, i, ok) = dtoi msk; bitLen = 8 * length b in
                  if \<not> ok \<or> i \<noteq> length msk \<or> bitLen < n
                  then Inl (Errorf ''invalid CIDR address'')
                  else
                    (let m = CIDRMask n bitLen; a16 = the (To16 b)
                     in Inr (a16, ipMask a16 m, m)))))"

text \<open>\<open>strconv.ParseUint(s, 10, 32)\<close>; base 10 allows no underscores and no sign.\<close>

fun parseUint_loop :: "string \<Rightarrow> nat \<Rightarrow> nat res" where
  "parseUint_loop [] n = Inr n"
| "parseUint_loop (c # cs) n =
     (if \<not> is_digit c then Inl (Errorf ''invalid syntax'')
      else let n' = n * 10 + digit_val c in
        if 2 ^ 32 \<le> n' then Inl (Errorf ''value out of range'')
        else parseUint_loop cs n')"

definition parseUint32 :: "string \<Rightarrow> u32 res" where
  "parseUint32 s = (if s = [] then Inl (Errorf ''invalid syntax'')
                    else bindR (parseUint_loop s 0) (\<lambda>n. Inr (of_nat n)))"

section \<open>The BPF representation of an IPv4 address\<close>

definition encodeIP4 :: "netIP \<Rightarrow> u32" where
  "encodeIP4 ip = (case To4 ip of None \<Rightarrow> 0 | Some b \<Rightarrow> le_word b)"

definition decodeIP4 :: "u32 \<Rightarrow> netIP" where
  "decodeIP4 v = le_bytes 4 v"

section \<open>Facts about masks\<close>

named_theorems net_simps \<open>addresses and masks\<close>

lemma length_mask_bytes [simp]: "length (mask_bytes l n) = l"
  by (induction l n rule: mask_bytes.induct) auto

lemma length_CIDRMask32 [simp, net_simps]: "length (CIDRMask n 32) = 4"
  by (simp add: CIDRMask_def)

lemma u8_255: "(255 :: u8) = - 1"
  by simp

lemma and_255 [simp]: "(z :: u8) AND 255 = z"
  by (simp only: u8_255 and.right_neutral)

lemma and_not_255 [simp]: "(z :: u8) AND NOT 255 = 0"
  by (simp only: u8_255 bit.compl_one and_zero_eq)

lemma bit_255: "bit (drop_bit n (255 :: u8)) i \<longleftrightarrow> n + i < 8"
  unfolding u8_255 by (auto simp: bit_mask_iff)

lemma bit_mask_byte:
  assumes "n < 8" and "i < 8"
  shows "bit (NOT (drop_bit n (255 :: u8))) (7 - i) \<longleftrightarrow> i < n"
proof -
  have "bit (NOT (drop_bit n (255 :: u8))) (7 - i) \<longleftrightarrow> \<not> n + (7 - i) < 8"
    using assms by (simp only: bit_not_iff bit_255) auto
  then show ?thesis using assms by auto
qed

lemma and_mask_byte:
  assumes "n < 8"
  shows "a AND NOT (drop_bit n (255 :: u8)) = b AND NOT (drop_bit n 255) \<longleftrightarrow>
         take n (byte_bits a) = take n (byte_bits b)"
    (is "?A = ?B \<longleftrightarrow> ?T")
proof
  assume eq: "?A = ?B"
  show ?T
  proof (rule nth_equalityI)
    fix i assume "i < length (take n (byte_bits a))"
    then have i: "i < n" "i < 8" using assms by auto
    have "bit ?A (7 - i) = bit ?B (7 - i)" using eq by simp
    then show "take n (byte_bits a) ! i = take n (byte_bits b) ! i"
      using i assms bit_mask_byte [OF assms, of i] by (simp add: bit_and_iff nth_byte_bits)
  qed simp
next
  assume t: ?T
  show "?A = ?B"
  proof (rule bit_word_eqI)
    fix k assume "k < LENGTH(8)"
    then obtain i where i: "i < 8" "k = 7 - i" by (intro that [of "7 - k"]) auto
    show "bit ?A k = bit ?B k"
    proof (cases "i < n")
      case True
      then have "byte_bits a ! i = byte_bits b ! i"
        using arg_cong [OF t, of "\<lambda>xs. xs ! i"] by simp
      then show ?thesis using i by (simp add: bit_and_iff nth_byte_bits)
    next
      case False
      then show ?thesis using bit_mask_byte [OF assms i(1)] i by (simp add: bit_and_iff)
    qed
  qed
qed

lemma mask_bytes_zero: "length a = l \<Longrightarrow> map2 (AND) a (mask_bytes l 0) = replicate l 0"
proof (induction l arbitrary: a)
  case (Suc l)
  then obtain x xs where a: "a = x # xs" "length xs = l" by (cases a) auto
  have "mask_bytes (Suc l) 0 = NOT 255 # mask_bytes l 0"
    by (simp only: mask_bytes.simps) simp
  then show ?case using Suc.IH [OF a(2)] a
    by (simp only: list.map zip_Cons_Cons prod.case and_not_255 replicate_Suc)
qed simp

text \<open>Equality under a mask is agreement of the leading bits.\<close>

lemma masked_eq_iff_prefix:
  "length a = l \<Longrightarrow> length b = l \<Longrightarrow> n \<le> 8 * l \<Longrightarrow>
   map2 (AND) a (mask_bytes l n) = map2 (AND) b (mask_bytes l n) \<longleftrightarrow>
   take n (bytes_bits a) = take n (bytes_bits b)"
proof (induction l n arbitrary: a b rule: mask_bytes.induct)
  case (1 n)
  then show ?case by simp
next
  case (2 l n)
  obtain x xs where a: "a = x # xs" "length xs = l" using 2 by (cases a) auto
  obtain y ys where b: "b = y # ys" "length ys = l" using 2 by (cases b) auto
  show ?case
  proof (cases "8 \<le> n")
    case True
    have "take n (byte_bits x @ bytes_bits xs) = byte_bits x @ take (n - 8) (bytes_bits xs)"
      and "take n (byte_bits y @ bytes_bits ys) = byte_bits y @ take (n - 8) (bytes_bits ys)"
      using True by (simp_all add: take_append)
    then show ?thesis using True 2(1) [OF True, of xs ys] 2(5) a b
      by (simp add: byte_bits_inj)
  next
    case False
    then show ?thesis
      using a b mask_bytes_zero [of xs l] mask_bytes_zero [of ys l] and_mask_byte [of n x y]
      by simp
  qed
qed

lemma byte_bits_mask:
  assumes "n \<le> 8"
  shows "byte_bits (NOT (drop_bit n (255 :: u8))) = replicate n True @ replicate (8 - n) False"
proof (rule nth_equalityI)
  fix i assume "i < length (byte_bits (NOT (drop_bit n (255 :: u8))))"
  then have i: "i < 8" by simp
  show "byte_bits (NOT (drop_bit n 255)) ! i = (replicate n True @ replicate (8 - n) False) ! i"
  proof (cases "n = 8")
    case True
    then have "\<not> bit (drop_bit n (255 :: u8)) (7 - i)" by (simp only: bit_255)
    with True i show ?thesis
      by (simp add: nth_byte_bits nth_append bit_not_iff)
  next
    case False
    with assms i show ?thesis
      using bit_mask_byte [of n i] by (simp add: nth_byte_bits nth_append)
  qed
qed (use assms in simp)

lemma bytes_bits_mask_bytes:
  "n \<le> 8 * l \<Longrightarrow> bytes_bits (mask_bytes l n) = replicate n True @ replicate (8 * l - n) False"
proof (induction l n rule: mask_bytes.induct)
  case (1 n)
  then show ?case by simp
next
  case (2 l n)
  have z: "NOT (drop_bit 8 (255 :: u8)) = 255"
    unfolding u8_255 by (rule bit_word_eqI) (simp add: bit_not_iff bit_drop_bit_eq)
  show ?case
  proof (cases "8 \<le> n")
    case True
    then have "replicate n True = replicate 8 True @ replicate (n - 8) True"
      by (simp add: replicate_add [symmetric])
    moreover have "byte_bits 255 = replicate 8 True" using byte_bits_mask [of 8] unfolding z by simp
    ultimately show ?thesis using True 2(1) [OF True] 2(3) by simp
  next
    case False
    then show ?thesis using 2(2) [OF False] byte_bits_mask [of n]
      by (simp add: replicate_add [symmetric])
  qed
qed

lemma maskOnes_CIDRMask [simp, net_simps]: "n \<le> 32 \<Longrightarrow> maskOnes (CIDRMask n 32) = n"
  by (simp add: maskOnes_def CIDRMask_def bytes_bits_mask_bytes takeWhile_append)

section \<open>Printed prefixes parse back\<close>

lemma digit_not_sep [simp]:
  "is_digit c \<Longrightarrow> c \<noteq> CHR ''.''" "is_digit c \<Longrightarrow> c \<noteq> CHR ''/''"
  "is_digit c \<Longrightarrow> c \<noteq> CHR '':''" "is_digit c \<Longrightarrow> c \<noteq> CHR ''%''"
  by (auto simp: is_digit_def)

lemma not_is_digit_sep [simp]:
  "\<not> is_digit (CHR ''.'')" "\<not> is_digit (CHR ''/'')"
  "\<not> is_digit (CHR '':'')" "\<not> is_digit (CHR ''%'')"
  by (simp_all add: is_digit_def)

lemma parse_octet:
  assumes "v \<le> 255"
  shows "parseIPv4Fields_loop (dec v @ cs) prev 0 0 acc =
         parseIPv4Fields_loop cs (Some (last (dec v))) v (length (dec v)) acc"
proof -
  consider "v < 10" | "10 \<le> v" "v < 100" | "100 \<le> v" "v < 1000" using assms by linarith
  then show ?thesis
  proof cases
    case 1
    then show ?thesis by (simp add: dec_small)
  next
    case 2
    then have "v div 10 < 10" "v div 10 \<noteq> 0" by auto
    then show ?thesis using 2 assms by (simp add: dec_2 Let_def)
  next
    case 3
    then have q: "v div 100 < 10" "v div 100 \<noteq> 0" by auto
    have "v div 100 = v div 10 div 10" by (simp add: div_mult2_eq [symmetric])
    then have t: "v div 100 * 10 + v div 10 mod 10 = v div 10" by simp
    have "\<not> 255 < v div 10" and "v div 10 * 10 + v mod 10 = v" using assms by auto
    then show ?thesis using 3 q assms t by (auto simp: dec_3 Let_def)
  qed
qed

lemma last_dec_not_dot: "last (dec v) \<noteq> CHR ''.''"
  using dec_digits [of "last (dec v)" v] by (auto dest: digit_not_sep)

lemma unat_u8_le [simp]: "unat (b :: u8) \<le> 255"
proof -
  have "unat b < 2 ^ LENGTH(8)" by (rule unsigned_less)
  then show ?thesis by simp
qed

lemma parse_dot:
  assumes "v \<le> 255" and "length acc < 3" and "cs \<noteq> []"
  shows "parseIPv4Fields_loop (dec v @ CHR ''.'' # cs) prev 0 0 acc =
         parseIPv4Fields_loop cs (Some (CHR ''.'')) 0 0 (acc @ [of_nat v])"
proof -
  have "\<not> is_digit (CHR ''.'')" by (simp add: is_digit_def)
  then show ?thesis using assms last_dec_not_dot [of v] by (simp add: parse_octet)
qed

lemma parseIPv4Fields_ip4String:
  assumes "length b = 4"
  shows "parseIPv4Fields (ip4String b) = Inr b"
proof -
  obtain b0 b1 b2 b3 where b: "b = [b0, b1, b2, b3]"
    using assms by (auto simp: numeral_eq_Suc length_Suc_conv)
  show ?thesis
    unfolding parseIPv4Fields_def ip4String_def b
    using parse_octet [of "unat b3" "[]" "Some (CHR ''.'')" "[b0, b1, b2]"]
    by (simp add: parse_dot)
qed

lemma filter_sep_dec: "filter (\<lambda>c. c = CHR ''.'' \<or> c = CHR '':'' \<or> c = CHR ''%'') (dec n) = []"
  by (auto simp: filter_empty_conv dest!: dec_digits)

lemma netipParseAddr_ip4String:
  "length b = 4 \<Longrightarrow> netipParseAddr (ip4String b) = Inr (b, '''')"
  using parseIPv4Fields_ip4String [of b]
  by (simp add: netipParseAddr_def ip4String_def filter_sep_dec)

lemma dtoi_loop_dec:
  "(n < 16777215 \<longrightarrow> dtoi_loop (dec n @ cs) 0 0 = dtoi_loop cs n (length (dec n)))
   \<and> (16777215 \<le> n \<longrightarrow> \<not> snd (snd (dtoi_loop (dec n @ cs) 0 0)))"
proof (induction n arbitrary: cs rule: dec.induct)
  case (1 n)
  show ?case
  proof (cases "n < 10")
    case True
    then show ?thesis by (simp add: dec_small Let_def)
  next
    case False
    let ?d = "digit_char (n mod 10)"
    have d: "dec n = dec (n div 10) @ [?d]" using False by (subst dec.simps) simp
    note IH = "1.IH" [OF False, of "?d # cs"]
    have v: "n div 10 * 10 + n mod 10 = n" by simp
    show ?thesis
    proof (cases "n div 10 < 16777215")
      case True
      then have "dtoi_loop (dec n @ cs) 0 0 = dtoi_loop (?d # cs) (n div 10) (length (dec (n div 10)))"
        using IH d by simp
      then show ?thesis using d v by (simp add: Let_def)
    next
      case big: False
      then show ?thesis using IH d by auto
    qed
  qed
qed

lemma dtoi_dec: "n < 16777215 \<Longrightarrow> dtoi (dec n) = (n, length (dec n), True)"
  using dtoi_loop_dec [of n "[]"] by (simp add: dtoi_def)

lemma dtoi_dec_big: "16777215 \<le> n \<Longrightarrow> \<not> snd (snd (dtoi (dec n)))"
  using dtoi_loop_dec [of n "[]"] by (simp add: dtoi_def)

lemma slash_notin_ip4String: "CHR ''/'' \<notin> set (ip4String b)"
  by (auto simp: ip4String_def dest!: dec_digits)

lemma strCut_append: "c \<notin> set a \<Longrightarrow> strCut c (a @ c # r) = Some (a, r)"
  by (induction a) (auto simp: strCut_def)

lemma ipMask_v4_in_v6:
  "length b = 4 \<Longrightarrow> ipMask (v4InV6Prefix @ b) (CIDRMask n 32) = map2 (AND) b (CIDRMask n 32)"
  by (simp add: ipMask_def v4InV6Prefix_def)

lemma netParseCIDR_ip4String:
  assumes "length b = 4"
  shows "netParseCIDR (ip4String b @ ''/'' @ dec n) =
    (if n \<le> 32 then Inr (v4InV6Prefix @ b, map2 (AND) b (CIDRMask n 32), CIDRMask n 32)
     else Inl (Errorf ''invalid CIDR address''))"
proof -
  have cut: "strCut (CHR ''/'') (ip4String b @ CHR ''/'' # dec n) = Some (ip4String b, dec n)"
    using strCut_append [OF slash_notin_ip4String] by simp
  have a: "netipParseAddr (ip4String b) = Inr (b, '''')"
    using assms by (rule netipParseAddr_ip4String)
  show ?thesis
  proof (cases "n < 16777215")
    case True
    then show ?thesis using assms
      by (auto simp: netParseCIDR_def cut a dtoi_dec To16_def ipMask_v4_in_v6 Let_def)
  next
    case False
    then have "\<not> snd (snd (dtoi (dec n)))" by (simp add: dtoi_dec_big)
    with False show ?thesis
      using cut a by (auto simp: netParseCIDR_def split: prod.splits)
  qed
qed

section \<open>Prefix agreement through the BPF word representation\<close>

text \<open>The address agrees with the network address on the first \<open>n\<close> bits.\<close>

definition in_prefix :: "bytes \<Rightarrow> bytes \<Rightarrow> nat \<Rightarrow> bool" where
  "in_prefix ip net n \<longleftrightarrow> take n (bytes_bits ip) = take n (bytes_bits net)"

lemma To4_length: "To4 ip = Some b \<Longrightarrow> length b = 4"
  by (auto simp: To4_def split: if_splits)

lemma To4_4 [simp]: "length b = 4 \<Longrightarrow> To4 b = Some b"
  by (simp add: To4_def)

lemma encodeIP4_decodeIP4 [simp]: "encodeIP4 (decodeIP4 v) = v"
  by (simp add: encodeIP4_def decodeIP4_def To4_def le_word_le_bytes)

lemma decodeIP4_encodeIP4: "length ip = 4 \<Longrightarrow> decodeIP4 (encodeIP4 ip) = ip"
  by (simp add: encodeIP4_def decodeIP4_def le_bytes_le_word)

lemma length_decodeIP4 [simp]: "length (decodeIP4 v) = 4"
  by (simp add: decodeIP4_def)

text \<open>
  The comparison the BPF matcher makes on 32-bit words is agreement on the prefix, for
  the word of the masked network address and the word of the mask.
\<close>

lemma masked_words_in_prefix:
  assumes "length net = 4" and "n \<le> 32"
  shows "ip AND le_word (CIDRMask n 32) = encodeIP4 net AND le_word (CIDRMask n 32) \<longleftrightarrow>
         in_prefix (decodeIP4 ip) net n"
proof -
  let ?m = "CIDRMask n 32" and ?i = "decodeIP4 ip"
  have i: "ip = le_word ?i" using encodeIP4_decodeIP4 [of ip] by (simp add: encodeIP4_def)
  have "ip AND le_word ?m = encodeIP4 net AND le_word ?m \<longleftrightarrow>
        le_word (map2 (AND) ?i ?m) = (le_word (map2 (AND) net ?m) :: u32)"
    using assms i by (simp add: le_word_and encodeIP4_def)
  also have "\<dots> \<longleftrightarrow> map2 (AND) ?i ?m = map2 (AND) net ?m"
    using assms by (intro le_word_inj [where n = 4]) auto
  also have "\<dots> \<longleftrightarrow> in_prefix ?i net n"
    using masked_eq_iff_prefix [of ?i 4 net n] assms by (simp add: in_prefix_def CIDRMask_def)
  finally show ?thesis .
qed

lemma map2_and_mask_idem:
  "map2 (AND) (map2 (AND) xs m) m = map2 (AND) (xs :: bytes) m"
  by (rule nth_equalityI) (auto simp: and.assoc)

text \<open>Masking the network address first does not change the prefix.\<close>

lemma in_prefix_masked:
  assumes "length ip = 4" and "length net = 4" and "n \<le> 32"
  shows "in_prefix ip (map2 (AND) net (CIDRMask n 32)) n \<longleftrightarrow> in_prefix ip net n"
proof -
  let ?m = "mask_bytes 4 n"
  have "in_prefix ip (map2 (AND) net ?m) n \<longleftrightarrow>
        map2 (AND) ip ?m = map2 (AND) (map2 (AND) net ?m) ?m"
    using masked_eq_iff_prefix [of ip 4 "map2 (AND) net ?m" n] assms by (simp add: in_prefix_def)
  also have "\<dots> \<longleftrightarrow> in_prefix ip net n"
    unfolding map2_and_mask_idem
    using masked_eq_iff_prefix [of ip 4 net n] assms by (simp add: in_prefix_def)
  finally show ?thesis by (simp add: CIDRMask_def)
qed

end
