(* ===== verification/Qf_Proto.thy ===== *)
theory Qf_Proto
  imports Qf_Prelude
begin

text \<open>
  The protobuf messages of proto/qf/v1 that the modelled code exchanges. A proto3 enum is
  open, so an enum field is the 32-bit integer on the wire; a sub-message pointer that may
  be nil is an option.
\<close>

section \<open>Enums (common.proto)\<close>

definition DIRECTION_UNSPECIFIED :: i32 where "DIRECTION_UNSPECIFIED = 0"
definition DIRECTION_INGRESS :: i32 where "DIRECTION_INGRESS = 1"
definition DIRECTION_EGRESS :: i32 where "DIRECTION_EGRESS = 2"

definition ACTION_UNSPECIFIED :: i32 where "ACTION_UNSPECIFIED = 0"
definition ACTION_ALLOW :: i32 where "ACTION_ALLOW = 1"
definition ACTION_DENY :: i32 where "ACTION_DENY = 2"
definition ACTION_LOG :: i32 where "ACTION_LOG = 3"

definition CONNTRACK_STATE_UNSPECIFIED :: i32 where "CONNTRACK_STATE_UNSPECIFIED = 0"
definition CONNTRACK_STATE_NONE :: i32 where "CONNTRACK_STATE_NONE = 1"
definition CONNTRACK_STATE_NEW :: i32 where "CONNTRACK_STATE_NEW = 2"
definition CONNTRACK_STATE_ESTABLISHED :: i32 where "CONNTRACK_STATE_ESTABLISHED = 3"
definition CONNTRACK_STATE_RELATED :: i32 where "CONNTRACK_STATE_RELATED = 4"
definition CONNTRACK_STATE_INVALID :: i32 where "CONNTRACK_STATE_INVALID = 5"

definition PROTOCOL_UNSPECIFIED :: i32 where "PROTOCOL_UNSPECIFIED = 0"
definition PROTOCOL_ANY :: i32 where "PROTOCOL_ANY = 1"
definition PROTOCOL_TCP :: i32 where "PROTOCOL_TCP = 2"
definition PROTOCOL_UDP :: i32 where "PROTOCOL_UDP = 3"
definition PROTOCOL_ICMP :: i32 where "PROTOCOL_ICMP = 4"
definition PROTOCOL_ICMPV6 :: i32 where "PROTOCOL_ICMPV6 = 5"

lemmas enum_defs =
  DIRECTION_UNSPECIFIED_def DIRECTION_INGRESS_def DIRECTION_EGRESS_def
  ACTION_UNSPECIFIED_def ACTION_ALLOW_def ACTION_DENY_def ACTION_LOG_def
  CONNTRACK_STATE_UNSPECIFIED_def CONNTRACK_STATE_NONE_def CONNTRACK_STATE_NEW_def
  CONNTRACK_STATE_ESTABLISHED_def CONNTRACK_STATE_RELATED_def CONNTRACK_STATE_INVALID_def
  PROTOCOL_UNSPECIFIED_def PROTOCOL_ANY_def PROTOCOL_TCP_def PROTOCOL_UDP_def
  PROTOCOL_ICMP_def PROTOCOL_ICMPV6_def

section \<open>Policy bundles (agent.proto)\<close>

record qfv1_CIDR =
  cidr_ip :: bytes
  cidr_prefix_len :: u32

record qfv1_PortRange =
  pr_start :: u32
  pr_end :: u32

record qfv1_RuleMatch =
  rm_protocol :: i32
  rm_src_cidrs :: "qfv1_CIDR list"
  rm_dst_cidrs :: "qfv1_CIDR list"
  rm_src_ports :: "qfv1_PortRange list"
  rm_dst_ports :: "qfv1_PortRange list"
  rm_tcp_flags_match :: u32
  rm_tcp_flags_mask :: u32

record qfv1_EffectiveRule =
  er_rule_id :: string
  er_policy_id :: string
  er_rule_name :: string
  er_policy_name :: string
  er_policy_priority :: i32
  er_rule_priority :: i32
  er_direction :: i32
  er_match :: "qfv1_RuleMatch option"
  er_state :: i32
  er_action :: i32
  er_log_enabled :: bool
  er_log_rate_limit_per_sec :: u32

record qfv1_PolicyBundle =
  pb_generation :: i64
  pb_rules :: "qfv1_EffectiveRule option list"
  pb_default_ingress_action :: i32
  pb_default_egress_action :: i32
  pb_requires_conntrack :: bool
  pb_signature :: bytes
  pb_signed_at :: "int option"

text \<open>The generated getters are nil-safe: a nil \<open>RuleMatch\<close> reads as the empty message.\<close>

definition empty_RuleMatch :: qfv1_RuleMatch where
  "empty_RuleMatch = \<lparr>rm_protocol = 0, rm_src_cidrs = [], rm_dst_cidrs = [], rm_src_ports = [],
     rm_dst_ports = [], rm_tcp_flags_match = 0, rm_tcp_flags_mask = 0\<rparr>"

definition GetMatch :: "qfv1_EffectiveRule \<Rightarrow> qfv1_RuleMatch" where
  "GetMatch er = (case er_match er of None \<Rightarrow> empty_RuleMatch | Some m \<Rightarrow> m)"

section \<open>Agent to control plane\<close>

record qfv1_BundleApplied =
  ba_generation :: i64
  ba_success :: bool
  ba_error :: "goerr option"
  ba_duration_ms :: u32

record qfv1_BundleAck =
  ack_generation :: i64
  ack_signature_verified :: bool
  ack_error :: "goerr option"

record qfv1_LogEvent =
  le_ts :: "int option"
  le_rule_id :: string
  le_policy_id :: string
  le_direction :: i32
  le_action :: i32
  le_protocol :: i32
  le_src_ip :: bytes
  le_src_port :: u32
  le_dst_ip :: bytes
  le_dst_port :: u32
  le_packet_size :: u32
  le_tcp_flags :: u32
  le_conntrack_state :: i32

record qfv1_LogEvents =
  les_events :: "qfv1_LogEvent list"
  les_suppressed_count :: u64

record qfv1_FlowEvent =
  fe_ts_start :: "int option"
  fe_ts_end :: "int option"
  fe_protocol :: i32
  fe_src_ip :: bytes
  fe_src_port :: u32
  fe_dst_ip :: bytes
  fe_dst_port :: u32
  fe_bytes_orig :: u64
  fe_bytes_reply :: u64
  fe_packets_orig :: u64
  fe_packets_reply :: u64
  fe_final_state :: string

record qfv1_RuleCounter =
  rc_rule_id :: string
  rc_packets :: u64
  rc_bytes :: u64

record qfv1_CounterUpdate =
  cu_ts :: "int option"
  cu_counters :: "qfv1_RuleCounter list"

text \<open>\<open>attributes\<close> is a map; its entries are listed in the order in which Go iterates over them.\<close>

record qfv1_SystemEvent =
  se_ts :: "int option"
  se_type :: string
  se_severity :: i32
  se_detail :: string
  se_attributes :: "(string \<times> string) list"

record qfv1_Hello =
  hl_agent_version :: string
  hl_kernel_version :: string
  hl_hostname :: string
  hl_current_generation :: i64
  hl_interfaces :: "string list"

text \<open>The agent always sends the empty \<open>AgentHealth\<close> message, which the control plane does not read.\<close>

record qfv1_Heartbeat =
  hb_current_generation :: i64
  hb_ts :: "int option"

datatype agent_msg =
    HelloMsg qfv1_Hello
  | HeartbeatMsg qfv1_Heartbeat
  | BundleAckMsg qfv1_BundleAck
  | BundleAppliedMsg qfv1_BundleApplied
  | LogEventsMsg qfv1_LogEvents
  | FlowEventsMsg "qfv1_FlowEvent list"
  | CounterUpdateMsg qfv1_CounterUpdate
  | SystemEventMsg qfv1_SystemEvent
  | CertRenewalRequestMsg string

section \<open>Control plane to agent\<close>

record qfv1_ConfigUpdate =
  cfg_heartbeat_interval_ms :: u32
  cfg_counter_report_interval_ms :: u32
  cfg_event_batch_size :: u32
  cfg_event_batch_max_age_ms :: u32
  cfg_default_log_rate_limit_per_sec :: u32
  cfg_flow_events_enabled :: bool

record qfv1_Welcome =
  wl_accepted :: bool
  wl_reject_reason :: string
  wl_server_generation :: i64
  wl_server_version :: string
  wl_config :: "qfv1_ConfigUpdate option"

record qfv1_DisconnectRequest =
  dr_reason :: string
  dr_reconnect_after_ms :: u32

record qfv1_CertRenewalResponse =
  crr_success :: bool
  crr_cert_pem :: bytes
  crr_error_message :: string
  crr_not_after :: "int option"

datatype server_msg =
    WelcomeMsg qfv1_Welcome
  | PolicyBundleMsg qfv1_PolicyBundle
  | ConfigUpdateMsg qfv1_ConfigUpdate
  | DisconnectRequestMsg qfv1_DisconnectRequest
  | CertRenewalResponseMsg qfv1_CertRenewalResponse

end
