(* ===== verification/Qf_Store.thy ===== *)
theory Qf_Store
  imports Qf_Net Qf_Proto "HOL-Library.Product_Lexorder" "HOL-Library.List_Lexorder" "HOL-Library.Char_ord"
begin

text \<open>
  The control plane's tables and the queries its policy code runs on them
  (cp/internal/store/queries, models.go), and label selectors
  (cp/internal/policy/selector.go). Decoding JSON columns and scanning UUID strings are
  arguments, collected with the error each query may return in the record \<open>Queries\<close>.
\<close>

section \<open>Rows\<close>

text \<open>A \<open>pgtype.UUID\<close> is its 16 bytes, an int32 column a 32-bit word.\<close>

record Host =
  h_ID :: bytes
  h_TenantID :: bytes
  h_Hostname :: string
  h_Labels :: bytes
  h_Status :: string
  h_CurrentGeneration :: i32
  h_DesiredGeneration :: i32
  h_LastHeartbeatAt :: "int option"
  h_AgentVersion :: "string option"
  h_KernelVersion :: "string option"
  h_CreatedAt :: int
  h_FlowEventsEnabled :: bool

record Policy =
  p_ID :: bytes
  p_TenantID :: bytes
  p_Name :: string
  p_Description :: string
  p_Priority :: i32
  p_Selector :: bytes
  p_CurrentVersion :: i32
  p_CreatedAt :: int

record Rule =
  r_ID :: bytes
  r_PolicyID :: bytes
  r_Name :: string
  r_Priority :: i32
  r_Direction :: string
  r_Match :: bytes
  r_State :: "string option"
  r_Action :: string
  r_Log :: bool
  r_Silent :: bool

record ObjectGroup =
  og_ID :: bytes
  og_TenantID :: bytes
  og_Type :: string
  og_Name :: string
  og_Spec :: bytes

record DefaultPolicy =
  dp_TenantID :: bytes
  dp_Ingress :: string
  dp_Egress :: string

record ConfigVersion =
  cv_TenantID :: bytes
  cv_EntityType :: string
  cv_EntityID :: bytes
  cv_Version :: i32
  cv_Content :: bytes
  cv_CreatedBy :: string

text \<open>
  \<open>certificates\<close> and \<open>bootstrap_tokens\<close>. The token code uses the host and tenant ids of its
  rows as strings.
\<close>

record Certificate =
  c_TenantID :: bytes
  c_HostID :: bytes
  c_Serial :: string
  c_NotBefore :: int
  c_NotAfter :: int
  c_Status :: string
  c_RevokedAt :: "int option"
  c_CreatedAt :: int

record BootstrapToken =
  bt_ID :: string
  bt_TenantID :: string
  bt_Type :: string
  bt_TokenHash :: string
  bt_TargetHostID :: "string option"
  bt_LabelTemplate :: "bytes option"
  bt_MaxUses :: i32
  bt_UsesCount :: i32
  bt_ExpiresAt :: int
  bt_CreatedAt :: int

text \<open>\<open>audit_log\<close>; \<open>None\<close> is SQL's \<open>NULL\<close>.\<close>

record AuditLog =
  al_ID :: bytes
  al_TenantID :: bytes
  al_ActorType :: string
  al_ActorID :: "bytes option"
  al_Action :: string
  al_ObjectType :: string
  al_ObjectID :: "bytes option"
  al_Before :: "bytes option"
  al_After :: "bytes option"
  al_CreatedAt :: int

text \<open>\<open>users\<close>, \<open>user_roles\<close> and \<open>api_tokens\<close>.\<close>

record User =
  u_ID :: bytes
  u_TenantID :: bytes
  u_Email :: string
  u_PasswordHash :: "string option"
  u_OidcSubject :: "string option"
  u_Status :: string
  u_LastLoginAt :: "int option"
  u_CreatedAt :: int
  u_Username :: string
  u_TokenVersion :: i32

record UserRole =
  ur_UserID :: bytes
  ur_TenantID :: bytes
  ur_Role :: string

record ApiToken =
  at_ID :: bytes
  at_TenantID :: bytes
  at_Name :: string
  at_TokenHash :: string
  at_Role :: string
  at_CreatedBy :: "bytes option"
  at_ExpiresAt :: "int option"
  at_LastUsedAt :: "int option"
  at_CreatedAt :: int

text \<open>
  The database. \<open>t_refs\<close> holds the pairs of rule and object group of
  \<open>rule_objectgroup_refs\<close>; \<open>t_seq\<close> numbers the writing statements, so that each may fail,
  and gives their generated ids and time stamps.
\<close>

record db =
  t_hosts :: "Host list"
  t_policies :: "Policy list"
  t_rules :: "Rule list"
  t_object_groups :: "ObjectGroup list"
  t_default_policies :: "DefaultPolicy list"
  t_refs :: "(bytes \<times> bytes) list"
  t_versions :: "ConfigVersion list"
  t_certificates :: "Certificate list"
  t_tokens :: "BootstrapToken list"
  t_audit :: "AuditLog list"
  t_users :: "User list"
  t_user_roles :: "UserRole list"
  t_api_tokens :: "ApiToken list"
  t_seq :: nat

definition empty_db :: db where
  "empty_db = \<lparr>t_hosts = [], t_policies = [], t_rules = [], t_object_groups = [], t_default_policies = [],
     t_refs = [], t_versions = [], t_certificates = [], t_tokens = [], t_audit = [],
     t_users = [], t_user_roles = [], t_api_tokens = [], t_seq = 0\<rparr>"

section \<open>selector.go: data\<close>

record LabelSelectorRequirement =
  lsr_Key :: string
  lsr_Operator :: string
  lsr_Values :: "string list"

text \<open>\<open>MatchLabels\<close> is a Go map: its entries with distinct keys, in any order.\<close>

record Selector =
  MatchLabels :: "(string \<times> string) list"
  MatchExpressions :: "LabelSelectorRequirement list"

definition empty_Selector :: Selector where
  "empty_Selector = \<lparr>MatchLabels = [], MatchExpressions = []\<rparr>"

record RuleMatchSpec =
  ms_Protocol :: string
  ms_SrcIPSetID :: string
  ms_DstIPSetID :: string
  ms_SrcPortSetID :: string
  ms_DstPortSetID :: string
  ms_SrcHostSetID :: string
  ms_DstHostSetID :: string
  ms_SrcCIDRs :: "string list"
  ms_DstCIDRs :: "string list"
  ms_SrcPorts :: "string list"
  ms_DstPorts :: "string list"
  ms_TCPFlagsMask :: u32
  ms_TCPFlagsMatch :: u32

definition empty_RuleMatchSpec :: RuleMatchSpec where
  "empty_RuleMatchSpec = \<lparr>ms_Protocol = [], ms_SrcIPSetID = [], ms_DstIPSetID = [], ms_SrcPortSetID = [],
     ms_DstPortSetID = [], ms_SrcHostSetID = [], ms_DstHostSetID = [], ms_SrcCIDRs = [], ms_DstCIDRs = [],
     ms_SrcPorts = [], ms_DstPorts = [], ms_TCPFlagsMask = 0, ms_TCPFlagsMatch = 0\<rparr>"

section \<open>The store\<close>

text \<open>
  \<open>db_err name\<close> is the error the named reading query returns, if any, \<open>db_werr n\<close> the one of the
  \<open>n\<close>-th writing statement; \<open>db_uuid\<close> and \<open>db_now\<close> are \<open>gen_random_uuid()\<close> and \<open>NOW()\<close>;
  \<open>jsonb\<close> is what PostgreSQL stores for a JSON text. A failing
  \<open>json.Unmarshal\<close> may have filled part of its target, so the decoders whose error some
  caller drops return a value as well.
\<close>

record Queries =
  db_err :: "string \<Rightarrow> goerr option"
  db_werr :: "nat \<Rightarrow> goerr option"
  db_uuid :: "nat \<Rightarrow> bytes"
  db_now :: "nat \<Rightarrow> int"
  jsonb :: "bytes \<Rightarrow> bytes res"
  uuid_Scan :: "string \<Rightarrow> bytes res"
  json_Selector :: "bytes \<Rightarrow> Selector \<times> goerr option"
  json_Labels :: "bytes \<Rightarrow> (string \<rightharpoonup> string) \<times> goerr option"
  json_IPSetSpec :: "bytes \<Rightarrow> string list res"
  json_PortSetSpec :: "bytes \<Rightarrow> string list res"
  json_HostSetSpec :: "bytes \<Rightarrow> Selector res"
  json_RuleMatchSpec :: "bytes \<Rightarrow> RuleMatchSpec res"

definition query :: "Queries \<Rightarrow> string \<Rightarrow> 'a \<Rightarrow> 'a res" where
  "query Q name v = (case db_err Q name of Some e \<Rightarrow> Inl e | None \<Rightarrow> Inr v)"

definition query_one :: "Queries \<Rightarrow> string \<Rightarrow> 'a list \<Rightarrow> 'a res" where
  "query_one Q name rows = bindR (query Q name rows) (\<lambda>rs. case rs of
     [] \<Rightarrow> Inl (Sentinel ''pgx.ErrNoRows'') | r # _ \<Rightarrow> Inr r)"

definition GetHost :: "Queries \<Rightarrow> db \<Rightarrow> bytes \<Rightarrow> bytes \<Rightarrow> Host res" where
  "GetHost Q d hid tid = query_one Q ''GetHost'' (filter (\<lambda>h. h_ID h = hid \<and> h_TenantID h = tid) (t_hosts d))"

definition ListHosts :: "Queries \<Rightarrow> db \<Rightarrow> bytes \<Rightarrow> Host list res" where
  "ListHosts Q d tid = query Q ''ListHosts''
     (sort_key (\<lambda>h. - h_CreatedAt h) (filter (\<lambda>h. h_TenantID h = tid) (t_hosts d)))"

definition GetPolicy :: "Queries \<Rightarrow> db \<Rightarrow> bytes \<Rightarrow> bytes \<Rightarrow> Policy res" where
  "GetPolicy Q d pid tid = query_one Q ''GetPolicy'' (filter (\<lambda>p. p_ID p = pid \<and> p_TenantID p = tid) (t_policies d))"

definition ListPolicies :: "Queries \<Rightarrow> db \<Rightarrow> bytes \<Rightarrow> Policy list res" where
  "ListPolicies Q d tid = query Q ''ListPolicies''
     (sort_key (\<lambda>p. (sint (p_Priority p), p_CreatedAt p)) (filter (\<lambda>p. p_TenantID p = tid) (t_policies d)))"

definition GetDefaultPolicy :: "Queries \<Rightarrow> db \<Rightarrow> bytes \<Rightarrow> DefaultPolicy res" where
  "GetDefaultPolicy Q d tid = query_one Q ''GetDefaultPolicy''
     (filter (\<lambda>p. dp_TenantID p = tid) (t_default_policies d))"

definition GetRule :: "Queries \<Rightarrow> db \<Rightarrow> bytes \<Rightarrow> Rule res" where
  "GetRule Q d rid = query_one Q ''GetRule'' (filter (\<lambda>r. r_ID r = rid) (t_rules d))"

definition ListRulesByPolicy :: "Queries \<Rightarrow> db \<Rightarrow> bytes \<Rightarrow> Rule list res" where
  "ListRulesByPolicy Q d pid = query Q ''ListRulesByPolicy''
     (sort_key (\<lambda>r. sint (r_Priority r)) (filter (\<lambda>r. r_PolicyID r = pid) (t_rules d)))"

definition GetObjectGroup :: "Queries \<Rightarrow> db \<Rightarrow> bytes \<Rightarrow> bytes \<Rightarrow> ObjectGroup res" where
  "GetObjectGroup Q d oid tid = query_one Q ''GetObjectGroup''
     (filter (\<lambda>g. og_ID g = oid \<and> og_TenantID g = tid) (t_object_groups d))"

definition ListRuleIDsByObjectGroup :: "Queries \<Rightarrow> db \<Rightarrow> bytes \<Rightarrow> bytes list res" where
  "ListRuleIDsByObjectGroup Q d oid = query Q ''ListRuleIDsByObjectGroup''
     (remdups (map fst (filter (\<lambda>(r, g). g = oid) (t_refs d))))"

section \<open>selector.go: operations\<close>

definition ParseSelector :: "Queries \<Rightarrow> bytes \<Rightarrow> Selector \<times> goerr option" where
  "ParseSelector Q raw =
     (if raw = [] \<or> raw = map of_char ''null'' \<or> raw = map of_char ''{}'' then (empty_Selector, None)
      else json_Selector Q raw)"

definition evalExpression :: "LabelSelectorRequirement \<Rightarrow> (string \<rightharpoonup> string) \<Rightarrow> bool" where
  "evalExpression expr labels =
     (let v = labels (lsr_Key expr) in
      if lsr_Operator expr = ''In'' then (case v of None \<Rightarrow> False | Some x \<Rightarrow> x \<in> set (lsr_Values expr))
      else if lsr_Operator expr = ''NotIn'' then (case v of None \<Rightarrow> True | Some x \<Rightarrow> x \<notin> set (lsr_Values expr))
      else if lsr_Operator expr = ''Exists'' then v \<noteq> None
      else if lsr_Operator expr = ''DoesNotExist'' then v = None
      else False)"

text \<open>Indexing a Go map at a missing key gives the empty string.\<close>

definition label_get :: "(string \<rightharpoonup> string) \<Rightarrow> string \<Rightarrow> string" where
  "label_get labels k = (case labels k of None \<Rightarrow> '''' | Some v \<Rightarrow> v)"

definition MatchesLabels :: "Selector \<Rightarrow> (string \<rightharpoonup> string) \<Rightarrow> bool" where
  "MatchesLabels sel labels \<longleftrightarrow>
     list_all (\<lambda>(k, v). label_get labels k = v) (MatchLabels sel)
     \<and> list_all (\<lambda>expr. evalExpression expr labels) (MatchExpressions sel)"

definition parseLabels :: "Queries \<Rightarrow> bytes \<Rightarrow> (string \<rightharpoonup> string) \<times> goerr option" where
  "parseLabels Q raw = (if raw = [] then (Map.empty, None) else json_Labels Q raw)"

definition pgUUIDToStr :: "bytes \<Rightarrow> string" where
  "pgUUIDToStr b = hexEncode (take 4 b) @ ''-'' @ hexEncode (take 2 (drop 4 b)) @ ''-''
     @ hexEncode (take 2 (drop 6 b)) @ ''-'' @ hexEncode (take 2 (drop 8 b)) @ ''-'' @ hexEncode (drop 10 b)"

text \<open>One host of the loop of \<open>ResolveHosts\<close>.\<close>

definition host_selected :: "Queries \<Rightarrow> Selector \<Rightarrow> Host \<Rightarrow> bool" where
  "host_selected Q sel h \<longleftrightarrow> h_Status h = ''active'' \<and>
     (case parseLabels Q (h_Labels h) of (labels, err) \<Rightarrow> err = None \<and> MatchesLabels sel labels)"

definition ResolveHosts :: "Queries \<Rightarrow> db \<Rightarrow> string \<Rightarrow> Selector \<Rightarrow> Host list res" where
  "ResolveHosts Q d tenantID sel =
     bindR (wrapR ''selector: invalid tenant_id'' (uuid_Scan Q tenantID)) (\<lambda>tid.
     bindR (wrapR ''selector: list hosts'' (ListHosts Q d tid)) (\<lambda>hosts.
       Inr (filter (host_selected Q sel) hosts)))"

definition ResolveHostIDs :: "Queries \<Rightarrow> db \<Rightarrow> string \<Rightarrow> Selector \<Rightarrow> string list res" where
  "ResolveHostIDs Q d tenantID sel =
     bindR (ResolveHosts Q d tenantID sel) (\<lambda>hosts. Inr (map (\<lambda>h. pgUUIDToStr (h_ID h)) hosts))"

end
