(* ===== verification/Qf_Writes.thy ===== *)
theory Qf_Writes
  imports Qf_Store
begin

text \<open>
  The writing statements of the store (cp/internal/store/gen) on the tables of
  \<open>Qf_Store\<close>, with the constraints of cp/migrations: checks on enumerated columns, foreign
  keys, cascading deletes, unique names and 32-bit integer overflow make a statement fail
  and leave the tables as they were. A statement that is not run counts in \<open>t_seq\<close> as well.
\<close>

section \<open>Statements\<close>

definition writeS :: "Queries \<Rightarrow> (db, 'a) st \<Rightarrow> (db, 'a) st" where
  "writeS Q m d = (let d1 = d\<lparr>t_seq := Suc (t_seq d)\<rparr> in
     case db_werr Q (t_seq d) of Some e \<Rightarrow> (Inl e, d1) | None \<Rightarrow> m d1)"

definition check_violation :: goerr where
  "check_violation = Errorf ''violates constraint''"

definition out_of_range :: goerr where
  "out_of_range = Errorf ''integer out of range''"

definition update_rows :: "('r \<Rightarrow> bool) \<Rightarrow> ('r \<Rightarrow> 'r) \<Rightarrow> 'r list \<Rightarrow> 'r list" where
  "update_rows P f rows = map (\<lambda>r. if P r then f r else r) rows"

definition int4_max :: i32 where "int4_max = 0x7FFFFFFF"

section \<open>policies.sql.go\<close>

definition CreatePolicy :: "Queries \<Rightarrow> bytes \<Rightarrow> string \<Rightarrow> string \<Rightarrow> i32 \<Rightarrow> bytes \<Rightarrow> (db, Policy) st" where
  "CreatePolicy Q tid name desc prio sel = writeS Q (\<lambda>d. case jsonb Q sel of Inl e \<Rightarrow> (Inl e, d) | Inr js \<Rightarrow>
     let p = \<lparr>p_ID = db_uuid Q (t_seq d), p_TenantID = tid, p_Name = name, p_Description = desc, p_Priority = prio,
              p_Selector = js, p_CurrentVersion = 0, p_CreatedAt = db_now Q (t_seq d)\<rparr>
     in (Inr p, d\<lparr>t_policies := t_policies d @ [p]\<rparr>))"

definition policy_is :: "bytes \<Rightarrow> bytes \<Rightarrow> Policy \<Rightarrow> bool" where
  "policy_is pid tid p \<longleftrightarrow> p_ID p = pid \<and> p_TenantID p = tid"

definition UpdatePolicy :: "Queries \<Rightarrow> bytes \<Rightarrow> bytes \<Rightarrow> string \<Rightarrow> string \<Rightarrow> i32 \<Rightarrow> bytes \<Rightarrow> (db, Policy) st" where
  "UpdatePolicy Q pid tid name desc prio sel = writeS Q (\<lambda>d. case jsonb Q sel of Inl e \<Rightarrow> (Inl e, d) | Inr js \<Rightarrow>
     if list_ex (\<lambda>p. policy_is pid tid p \<and> p_CurrentVersion p = int4_max) (t_policies d) then (Inl out_of_range, d)
     else let ps = update_rows (policy_is pid tid) (\<lambda>p. p\<lparr>p_Name := name, p_Description := desc, p_Priority := prio,
                     p_Selector := js, p_CurrentVersion := p_CurrentVersion p + 1\<rparr>) (t_policies d)
          in case filter (policy_is pid tid) ps of
               [] \<Rightarrow> (Inl (Sentinel ''pgx.ErrNoRows''), d)
             | p # _ \<Rightarrow> (Inr p, d\<lparr>t_policies := ps\<rparr>))"

text \<open>
  Deleting a policy deletes its rules and their references (\<open>ON DELETE CASCADE\<close>).
\<close>

definition DeletePolicy :: "Queries \<Rightarrow> bytes \<Rightarrow> bytes \<Rightarrow> (db, unit) st" where
  "DeletePolicy Q pid tid = writeS Q (\<lambda>d.
     let gone = (\<lambda>p. policy_is pid tid p); pids = map p_ID (filter gone (t_policies d));
         rids = map r_ID (filter (\<lambda>r. r_PolicyID r \<in> set pids) (t_rules d))
     in (Inr (), d\<lparr>t_policies := filter (\<lambda>p. \<not> gone p) (t_policies d),
                  t_rules := filter (\<lambda>r. r_PolicyID r \<notin> set pids) (t_rules d),
                  t_refs := filter (\<lambda>(r, g). r \<notin> set rids) (t_refs d)\<rparr>))"

text \<open>The checks of the table \<open>rules\<close>.\<close>

definition rule_row_ok :: "Rule \<Rightarrow> bool" where
  "rule_row_ok r \<longleftrightarrow> r_Direction r \<in> {''ingress'', ''egress''} \<and> r_Action r \<in> {''allow'', ''deny'', ''log''}
     \<and> (case r_State r of None \<Rightarrow> True | Some st \<Rightarrow> st \<in> {''new'', ''established'', ''related'', ''invalid''})"

text \<open>The parameters of the two statements are a row; \<open>CreateRule\<close> generates its id.\<close>

definition CreateRule :: "Queries \<Rightarrow> Rule \<Rightarrow> (db, Rule) st" where
  "CreateRule Q par = writeS Q (\<lambda>d. case jsonb Q (r_Match par) of Inl e \<Rightarrow> (Inl e, d) | Inr js \<Rightarrow>
     let r = par\<lparr>r_ID := db_uuid Q (t_seq d), r_Match := js\<rparr>
     in if \<not> rule_row_ok r \<or> r_PolicyID r \<notin> p_ID ` set (t_policies d) then (Inl check_violation, d)
        else (Inr r, d\<lparr>t_rules := t_rules d @ [r]\<rparr>))"

definition UpdateRule :: "Queries \<Rightarrow> Rule \<Rightarrow> (db, Rule) st" where
  "UpdateRule Q par = writeS Q (\<lambda>d. case jsonb Q (r_Match par) of Inl e \<Rightarrow> (Inl e, d) | Inr js \<Rightarrow>
     if \<not> rule_row_ok par then (Inl check_violation, d)
     else let rs = update_rows (\<lambda>r. r_ID r = r_ID par) (\<lambda>r. par\<lparr>r_PolicyID := r_PolicyID r, r_Match := js\<rparr>) (t_rules d)
          in case filter (\<lambda>r. r_ID r = r_ID par) rs of
               [] \<Rightarrow> (Inl (Sentinel ''pgx.ErrNoRows''), d)
             | r # _ \<Rightarrow> (Inr r, d\<lparr>t_rules := rs\<rparr>))"

definition DeleteRule :: "Queries \<Rightarrow> bytes \<Rightarrow> (db, unit) st" where
  "DeleteRule Q rid = writeS Q (\<lambda>d.
     (Inr (), d\<lparr>t_rules := filter (\<lambda>r. r_ID r \<noteq> rid) (t_rules d), t_refs := filter (\<lambda>(r, g). r \<noteq> rid) (t_refs d)\<rparr>))"

section \<open>versions.sql.go\<close>

definition version_of :: "bytes \<Rightarrow> string \<Rightarrow> bytes \<Rightarrow> ConfigVersion \<Rightarrow> bool" where
  "version_of tid ty eid v \<longleftrightarrow> cv_TenantID v = tid \<and> cv_EntityType v = ty \<and> cv_EntityID v = eid"

definition latest_version :: "bytes \<Rightarrow> string \<Rightarrow> bytes \<Rightarrow> ConfigVersion list \<Rightarrow> int" where
  "latest_version tid ty eid vs = foldr (\<lambda>v m. max (sint (cv_Version v)) m) (filter (version_of tid ty eid) vs) 0"

definition InsertConfigVersion :: "Queries \<Rightarrow> bytes \<Rightarrow> string \<Rightarrow> bytes \<Rightarrow> bytes \<Rightarrow> string \<Rightarrow> (db, unit) st" where
  "InsertConfigVersion Q tid ty eid content actor = writeS Q (\<lambda>d. case jsonb Q content of Inl e \<Rightarrow> (Inl e, d) | Inr js \<Rightarrow>
     let n = latest_version tid ty eid (t_versions d) + 1
     in if sint int4_max < n then (Inl out_of_range, d)
        else (Inr (), d\<lparr>t_versions := t_versions d @ [\<lparr>cv_TenantID = tid, cv_EntityType = ty, cv_EntityID = eid,
                  cv_Version = of_int n, cv_Content = js, cv_CreatedBy = actor\<rparr>]\<rparr>))"

definition ListConfigVersions :: "Queries \<Rightarrow> db \<Rightarrow> bytes \<Rightarrow> string \<Rightarrow> bytes \<Rightarrow> ConfigVersion list res" where
  "ListConfigVersions Q d tid ty eid = query Q ''ListConfigVersions''
     (sort_key (\<lambda>v. - sint (cv_Version v)) (filter (version_of tid ty eid) (t_versions d)))"

definition GetConfigVersion :: "Queries \<Rightarrow> db \<Rightarrow> bytes \<Rightarrow> string \<Rightarrow> bytes \<Rightarrow> i32 \<Rightarrow> ConfigVersion res" where
  "GetConfigVersion Q d tid ty eid n = query_one Q ''GetConfigVersion''
     (filter (\<lambda>v. version_of tid ty eid v \<and> cv_Version v = n) (t_versions d))"

section \<open>objectgroups.sql.go, tenants.sql.go\<close>

definition ListObjectGroups :: "Queries \<Rightarrow> db \<Rightarrow> bytes \<Rightarrow> ObjectGroup list res" where
  "ListObjectGroups Q d tid = query Q ''ListObjectGroups''
     (sort_key og_Name (filter (\<lambda>g. og_TenantID g = tid) (t_object_groups d)))"

definition ListObjectGroupsByType :: "Queries \<Rightarrow> db \<Rightarrow> bytes \<Rightarrow> string \<Rightarrow> ObjectGroup list res" where
  "ListObjectGroupsByType Q d tid ty = query Q ''ListObjectGroupsByType''
     (sort_key og_Name (filter (\<lambda>g. og_TenantID g = tid \<and> og_Type g = ty) (t_object_groups d)))"

definition CreateObjectGroup :: "Queries \<Rightarrow> bytes \<Rightarrow> string \<Rightarrow> string \<Rightarrow> bytes \<Rightarrow> (db, ObjectGroup) st" where
  "CreateObjectGroup Q tid ty name spec = writeS Q (\<lambda>d. case jsonb Q spec of Inl e \<Rightarrow> (Inl e, d) | Inr js \<Rightarrow>
     let g = \<lparr>og_ID = db_uuid Q (t_seq d), og_TenantID = tid, og_Type = ty, og_Name = name, og_Spec = js\<rparr>
     in if ty \<notin> {''ipset'', ''portset'', ''hostset''} \<or>
           list_ex (\<lambda>g. og_TenantID g = tid \<and> og_Name g = name) (t_object_groups d) then (Inl check_violation, d)
        else (Inr g, d\<lparr>t_object_groups := t_object_groups d @ [g]\<rparr>))"

definition group_is :: "bytes \<Rightarrow> bytes \<Rightarrow> ObjectGroup \<Rightarrow> bool" where
  "group_is oid tid g \<longleftrightarrow> og_ID g = oid \<and> og_TenantID g = tid"

definition UpdateObjectGroup :: "Queries \<Rightarrow> bytes \<Rightarrow> bytes \<Rightarrow> bytes \<Rightarrow> (db, ObjectGroup) st" where
  "UpdateObjectGroup Q oid tid spec = writeS Q (\<lambda>d. case jsonb Q spec of Inl e \<Rightarrow> (Inl e, d) | Inr js \<Rightarrow>
     let gs = update_rows (group_is oid tid) (\<lambda>g. g\<lparr>og_Spec := js\<rparr>) (t_object_groups d)
     in case filter (group_is oid tid) gs of
          [] \<Rightarrow> (Inl (Sentinel ''pgx.ErrNoRows''), d)
        | g # _ \<Rightarrow> (Inr g, d\<lparr>t_object_groups := gs\<rparr>))"

text \<open>A group that is referenced is not deleted (\<open>ON DELETE RESTRICT\<close>).\<close>

definition DeleteObjectGroup :: "Queries \<Rightarrow> bytes \<Rightarrow> bytes \<Rightarrow> (db, unit) st" where
  "DeleteObjectGroup Q oid tid = writeS Q (\<lambda>d.
     if list_ex (group_is oid tid) (t_object_groups d) \<and> oid \<in> snd ` set (t_refs d) then (Inl check_violation, d)
     else (Inr (), d\<lparr>t_object_groups := filter (\<lambda>g. \<not> group_is oid tid g) (t_object_groups d)\<rparr>))"

definition UpsertDefaultPolicy :: "Queries \<Rightarrow> bytes \<Rightarrow> string \<Rightarrow> string \<Rightarrow> (db, DefaultPolicy) st" where
  "UpsertDefaultPolicy Q tid ingress egress = writeS Q (\<lambda>d.
     let row = \<lparr>dp_TenantID = tid, dp_Ingress = ingress, dp_Egress = egress\<rparr>;
         is_t = (\<lambda>p. dp_TenantID p = tid)
     in if ingress \<notin> {''allow'', ''deny''} \<or> egress \<notin> {''allow'', ''deny''} then (Inl check_violation, d)
        else (Inr row, d\<lparr>t_default_policies :=
               (if list_ex is_t (t_default_policies d) then update_rows is_t (\<lambda>_. row) (t_default_policies d)
                else t_default_policies d @ [row])\<rparr>))"

section \<open>hosts.sql.go\<close>

definition host_is :: "bytes \<Rightarrow> bytes \<Rightarrow> Host \<Rightarrow> bool" where
  "host_is hid tid h \<longleftrightarrow> h_ID h = hid \<and> h_TenantID h = tid"

definition host_status_ok :: "string \<Rightarrow> bool" where
  "host_status_ok st \<longleftrightarrow> st \<in> {''enrolling'', ''active'', ''stale'', ''needs_rebootstrap'', ''revoked''}"

definition exec_hosts :: "bytes \<Rightarrow> bytes \<Rightarrow> (Host \<Rightarrow> Host) \<Rightarrow> (db, unit) st" where
  "exec_hosts hid tid f d = (Inr (), d\<lparr>t_hosts := update_rows (host_is hid tid) f (t_hosts d)\<rparr>)"

definition update_host :: "bytes \<Rightarrow> bytes \<Rightarrow> (Host \<Rightarrow> Host) \<Rightarrow> (db, Host) st" where
  "update_host hid tid f d = (let hs = update_rows (host_is hid tid) f (t_hosts d) in
     case filter (host_is hid tid) hs of
       [] \<Rightarrow> (Inl (Sentinel ''pgx.ErrNoRows''), d)
     | h # _ \<Rightarrow> (Inr h, d\<lparr>t_hosts := hs\<rparr>))"

definition ListHostsByStatus :: "Queries \<Rightarrow> db \<Rightarrow> bytes \<Rightarrow> string \<Rightarrow> Host list res" where
  "ListHostsByStatus Q d tid st = query Q ''ListHostsByStatus''
     (sort_key (\<lambda>h. - h_CreatedAt h) (filter (\<lambda>h. h_TenantID h = tid \<and> h_Status h = st) (t_hosts d)))"

definition new_host :: "Queries \<Rightarrow> bytes \<Rightarrow> string \<Rightarrow> bytes \<Rightarrow> string \<Rightarrow> db \<Rightarrow> Host" where
  "new_host Q tid name labels st d = \<lparr>h_ID = db_uuid Q (t_seq d), h_TenantID = tid, h_Hostname = name, h_Labels = labels,
     h_Status = st, h_CurrentGeneration = 0, h_DesiredGeneration = 0, h_LastHeartbeatAt = None, h_AgentVersion = None,
     h_KernelVersion = None, h_CreatedAt = db_now Q (t_seq d), h_FlowEventsEnabled = False\<rparr>"

definition host_named :: "bytes \<Rightarrow> string \<Rightarrow> Host \<Rightarrow> bool" where
  "host_named tid name h \<longleftrightarrow> h_TenantID h = tid \<and> h_Hostname h = name"

definition CreateHost :: "Queries \<Rightarrow> bytes \<Rightarrow> string \<Rightarrow> bytes \<Rightarrow> string \<Rightarrow> (db, Host) st" where
  "CreateHost Q tid name labels st = writeS Q (\<lambda>d. case jsonb Q labels of Inl e \<Rightarrow> (Inl e, d) | Inr js \<Rightarrow>
     let h = new_host Q tid name js st d
     in if \<not> host_status_ok st \<or> list_ex (host_named tid name) (t_hosts d) then (Inl check_violation, d)
        else (Inr h, d\<lparr>t_hosts := t_hosts d @ [h]\<rparr>))"

definition UpsertBulkHost :: "Queries \<Rightarrow> bytes \<Rightarrow> string \<Rightarrow> bytes \<Rightarrow> string \<Rightarrow> (db, Host) st" where
  "UpsertBulkHost Q tid name labels st = writeS Q (\<lambda>d. case jsonb Q labels of Inl e \<Rightarrow> (Inl e, d) | Inr js \<Rightarrow>
     let h = new_host Q tid name js st d;
         hs = update_rows (host_named tid name) (\<lambda>h. h\<lparr>h_Labels := js, h_Status := ''enrolling''\<rparr>) (t_hosts d)
     in if \<not> host_status_ok st then (Inl check_violation, d)
        else case filter (host_named tid name) hs of
               [] \<Rightarrow> (Inr h, d\<lparr>t_hosts := t_hosts d @ [h]\<rparr>)
             | h' # _ \<Rightarrow> (Inr h', d\<lparr>t_hosts := hs\<rparr>))"

definition UpdateHostLabels :: "Queries \<Rightarrow> bytes \<Rightarrow> bytes \<Rightarrow> bytes \<Rightarrow> (db, Host) st" where
  "UpdateHostLabels Q hid tid labels = writeS Q (\<lambda>d. case jsonb Q labels of Inl e \<Rightarrow> (Inl e, d) | Inr js \<Rightarrow>
     update_host hid tid (\<lambda>h. h\<lparr>h_Labels := js\<rparr>) d)"

definition UpdateHostStatus :: "Queries \<Rightarrow> bytes \<Rightarrow> bytes \<Rightarrow> string \<Rightarrow> (db, Host) st" where
  "UpdateHostStatus Q hid tid st = writeS Q (\<lambda>d.
     if \<not> host_status_ok st \<and> list_ex (host_is hid tid) (t_hosts d) then (Inl check_violation, d)
     else update_host hid tid (\<lambda>h. h\<lparr>h_Status := st\<rparr>) d)"

definition UpdateHostHeartbeat :: "Queries \<Rightarrow> bytes \<Rightarrow> bytes \<Rightarrow> i32 \<Rightarrow> (db, unit) st" where
  "UpdateHostHeartbeat Q hid tid gen = writeS Q (\<lambda>d.
     exec_hosts hid tid (\<lambda>h. h\<lparr>h_LastHeartbeatAt := Some (db_now Q (t_seq d)), h_CurrentGeneration := gen\<rparr>) d)"

definition UpdateHostConnected :: "Queries \<Rightarrow> bytes \<Rightarrow> bytes \<Rightarrow> string \<Rightarrow> string \<Rightarrow> (db, unit) st" where
  "UpdateHostConnected Q hid tid aver kver = writeS Q (\<lambda>d.
     exec_hosts hid tid (\<lambda>h. h\<lparr>h_AgentVersion := Some aver, h_KernelVersion := Some kver, h_Status := ''active'',
       h_LastHeartbeatAt := Some (db_now Q (t_seq d))\<rparr>) d)"

definition UpdateHostGeneration :: "Queries \<Rightarrow> bytes \<Rightarrow> bytes \<Rightarrow> i32 \<Rightarrow> (db, unit) st" where
  "UpdateHostGeneration Q hid tid gen = writeS Q (exec_hosts hid tid (\<lambda>h. h\<lparr>h_CurrentGeneration := gen\<rparr>))"

definition IncrementHostDesiredGeneration :: "Queries \<Rightarrow> bytes \<Rightarrow> bytes \<Rightarrow> (db, unit) st" where
  "IncrementHostDesiredGeneration Q hid tid = writeS Q (\<lambda>d.
     if list_ex (\<lambda>h. host_is hid tid h \<and> h_DesiredGeneration h = int4_max) (t_hosts d) then (Inl out_of_range, d)
     else exec_hosts hid tid (\<lambda>h. h\<lparr>h_DesiredGeneration := h_DesiredGeneration h + 1\<rparr>) d)"

text \<open>The interval of 90 seconds in nanoseconds.\<close>

definition MarkStaleHosts :: "Queries \<Rightarrow> (db, unit) st" where
  "MarkStaleHosts Q = writeS Q (\<lambda>d. (Inr (), d\<lparr>t_hosts := update_rows (\<lambda>h. h_Status h = ''active'' \<and>
       (case h_LastHeartbeatAt h of None \<Rightarrow> False | Some t \<Rightarrow> t < db_now Q (t_seq d) - 90000000000))
     (\<lambda>h. h\<lparr>h_Status := ''stale''\<rparr>) (t_hosts d)\<rparr>))"

definition UpdateHostFlowEnabled :: "Queries \<Rightarrow> bytes \<Rightarrow> bytes \<Rightarrow> bool \<Rightarrow> (db, unit) st" where
  "UpdateHostFlowEnabled Q hid tid v = writeS Q (exec_hosts hid tid (\<lambda>h. h\<lparr>h_FlowEventsEnabled := v\<rparr>))"

text \<open>Certificates go with the host, tokens lose their target (migration 7).\<close>

definition DeleteHost :: "Queries \<Rightarrow> bytes \<Rightarrow> bytes \<Rightarrow> (db, unit) st" where
  "DeleteHost Q hid tid = writeS Q (\<lambda>d.
     let hids = map h_ID (filter (host_is hid tid) (t_hosts d))
     in (Inr (), d\<lparr>t_hosts := filter (\<lambda>h. \<not> host_is hid tid h) (t_hosts d),
           t_certificates := filter (\<lambda>c. c_HostID c \<notin> set hids) (t_certificates d),
           t_tokens := map (\<lambda>t. case bt_TargetHostID t of
               Some s \<Rightarrow> if s \<in> pgUUIDToStr ` set hids then t\<lparr>bt_TargetHostID := None\<rparr> else t | None \<Rightarrow> t) (t_tokens d)\<rparr>))"

section \<open>telemetry.sql.go: the audit log\<close>

text \<open>The columns \<open>before\<close> and \<open>after\<close> are \<open>JSONB\<close>; migration 3 restricts the actor type.\<close>

definition jsonb_opt :: "Queries \<Rightarrow> bytes option \<Rightarrow> bytes option res" where
  "jsonb_opt Q v = (case v of None \<Rightarrow> Inr None | Some b \<Rightarrow> bindR (jsonb Q b) (\<lambda>b. Inr (Some b)))"

definition InsertAuditLog ::
  "Queries \<Rightarrow> bytes \<Rightarrow> string \<Rightarrow> bytes option \<Rightarrow> string \<Rightarrow> string \<Rightarrow> bytes option \<Rightarrow> bytes option \<Rightarrow> bytes option \<Rightarrow> (db, AuditLog) st" where
  "InsertAuditLog Q tid actorType actorID action objectType objectID before after = writeS Q (\<lambda>d.
     case bindR (jsonb_opt Q before) (\<lambda>b. bindR (jsonb_opt Q after) (\<lambda>a. Inr (b, a))) of
       Inl e \<Rightarrow> (Inl e, d)
     | Inr (b, a) \<Rightarrow>
         if actorType \<notin> {''user'', ''api_token'', ''system''} then (Inl check_violation, d)
         else let l = \<lparr>al_ID = db_uuid Q (t_seq d), al_TenantID = tid, al_ActorType = actorType, al_ActorID = actorID, al_Action = action,
                       al_ObjectType = objectType, al_ObjectID = objectID, al_Before = b, al_After = a, al_CreatedAt = db_now Q (t_seq d)\<rparr>
              in (Inr l, d\<lparr>t_audit := t_audit d @ [l]\<rparr>))"

section \<open>Facts about updates\<close>

lemma filter_update_rows_same:
  "(\<And>x. P x \<Longrightarrow> P (f x)) \<Longrightarrow> filter P (update_rows P f xs) = map f (filter P xs)"
  by (induction xs) (auto simp: update_rows_def)

lemma update_host_Inr:
  assumes "update_host hid tid f d = (Inr h, d')" and "\<And>h. h_ID (f h) = h_ID h \<and> h_TenantID (f h) = h_TenantID h"
  obtains h0 where "h0 \<in> set (t_hosts d)" "host_is hid tid h0" "h = f h0" "h \<in> set (t_hosts d')"
    "d' = d\<lparr>t_hosts := update_rows (host_is hid tid) f (t_hosts d)\<rparr>"
proof -
  have "filter (host_is hid tid) (update_rows (host_is hid tid) f (t_hosts d)) = map f (filter (host_is hid tid) (t_hosts d))"
    using assms(2) by (intro filter_update_rows_same) (simp add: host_is_def)
  then obtain h0 hs where h0: "filter (host_is hid tid) (t_hosts d) = h0 # hs" "h = f h0"
    "d' = d\<lparr>t_hosts := update_rows (host_is hid tid) f (t_hosts d)\<rparr>"
    using assms(1) by (cases "filter (host_is hid tid) (t_hosts d)") (auto simp: update_host_def Let_def)
  then have "h0 \<in> set (t_hosts d) \<and> host_is hid tid h0" by (auto dest!: filter_eq_ConsD)
  then show thesis using that h0 by (auto simp: update_rows_def)
qed

end
