(* ===== verification/Qf_Loader.thy ===== *)
theory Qf_Loader
  imports Qf_Net
begin

text \<open>
  The agent's loader (agent/internal/loader): the BPF maps it owns and the operations that
  write and read them: \<open>PushRules\<close>, \<open>SetConfig\<close>, \<open>GetConfig\<close>, \<open>PushIPSet\<close>,
  \<open>ClearIPSets\<close>. A BPF map is modelled by its type and capacity in agent/bpf/maps.h;
  whether a system call on it fails is an argument (\<open>flt\<close>, by the number of the call).
\<close>

section \<open>Constants (rules.go, ipset.go)\<close>

definition ProtoAny :: u8 where "ProtoAny = 1"
definition ProtoTCP :: u8 where "ProtoTCP = 2"
definition ProtoUDP :: u8 where "ProtoUDP = 3"
definition ProtoICMP :: u8 where "ProtoICMP = 4"
definition ProtoICMPv6 :: u8 where "ProtoICMPv6 = 5"

definition ActionAllow :: u8 where "ActionAllow = 1"
definition ActionDeny :: u8 where "ActionDeny = 2"
definition ActionLog :: u8 where "ActionLog = 3"

definition DirIngress :: u8 where "DirIngress = 1"
definition DirEgress :: u8 where "DirEgress = 2"

definition CTNone :: u8 where "CTNone = 1"
definition CTNew :: u8 where "CTNew = 2"
definition CTEstablished :: u8 where "CTEstablished = 3"
definition CTRelated :: u8 where "CTRelated = 4"
definition CTInvalid :: u8 where "CTInvalid = 5"

definition MaxRules :: nat where "MaxRules = 2048"
definition IPSetInlineMax :: nat where "IPSetInlineMax = 8"
definition MaxIPSetEntries :: nat where "MaxIPSetEntries = 65536"

lemmas loader_consts =
  ProtoAny_def ProtoTCP_def ProtoUDP_def ProtoICMP_def ProtoICMPv6_def
  ActionAllow_def ActionDeny_def ActionLog_def DirIngress_def DirEgress_def
  CTNone_def CTNew_def CTEstablished_def CTRelated_def CTInvalid_def IPSetInlineMax_def

section \<open>Rules as the agent sees them\<close>

record CIDR4 =
  IP :: netIP
  Ones :: int

record PortRange =
  Start :: u16
  End :: u16

record RuleMatch =
  Protocol :: u8
  Direction :: u8
  State :: u8
  SrcCIDRs :: "CIDR4 list"
  DstCIDRs :: "CIDR4 list"
  SrcPorts :: "PortRange list"
  DstPorts :: "PortRange list"
  SrcIPSetID :: u32
  DstIPSetID :: u32

record RuleSpec =
  ID :: bytes
  Priority :: i32
  Action :: u8
  LogEnabled :: bool
  LogRateLimit :: u16
  Match :: RuleMatch

record Config =
  ConntrackEnabled :: bool
  FlowEventsEnabled :: bool
  DefaultIngress :: u8
  DefaultEgress :: u8

definition DefaultConfig :: Config where
  "DefaultConfig = \<lparr>ConntrackEnabled = False, FlowEventsEnabled = False,
                    DefaultIngress = ActionAllow, DefaultEgress = ActionAllow\<rparr>"

definition Port :: "u16 \<Rightarrow> PortRange" where
  "Port p = \<lparr>Start = p, End = p\<rparr>"

definition ParseCIDR4 :: "string \<Rightarrow> CIDR4 res" where
  "ParseCIDR4 s =
     bindR (netParseCIDR s) (\<lambda>(_, netip, m).
       if To4 netip = None then Inl (Errorf ''IPv6 CIDR not supported in Phase 1'')
       else Inr \<lparr>IP = netip, Ones = int (maskOnes m)\<rparr>)"

section \<open>The BPF wire form (common.h, TcFilterRuleEntry)\<close>

record cidr4_entry =
  Addr :: u32
  Mask :: u32

record match_entry =
  e_protocol :: u8
  e_direction :: u8
  n_src_cidrs :: u8
  n_dst_cidrs :: u8
  n_src_ports :: u8
  n_dst_ports :: u8
  e_state :: u8
  e_src_cidrs :: "cidr4_entry list"
  e_dst_cidrs :: "cidr4_entry list"
  e_src_ports :: "(u16 \<times> u16) list"
  e_dst_ports :: "(u16 \<times> u16) list"
  src_ipset_id :: u32
  dst_ipset_id :: u32

record rule_entry =
  e_action :: u8
  e_log_enabled :: u8
  e_log_rate_limit :: u16
  rule_id_hi :: u64
  rule_id_lo :: u64
  e_match :: match_entry

definition zero_cidr :: cidr4_entry where "zero_cidr = \<lparr>Addr = 0, Mask = 0\<rparr>"

definition zero_match :: match_entry where
  "zero_match = \<lparr>e_protocol = 0, e_direction = 0, n_src_cidrs = 0, n_dst_cidrs = 0,
     n_src_ports = 0, n_dst_ports = 0, e_state = 0,
     e_src_cidrs = replicate 8 zero_cidr, e_dst_cidrs = replicate 8 zero_cidr,
     e_src_ports = replicate 8 (0, 0), e_dst_ports = replicate 8 (0, 0),
     src_ipset_id = 0, dst_ipset_id = 0\<rparr>"

definition zero_rule :: rule_entry where
  "zero_rule = \<lparr>e_action = 0, e_log_enabled = 0, e_log_rate_limit = 0, rule_id_hi = 0,
     rule_id_lo = 0, e_match = zero_match\<rparr>"

record lpm_key =
  lpm_prefixlen :: u32
  lpm_ipset_id :: u32
  lpm_addr :: u32

record ct_key =
  ck_src_ip :: u32
  ck_dst_ip :: u32
  ck_src_port :: u16
  ck_dst_port :: u16
  ck_proto :: u8

record ct_entry =
  last_seen_ns :: u64
  established_ns :: u64
  packets_fwd :: u64
  bytes_fwd :: u64
  packets_rev :: u64
  bytes_rev :: u64
  ct_pub_state :: u8
  tcp_state :: u8

record log_event =
  ts_ns :: u64
  ev_rule_id_hi :: u64
  ev_rule_id_lo :: u64
  ev_src_ip :: u32
  ev_dst_ip :: u32
  ev_src_port :: u16
  ev_dst_port :: u16
  ev_pkt_size :: u16
  ev_tcp_flags :: u16
  ev_proto :: u8
  ev_direction :: u8
  ev_action :: u8
  ev_ct_state :: u8

section \<open>The maps\<close>

text \<open>
  Array maps hold a value at every index below their capacity from creation on; a per-CPU
  map has one value per CPU. The LPM trie is the list of its nodes' keys (the stored value
  is always 1). The ring buffer is the list of the events not yet consumed, oldest
  first. \<open>syscalls\<close> numbers the map system calls made so far.
\<close>

record bpf =
  maxRules :: nat
  qf_rules :: "u32 \<Rightarrow> rule_entry"
  qf_rule_count :: u32
  qf_config :: "u32 \<Rightarrow> u32"
  qf_ipsets :: "lpm_key list"
  qf_conntrack :: "ct_key \<rightharpoonup> ct_entry"
  ncpu :: nat
  qf_rule_counters :: "nat \<Rightarrow> u32 \<Rightarrow> u64 \<times> u64"
  qf_rate_limits :: "nat \<Rightarrow> u32 \<Rightarrow> u64 \<times> u32"
  qf_suppressed_count :: "nat \<Rightarrow> u64"
  qf_events :: "log_event list"
  syscalls :: nat

definition init_bpf :: "nat \<Rightarrow> nat \<Rightarrow> bpf" where
  "init_bpf n cpus = \<lparr>maxRules = n, qf_rules = (\<lambda>_. zero_rule), qf_rule_count = 0,
     qf_config = (\<lambda>_. 0), qf_ipsets = [], qf_conntrack = Map.empty, ncpu = cpus,
     qf_rule_counters = (\<lambda>_ _. (0, 0)), qf_rate_limits = (\<lambda>_ _. (0, 0)),
     qf_suppressed_count = (\<lambda>_. 0), qf_events = [], syscalls = 0\<rparr>"

type_synonym faults = "nat \<Rightarrow> bool"

definition sysS :: "faults \<Rightarrow> (bpf, 'a) st \<Rightarrow> (bpf, 'a) st" where
  "sysS flt op = (\<lambda>s. let s' = s\<lparr>syscalls := Suc (syscalls s)\<rparr> in
     if flt (syscalls s) then (Inl (Errorf ''bpf syscall failed''), s') else op s')"

definition qf_rules_Put :: "faults \<Rightarrow> u32 \<Rightarrow> rule_entry \<Rightarrow> (bpf, unit) st" where
  "qf_rules_Put flt i e = sysS flt (\<lambda>s.
     if MaxRules \<le> unat i then (Inl (Errorf ''E2BIG''), s)
     else (Inr (), s\<lparr>qf_rules := (qf_rules s)(i := e)\<rparr>))"

definition qf_rule_count_Put :: "faults \<Rightarrow> u32 \<Rightarrow> (bpf, unit) st" where
  "qf_rule_count_Put flt n = sysS flt (\<lambda>s. (Inr (), s\<lparr>qf_rule_count := n\<rparr>))"

definition qf_config_Put :: "faults \<Rightarrow> u32 \<Rightarrow> u32 \<Rightarrow> (bpf, unit) st" where
  "qf_config_Put flt i v = sysS flt (\<lambda>s.
     if 3 \<le> unat i then (Inl (Errorf ''E2BIG''), s)
     else (Inr (), s\<lparr>qf_config := (qf_config s)(i := v)\<rparr>))"

definition qf_config_Lookup :: "faults \<Rightarrow> u32 \<Rightarrow> (bpf, u32) st" where
  "qf_config_Lookup flt i = sysS flt (\<lambda>s.
     if 3 \<le> unat i then (Inl (Sentinel ''ErrKeyNotExist''), s) else (Inr (qf_config s i), s))"

text \<open>
  The trie compares the bytes of the key after the prefix length, most significant bit of
  each byte first: the four bytes of the set id, then the four bytes of the address.
\<close>

definition lpm_bits :: "lpm_key \<Rightarrow> bool list" where
  "lpm_bits k = bytes_bits (le_bytes 4 (lpm_ipset_id k) @ le_bytes 4 (lpm_addr k))"

definition lpm_same :: "lpm_key \<Rightarrow> lpm_key \<Rightarrow> bool" where
  "lpm_same a b \<longleftrightarrow> lpm_prefixlen a = lpm_prefixlen b \<and>
     take (unat (lpm_prefixlen a)) (lpm_bits a) = take (unat (lpm_prefixlen a)) (lpm_bits b)"

definition lpm_covers :: "lpm_key \<Rightarrow> lpm_key \<Rightarrow> bool" where
  "lpm_covers node k \<longleftrightarrow> lpm_prefixlen node \<le> lpm_prefixlen k \<and>
     take (unat (lpm_prefixlen node)) (lpm_bits node) = take (unat (lpm_prefixlen node)) (lpm_bits k)"

definition lpm_lookup :: "lpm_key list \<Rightarrow> lpm_key \<Rightarrow> bool" where
  "lpm_lookup t k = list_ex (\<lambda>node. lpm_covers node k) t"

definition qf_ipsets_Update :: "faults \<Rightarrow> lpm_key \<Rightarrow> (bpf, unit) st" where
  "qf_ipsets_Update flt k = sysS flt (\<lambda>s.
     if list_ex (lpm_same k) (qf_ipsets s) then (Inr (), s)
     else if MaxIPSetEntries \<le> length (qf_ipsets s) then (Inl (Errorf ''ENOSPC''), s)
     else (Inr (), s\<lparr>qf_ipsets := qf_ipsets s @ [k]\<rparr>))"

definition qf_ipsets_Delete :: "faults \<Rightarrow> lpm_key \<Rightarrow> (bpf, unit) st" where
  "qf_ipsets_Delete flt k = sysS flt (\<lambda>s.
     if list_ex (lpm_same k) (qf_ipsets s)
     then (Inr (), s\<lparr>qf_ipsets := filter (\<lambda>x. \<not> lpm_same k x) (qf_ipsets s)\<rparr>)
     else (Inl (Sentinel ''ErrKeyNotExist''), s))"

definition qf_ipsets_Iterate :: "faults \<Rightarrow> (bpf, lpm_key list) st" where
  "qf_ipsets_Iterate flt = sysS flt (\<lambda>s. (Inr (qf_ipsets s), s))"

section \<open>rules.go\<close>

definition port_ok :: "PortRange \<Rightarrow> bool" where
  "port_ok p \<longleftrightarrow> Start p \<le> End p"

definition validateRule :: "RuleSpec \<Rightarrow> unit res" where
  "validateRule r = (let m = Match r in
     if Action r \<notin> {ActionAllow, ActionDeny, ActionLog} then Inl (Errorf ''unknown action'')
     else if Protocol m \<notin> {ProtoAny, ProtoTCP, ProtoUDP, ProtoICMP, ProtoICMPv6}
     then Inl (Errorf ''unknown protocol'')
     else if Direction m \<notin> {DirIngress, DirEgress} then Inl (Errorf ''unknown direction'')
     else if IPSetInlineMax < length (SrcCIDRs m) then Inl (Errorf ''too many src CIDRs'')
     else if IPSetInlineMax < length (DstCIDRs m) then Inl (Errorf ''too many dst CIDRs'')
     else if 8 < length (SrcPorts m) then Inl (Errorf ''too many src port ranges'')
     else if 8 < length (DstPorts m) then Inl (Errorf ''too many dst port ranges'')
     else if \<not> list_all port_ok (SrcPorts m) then Inl (Errorf ''src_port: start > end'')
     else if \<not> list_all port_ok (DstPorts m) then Inl (Errorf ''dst_port: start > end'')
     else Inr ())"

definition encodeCIDR4 :: "CIDR4 \<Rightarrow> cidr4_entry res" where
  "encodeCIDR4 c =
     (if To4 (IP c) = None then Inl (Errorf ''IPv6 not supported'')
      else if Ones c < 0 \<or> 32 < Ones c then Inl (Errorf ''invalid prefix length'')
      else Inr \<lparr>Addr = encodeIP4 (IP c), Mask = le_word (CIDRMask (nat (Ones c)) 32)\<rparr>)"

text \<open>A slice copied into the first cells of a zeroed array of eight.\<close>

definition pad8 :: "'a \<Rightarrow> 'a list \<Rightarrow> 'a list" where
  "pad8 z xs = xs @ replicate (8 - length xs) z"

definition port_pair :: "PortRange \<Rightarrow> u16 \<times> u16" where
  "port_pair p = (Start p, End p)"

definition match_entry_of :: "RuleMatch \<Rightarrow> cidr4_entry list \<Rightarrow> cidr4_entry list \<Rightarrow> match_entry" where
  "match_entry_of m src dst =
     \<lparr>e_protocol = Protocol m, e_direction = Direction m,
      n_src_cidrs = of_nat (length (SrcCIDRs m)), n_dst_cidrs = of_nat (length (DstCIDRs m)),
      n_src_ports = of_nat (length (SrcPorts m)), n_dst_ports = of_nat (length (DstPorts m)),
      e_state = (if State m = 0 then CTNone else State m),
      e_src_cidrs = pad8 zero_cidr src, e_dst_cidrs = pad8 zero_cidr dst,
      e_src_ports = pad8 (0, 0) (map port_pair (SrcPorts m)),
      e_dst_ports = pad8 (0, 0) (map port_pair (DstPorts m)),
      src_ipset_id = SrcIPSetID m, dst_ipset_id = DstIPSetID m\<rparr>"

definition toRuleEntry :: "RuleSpec \<Rightarrow> rule_entry res" where
  "toRuleEntry r =
     bindR (validateRule r) (\<lambda>_.
     bindR (wrapR ''src_cidr'' (mapR encodeCIDR4 (SrcCIDRs (Match r)))) (\<lambda>src.
     bindR (wrapR ''dst_cidr'' (mapR encodeCIDR4 (DstCIDRs (Match r)))) (\<lambda>dst.
     Inr \<lparr>e_action = Action r,
          e_log_enabled = (if LogEnabled r then 1 else 0),
          e_log_rate_limit = LogRateLimit r,
          rule_id_hi = be_word (take 8 (ID r)),
          rule_id_lo = be_word (drop 8 (ID r)),
          e_match = match_entry_of (Match r) src dst\<rparr>)))"

text \<open>\<open>sort.SliceStable\<close> by signed priority.\<close>

definition sortRules :: "RuleSpec list \<Rightarrow> RuleSpec list" where
  "sortRules rs = sort_key (\<lambda>r. sint (Priority r)) rs"

definition PushRules :: "faults \<Rightarrow> RuleSpec list \<Rightarrow> (bpf, unit) st" where
  "PushRules flt rs = (\<lambda>s.
     if maxRules s < length rs
     then (Inl (Errorf ''rule count exceeds BPF evaluation limit''), s)
     else bindS (wrapS ''rule'' (liftS (mapR toRuleEntry (sortRules rs)))) (\<lambda>entries.
          bindS (wrapS ''write rule''
             (forS (\<lambda>(i, e). qf_rules_Put flt (of_nat i) e) (enumerate 0 entries))) (\<lambda>_.
          wrapS ''write rule_count'' (qf_rule_count_Put flt (of_nat (length entries))))) s)"

section \<open>config.go\<close>

definition configFlags :: "Config \<Rightarrow> u32" where
  "configFlags cfg = (let f0 = (0 :: u32);
      f1 = (if ConntrackEnabled cfg then f0 OR 1 else f0)
    in if FlowEventsEnabled cfg then f1 OR 2 else f1)"

definition SetConfig :: "faults \<Rightarrow> Config \<Rightarrow> (bpf, unit) st" where
  "SetConfig flt cfg =
     bindS (wrapS ''write config flags'' (qf_config_Put flt 0 (configFlags cfg))) (\<lambda>_.
     let ingress = ucast (DefaultIngress cfg);
         ingress' = (if ingress = 0 then ucast ActionAllow else ingress) in
     bindS (wrapS ''write default ingress'' (qf_config_Put flt 1 ingress')) (\<lambda>_.
     let egress = ucast (DefaultEgress cfg);
         egress' = (if egress = 0 then ucast ActionAllow else egress) in
     wrapS ''write default egress'' (qf_config_Put flt 2 egress')))"

definition GetConfig :: "faults \<Rightarrow> (bpf, Config) st" where
  "GetConfig flt =
     bindS (wrapS ''read config flags'' (qf_config_Lookup flt 0)) (\<lambda>flags.
     bindS (wrapS ''read default ingress'' (qf_config_Lookup flt 1)) (\<lambda>ingress.
     bindS (wrapS ''read default egress'' (qf_config_Lookup flt 2)) (\<lambda>egress.
     let i8 = (ucast ingress :: u8); e8 = (ucast egress :: u8) in
     retS \<lparr>ConntrackEnabled = (flags AND 1 \<noteq> 0), FlowEventsEnabled = (flags AND 2 \<noteq> 0),
           DefaultIngress = (if i8 = 0 then ActionAllow else i8),
           DefaultEgress = (if e8 = 0 then ActionAllow else e8)\<rparr>)))"

section \<open>ipset.go\<close>

definition ipset_key :: "u32 \<Rightarrow> CIDR4 \<Rightarrow> lpm_key" where
  "ipset_key sid c = \<lparr>lpm_prefixlen = of_int (32 + Ones c), lpm_ipset_id = sid,
                      lpm_addr = encodeIP4 (IP c)\<rparr>"

definition pushCIDR :: "faults \<Rightarrow> u32 \<Rightarrow> CIDR4 \<Rightarrow> (bpf, unit) st" where
  "pushCIDR flt sid c =
     (if To4 (IP c) = None then failS (Errorf ''ipset: IPv6 not supported'')
      else if Ones c < 0 \<or> 32 < Ones c then failS (Errorf ''ipset: invalid prefix length'')
      else wrapS ''ipset update'' (qf_ipsets_Update flt (ipset_key sid c)))"

definition PushIPSet :: "faults \<Rightarrow> u32 \<Rightarrow> CIDR4 list \<Rightarrow> (bpf, unit) st" where
  "PushIPSet flt sid cidrs =
     (if sid = 0 then failS (Errorf ''ipset id 0 is reserved'')
      else forS (pushCIDR flt sid) cidrs)"

definition ClearIPSets :: "faults \<Rightarrow> (bpf, unit) st" where
  "ClearIPSets flt =
     bindS (wrapS ''iterate ipsets'' (qf_ipsets_Iterate flt)) (\<lambda>toDelete.
     forS (\<lambda>k. wrapS ''delete ipset entry'' (qf_ipsets_Delete flt k)) toDelete)"

end
