(* ===== verification/Qf_Compiler.thy ===== *)
theory Qf_Compiler
  imports Qf_Loader Qf_Proto "HOL-Library.AList"
begin

text \<open>
  The agent's policy compiler (agent/internal/policy/compiler.go): a \<open>PolicyBundle\<close> becomes
  the loader's rule specifications, its config and the IP sets spilled from long CIDR
  lists. The Go map \<open>IPSets\<close> is an association list without duplicate keys.
\<close>

section \<open>Data\<close>

text \<open>
  The only warning \<open>compileCIDRs\<close> issues: every CIDR of the named field was dropped; the
  number is the length of the list it came from. \<open>CompileResult.Warnings\<close> tags it with the
  index and the id of the rule.
\<close>

datatype warning = AllCIDRsDropped string nat

record CompileResult =
  Rules :: "RuleSpec list"
  CConfig :: Config
  IPSets :: "(u32 \<times> CIDR4 list) list"
  Warnings :: "(nat \<times> string \<times> warning) list"

record compileState =
  nextID :: u32
  ipsets :: "(u32 \<times> CIDR4 list) list"

definition allocIPSet :: "CIDR4 list \<Rightarrow> compileState \<Rightarrow> u32 \<times> compileState" where
  "allocIPSet cs st = (let i = nextID st + 1 in
     (i, st\<lparr>nextID := i, ipsets := AList.update i cs (ipsets st)\<rparr>))"

section \<open>CIDR lists\<close>

text \<open>
  One turn of the loop of \<open>compileCIDRs\<close>: \<open>None\<close> is \<open>continue\<close>. \<open>ip.String()\<close> of an address
  with a non-nil \<open>To4\<close> is its dotted form.
\<close>

definition compileCIDR :: "qfv1_CIDR \<Rightarrow> CIDR4 option" where
  "compileCIDR c =
     (case To4 (cidr_ip c) of
        None \<Rightarrow> None
      | Some ip4 \<Rightarrow>
          (case netParseCIDR (ip4String ip4 @ ''/'' @ dec (unat (cidr_prefix_len c))) of
             Inl _ \<Rightarrow> None
           | Inr (_, netip, m) \<Rightarrow> Some \<lparr>IP = netip, Ones = int (maskOnes m)\<rparr>))"

definition compileCIDRs ::
  "qfv1_CIDR list \<Rightarrow> string \<Rightarrow> compileState \<Rightarrow> (CIDR4 list \<times> u32 \<times> warning option) \<times> compileState" where
  "compileCIDRs cidrs field st =
     (if cidrs = [] then (([], 0, None), st)
      else
        (let out = List.map_filter compileCIDR cidrs in
         if out = [] then (([], 0, Some (AllCIDRsDropped field (length cidrs))), st)
         else if IPSetInlineMax < length out
         then (let (i, st') = allocIPSet out st in (([], i, None), st'))
         else ((out, 0, None), st)))"

section \<open>Ports\<close>

definition compilePort :: "qfv1_PortRange \<Rightarrow> PortRange res" where
  "compilePort p =
     (if 65535 < pr_start p \<or> 65535 < pr_end p then Inl (Errorf ''port out of range'')
      else if pr_end p < pr_start p then Inl (Errorf ''port range start > end'')
      else Inr \<lparr>Start = ucast (pr_start p), End = ucast (pr_end p)\<rparr>)"

definition compilePorts :: "qfv1_PortRange list \<Rightarrow> PortRange list res" where
  "compilePorts ports =
     (if 8 < length ports then Inl (Errorf ''too many port ranges'') else mapR compilePort ports)"

section \<open>Rule ids\<close>

text \<open>\<open>hex.DecodeString\<close>\<close>

fun hexDecodeString :: "string \<Rightarrow> bytes res" where
  "hexDecodeString [] = Inr []"
| "hexDecodeString [c] =
     (if hex_val c = None then Inl (Errorf ''invalid byte'') else Inl (Sentinel ''hex.ErrLength''))"
| "hexDecodeString (a # b # cs) =
     (case (hex_val a, hex_val b) of
        (Some x, Some y) \<Rightarrow>
          (case hexDecodeString cs of Inl e \<Rightarrow> Inl e
           | Inr bs \<Rightarrow> Inr (of_nat (16 * x + y) # bs))
      | _ \<Rightarrow> Inl (Errorf ''invalid byte''))"

definition parseUUID :: "string \<Rightarrow> bytes res" where
  "parseUUID s =
     (case hexDecodeString (filter (\<lambda>c. c \<noteq> CHR ''-'') s) of
        Inl e \<Rightarrow> Inl (Wrapf ''invalid UUID'' e)
      | Inr b \<Rightarrow> if length b \<noteq> 16 then Inl (Wrapf ''invalid UUID'' (Errorf ''expected 16 bytes''))
                 else Inr b)"

section \<open>Rules and bundles\<close>

datatype compiled = Spec RuleSpec | Skip warning

definition compileRule ::
  "qfv1_EffectiveRule option \<Rightarrow> i32 \<Rightarrow> compileState \<Rightarrow> compiled res \<times> compileState" where
  "compileRule ero prio st =
     (case ero of
        None \<Rightarrow> (Inl (Errorf ''nil EffectiveRule''), st)
      | Some er \<Rightarrow>
        (let act = (ucast (er_action er) :: u8);
             dir = (ucast (er_direction er) :: u8);
             pr = (ucast (rm_protocol (GetMatch er)) :: u8);
             cs = (ucast (er_state er) :: u8)
         in if act = 0 then (Inl (Errorf ''action unspecified''), st)
         else if dir = 0 then (Inl (Errorf ''direction unspecified''), st)
         else (case parseUUID (er_rule_id er) of
           Inl e \<Rightarrow> (Inl (Wrapf ''parse rule_id'' e), st)
         | Inr uid \<Rightarrow>
           (case compileCIDRs (rm_src_cidrs (GetMatch er)) ''src_cidrs'' st of
              ((srcs, ssid, Some w), st1) \<Rightarrow> (Inr (Skip w), st1)
            | ((srcs, ssid, None), st1) \<Rightarrow>
           (case compileCIDRs (rm_dst_cidrs (GetMatch er)) ''dst_cidrs'' st1 of
              ((dsts, dsid, Some w), st2) \<Rightarrow> (Inr (Skip w), st2)
            | ((dsts, dsid, None), st2) \<Rightarrow>
           (case compilePorts (rm_src_ports (GetMatch er)) of
              Inl e \<Rightarrow> (Inl (Wrapf ''src_ports'' e), st2)
            | Inr sports \<Rightarrow>
           (case compilePorts (rm_dst_ports (GetMatch er)) of
              Inl e \<Rightarrow> (Inl (Wrapf ''dst_ports'' e), st2)
            | Inr dports \<Rightarrow>
                (Inr (Spec \<lparr>ID = uid, Priority = prio, Action = act,
                   LogEnabled = er_log_enabled er,
                   LogRateLimit = ucast (er_log_rate_limit_per_sec er),
                   Match = \<lparr>Protocol = (if pr = 0 then ProtoAny else pr), Direction = dir,
                     State = (if cs = 0 then CTNone else cs),
                     SrcCIDRs = srcs, DstCIDRs = dsts, SrcPorts = sports, DstPorts = dports,
                     SrcIPSetID = ssid, DstIPSetID = dsid\<rparr>\<rparr>), st2))))))))"

text \<open>The id that \<open>CompileBundle\<close> prints: \<open>GetRuleId\<close> of a nil rule is the empty string.\<close>

definition GetRuleId :: "qfv1_EffectiveRule option \<Rightarrow> string" where
  "GetRuleId ero = (case ero of None \<Rightarrow> '''' | Some er \<Rightarrow> er_rule_id er)"

text \<open>The loop of \<open>CompileBundle\<close> from index \<open>i\<close> on: the specs and the warnings appended.\<close>

fun compileRules ::
  "nat \<Rightarrow> qfv1_EffectiveRule option list \<Rightarrow> compileState \<Rightarrow>
   (RuleSpec list \<times> (nat \<times> string \<times> warning) list \<times> compileState) res" where
  "compileRules i [] st = Inr ([], [], st)"
| "compileRules i (ero # ers) st =
     (case compileRule ero (of_nat i) st of
        (Inl e, st1) \<Rightarrow> Inl (Wrapf ''rule'' e)
      | (Inr c, st1) \<Rightarrow>
          bindR (compileRules (Suc i) ers st1) (\<lambda>(rs, ws, st2).
            case c of
              Spec r \<Rightarrow> Inr (r # rs, ws, st2)
            | Skip w \<Rightarrow> Inr (rs, (i, GetRuleId ero, w) # ws, st2)))"

definition bundleConfig :: "qfv1_PolicyBundle \<Rightarrow> Config" where
  "bundleConfig b = (let
     c0 = DefaultConfig;
     c1 = (if pb_default_ingress_action b \<noteq> ACTION_UNSPECIFIED
           then c0\<lparr>DefaultIngress := ucast (pb_default_ingress_action b)\<rparr> else c0);
     c2 = (if pb_default_egress_action b \<noteq> ACTION_UNSPECIFIED
           then c1\<lparr>DefaultEgress := ucast (pb_default_egress_action b)\<rparr> else c1)
   in c2\<lparr>ConntrackEnabled := pb_requires_conntrack b\<rparr>)"

definition CompileBundle :: "qfv1_PolicyBundle option \<Rightarrow> CompileResult res" where
  "CompileBundle bo =
     (case bo of
        None \<Rightarrow> Inl (Errorf ''nil bundle'')
      | Some b \<Rightarrow>
          bindR (compileRules 0 (pb_rules b) \<lparr>nextID = 0, ipsets = []\<rparr>) (\<lambda>(rs, ws, st).
            Inr \<lparr>Rules = rs, CConfig = bundleConfig b, IPSets = ipsets st, Warnings = ws\<rparr>))"

end
