(* ===== verification/Qf_Datapath.thy ===== *)
theory Qf_Datapath
  imports Qf_Loader
begin

text \<open>
  The BPF programs that the loader's maps drive (agent/bpf/matcher.h, conntrack.h,
  tc_filter.c): matching a parsed packet against a rule entry, the first-match loop in its
  two builds, the default action, the connection tracker, the log rate limiter and the
  verdict. Parsing a frame into \<open>pkt_ctx\<close> is not modelled: a packet that the parser
  skips is \<open>None\<close>.
\<close>

record pkt_ctx =
  src_ip4 :: u32
  dst_ip4 :: u32
  src_port :: u16
  dst_port :: u16
  pkt_size :: u16
  tcp_flags :: u8
  proto :: u8
  pkt_direction :: u8
  is_ipv6 :: bool
  pkt_ct_state :: u8

section \<open>matcher.h\<close>

definition match_cidrs4 :: "u32 \<Rightarrow> cidr4_entry list \<Rightarrow> u8 \<Rightarrow> bool \<Rightarrow> bool" where
  "match_cidrs4 a cidrs n v6 =
     (if n = 0 then True
      else if v6 then False
      else list_ex (\<lambda>c. a AND Mask c = Addr c AND Mask c) (take (min 8 (unat n)) cidrs))"

definition match_port_ranges :: "u16 \<Rightarrow> (u16 \<times> u16) list \<Rightarrow> u8 \<Rightarrow> bool" where
  "match_port_ranges p ranges n =
     (if n = 0 then True
      else list_ex (\<lambda>(lo, hi). lo \<le> p \<and> p \<le> hi) (take (min 8 (unat n)) ranges))"

definition match_ipset :: "lpm_key list \<Rightarrow> u32 \<Rightarrow> u32 \<Rightarrow> bool \<Rightarrow> bool" where
  "match_ipset t sid a v6 =
     (if sid = 0 then True
      else if v6 then False
      else lpm_lookup t \<lparr>lpm_prefixlen = 64, lpm_ipset_id = sid, lpm_addr = a\<rparr>)"

definition match_state :: "u8 \<Rightarrow> u8 \<Rightarrow> bool" where
  "match_state st ct =
     (if st \<noteq> CTNone then
        if ct = 0 then False else if st = CTRelated then False else st = ct
      else True)"

definition match_rule :: "lpm_key list \<Rightarrow> pkt_ctx \<Rightarrow> match_entry \<Rightarrow> bool" where
  "match_rule t p m \<longleftrightarrow>
     e_direction m = pkt_direction p
     \<and> (e_protocol m = ProtoAny \<or> e_protocol m = proto p)
     \<and> match_cidrs4 (src_ip4 p) (e_src_cidrs m) (n_src_cidrs m) (is_ipv6 p)
     \<and> match_cidrs4 (dst_ip4 p) (e_dst_cidrs m) (n_dst_cidrs m) (is_ipv6 p)
     \<and> match_ipset t (src_ipset_id m) (src_ip4 p) (is_ipv6 p)
     \<and> match_ipset t (dst_ipset_id m) (dst_ip4 p) (is_ipv6 p)
     \<and> match_port_ranges (src_port p) (e_src_ports m) (n_src_ports m)
     \<and> match_port_ranges (dst_port p) (e_dst_ports m) (n_dst_ports m)
     \<and> match_state (e_state m) (pkt_ct_state p)"

text \<open>
  The scan from index \<open>i\<close> for at most \<open>n\<close> entries; the index and the action of the
  first match. Lookups in the array map always succeed below its capacity.
\<close>

fun eval_loop :: "bpf \<Rightarrow> pkt_ctx \<Rightarrow> nat \<Rightarrow> nat \<Rightarrow> (nat \<times> u8) option" where
  "eval_loop s p i 0 = None"
| "eval_loop s p i (Suc n) =
     (let r = qf_rules s (of_nat i) in
      if match_rule (qf_ipsets s) p (e_match r) then Some (i, e_action r)
      else eval_loop s p (Suc i) n)"

text \<open>
  The number of entries scanned: the full build (\<open>USE_BPF_LOOP\<close>, 64 rules) clamps the count
  at the map capacity, the compatibility build at \<open>EVAL_MAX_RULES\<close> = 32.
\<close>

definition eval_bound :: "bpf \<Rightarrow> nat" where
  "eval_bound s = min (unat (qf_rule_count s)) (if maxRules s = 32 then 32 else MaxRules)"

definition eval_rules :: "bpf \<Rightarrow> pkt_ctx \<Rightarrow> (nat \<times> u8) option" where
  "eval_rules s p = (case eval_loop s p 0 (eval_bound s) of
     None \<Rightarrow> None
   | Some (i, a) \<Rightarrow> if a = 0 then None else Some (i, a))"

definition default_action :: "bpf \<Rightarrow> pkt_ctx \<Rightarrow> u8" where
  "default_action s p =
     (let v = qf_config s (if pkt_direction p = DirIngress then 1 else 2) in
      if v \<noteq> 0 then ucast v else ActionAllow)"

section \<open>conntrack.h\<close>

definition TCP_FLAG_FIN :: u8 where "TCP_FLAG_FIN = 1"
definition TCP_FLAG_SYN :: u8 where "TCP_FLAG_SYN = 2"
definition TCP_FLAG_RST :: u8 where "TCP_FLAG_RST = 4"
definition TCP_FLAG_ACK :: u8 where "TCP_FLAG_ACK = 16"

definition TCPCSNone :: u8 where "TCPCSNone = 0"
definition TCPCSSynSent :: u8 where "TCPCSSynSent = 1"
definition TCPCSSynRcvd :: u8 where "TCPCSSynRcvd = 2"
definition TCPCSEstablished :: u8 where "TCPCSEstablished = 3"
definition TCPCSFinWait :: u8 where "TCPCSFinWait = 4"
definition TCPCSLastAck :: u8 where "TCPCSLastAck = 5"
definition TCPCSClosed :: u8 where "TCPCSClosed = 6"

lemmas tcp_consts =
  TCP_FLAG_FIN_def TCP_FLAG_SYN_def TCP_FLAG_RST_def TCP_FLAG_ACK_def
  TCPCSNone_def TCPCSSynSent_def TCPCSSynRcvd_def TCPCSEstablished_def
  TCPCSFinWait_def TCPCSLastAck_def TCPCSClosed_def

definition has_flag :: "u8 \<Rightarrow> u8 \<Rightarrow> bool" where
  "has_flag flags f \<longleftrightarrow> flags AND f \<noteq> 0"

definition ct_build_key :: "pkt_ctx \<Rightarrow> ct_key \<times> bool" where
  "ct_build_key p =
     (if src_ip4 p \<le> dst_ip4 p
      then (\<lparr>ck_src_ip = src_ip4 p, ck_dst_ip = dst_ip4 p, ck_src_port = src_port p,
             ck_dst_port = dst_port p, ck_proto = proto p\<rparr>, False)
      else (\<lparr>ck_src_ip = dst_ip4 p, ck_dst_ip = src_ip4 p, ck_src_port = dst_port p,
             ck_dst_port = src_port p, ck_proto = proto p\<rparr>, True))"

definition tcp_fsm :: "u8 \<Rightarrow> u8 \<Rightarrow> bool \<Rightarrow> u8" where
  "tcp_fsm cur flags reply =
     (if has_flag flags TCP_FLAG_RST then TCPCSClosed
      else if cur = TCPCSNone then
        (if has_flag flags TCP_FLAG_SYN \<and> \<not> has_flag flags TCP_FLAG_ACK then TCPCSSynSent else cur)
      else if cur = TCPCSSynSent then
        (if reply \<and> flags AND (TCP_FLAG_SYN OR TCP_FLAG_ACK) = TCP_FLAG_SYN OR TCP_FLAG_ACK
         then TCPCSSynRcvd else cur)
      else if cur = TCPCSSynRcvd then
        (if \<not> reply \<and> has_flag flags TCP_FLAG_ACK \<and> \<not> has_flag flags TCP_FLAG_SYN
         then TCPCSEstablished else cur)
      else if cur = TCPCSEstablished then
        (if has_flag flags TCP_FLAG_FIN then TCPCSFinWait else cur)
      else if cur = TCPCSFinWait then
        (if has_flag flags TCP_FLAG_FIN then TCPCSLastAck else cur)
      else if cur = TCPCSLastAck then
        (if has_flag flags TCP_FLAG_ACK then TCPCSClosed else cur)
      else if cur = TCPCSClosed then
        (if has_flag flags TCP_FLAG_SYN \<and> \<not> has_flag flags TCP_FLAG_ACK then TCPCSSynSent else cur)
      else cur)"

definition tcp_cs_to_ct :: "u8 \<Rightarrow> u8" where
  "tcp_cs_to_ct ts =
     (if ts = TCPCSNone then 0
      else if ts \<le> TCPCSSynRcvd then CTNew
      else if ts = TCPCSClosed then CTInvalid
      else CTEstablished)"

definition ct_lookup :: "bpf \<Rightarrow> pkt_ctx \<Rightarrow> u8" where
  "ct_lookup s p = (case qf_conntrack s (fst (ct_build_key p)) of
     None \<Rightarrow> 0 | Some e \<Rightarrow> ct_pub_state e)"

definition ct_advance :: "u64 \<Rightarrow> pkt_ctx \<Rightarrow> bool \<Rightarrow> ct_entry \<Rightarrow> ct_entry" where
  "ct_advance now p reply e0 =
     (let e1 = e0\<lparr>last_seen_ns := now\<rparr>;
          e2 = (if reply then e1\<lparr>packets_rev := packets_rev e1 + 1,
                                 bytes_rev := bytes_rev e1 + ucast (pkt_size p)\<rparr>
                else e1\<lparr>packets_fwd := packets_fwd e1 + 1,
                        bytes_fwd := bytes_fwd e1 + ucast (pkt_size p)\<rparr>)
      in if proto p = ProtoTCP then
           (let nt = tcp_fsm (tcp_state e2) (tcp_flags p) reply in
            if nt \<noteq> tcp_state e2 then
              (let e3 = e2\<lparr>tcp_state := nt, ct_pub_state := tcp_cs_to_ct nt\<rparr> in
               if nt = TCPCSEstablished \<and> established_ns e3 = 0
               then e3\<lparr>established_ns := now\<rparr> else e3)
            else e2)
         else if reply \<and> ct_pub_state e2 = CTNew then e2\<lparr>ct_pub_state := CTEstablished\<rparr>
         else e2)"

definition ct_new :: "u64 \<Rightarrow> pkt_ctx \<Rightarrow> bool \<Rightarrow> ct_entry" where
  "ct_new now p reply =
     (let ts = (if proto p = ProtoTCP then tcp_fsm TCPCSNone (tcp_flags p) reply else 0)
      in \<lparr>last_seen_ns = now, established_ns = 0, packets_fwd = 1, bytes_fwd = ucast (pkt_size p),
          packets_rev = 0, bytes_rev = 0,
          ct_pub_state = (if proto p = ProtoTCP then tcp_cs_to_ct ts else CTNew),
          tcp_state = ts\<rparr>)"

text \<open>
  The table is an LRU hash: an insertion may evict other entries, which \<open>evict\<close> stands
  for (the keys the kernel drops at this insertion).
\<close>

definition ct_update :: "u64 \<Rightarrow> (ct_key \<Rightarrow> bool) \<Rightarrow> pkt_ctx \<Rightarrow> bpf \<Rightarrow> bpf" where
  "ct_update now evict p s =
     (let (key, reply) = ct_build_key p in
      case qf_conntrack s key of
        Some e \<Rightarrow> s\<lparr>qf_conntrack := (qf_conntrack s)(key \<mapsto> ct_advance now p reply e)\<rparr>
      | None \<Rightarrow>
          if proto p = ProtoTCP \<and> \<not> has_flag (tcp_flags p) TCP_FLAG_SYN then s
          else s\<lparr>qf_conntrack := (\<lambda>k. if evict k then None else qf_conntrack s k)
                                  (key \<mapsto> ct_new now p reply)\<rparr>)"

section \<open>tc_filter.c\<close>

definition check_rate_limit :: "nat \<Rightarrow> u64 \<Rightarrow> u32 \<Rightarrow> u16 \<Rightarrow> bpf \<Rightarrow> bool \<times> bpf" where
  "check_rate_limit cpu now idx rate s =
     (if rate = 0 then (True, s)
      else
        (let (last, tokens) = qf_rate_limits s cpu idx;
             tokens1 =
               (if last = 0 then ucast rate
                else
                  (let elapsed = now - last;
                       elapsed1 = (if 1000000000 < elapsed then 1000000000 else elapsed);
                       add = (ucast ((ucast rate * elapsed1 :: u64) div 1000000000) :: u32);
                       refilled = tokens + add
                   in if ucast rate < refilled then ucast rate else refilled));
             put = (\<lambda>t s. s\<lparr>qf_rate_limits :=
                       (qf_rate_limits s)(cpu := (qf_rate_limits s cpu)(idx := (now, t)))\<rparr>)
         in if tokens1 = 0
            then (False, (put tokens1 s)\<lparr>qf_suppressed_count :=
                    (qf_suppressed_count s)(cpu := qf_suppressed_count s cpu + 1)\<rparr>)
            else (True, put (tokens1 - 1) s)))"

definition emit_log :: "nat \<Rightarrow> u64 \<Rightarrow> bool \<Rightarrow> pkt_ctx \<Rightarrow> u32 \<Rightarrow> rule_entry \<Rightarrow> u8 \<Rightarrow> u8 \<Rightarrow> bpf \<Rightarrow> bpf" where
  "emit_log cpu now room p idx r act ct s =
     (let (ok, s1) = check_rate_limit cpu now idx (e_log_rate_limit r) s in
      if \<not> ok \<or> \<not> room then s1
      else s1\<lparr>qf_events := qf_events s1 @
        [\<lparr>ts_ns = now, ev_rule_id_hi = rule_id_hi r, ev_rule_id_lo = rule_id_lo r,
          ev_src_ip = src_ip4 p, ev_dst_ip = dst_ip4 p, ev_src_port = src_port p,
          ev_dst_port = dst_port p, ev_pkt_size = pkt_size p, ev_tcp_flags = ucast (tcp_flags p),
          ev_proto = proto p, ev_direction = pkt_direction p, ev_action = act,
          ev_ct_state = ct\<rparr>]\<rparr>)"

definition bump_counter :: "nat \<Rightarrow> u32 \<Rightarrow> u16 \<Rightarrow> bpf \<Rightarrow> bpf" where
  "bump_counter cpu idx sz s =
     (let (pk, by) = qf_rule_counters s cpu idx in
      s\<lparr>qf_rule_counters := (qf_rule_counters s)
          (cpu := (qf_rule_counters s cpu)(idx := (pk + 1, by + ucast sz)))\<rparr>)"

datatype verdict = TC_ACT_OK | TC_ACT_SHOT

definition apply_action :: "nat \<Rightarrow> u64 \<Rightarrow> bool \<Rightarrow> pkt_ctx \<Rightarrow> u8 \<Rightarrow> u32 \<Rightarrow> rule_entry \<Rightarrow> u8 \<Rightarrow> bpf \<Rightarrow> verdict \<times> bpf" where
  "apply_action cpu now room p act idx r ct s =
     (let s1 = bump_counter cpu idx (pkt_size p) s;
          s2 = (if e_log_enabled r \<noteq> 0 \<or> act = ActionLog \<or> act = ActionDeny
                then emit_log cpu now room p idx r act ct s1 else s1)
      in (if act = ActionDeny then TC_ACT_SHOT else TC_ACT_OK, s2))"

text \<open>
  One packet on one CPU. The environment supplies the parsed packet, the clock, whether the
  ring buffer has room and what the LRU table evicts.
\<close>

record pkt_env =
  env_cpu :: nat
  env_now :: u64
  env_room :: bool
  env_evict :: "ct_key \<Rightarrow> bool"

definition ct_enabled :: "bpf \<Rightarrow> bool" where
  "ct_enabled s \<longleftrightarrow> qf_config s 0 AND 1 \<noteq> 0"

definition run_datapath :: "pkt_env \<Rightarrow> pkt_ctx option \<Rightarrow> bpf \<Rightarrow> verdict \<times> bpf" where
  "run_datapath env pk s =
     (case pk of
        None \<Rightarrow> (TC_ACT_OK, s)
      | Some p0 \<Rightarrow>
          (let ct = (if ct_enabled s then ct_lookup s p0 else 0);
               p = p0\<lparr>pkt_ct_state := ct\<rparr>
           in case eval_rules s p of
                Some (i, act) \<Rightarrow>
                  (let r = qf_rules s (of_nat i);
                       s1 = (if ct_enabled s \<and> act \<noteq> ActionDeny
                             then ct_update (env_now env) (env_evict env) p s else s)
                   in apply_action (env_cpu env) (env_now env) (env_room env) p act (of_nat i) r ct s1)
              | None \<Rightarrow>
                  (let d = default_action s p;
                       s1 = (if ct_enabled s \<and> d \<noteq> ActionDeny
                             then ct_update (env_now env) (env_evict env) p s else s)
                   in (if d = ActionDeny then TC_ACT_SHOT else TC_ACT_OK, s1))))"

section \<open>What a rule entry means\<close>

text \<open>
  The specification of a rule: a packet matches it when it satisfies every listed criterion,
  an empty list standing for any value. Prefixes are compared bit by bit on the address in
  network order, independently of the masks and the byte order of the entries.
\<close>

definition cidr4_matches :: "u32 \<Rightarrow> CIDR4 \<Rightarrow> bool" where
  "cidr4_matches a c \<longleftrightarrow>
     (case To4 (IP c) of None \<Rightarrow> False | Some b \<Rightarrow> in_prefix (decodeIP4 a) b (nat (Ones c)))"

definition cidrs_match :: "u32 \<Rightarrow> bool \<Rightarrow> CIDR4 list \<Rightarrow> bool" where
  "cidrs_match a v6 cs \<longleftrightarrow> cs = [] \<or> (\<not> v6 \<and> list_ex (cidr4_matches a) cs)"

definition ports_match :: "u16 \<Rightarrow> PortRange list \<Rightarrow> bool" where
  "ports_match p rs \<longleftrightarrow> rs = [] \<or> list_ex (\<lambda>r. Start r \<le> p \<and> p \<le> End r) rs"

definition state_match :: "u8 \<Rightarrow> u8 \<Rightarrow> bool" where
  "state_match st ct \<longleftrightarrow> st = 0 \<or> st = CTNone \<or> (st = ct \<and> ct \<noteq> CTRelated)"

definition set_match :: "(u32 \<Rightarrow> u32 \<Rightarrow> bool) \<Rightarrow> u32 \<Rightarrow> u32 \<Rightarrow> bool \<Rightarrow> bool" where
  "set_match V sid a v6 \<longleftrightarrow> sid = 0 \<or> (\<not> v6 \<and> V sid a)"

definition spec_match :: "(u32 \<Rightarrow> u32 \<Rightarrow> bool) \<Rightarrow> pkt_ctx \<Rightarrow> RuleSpec \<Rightarrow> bool" where
  "spec_match V p r \<longleftrightarrow> (let m = Match r in
     Direction m = pkt_direction p
     \<and> (Protocol m = ProtoAny \<or> Protocol m = proto p)
     \<and> cidrs_match (src_ip4 p) (is_ipv6 p) (SrcCIDRs m)
     \<and> cidrs_match (dst_ip4 p) (is_ipv6 p) (DstCIDRs m)
     \<and> set_match V (SrcIPSetID m) (src_ip4 p) (is_ipv6 p)
     \<and> set_match V (DstIPSetID m) (dst_ip4 p) (is_ipv6 p)
     \<and> ports_match (src_port p) (SrcPorts m)
     \<and> ports_match (dst_port p) (DstPorts m)
     \<and> state_match (State m) (pkt_ct_state p))"

definition ipset_view :: "bpf \<Rightarrow> u32 \<Rightarrow> u32 \<Rightarrow> bool" where
  "ipset_view s sid a = lpm_lookup (qf_ipsets s) \<lparr>lpm_prefixlen = 64, lpm_ipset_id = sid, lpm_addr = a\<rparr>"

lemma match_ipset_view: "match_ipset (qf_ipsets s) sid a v6 = set_match (ipset_view s) sid a v6"
  by (simp add: match_ipset_def set_match_def ipset_view_def)

lemma of_nat_u8_small:
  assumes "n \<le> 8"
  shows "unat (of_nat n :: u8) = n" and "(of_nat n :: u8) = 0 \<longleftrightarrow> n = 0"
proof -
  show u: "unat (of_nat n :: u8) = n"
    using assms by (simp add: unat_of_nat take_bit_nat_eq_self)
  show "(of_nat n :: u8) = 0 \<longleftrightarrow> n = 0" using u by (auto simp: unat_eq_0 [symmetric])
qed

lemma take_pad8: "length xs \<le> 8 \<Longrightarrow> take (min 8 (length xs)) (pad8 z xs) = xs"
  by (simp add: pad8_def)

lemma encodeCIDR4_Inr:
  "encodeCIDR4 c = Inr e \<longleftrightarrow>
     (\<exists>b. To4 (IP c) = Some b \<and> 0 \<le> Ones c \<and> Ones c \<le> 32
       \<and> e = \<lparr>Addr = encodeIP4 b, Mask = le_word (CIDRMask (nat (Ones c)) 32)\<rparr>)"
  by (cases "To4 (IP c)") (auto simp: encodeCIDR4_def encodeIP4_def dest: To4_length)

lemma encodeCIDR4_matches:
  assumes "encodeCIDR4 c = Inr e"
  shows "a AND Mask e = Addr e AND Mask e \<longleftrightarrow> cidr4_matches a c"
proof -
  from assms obtain b where b: "To4 (IP c) = Some b" "0 \<le> Ones c" "Ones c \<le> 32"
    and e: "e = \<lparr>Addr = encodeIP4 b, Mask = le_word (CIDRMask (nat (Ones c)) 32)\<rparr>"
    by (auto simp: encodeCIDR4_Inr)
  have "nat (Ones c) \<le> 32" using b by simp
  then show ?thesis
    using masked_words_in_prefix [OF To4_length [OF b(1)], of "nat (Ones c)" a]
    by (simp add: e b(1) cidr4_matches_def)
qed

lemma list_ex_list_all2:
  "list_all2 R xs ys \<Longrightarrow> (\<And>x y. R x y \<Longrightarrow> P x \<longleftrightarrow> Q y) \<Longrightarrow> list_ex P xs \<longleftrightarrow> list_ex Q ys"
  by (induction rule: list_all2_induct) auto

lemma match_cidrs4_encoded:
  assumes enc: "mapR encodeCIDR4 cs = Inr es" and len: "length cs \<le> 8"
  shows "match_cidrs4 a (pad8 zero_cidr es) (of_nat (length cs)) v6 \<longleftrightarrow> cidrs_match a v6 cs"
proof -
  have l: "length es = length cs" using enc by (rule mapR_length)
  have "list_ex (\<lambda>c. a AND Mask c = Addr c AND Mask c) es \<longleftrightarrow> list_ex (cidr4_matches a) cs"
    using list_ex_list_all2 [OF enc [unfolded mapR_Inr] encodeCIDR4_matches [symmetric]] by simp
  moreover have "take (min 8 (length cs)) (pad8 zero_cidr es) = es"
    using take_pad8 [of es zero_cidr] len l by simp
  ultimately show ?thesis
    by (simp add: match_cidrs4_def cidrs_match_def of_nat_u8_small len)
qed

lemma match_port_ranges_encoded:
  assumes len: "length rs \<le> 8"
  shows "match_port_ranges p (pad8 (0, 0) (map port_pair rs)) (of_nat (length rs)) \<longleftrightarrow> ports_match p rs"
proof -
  have "take (min 8 (length rs)) (pad8 (0, 0) (map port_pair rs)) = map port_pair rs"
    using take_pad8 [of "map port_pair rs" "(0, 0)"] len by simp
  then show ?thesis
    by (simp add: match_port_ranges_def ports_match_def of_nat_u8_small len list_ex_iff port_pair_def)
qed

lemma match_state_normalised:
  "match_state (if st = 0 then CTNone else st) ct \<longleftrightarrow> state_match st ct"
  by (auto simp: match_state_def state_match_def loader_consts)

lemma validateRule_Inr:
  "validateRule r = Inr () \<longleftrightarrow> (let m = Match r in
     Action r \<in> {ActionAllow, ActionDeny, ActionLog}
     \<and> Protocol m \<in> {ProtoAny, ProtoTCP, ProtoUDP, ProtoICMP, ProtoICMPv6}
     \<and> Direction m \<in> {DirIngress, DirEgress}
     \<and> length (SrcCIDRs m) \<le> 8 \<and> length (DstCIDRs m) \<le> 8
     \<and> length (SrcPorts m) \<le> 8 \<and> length (DstPorts m) \<le> 8
     \<and> list_all port_ok (SrcPorts m) \<and> list_all port_ok (DstPorts m))"
  unfolding validateRule_def Let_def IPSetInlineMax_def not_less [symmetric]
  by (simp only: if_split_eq1 sum.simps simp_thms) blast

lemma toRuleEntry_Inr:
  "toRuleEntry r = Inr e \<longleftrightarrow>
     (\<exists>src dst. validateRule r = Inr () \<and> mapR encodeCIDR4 (SrcCIDRs (Match r)) = Inr src
       \<and> mapR encodeCIDR4 (DstCIDRs (Match r)) = Inr dst
       \<and> e = \<lparr>e_action = Action r, e_log_enabled = (if LogEnabled r then 1 else 0),
              e_log_rate_limit = LogRateLimit r, rule_id_hi = be_word (take 8 (ID r)),
              rule_id_lo = be_word (drop 8 (ID r)), e_match = match_entry_of (Match r) src dst\<rparr>)"
  unfolding toRuleEntry_def bindR_eq_Inr wrapR_eq_Inr by auto

lemma match_entry_of_match:
  assumes v: "validateRule r = Inr ()"
    and src: "mapR encodeCIDR4 (SrcCIDRs (Match r)) = Inr src"
    and dst: "mapR encodeCIDR4 (DstCIDRs (Match r)) = Inr dst"
  shows "match_rule (qf_ipsets s) p (match_entry_of (Match r) src dst) \<longleftrightarrow> spec_match (ipset_view s) p r"
proof -
  have len: "length (SrcCIDRs (Match r)) \<le> 8" "length (DstCIDRs (Match r)) \<le> 8"
    "length (SrcPorts (Match r)) \<le> 8" "length (DstPorts (Match r)) \<le> 8"
    using v by (simp_all add: validateRule_Inr Let_def)
  note enc = match_cidrs4_encoded [OF src len(1)] match_cidrs4_encoded [OF dst len(2)]
    match_port_ranges_encoded [OF len(3)] match_port_ranges_encoded [OF len(4)]
    match_state_normalised match_ipset_view
  show ?thesis
    unfolding match_rule_def spec_match_def Let_def match_entry_of_def match_entry.simps enc ..
qed

lemma toRuleEntry_match:
  assumes "toRuleEntry r = Inr e"
  shows "match_rule (qf_ipsets s) p (e_match e) \<longleftrightarrow> spec_match (ipset_view s) p r" (is ?m)
    and "e_action e = Action r" (is ?a) and "e_action e \<noteq> 0" (is ?n)
proof -
  from assms obtain src dst where v: "validateRule r = Inr ()"
    and src: "mapR encodeCIDR4 (SrcCIDRs (Match r)) = Inr src"
    and dst: "mapR encodeCIDR4 (DstCIDRs (Match r)) = Inr dst"
    and act: "e_action e = Action r" and m: "e_match e = match_entry_of (Match r) src dst"
    unfolding toRuleEntry_Inr by force
  show ?m unfolding m by (rule match_entry_of_match [OF v src dst])
  show ?a by (fact act)
  have "Action r \<in> {ActionAllow, ActionDeny, ActionLog}"
    using v by (simp add: validateRule_Inr Let_def)
  then show ?n by (auto simp: act loader_consts)
qed

end
