(* ===== verification/Qf_Applier.thy ===== *)
theory Qf_Applier
  imports Qf_Datapath
begin

text \<open>
  The contract between the policy handler and the loader. \<open>RuleApplier\<close> is the Go interface
  of agent/internal/handler/policy.go as a record of its four methods; the locale
  \<open>rule_applier\<close> states what a client may rely on in terms of three views of the applier's
  state (the entries the datapath scans, its config, the membership of the IP sets), and
  the loader's operations are shown to satisfy it.
\<close>

section \<open>The longest-prefix trie\<close>

lemma le_bytes4_inj: "le_bytes 4 (x :: u32) = le_bytes 4 y \<longleftrightarrow> x = y"
proof -
  have "le_word (le_bytes 4 z) = z" for z :: u32 by (rule le_word_le_bytes) simp
  then show ?thesis by metis
qed

lemma unat_of_int_u32:
  assumes "0 \<le> k" and "k < 2 ^ 32"
  shows "unat (of_int k :: u32) = nat k"
proof -
  have "uint (of_int k :: u32) = k" using assms by (simp add: uint_word_of_int_eq take_bit_int_eq_self)
  then show ?thesis by (simp only: unat_eq_nat_uint)
qed

lemma unat_ipset_prefix:
  assumes "0 \<le> Ones c" and "Ones c \<le> 32"
  shows "unat (lpm_prefixlen (ipset_key sid c)) = 32 + nat (Ones c)"
  using unat_of_int_u32 [of "32 + Ones c"] assms
  by (simp add: ipset_key_def nat_add_distrib del: of_int_add)

lemma lpm_covers_ipset_key:
  assumes "To4 (IP c) = Some b" and ones: "0 \<le> Ones c" "Ones c \<le> 32"
  shows "lpm_covers (ipset_key sid c) \<lparr>lpm_prefixlen = 64, lpm_ipset_id = i, lpm_addr = a\<rparr> \<longleftrightarrow>
         i = sid \<and> cidr4_matches a c"
proof -
  have len: "length b = 4" using assms(1) by (rule To4_length)
  have addr: "le_bytes 4 (encodeIP4 (IP c)) = b"
    using assms(1) len by (simp add: encodeIP4_def le_bytes_le_word)
  have le: "lpm_prefixlen (ipset_key sid c) \<le> 64"
    unfolding word_le_nat_alt unat_ipset_prefix [OF ones] using ones by simp
  have "lpm_covers (ipset_key sid c) \<lparr>lpm_prefixlen = 64, lpm_ipset_id = i, lpm_addr = a\<rparr> \<longleftrightarrow>
      bytes_bits (le_bytes 4 sid) = bytes_bits (le_bytes 4 i)
      \<and> take (nat (Ones c)) (bytes_bits b) = take (nat (Ones c)) (bytes_bits (le_bytes 4 a))"
    using le unfolding lpm_covers_def unat_ipset_prefix [OF ones] lpm_bits_def
    by (simp add: ipset_key_def addr)
  also have "\<dots> \<longleftrightarrow> i = sid \<and> cidr4_matches a c"
    using assms(1) by (auto simp: bytes_bits_inj le_bytes4_inj cidr4_matches_def in_prefix_def decodeIP4_def)
  finally show ?thesis .
qed

text \<open>Replacing a node by one with the same bits changes no lookup.\<close>

lemma lpm_same_covers: "lpm_same a b \<Longrightarrow> lpm_covers a k \<longleftrightarrow> lpm_covers b k"
  by (auto simp: lpm_same_def lpm_covers_def)

lemma lpm_same_refl [simp]: "lpm_same k k"
  by (simp add: lpm_same_def)

lemma lpm_same_sym: "lpm_same a b \<Longrightarrow> lpm_same b a"
  by (auto simp: lpm_same_def)

lemma lpm_lookup_append [simp]: "lpm_lookup (xs @ [k]) q \<longleftrightarrow> lpm_lookup xs q \<or> lpm_covers k q"
  by (simp add: lpm_lookup_def)

section \<open>The loader's operations on success\<close>

lemma sysS_Inr:
  "sysS flt op s = (Inr x, t) \<longleftrightarrow>
   \<not> flt (syscalls s) \<and> op (s\<lparr>syscalls := Suc (syscalls s)\<rparr>) = (Inr x, t)"
  by (auto simp: sysS_def Let_def)

lemma qf_ipsets_Update_Inr:
  assumes "qf_ipsets_Update flt k s = (Inr (), t)"
  shows "t = s\<lparr>qf_ipsets := qf_ipsets t, syscalls := syscalls t\<rparr>"
    and "lpm_lookup (qf_ipsets t) q \<longleftrightarrow> lpm_lookup (qf_ipsets s) q \<or> lpm_covers k q"
proof -
  show "t = s\<lparr>qf_ipsets := qf_ipsets t, syscalls := syscalls t\<rparr>"
    using assms by (auto simp: qf_ipsets_Update_def sysS_Inr split: if_splits)
  show "lpm_lookup (qf_ipsets t) q \<longleftrightarrow> lpm_lookup (qf_ipsets s) q \<or> lpm_covers k q"
  proof (cases "list_ex (lpm_same k) (qf_ipsets s)")
    case True
    then have "lpm_covers k q \<Longrightarrow> lpm_lookup (qf_ipsets s) q"
      by (auto simp: list_ex_iff lpm_lookup_def dest: lpm_same_covers)
    then show ?thesis using assms True by (auto simp: qf_ipsets_Update_def sysS_Inr)
  next
    case False
    then show ?thesis using assms by (auto simp: qf_ipsets_Update_def sysS_Inr split: if_splits)
  qed
qed

lemma pushCIDR_Inr:
  assumes "pushCIDR flt sid c s = (Inr (), t)"
  shows "t = s\<lparr>qf_ipsets := qf_ipsets t, syscalls := syscalls t\<rparr>" (is ?f)
    and "lpm_lookup (qf_ipsets t) \<lparr>lpm_prefixlen = 64, lpm_ipset_id = i, lpm_addr = a\<rparr> \<longleftrightarrow>
         lpm_lookup (qf_ipsets s) \<lparr>lpm_prefixlen = 64, lpm_ipset_id = i, lpm_addr = a\<rparr>
         \<or> i = sid \<and> cidr4_matches a c" (is ?l)
proof -
  from assms obtain b where b: "To4 (IP c) = Some b" "0 \<le> Ones c" "Ones c \<le> 32"
    and u: "qf_ipsets_Update flt (ipset_key sid c) s = (Inr (), t)"
    by (cases "To4 (IP c)") (auto simp: pushCIDR_def wrapS_Inr split: if_splits)
  show ?f by (rule qf_ipsets_Update_Inr(1) [OF u])
  show ?l unfolding qf_ipsets_Update_Inr(2) [OF u] lpm_covers_ipset_key [OF b] ..
qed

lemma forS_pushCIDR_Inr:
  assumes "forS (pushCIDR flt sid) cs s = (Inr (), t)"
  shows "t = s\<lparr>qf_ipsets := qf_ipsets t, syscalls := syscalls t\<rparr> \<and>
         (lpm_lookup (qf_ipsets t) \<lparr>lpm_prefixlen = 64, lpm_ipset_id = i, lpm_addr = a\<rparr> \<longleftrightarrow>
          lpm_lookup (qf_ipsets s) \<lparr>lpm_prefixlen = 64, lpm_ipset_id = i, lpm_addr = a\<rparr>
          \<or> i = sid \<and> list_ex (cidr4_matches a) cs)"
  using assms
proof (induction cs arbitrary: s)
  case (Cons c cs)
  then obtain u where u: "pushCIDR flt sid c s = (Inr (), u)" "forS (pushCIDR flt sid) cs u = (Inr (), t)"
    unfolding forS_Cons_Inr by blast
  note f = pushCIDR_Inr(1) [OF u(1)] and l = pushCIDR_Inr(2) [OF u(1), of i a]
  have "u\<lparr>qf_ipsets := x, syscalls := y\<rparr> = s\<lparr>qf_ipsets := x, syscalls := y\<rparr>" for x y
    by (subst f) simp
  then show ?case using Cons.IH [OF u(2)] l by auto
qed simp

lemma qf_ipsets_Delete_Inr:
  "qf_ipsets_Delete flt k s = (Inr (), t) \<Longrightarrow>
   t = s\<lparr>qf_ipsets := filter (\<lambda>x. \<not> lpm_same k x) (qf_ipsets s), syscalls := Suc (syscalls s)\<rparr>"
  by (auto simp: qf_ipsets_Delete_def sysS_Inr split: if_splits)

lemma forS_Delete_Inr:
  "forS (\<lambda>k. wrapS m (qf_ipsets_Delete flt k)) ks s = (Inr (), t) \<Longrightarrow>
   t = s\<lparr>qf_ipsets := filter (\<lambda>x. \<not> list_ex (\<lambda>k. lpm_same k x) ks) (qf_ipsets s),
         syscalls := syscalls s + length ks\<rparr>"
proof (induction ks arbitrary: s)
  case (Cons k ks)
  then obtain u where u: "qf_ipsets_Delete flt k s = (Inr (), u)"
    and t: "forS (\<lambda>k. wrapS m (qf_ipsets_Delete flt k)) ks u = (Inr (), t)"
    unfolding forS_Cons_Inr wrapS_Inr by blast
  show ?case using Cons.IH [OF t] qf_ipsets_Delete_Inr [OF u] by (simp add: filter_filter conj_commute)
qed simp

lemma ClearIPSets_Inr:
  assumes "ClearIPSets flt s = (Inr (), t)"
  shows "t = s\<lparr>qf_ipsets := [], syscalls := syscalls t\<rparr>"
proof -
  from assms have d: "forS (\<lambda>k. wrapS ''delete ipset entry'' (qf_ipsets_Delete flt k)) (qf_ipsets s)
      (s\<lparr>syscalls := Suc (syscalls s)\<rparr>) = (Inr (), t)"
    by (auto simp: ClearIPSets_def bindS_Inr wrapS_Inr qf_ipsets_Iterate_def sysS_Inr)
  have "filter (\<lambda>x. \<not> list_ex (\<lambda>k. lpm_same k x) (qf_ipsets s)) (qf_ipsets s) = []"
    by (auto simp: filter_empty_conv list_ex_iff intro: lpm_same_refl)
  then show ?thesis using forS_Delete_Inr [OF d] by simp
qed

lemma PushIPSet_Inr:
  assumes "PushIPSet flt sid cs s = (Inr (), t)"
  shows "t = s\<lparr>qf_ipsets := qf_ipsets t, syscalls := syscalls t\<rparr>"
    and "lpm_lookup (qf_ipsets t) \<lparr>lpm_prefixlen = 64, lpm_ipset_id = i, lpm_addr = a\<rparr> \<longleftrightarrow>
          lpm_lookup (qf_ipsets s) \<lparr>lpm_prefixlen = 64, lpm_ipset_id = i, lpm_addr = a\<rparr>
          \<or> i = sid \<and> list_ex (cidr4_matches a) cs"
  using assms forS_pushCIDR_Inr [of flt sid cs s t i a] by (auto simp: PushIPSet_def split: if_splits)

lemma unat_of_nat_index: "k < MaxRules \<Longrightarrow> unat (of_nat k :: u32) = k"
  by (simp add: MaxRules_def unat_of_nat take_bit_nat_eq_self)

lemma forS_rules_Put_Inr:
  assumes "forS (\<lambda>(i, e). qf_rules_Put flt (of_nat i) e) (enumerate k es) s = (Inr (), t)"
    and "k + length es \<le> MaxRules"
  shows "t = s\<lparr>qf_rules := (\<lambda>j. if k \<le> unat j \<and> unat j < k + length es then es ! (unat j - k)
                               else qf_rules s j),
               syscalls := syscalls s + length es\<rparr>"
  using assms
proof (induction es arbitrary: k s)
  case (Cons e es)
  from Cons.prems(1) obtain u where u: "qf_rules_Put flt (of_nat k) e s = (Inr (), u)"
    and t: "forS (\<lambda>(i, e). qf_rules_Put flt (of_nat i) e) (enumerate (Suc k) es) u = (Inr (), t)"
    unfolding enumerate_simps forS_Cons_Inr by auto
  have k: "unat (of_nat k :: u32) = k" using Cons.prems(2) by (intro unat_of_nat_index) simp
  have ue: "u = s\<lparr>qf_rules := (qf_rules s)(of_nat k := e), syscalls := Suc (syscalls s)\<rparr>"
    using u by (auto simp: qf_rules_Put_def sysS_Inr split: if_splits)
  have eqk: "j = of_nat k \<longleftrightarrow> unat j = k" for j :: u32 using k by (metis word_unat_eq_iff)
  have "t = u\<lparr>qf_rules := (\<lambda>j. if Suc k \<le> unat j \<and> unat j < Suc k + length es
                   then es ! (unat j - Suc k) else qf_rules u j),
             syscalls := syscalls u + length es\<rparr>"
    using Cons.IH [OF t] Cons.prems(2) by simp
  then show ?case by (auto simp: ue eqk nth_Cons' fun_eq_iff intro!: bpf.equality)
qed (auto simp: fun_eq_iff intro!: bpf.equality)

definition rules_view :: "bpf \<Rightarrow> rule_entry list" where
  "rules_view s = map (\<lambda>i. qf_rules s (of_nat i)) [0..<eval_bound s]"

text \<open>The two builds of the BPF object (objects.go): 64 rules, or 32 for older kernels.\<close>

definition bpf_ok :: "bpf \<Rightarrow> bool" where
  "bpf_ok s \<longleftrightarrow> maxRules s = 64 \<or> maxRules s = 32"

lemma PushRules_Inr:
  assumes "PushRules flt rs s = (Inr (), t)" and "bpf_ok s"
  obtains es where "mapR toRuleEntry (sortRules rs) = Inr es" and "length rs \<le> maxRules s"
    and "t = s\<lparr>qf_rules := (\<lambda>j. if unat j < length es then es ! unat j else qf_rules s j),
               qf_rule_count := of_nat (length es), syscalls := syscalls t\<rparr>"
proof -
  from assms(1) obtain es u where len: "length rs \<le> maxRules s"
    and es: "mapR toRuleEntry (sortRules rs) = Inr es"
    and u: "forS (\<lambda>(i, e). qf_rules_Put flt (of_nat i) e) (enumerate 0 es) s = (Inr (), u)"
    and t: "qf_rule_count_Put flt (of_nat (length es)) u = (Inr (), t)"
    by (auto simp: PushRules_def bindS_Inr wrapS_Inr split: if_splits)
  have le: "length es = length rs" using es by (simp add: mapR_length sortRules_def)
  then have "0 + length es \<le> MaxRules" using len assms(2) by (auto simp: bpf_ok_def MaxRules_def)
  from forS_rules_Put_Inr [OF u this] t show thesis
    by (intro that [OF es len]) (auto simp: qf_rule_count_Put_def sysS_Inr intro!: bpf.equality)
qed

lemma rules_view_PushRules:
  assumes "PushRules flt rs s = (Inr (), t)" and "bpf_ok s"
  shows "mapR toRuleEntry (sortRules rs) = Inr (rules_view t)"
proof -
  from PushRules_Inr [OF assms] obtain es where es: "mapR toRuleEntry (sortRules rs) = Inr es"
    and len: "length rs \<le> maxRules s"
    and t: "t = s\<lparr>qf_rules := (\<lambda>j. if unat j < length es then es ! unat j else qf_rules s j),
               qf_rule_count := of_nat (length es), syscalls := syscalls t\<rparr>" .
  have "length es = length rs" using es by (simp add: mapR_length sortRules_def)
  then have le: "length es \<le> maxRules s" using len by simp
  then have "length es < MaxRules" using assms(2) by (auto simp: bpf_ok_def MaxRules_def)
  then have n: "unat (of_nat (length es) :: u32) = length es" by (rule unat_of_nat_index)
  have b: "eval_bound t = length es"
    using le assms(2) n by (subst t) (auto simp: eval_bound_def bpf_ok_def MaxRules_def)
  have "qf_rules t (of_nat i) = es ! i" if "i < length es" for i
  proof -
    have "unat (of_nat i :: u32) = i" using that \<open>length es < MaxRules\<close> by (simp add: unat_of_nat_index)
    then show ?thesis using that by (subst t) simp
  qed
  then have "rules_view t = es" by (intro nth_equalityI) (simp_all add: rules_view_def b)
  then show ?thesis using es by simp
qed

definition config_view :: "bpf \<Rightarrow> bool \<times> u8 \<times> u8" where
  "config_view s = (ct_enabled s,
     (if qf_config s 1 \<noteq> 0 then ucast (qf_config s 1) else ActionAllow),
     (if qf_config s 2 \<noteq> 0 then ucast (qf_config s 2) else ActionAllow))"

definition config_spec :: "Config \<Rightarrow> bool \<times> u8 \<times> u8" where
  "config_spec c = (ConntrackEnabled c,
     (if DefaultIngress c = 0 then ActionAllow else DefaultIngress c),
     (if DefaultEgress c = 0 then ActionAllow else DefaultEgress c))"

lemma ucast_u8_u32_0 [simp]: "(ucast (x :: u8) :: u32) = 0 \<longleftrightarrow> x = 0"
  by transfer (simp add: take_bit_take_bit)

lemma ucast_u8_u32_u8 [simp]: "(ucast (ucast (x :: u8) :: u32) :: u8) = x"
  by (rule bit_word_eqI) (simp add: bit_ucast_iff)

lemma SetConfig_Inr:
  assumes "SetConfig flt cfg s = (Inr (), t)"
  shows "t = s\<lparr>qf_config := (qf_config s)(0 := configFlags cfg,
              1 := (if DefaultIngress cfg = 0 then ucast ActionAllow else ucast (DefaultIngress cfg)),
              2 := (if DefaultEgress cfg = 0 then ucast ActionAllow else ucast (DefaultEgress cfg))),
            syscalls := syscalls s + 3\<rparr>"
  using assms
  by (auto simp: SetConfig_def bindS_Inr wrapS_Inr qf_config_Put_def sysS_Inr Let_def
      intro!: bpf.equality split: if_splits)

lemma configFlags_bits:
  "configFlags cfg AND 1 \<noteq> 0 \<longleftrightarrow> ConntrackEnabled cfg" "configFlags cfg AND 2 \<noteq> 0 \<longleftrightarrow> FlowEventsEnabled cfg"
  by (cases "ConntrackEnabled cfg"; cases "FlowEventsEnabled cfg"; simp add: configFlags_def)+

lemma config_view_SetConfig:
  assumes "SetConfig flt cfg s = (Inr (), t)"
  shows "config_view t = config_spec cfg"
  unfolding SetConfig_Inr [OF assms]
  by (simp add: config_view_def config_spec_def ct_enabled_def configFlags_bits ActionAllow_def)

section \<open>The interface and its laws\<close>

record 's RuleApplier =
  ra_PushRules :: "RuleSpec list \<Rightarrow> ('s, unit) st"
  ra_SetConfig :: "Config \<Rightarrow> ('s, unit) st"
  ra_ClearIPSets :: "('s, unit) st"
  ra_PushIPSet :: "u32 \<Rightarrow> CIDR4 list \<Rightarrow> ('s, unit) st"

locale rule_applier =
  fixes A :: "'s RuleApplier"
    and ok :: "'s \<Rightarrow> bool"
    and rulesv :: "'s \<Rightarrow> rule_entry list"
    and configv :: "'s \<Rightarrow> bool \<times> u8 \<times> u8"
    and ipsetv :: "'s \<Rightarrow> u32 \<Rightarrow> u32 \<Rightarrow> bool"
    and frame :: "'s \<Rightarrow> 'f"
  assumes push_rules: "ok s \<Longrightarrow> ra_PushRules A rs s = (Inr (), t) \<Longrightarrow>
        mapR toRuleEntry (sortRules rs) = Inr (rulesv t)
        \<and> configv t = configv s \<and> ipsetv t = ipsetv s"
    and push_rules_invalid: "mapR toRuleEntry (sortRules rs) = Inl e \<Longrightarrow> snd (ra_PushRules A rs s) = s"
    and set_config: "ok s \<Longrightarrow> ra_SetConfig A cfg s = (Inr (), t) \<Longrightarrow>
        configv t = config_spec cfg \<and> ipsetv t = ipsetv s"
    and clear_ipsets: "ok s \<Longrightarrow> ra_ClearIPSets A s = (Inr (), t) \<Longrightarrow>
        ipsetv t = (\<lambda>_ _. False)"
    and push_ipset: "ok s \<Longrightarrow> ra_PushIPSet A sid cs s = (Inr (), t) \<Longrightarrow>
        ipsetv t i a \<longleftrightarrow> ipsetv s i a \<or> i = sid \<and> list_ex (cidr4_matches a) cs"
    and push_ipset_zero: "fst (ra_PushIPSet A 0 cs s) \<noteq> Inr ()"
    and keeps: "ok s \<Longrightarrow>
        ok (snd (ra_PushRules A rs s)) \<and> frame (snd (ra_PushRules A rs s)) = frame s
        \<and> ok (snd (ra_SetConfig A cfg s)) \<and> frame (snd (ra_SetConfig A cfg s)) = frame s
        \<and> ok (snd (ra_ClearIPSets A s)) \<and> frame (snd (ra_ClearIPSets A s)) = frame s
        \<and> ok (snd (ra_PushIPSet A sid cs s)) \<and> frame (snd (ra_PushIPSet A sid cs s)) = frame s"
    and keeps_rules: "ok s \<Longrightarrow> rulesv (snd (ra_SetConfig A cfg s)) = rulesv s
        \<and> rulesv (snd (ra_ClearIPSets A s)) = rulesv s \<and> rulesv (snd (ra_PushIPSet A sid cs s)) = rulesv s"
begin

lemma push_ipset_fold:
  assumes "ok s" and "forS (\<lambda>(i, cs). wrapS m (ra_PushIPSet A i cs)) sets s = (Inr (), t)"
  shows "ok t \<and> frame t = frame s \<and> rulesv t = rulesv s
    \<and> (ipsetv t i a \<longleftrightarrow> ipsetv s i a \<or> (\<exists>cs. (i, cs) \<in> set sets \<and> list_ex (cidr4_matches a) cs))
    \<and> 0 \<notin> fst ` set sets"
  using assms
proof (induction sets arbitrary: s)
  case (Cons x sets)
  obtain j cs where x: "x = (j, cs)" by (cases x)
  with Cons.prems(2) obtain u where u: "ra_PushIPSet A j cs s = (Inr (), u)"
    and t: "forS (\<lambda>(i, cs). wrapS m (ra_PushIPSet A i cs)) sets u = (Inr (), t)"
    unfolding forS_Cons_Inr by (auto simp: wrapS_Inr)
  have k: "ok u" "frame u = frame s" "rulesv u = rulesv s"
    using keeps [OF Cons.prems(1), of _ _ j cs] keeps_rules [OF Cons.prems(1), of _ j cs] u by simp_all
  have v: "ipsetv u i a \<longleftrightarrow> ipsetv s i a \<or> i = j \<and> list_ex (cidr4_matches a) cs"
    by (rule push_ipset [OF Cons.prems(1) u])
  have "j \<noteq> 0" using push_ipset_zero [of cs s] u by auto
  then show ?case using Cons.IH [OF k(1) t] k(2,3) v unfolding x by auto
qed simp

end

definition loader_applier :: "faults \<Rightarrow> bpf RuleApplier" where
  "loader_applier flt = \<lparr>ra_PushRules = PushRules flt, ra_SetConfig = SetConfig flt,
     ra_ClearIPSets = ClearIPSets flt, ra_PushIPSet = PushIPSet flt\<rparr>"

lemma sysS_invariant:
  "P (s\<lparr>syscalls := Suc (syscalls s)\<rparr>) \<Longrightarrow> (\<And>u. P u \<Longrightarrow> P (snd (op u))) \<Longrightarrow> P (snd (sysS flt op s))"
  by (simp add: sysS_def Let_def)

text \<open>The parts of the state the handler's operations leave alone, on every path.\<close>

definition base :: "bpf \<Rightarrow> nat \<times> (ct_key \<rightharpoonup> ct_entry) \<times> nat" where
  "base s = (maxRules s, qf_conntrack s, ncpu s)"

lemma base_simps [simp]:
  "base (s\<lparr>syscalls := n\<rparr>) = base s" "base (s\<lparr>qf_rules := f\<rparr>) = base s"
  "base (s\<lparr>qf_rule_count := c\<rparr>) = base s" "base (s\<lparr>qf_config := g\<rparr>) = base s"
  "base (s\<lparr>qf_ipsets := t\<rparr>) = base s"
  by (simp_all add: base_def)

lemma base_ops:
  "base (snd (qf_rules_Put flt i e s)) = base s" "base (snd (qf_rule_count_Put flt n s)) = base s"
  "base (snd (qf_config_Put flt i v s)) = base s" "base (snd (qf_ipsets_Update flt k s)) = base s"
  "base (snd (qf_ipsets_Delete flt k s)) = base s" "base (snd (qf_ipsets_Iterate flt s)) = base s"
  by (simp_all add: qf_rules_Put_def qf_rule_count_Put_def qf_config_Put_def qf_ipsets_Update_def
      qf_ipsets_Delete_def qf_ipsets_Iterate_def sysS_def Let_def)

definition ruletab :: "bpf \<Rightarrow> (u32 \<Rightarrow> rule_entry) \<times> u32" where
  "ruletab s = (qf_rules s, qf_rule_count s)"

lemma ruletab_ops:
  "ruletab (snd (qf_config_Put flt i v s)) = ruletab s" "ruletab (snd (qf_ipsets_Update flt k s)) = ruletab s"
  "ruletab (snd (qf_ipsets_Delete flt k s)) = ruletab s" "ruletab (snd (qf_ipsets_Iterate flt s)) = ruletab s"
  by (simp_all add: ruletab_def qf_config_Put_def qf_ipsets_Update_def
      qf_ipsets_Delete_def qf_ipsets_Iterate_def sysS_def Let_def)

lemma PushRules_base: "base (snd (PushRules flt rs s)) = base s"
proof (cases "maxRules s < length rs")
  case False
  have "base (snd (bindS (wrapS ''rule'' (liftS (mapR toRuleEntry (sortRules rs)))) (\<lambda>entries.
          bindS (wrapS ''write rule''
             (forS (\<lambda>(i, e). qf_rules_Put flt (of_nat i) e) (enumerate 0 entries))) (\<lambda>_.
          wrapS ''write rule_count'' (qf_rule_count_Put flt (of_nat (length entries))))) s)) = base s"
    by (intro bindS_invariant [where P = "\<lambda>u. base u = base s"])
      (auto simp: base_ops intro!: forS_invariant [where P = "\<lambda>u. base u = base s"])
  then show ?thesis using False by (simp add: PushRules_def)
qed (simp add: PushRules_def)

lemma SetConfig_base:
  "base (snd (SetConfig flt cfg s)) = base s \<and> ruletab (snd (SetConfig flt cfg s)) = ruletab s"
  unfolding SetConfig_def Let_def
  by (intro bindS_invariant [where P = "\<lambda>u. base u = base s \<and> ruletab u = ruletab s"])
    (auto simp: base_ops ruletab_ops)

lemma ClearIPSets_base:
  "base (snd (ClearIPSets flt s)) = base s \<and> ruletab (snd (ClearIPSets flt s)) = ruletab s"
  unfolding ClearIPSets_def
  by (intro bindS_invariant [where P = "\<lambda>u. base u = base s \<and> ruletab u = ruletab s"]
      forS_invariant [where P = "\<lambda>u. base u = base s \<and> ruletab u = ruletab s"])
    (auto simp: base_ops ruletab_ops)

lemma PushIPSet_base:
  "base (snd (PushIPSet flt sid cs s)) = base s \<and> ruletab (snd (PushIPSet flt sid cs s)) = ruletab s"
proof -
  have "base (snd (forS (pushCIDR flt sid) cs s)) = base s
      \<and> ruletab (snd (forS (pushCIDR flt sid) cs s)) = ruletab s"
    by (intro forS_invariant [where P = "\<lambda>u. base u = base s \<and> ruletab u = ruletab s"])
      (auto simp: pushCIDR_def base_ops ruletab_ops)
  then show ?thesis by (simp add: PushIPSet_def)
qed

lemma base_bpf_ok: "base s = base t \<Longrightarrow> bpf_ok s = bpf_ok t"
  by (simp add: base_def bpf_ok_def)

lemma rules_view_cong: "base s = base t \<Longrightarrow> ruletab s = ruletab t \<Longrightarrow> rules_view s = rules_view t"
  by (simp add: rules_view_def eval_bound_def base_def ruletab_def)

lemma PushRules_other:
  assumes "PushRules flt rs s = (Inr (), t)" and "bpf_ok s"
  shows "config_view t = config_view s" and "ipset_view t = ipset_view s"
proof -
  from PushRules_Inr [OF assms] obtain es where
    t: "t = s\<lparr>qf_rules := (\<lambda>j. if unat j < length es then es ! unat j else qf_rules s j),
               qf_rule_count := of_nat (length es), syscalls := syscalls t\<rparr>" .
  have "qf_config t = qf_config s" "qf_ipsets t = qf_ipsets s"
    using arg_cong [OF t, of qf_config] arg_cong [OF t, of qf_ipsets] by simp_all
  then show "config_view t = config_view s" "ipset_view t = ipset_view s"
    by (simp_all add: config_view_def ct_enabled_def ipset_view_def fun_eq_iff)
qed

interpretation loader: rule_applier "loader_applier flt" bpf_ok rules_view config_view ipset_view base
proof
  fix s t rs
  assume "bpf_ok s" "ra_PushRules (loader_applier flt) rs s = (Inr (), t)"
  then show "mapR toRuleEntry (sortRules rs) = Inr (rules_view t)
      \<and> config_view t = config_view s \<and> ipset_view t = ipset_view s"
    by (simp add: loader_applier_def rules_view_PushRules PushRules_other)
next
  fix s rs e
  assume "mapR toRuleEntry (sortRules rs) = Inl e"
  then show "snd (ra_PushRules (loader_applier flt) rs s) = s"
    by (simp add: loader_applier_def PushRules_def bindS_def wrapS_def)
next
  fix s t cfg
  assume "ra_SetConfig (loader_applier flt) cfg s = (Inr (), t)"
  then have t: "SetConfig flt cfg s = (Inr (), t)" by (simp add: loader_applier_def)
  have "qf_ipsets t = qf_ipsets s" by (subst SetConfig_Inr [OF t]) simp
  then show "config_view t = config_spec cfg \<and> ipset_view t = ipset_view s"
    by (simp add: config_view_SetConfig [OF t] ipset_view_def fun_eq_iff)
next
  fix s t
  assume "ra_ClearIPSets (loader_applier flt) s = (Inr (), t)"
  then have t: "ClearIPSets flt s = (Inr (), t)" by (simp add: loader_applier_def)
  have "qf_ipsets t = []" using arg_cong [OF ClearIPSets_Inr [OF t], of qf_ipsets] by simp
  then show "ipset_view t = (\<lambda>_ _. False)" by (simp add: ipset_view_def lpm_lookup_def fun_eq_iff)
next
  fix s t sid cs i a
  assume "ra_PushIPSet (loader_applier flt) sid cs s = (Inr (), t)"
  then show "ipset_view t i a \<longleftrightarrow> ipset_view s i a \<or> i = sid \<and> list_ex (cidr4_matches a) cs"
    by (simp add: loader_applier_def ipset_view_def PushIPSet_Inr(2))
next
  fix s cs
  show "fst (ra_PushIPSet (loader_applier flt) 0 cs s) \<noteq> Inr ()"
    by (simp add: loader_applier_def PushIPSet_def)
next
  fix s rs cfg sid cs
  assume ok: "bpf_ok s"
  have b: "bpf_ok t \<and> base t = base s" if "base t = base s" for t
    using base_bpf_ok [OF that] that ok by simp
  show "bpf_ok (snd (ra_PushRules (loader_applier flt) rs s))
      \<and> base (snd (ra_PushRules (loader_applier flt) rs s)) = base s
      \<and> bpf_ok (snd (ra_SetConfig (loader_applier flt) cfg s))
      \<and> base (snd (ra_SetConfig (loader_applier flt) cfg s)) = base s
      \<and> bpf_ok (snd (ra_ClearIPSets (loader_applier flt) s))
      \<and> base (snd (ra_ClearIPSets (loader_applier flt) s)) = base s
      \<and> bpf_ok (snd (ra_PushIPSet (loader_applier flt) sid cs s))
      \<and> base (snd (ra_PushIPSet (loader_applier flt) sid cs s)) = base s"
    using b [OF PushRules_base] b [OF conjunct1 [OF SetConfig_base]]
      b [OF conjunct1 [OF ClearIPSets_base]] b [OF conjunct1 [OF PushIPSet_base]]
    by (simp add: loader_applier_def)
next
  fix s cfg sid cs
  have r: "rules_view t = rules_view s" if "base t = base s \<and> ruletab t = ruletab s" for t
    using that by (intro rules_view_cong) simp_all
  show "rules_view (snd (ra_SetConfig (loader_applier flt) cfg s)) = rules_view s
      \<and> rules_view (snd (ra_ClearIPSets (loader_applier flt) s)) = rules_view s
      \<and> rules_view (snd (ra_PushIPSet (loader_applier flt) sid cs s)) = rules_view s"
    using r [OF SetConfig_base] r [OF ClearIPSets_base] r [OF PushIPSet_base]
    by (simp add: loader_applier_def)
qed

end
