(* ===== verification/Qf_Policy.thy ===== *)
theory Qf_Policy
  imports Qf_Compiler Qf_Applier
begin

text \<open>
  What a bundle means, independently of the compiler, and the proof that
  \<open>CompileBundle\<close> keeps that meaning: a rule matches a packet when the packet satisfies
  each criterion as the message states it, whether the compiler keeps a CIDR list inline,
  spills it to an IP set or skips the rule.
\<close>

section \<open>The meaning of a bundle\<close>

definition qcidr_matches :: "u32 \<Rightarrow> qfv1_CIDR \<Rightarrow> bool" where
  "qcidr_matches a c \<longleftrightarrow>
     (case To4 (cidr_ip c) of
        None \<Rightarrow> False
      | Some b \<Rightarrow> unat (cidr_prefix_len c) \<le> 32 \<and> in_prefix (decodeIP4 a) b (unat (cidr_prefix_len c)))"

definition qcidrs_match :: "u32 \<Rightarrow> bool \<Rightarrow> qfv1_CIDR list \<Rightarrow> bool" where
  "qcidrs_match a v6 cs \<longleftrightarrow> cs = [] \<or> (\<not> v6 \<and> list_ex (qcidr_matches a) cs)"

definition qports_match :: "u16 \<Rightarrow> qfv1_PortRange list \<Rightarrow> bool" where
  "qports_match p rs \<longleftrightarrow>
     rs = [] \<or> list_ex (\<lambda>r. unat (pr_start r) \<le> unat p \<and> unat p \<le> unat (pr_end r)) rs"

text \<open>The criteria of a rule that the compiler keeps: all but the TCP flags.\<close>

definition kept_match :: "pkt_ctx \<Rightarrow> qfv1_EffectiveRule \<Rightarrow> bool" where
  "kept_match p er \<longleftrightarrow>
     ucast (er_direction er) = pkt_direction p
     \<and> (let pr = (ucast (rm_protocol (GetMatch er)) :: u8) in pr = 0 \<or> pr = ProtoAny \<or> pr = proto p)
     \<and> qcidrs_match (src_ip4 p) (is_ipv6 p) (rm_src_cidrs (GetMatch er))
     \<and> qcidrs_match (dst_ip4 p) (is_ipv6 p) (rm_dst_cidrs (GetMatch er))
     \<and> qports_match (src_port p) (rm_src_ports (GetMatch er))
     \<and> qports_match (dst_port p) (rm_dst_ports (GetMatch er))
     \<and> state_match (ucast (er_state er)) (pkt_ct_state p)"

text \<open>
  A match as \<^verbatim>\<open>agent.proto\<close> documents it: \<open>tcp_flags_mask\<close> has the bits to inspect,
  \<open>tcp_flags_match\<close> their required value, and both 0 ask for nothing.
\<close>

definition flags_admit :: "pkt_ctx \<Rightarrow> u32 \<Rightarrow> u32 \<Rightarrow> bool" where
  "flags_admit p val msk \<longleftrightarrow> ucast (tcp_flags p) AND msk = val"

definition effective_match :: "pkt_ctx \<Rightarrow> qfv1_EffectiveRule \<Rightarrow> bool" where
  "effective_match p er \<longleftrightarrow> kept_match p er
     \<and> flags_admit p (rm_tcp_flags_match (GetMatch er)) (rm_tcp_flags_mask (GetMatch er))"

lemma flags_admit_0 [simp]: "flags_admit p 0 0"
  by (simp add: flags_admit_def)

section \<open>CIDR lists\<close>

lemma compileCIDR_eq:
  "compileCIDR c =
     (case To4 (cidr_ip c) of
        None \<Rightarrow> None
      | Some b \<Rightarrow> if unat (cidr_prefix_len c) \<le> 32
          then Some \<lparr>IP = map2 (AND) b (CIDRMask (unat (cidr_prefix_len c)) 32),
                     Ones = int (unat (cidr_prefix_len c))\<rparr>
          else None)"
  by (auto simp: compileCIDR_def netParseCIDR_ip4String [simplified] dest!: To4_length split: option.splits)

lemma compileCIDR_matches:
  "compileCIDR c = Some k \<Longrightarrow> cidr4_matches a k \<longleftrightarrow> qcidr_matches a c"
  "compileCIDR c = None \<Longrightarrow> \<not> qcidr_matches a c"
  by (cases "To4 (cidr_ip c)"; use To4_length [of "cidr_ip c"] in
      \<open>force simp: compileCIDR_eq cidr4_matches_def qcidr_matches_def in_prefix_masked split: if_splits\<close>)+

lemma list_ex_map_filter_compileCIDR:
  "list_ex (cidr4_matches a) (List.map_filter compileCIDR cs) \<longleftrightarrow> list_ex (qcidr_matches a) cs"
  by (induction cs) (auto simp: map_filter_simps compileCIDR_matches split: option.splits)

text \<open>
  Allocation of set ids. Ids start at 1 and increase; after 2^32 allocations the id 0
  would be handed out, which \<open>PushIPSet\<close> refuses, so a table without the key 0 has never
  been overwritten.
\<close>

definition set_keys :: "compileState \<Rightarrow> u32 set" where
  "set_keys st = fst ` set (ipsets st)"

definition fresh_inv :: "compileState \<Rightarrow> bool" where
  "fresh_inv st \<longleftrightarrow> distinct (map fst (ipsets st)) \<and>
     (0 \<in> set_keys st \<or> (\<forall>k \<in> set_keys st. k \<le> nextID st))"

definition grows :: "compileState \<Rightarrow> compileState \<Rightarrow> bool" where
  "grows st st' \<longleftrightarrow> (fresh_inv st \<longrightarrow> fresh_inv st' \<and>
     (0 \<in> set_keys st \<longrightarrow> 0 \<in> set_keys st') \<and>
     (0 \<notin> set_keys st' \<longrightarrow> set (ipsets st) \<subseteq> set (ipsets st')))"

lemma grows_refl [simp]: "grows st st"
  by (simp add: grows_def)

lemma grows_trans: "grows a b \<Longrightarrow> grows b c \<Longrightarrow> grows a c"
  unfolding grows_def by blast

lemma set_update_fresh: "k \<notin> fst ` set xs \<Longrightarrow> set (AList.update k v xs) = insert (k, v) (set xs)"
  by (induction xs) auto

lemma fst_set_update: "fst ` set (AList.update k v xs) = insert k (fst ` set xs)"
  by (induction xs) auto

lemma allocIPSet_grows:
  assumes "allocIPSet cs st = (i, st')"
  shows "grows st st'" and "fresh_inv st \<Longrightarrow> 0 \<notin> set_keys st' \<Longrightarrow> (i, cs) \<in> set (ipsets st') \<and> i \<noteq> 0"
proof -
  have st': "i = nextID st + 1" "nextID st' = i" "ipsets st' = AList.update i cs (ipsets st)"
    using assms by (auto simp: allocIPSet_def Let_def)
  have keys: "set_keys st' = insert i (set_keys st)" by (simp add: set_keys_def st'(3) fst_set_update)
  have new: "i \<notin> fst ` set (ipsets st) \<and> (\<forall>k \<in> set_keys st'. k \<le> nextID st')"
    if "fresh_inv st" "0 \<notin> set_keys st'"
  proof -
    have n: "\<forall>k \<in> set_keys st. k \<le> nextID st" "i \<noteq> 0" using that keys by (auto simp: fresh_inv_def)
    then have "nextID st < i" using st'(1) unatSuc [of "nextID st"] by (simp add: word_less_nat_alt add.commute)
    then show ?thesis using n(1) keys st'(2) by (fastforce simp: set_keys_def)
  qed
  have sub: "set (ipsets st') = insert (i, cs) (set (ipsets st))" if "fresh_inv st" "0 \<notin> set_keys st'"
    using new [OF that] by (simp add: st'(3) set_update_fresh)
  have d: "distinct (map fst (ipsets st'))" if "fresh_inv st"
    using that by (simp add: st'(3) fresh_inv_def distinct_update)
  show "grows st st'" unfolding grows_def
    using new sub d keys by (auto simp: fresh_inv_def)
  show "(i, cs) \<in> set (ipsets st') \<and> i \<noteq> 0" if "fresh_inv st" "0 \<notin> set_keys st'"
    using sub [OF that] that(2) keys by auto
qed

lemma compileCIDRs_grows: "compileCIDRs cs f st = (x, st') \<Longrightarrow> grows st st'"
  by (auto simp: compileCIDRs_def Let_def split: if_splits prod.splits dest: allocIPSet_grows(1))

text \<open>\<open>V\<close> answers membership as the finished table of sets does.\<close>

definition agrees :: "(u32 \<Rightarrow> u32 \<Rightarrow> bool) \<Rightarrow> compileState \<Rightarrow> bool" where
  "agrees V st \<longleftrightarrow> 0 \<notin> set_keys st \<and> (\<forall>(k, cs) \<in> set (ipsets st). \<forall>a. V k a \<longleftrightarrow> list_ex (cidr4_matches a) cs)"

lemma agrees_grows: "grows st st' \<Longrightarrow> fresh_inv st \<Longrightarrow> agrees V st' \<Longrightarrow> agrees V st"
  unfolding grows_def agrees_def by blast

lemma fresh_grows: "grows st st' \<Longrightarrow> fresh_inv st \<Longrightarrow> fresh_inv st'"
  by (simp add: grows_def)

lemma compileCIDRs_matches:
  assumes c: "compileCIDRs cs f st = ((out, sid, None), st')"
    and inv: "fresh_inv st" and V: "agrees V st'"
  shows "cidrs_match a v6 out \<and> set_match V sid a v6 \<longleftrightarrow> qcidrs_match a v6 cs"
proof -
  define fs where "fs = List.map_filter compileCIDR cs"
  have fs: "list_ex (cidr4_matches a) fs \<longleftrightarrow> list_ex (qcidr_matches a) cs"
    unfolding fs_def by (rule list_ex_map_filter_compileCIDR)
  consider "cs = []" "out = []" "sid = 0"
    | "cs \<noteq> []" "fs \<noteq> []" "allocIPSet fs st = (sid, st')" "out = []"
    | "cs \<noteq> []" "fs \<noteq> []" "out = fs" "sid = 0"
    using c by (auto simp: compileCIDRs_def Let_def fs_def [symmetric] split: if_splits prod.splits)
  then show ?thesis
  proof cases
    case 2
    have "(sid, fs) \<in> set (ipsets st')" "sid \<noteq> 0"
      using allocIPSet_grows(2) [OF 2(3) inv] V by (auto simp: agrees_def)
    then have "V sid a \<longleftrightarrow> list_ex (cidr4_matches a) fs" "sid \<noteq> 0" using V by (auto simp: agrees_def)
    then show ?thesis using 2 fs by (simp add: cidrs_match_def set_match_def qcidrs_match_def)
  qed (simp_all add: cidrs_match_def set_match_def qcidrs_match_def fs)
qed

lemma compileCIDRs_skipped:
  assumes "compileCIDRs cs f st = ((out, sid, Some w), st')"
  shows "\<not> qcidrs_match a v6 cs"
proof -
  from assms have "cs \<noteq> []" "List.map_filter compileCIDR cs = []"
    by (auto simp: compileCIDRs_def Let_def split: if_splits prod.splits)
  then show ?thesis using list_ex_map_filter_compileCIDR [of a cs] by (simp add: qcidrs_match_def)
qed

section \<open>Ports\<close>

lemma compilePort_range:
  assumes "compilePort p = Inr r"
  shows "Start r \<le> x \<and> x \<le> End r \<longleftrightarrow> unat (pr_start p) \<le> unat x \<and> unat x \<le> unat (pr_end p)"
proof -
  from assms have r: "r = \<lparr>Start = ucast (pr_start p), End = ucast (pr_end p)\<rparr>"
    and s: "unat (pr_start p) \<le> 65535" "unat (pr_end p) \<le> 65535"
    by (auto simp: compilePort_def word_less_nat_alt split: if_splits)
  have "unat (ucast w :: u16) = unat w" if "unat w \<le> 65535" for w :: u32
    using that by (simp add: unsigned_ucast_eq take_bit_nat_eq_self)
  then show ?thesis using s by (simp add: r word_le_nat_alt)
qed

lemma compilePorts_match:
  assumes "compilePorts ps = Inr rs"
  shows "ports_match x rs \<longleftrightarrow> qports_match x ps"
proof -
  from assms have l: "list_all2 (\<lambda>p r. compilePort p = Inr r) ps rs"
    by (simp add: compilePorts_def mapR_Inr split: if_splits)
  then have e: "ps = [] \<longleftrightarrow> rs = []" by auto
  have "list_ex (\<lambda>r. Start r \<le> x \<and> x \<le> End r) rs \<longleftrightarrow>
        list_ex (\<lambda>r. unat (pr_start r) \<le> unat x \<and> unat x \<le> unat (pr_end r)) ps"
    using list_ex_list_all2 [OF l compilePort_range [symmetric]] by simp
  then show ?thesis using e by (simp add: ports_match_def qports_match_def)
qed

section \<open>Rules\<close>

lemma compileRule_cases:
  assumes "compileRule ero prio st = (Inr c, st')"
  obtains er srcs ssid st1 w where "ero = Some er"
      "compileCIDRs (rm_src_cidrs (GetMatch er)) ''src_cidrs'' st = ((srcs, ssid, Some w), st')"
      "c = Skip w"
  | er srcs ssid st1 dsts dsid w where "ero = Some er"
      "compileCIDRs (rm_src_cidrs (GetMatch er)) ''src_cidrs'' st = ((srcs, ssid, None), st1)"
      "compileCIDRs (rm_dst_cidrs (GetMatch er)) ''dst_cidrs'' st1 = ((dsts, dsid, Some w), st')"
      "c = Skip w"
  | er uid srcs ssid st1 dsts dsid sports dports where "ero = Some er"
      "parseUUID (er_rule_id er) = Inr uid"
      "compileCIDRs (rm_src_cidrs (GetMatch er)) ''src_cidrs'' st = ((srcs, ssid, None), st1)"
      "compileCIDRs (rm_dst_cidrs (GetMatch er)) ''dst_cidrs'' st1 = ((dsts, dsid, None), st')"
      "compilePorts (rm_src_ports (GetMatch er)) = Inr sports"
      "compilePorts (rm_dst_ports (GetMatch er)) = Inr dports"
      "c = Spec \<lparr>ID = uid, Priority = prio, Action = ucast (er_action er),
                   LogEnabled = er_log_enabled er,
                   LogRateLimit = ucast (er_log_rate_limit_per_sec er),
                   Match = \<lparr>Protocol = (if (ucast (rm_protocol (GetMatch er)) :: u8) = 0 then ProtoAny
                                        else ucast (rm_protocol (GetMatch er))),
                     Direction = ucast (er_direction er),
                     State = (if (ucast (er_state er) :: u8) = 0 then CTNone else ucast (er_state er)),
                     SrcCIDRs = srcs, DstCIDRs = dsts, SrcPorts = sports, DstPorts = dports,
                     SrcIPSetID = ssid, DstIPSetID = dsid\<rparr>\<rparr>"
  using assms unfolding compileRule_def Let_def
  by (auto split: option.splits if_splits sum.splits prod.splits)

lemma compileRule_grows: "compileRule ero prio st = (Inr c, st') \<Longrightarrow> grows st st'"
  by (erule compileRule_cases) (auto intro: grows_trans compileCIDRs_grows)

lemma compileRule_Skip:
  assumes "compileRule ero prio st = (Inr (Skip w), st')"
  shows "\<exists>er. ero = Some er \<and> \<not> kept_match p er"
  using assms by (cases rule: compileRule_cases) (auto simp: kept_match_def compileCIDRs_skipped)

lemma compileRule_Spec:
  assumes c: "compileRule ero prio st = (Inr (Spec r), st')"
    and inv: "fresh_inv st" and V: "agrees V st'"
  shows "\<exists>er. ero = Some er \<and> Action r = ucast (er_action er) \<and> Priority r = prio
              \<and> (\<forall>p. spec_match V p r \<longleftrightarrow> kept_match p er)"
  using c
proof (cases rule: compileRule_cases)
  case (3 er uid srcs ssid st1 dsts dsid sports dports)
  have g: "grows st st1" "grows st1 st'" using 3(3,4) compileCIDRs_grows by blast+
  have f1: "fresh_inv st1" using fresh_grows [OF g(1) inv] .
  note src = compileCIDRs_matches [OF 3(3) inv agrees_grows [OF g(2) f1 V]]
  note dst = compileCIDRs_matches [OF 3(4) f1 V]
  note ports = compilePorts_match [OF 3(5)] compilePorts_match [OF 3(6)]
  have st: "state_match (if x = 0 then CTNone else x) y \<longleftrightarrow> state_match x y" for x y
    by (auto simp: state_match_def CTNone_def)
  have pr: "(if x = 0 then ProtoAny else x) = ProtoAny \<or> (if x = 0 then ProtoAny else x) = y \<longleftrightarrow>
        x = 0 \<or> x = ProtoAny \<or> x = y" for x y :: u8 by auto
  have "spec_match V p r \<longleftrightarrow> kept_match p er" for p
    using 3(7) unfolding spec_match_def kept_match_def Let_def src [symmetric] dst [symmetric]
      ports [symmetric] by (simp add: st pr) blast
  then show ?thesis using 3 by auto
qed auto

section \<open>Bundles\<close>

lemma compileRules_Cons_Inr:
  assumes "compileRules i (ero # ers) st = Inr (rs, ws, st')"
  obtains c st1 rs' ws' where "compileRule ero (of_nat i) st = (Inr c, st1)"
    and "compileRules (Suc i) ers st1 = Inr (rs', ws', st')"
    and "rs = (case c of Spec r \<Rightarrow> r # rs' | Skip w \<Rightarrow> rs')"
  using assms
  by (fastforce simp: bindR_eq_Inr split: prod.splits sum.splits compiled.splits)

lemma compileRules_grows: "compileRules i ers st = Inr (rs, ws, st') \<Longrightarrow> grows st st'"
proof (induction ers arbitrary: i st rs ws)
  case (Cons ero ers)
  from Cons.prems show ?case
    by (rule compileRules_Cons_Inr) (blast intro: grows_trans compileRule_grows Cons.IH)
qed simp

text \<open>First match over the messages; a nil rule never survives compilation.\<close>

fun first_rule :: "pkt_ctx \<Rightarrow> qfv1_EffectiveRule option list \<Rightarrow> qfv1_EffectiveRule option" where
  "first_rule p [] = None"
| "first_rule p (None # ers) = first_rule p ers"
| "first_rule p (Some er # ers) = (if kept_match p er then Some er else first_rule p ers)"

lemma compileRules_first:
  assumes "compileRules i ers st = Inr (rs, ws, st')" and "fresh_inv st" and "agrees V st'"
  shows "map_option Action (List.find (spec_match V p) rs) =
         map_option (\<lambda>er. ucast (er_action er)) (first_rule p ers)"
  using assms
proof (induction ers arbitrary: i st rs ws)
  case (Cons ero ers)
  from Cons.prems(1) obtain c st1 rs' ws' where c: "compileRule ero (of_nat i) st = (Inr c, st1)"
    and rest: "compileRules (Suc i) ers st1 = Inr (rs', ws', st')"
    and rs: "rs = (case c of Spec r \<Rightarrow> r # rs' | Skip w \<Rightarrow> rs')"
    by (rule compileRules_Cons_Inr)
  have f1: "fresh_inv st1" by (rule fresh_grows [OF compileRule_grows [OF c] Cons.prems(2)])
  note IH = Cons.IH [OF rest f1 Cons.prems(3)]
  have V1: "agrees V st1" by (rule agrees_grows [OF compileRules_grows [OF rest] f1 Cons.prems(3)])
  show ?case
  proof (cases c)
    case (Skip w)
    with compileRule_Skip c obtain er where "ero = Some er" "\<not> kept_match p er" by blast
    then show ?thesis using IH rs Skip by simp
  next
    case (Spec r)
    with compileRule_Spec [of ero "of_nat i" st r st1 V] c Cons.prems(2) V1
    obtain er where "ero = Some er" "Action r = ucast (er_action er)"
      "spec_match V p r \<longleftrightarrow> kept_match p er" by blast
    then show ?thesis using IH rs Spec by simp
  qed
qed simp

lemma sint_of_nat_i32:
  assumes "i < 2 ^ 31" shows "sint (of_nat i :: i32) = int i"
proof -
  have "signed_take_bit 31 (int i) = int i" using assms by (intro signed_take_bit_int_eq_self) auto
  then show ?thesis by (simp add: signed_of_nat)
qed

lemma compileRules_priorities:
  assumes "compileRules i ers st = Inr (rs, ws, st')" and "i + length ers \<le> 2 ^ 31"
  shows "sorted (map (\<lambda>r. sint (Priority r)) rs) \<and> (\<forall>r \<in> set rs. int i \<le> sint (Priority r))"
  using assms
proof (induction ers arbitrary: i st rs ws)
  case (Cons ero ers)
  from Cons.prems(1) obtain c st1 rs' ws' where c: "compileRule ero (of_nat i) st = (Inr c, st1)"
    and rest: "compileRules (Suc i) ers st1 = Inr (rs', ws', st')"
    and rs: "rs = (case c of Spec r \<Rightarrow> r # rs' | Skip w \<Rightarrow> rs')"
    by (rule compileRules_Cons_Inr)
  have IH: "sorted (map (\<lambda>r. sint (Priority r)) rs')" "\<forall>r \<in> set rs'. int (Suc i) \<le> sint (Priority r)"
    using Cons.IH [OF rest] Cons.prems(2) by simp_all
  have "sint (Priority r) = int i" if "c = Spec r" for r
  proof -
    have "Priority r = of_nat i" using c that by (auto elim: compileRule_cases)
    then show ?thesis using Cons.prems(2) by (simp add: sint_of_nat_i32)
  qed
  then show ?case using IH rs by (cases c) auto
qed simp

text \<open>
  \<open>PushRules\<close> sorts by priority; on a compiled bundle that is the order of the bundle.
\<close>

lemma sortRules_compiled:
  assumes "CompileBundle (Some b) = Inr res" and "length (pb_rules b) \<le> 2 ^ 31"
  shows "sortRules (Rules res) = Rules res"
proof -
  from assms(1) obtain ws st where "compileRules 0 (pb_rules b) \<lparr>nextID = 0, ipsets = []\<rparr> = Inr (Rules res, ws, st)"
    by (auto simp: CompileBundle_def bindR_eq_Inr)
  then have "sorted (map (\<lambda>r. sint (Priority r)) (Rules res))"
    using compileRules_priorities assms(2) by fastforce
  then show ?thesis unfolding sortRules_def by (rule sort_key_id_if_sorted)
qed

lemma CompileBundle_first:
  assumes c: "CompileBundle (Some b) = Inr res"
    and z: "0 \<notin> fst ` set (IPSets res)"
    and V: "\<And>k a. V k a \<longleftrightarrow> (\<exists>cs. (k, cs) \<in> set (IPSets res) \<and> list_ex (cidr4_matches a) cs)"
  shows "map_option Action (List.find (spec_match V p) (Rules res)) =
         map_option (\<lambda>er. ucast (er_action er)) (first_rule p (pb_rules b))"
proof -
  from c obtain ws st where r: "compileRules 0 (pb_rules b) \<lparr>nextID = 0, ipsets = []\<rparr> = Inr (Rules res, ws, st)"
    and st: "IPSets res = ipsets st"
    by (auto simp: CompileBundle_def bindR_eq_Inr)
  have inv: "fresh_inv \<lparr>nextID = 0, ipsets = []\<rparr>" by (simp add: fresh_inv_def set_keys_def)
  have "distinct (map fst (ipsets st))"
    using fresh_grows [OF compileRules_grows [OF r] inv] by (simp add: fresh_inv_def)
  then have "agrees V st" using z st unfolding agrees_def set_keys_def V
    by (auto dest: eq_key_imp_eq_value)
  then show ?thesis by (rule compileRules_first [OF r inv])
qed

end
