(* ===== verification/Qf_Handler.thy ===== *)
theory Qf_Handler
  imports Qf_Policy
begin

text \<open>
  The policy handler (agent/internal/handler/policy.go): \<open>Apply\<close> compiles a bundle and
  drives a \<open>RuleApplier\<close>. The lemmas that hold of any applier are proved in the locale; the
  properties are their instances for the loader, composed with the BPF datapath.
\<close>

section \<open>The handler\<close>

record ApplyResult =
  ar_Generation :: i64
  ar_Warnings :: "(nat \<times> string \<times> warning) list"
  ar_DurationMs :: u32
  ar_AppliedAt :: int
  ar_Rules :: "RuleSpec list"

text \<open>The state behind the applier is part of the handler's.\<close>

record 's PolicyHandler =
  applier :: 's
  current :: "ApplyResult option"

definition NewPolicyHandler :: "'s \<Rightarrow> 's PolicyHandler" where
  "NewPolicyHandler s = \<lparr>applier = s, current = None\<rparr>"

text \<open>
  \<open>iter\<close> is the order in which \<open>range\<close> visits the map of sets. The clock is read three
  times, in nanoseconds: at the start, for the duration and for \<open>AppliedAt\<close>.
\<close>

record clock3 =
  clk_start :: int
  clk_since :: int
  clk_applied :: int

definition push_all :: "'s RuleApplier \<Rightarrow> ((u32 \<times> CIDR4 list) list \<Rightarrow> (u32 \<times> CIDR4 list) list) \<Rightarrow> CompileResult \<Rightarrow> ('s, unit) st" where
  "push_all A iter res =
     bindS (wrapS ''clear ipsets'' (ra_ClearIPSets A)) (\<lambda>_.
     bindS (forS (\<lambda>(i, cs). wrapS ''push ipset'' (ra_PushIPSet A i cs)) (iter (IPSets res))) (\<lambda>_.
     bindS (wrapS ''set config'' (ra_SetConfig A (CConfig res))) (\<lambda>_.
     wrapS ''push rules'' (ra_PushRules A (Rules res)))))"

definition Apply ::
  "'s RuleApplier \<Rightarrow> ((u32 \<times> CIDR4 list) list \<Rightarrow> (u32 \<times> CIDR4 list) list) \<Rightarrow> clock3 \<Rightarrow>
   qfv1_PolicyBundle option \<Rightarrow> ('s PolicyHandler, ApplyResult) st" where
  "Apply A iter clk bo h =
     (case CompileBundle bo of
        Inl e \<Rightarrow> (Inl (Wrapf ''compile bundle'' e), h)
      | Inr res \<Rightarrow>
          (case push_all A iter res (applier h) of
             (Inl e, s) \<Rightarrow> (Inl e, h\<lparr>applier := s\<rparr>)
           | (Inr _, s) \<Rightarrow>
               (let ar = \<lparr>ar_Generation = (case bo of None \<Rightarrow> 0 | Some b \<Rightarrow> pb_generation b),
                          ar_Warnings = Warnings res,
                          ar_DurationMs = of_int ((clk_since clk - clk_start clk) div 1000000),
                          ar_AppliedAt = clk_applied clk, ar_Rules = Rules res\<rparr>
                in (Inr ar, h\<lparr>applier := s, current := Some ar\<rparr>))))"

definition MakeBundleApplied :: "i64 \<Rightarrow> ApplyResult res \<Rightarrow> qfv1_BundleApplied" where
  "MakeBundleApplied gen r =
     (case r of
        Inl e \<Rightarrow> \<lparr>ba_generation = gen, ba_success = False, ba_error = Some e, ba_duration_ms = 0\<rparr>
      | Inr ar \<Rightarrow> \<lparr>ba_generation = ar_Generation ar, ba_success = True, ba_error = None,
                   ba_duration_ms = ar_DurationMs ar\<rparr>)"

section \<open>What holds of every applier\<close>

lemma push_all_Inr:
  assumes "push_all A iter res s = (Inr (), t)"
  obtains s1 s2 s3 where "ra_ClearIPSets A s = (Inr (), s1)"
    and "forS (\<lambda>(i, cs). wrapS ''push ipset'' (ra_PushIPSet A i cs)) (iter (IPSets res)) s1 = (Inr (), s2)"
    and "ra_SetConfig A (CConfig res) s2 = (Inr (), s3)"
    and "ra_PushRules A (Rules res) s3 = (Inr (), t)"
  using assms unfolding push_all_def bindS_Inr wrapS_Inr by auto

lemma Apply_Inr:
  assumes "Apply A iter clk bo h = (Inr ar, h')"
  obtains res where "CompileBundle bo = Inr res"
    and "push_all A iter res (applier h) = (Inr (), applier h')"
    and "current h' = Some ar"
    and "ar_Rules ar = Rules res" and "ar_Warnings ar = Warnings res"
    and "ar_Generation ar = (case bo of None \<Rightarrow> 0 | Some b \<Rightarrow> pb_generation b)"
  using assms unfolding Apply_def Let_def by (auto split: sum.splits prod.splits)

context rule_applier
begin

lemma push_all_views:
  assumes "ok s" and "push_all A iter res s = (Inr (), t)" and iter: "\<And>xs. set (iter xs) = set xs"
  shows "ok t \<and> frame t = frame s
    \<and> mapR toRuleEntry (sortRules (Rules res)) = Inr (rulesv t)
    \<and> configv t = config_spec (CConfig res)
    \<and> (ipsetv t i a \<longleftrightarrow> (\<exists>cs. (i, cs) \<in> set (IPSets res) \<and> list_ex (cidr4_matches a) cs))
    \<and> 0 \<notin> fst ` set (IPSets res)"
proof -
  from assms(2) obtain s1 s2 s3 where s1: "ra_ClearIPSets A s = (Inr (), s1)"
    and s2: "forS (\<lambda>(i, cs). wrapS ''push ipset'' (ra_PushIPSet A i cs)) (iter (IPSets res)) s1 = (Inr (), s2)"
    and s3: "ra_SetConfig A (CConfig res) s2 = (Inr (), s3)"
    and t: "ra_PushRules A (Rules res) s3 = (Inr (), t)" by (rule push_all_Inr)
  have k1: "ok s1" "frame s1 = frame s" using keeps [OF assms(1)] s1 by (metis snd_conv)+
  have v1: "ipsetv s1 = (\<lambda>_ _. False)" by (rule clear_ipsets [OF assms(1) s1])
  have k2: "ok s2" "frame s2 = frame s" "0 \<notin> fst ` set (IPSets res)"
    using push_ipset_fold [OF k1(1) s2] k1 iter by auto
  have v2: "ipsetv s2 i a \<longleftrightarrow> (\<exists>cs. (i, cs) \<in> set (IPSets res) \<and> list_ex (cidr4_matches a) cs)"
    using push_ipset_fold [OF k1(1) s2, of i a] v1 iter by simp
  have k3: "ok s3" "frame s3 = frame s" using keeps [OF k2(1)] s3 k2(2) by (metis snd_conv)+
  have v3: "configv s3 = config_spec (CConfig res)" "ipsetv s3 = ipsetv s2"
    using set_config [OF k2(1) s3] by simp_all
  have k4: "ok t" "frame t = frame s" using keeps [OF k3(1)] t k3(2) by (metis snd_conv)+
  show ?thesis using push_rules [OF k3(1) t] k4 k2(3) v2 v3 by simp
qed

text \<open>
  A failure leaves the rules as they were unless it happened inside \<open>PushRules\<close> after
  validation; \<open>ok\<close> and the frame hold on every path.
\<close>

lemma forS_push_ipset_keeps:
  assumes "ok s"
  shows "ok (snd (forS (\<lambda>(i, cs). wrapS m (ra_PushIPSet A i cs)) sets s))
    \<and> frame (snd (forS (\<lambda>(i, cs). wrapS m (ra_PushIPSet A i cs)) sets s)) = frame s
    \<and> rulesv (snd (forS (\<lambda>(i, cs). wrapS m (ra_PushIPSet A i cs)) sets s)) = rulesv s"
  by (rule forS_invariant [where P = "\<lambda>u. ok u \<and> frame u = frame s \<and> rulesv u = rulesv s"])
    (use assms keeps keeps_rules in auto)

lemma push_all_keeps:
  assumes "ok s"
  shows "ok (snd (push_all A iter res s)) \<and> frame (snd (push_all A iter res s)) = frame s"
  unfolding push_all_def
  by (intro bindS_invariant [where P = "\<lambda>u. ok u \<and> frame u = frame s"])
    (use assms keeps forS_push_ipset_keeps in auto)

lemma push_all_invalid_keeps_rules:
  assumes "ok s" and "mapR toRuleEntry (sortRules (Rules res)) = Inl e"
  shows "rulesv (snd (push_all A iter res s)) = rulesv s"
proof -
  have "ok (snd (push_all A iter res s)) \<and> rulesv (snd (push_all A iter res s)) = rulesv s"
    unfolding push_all_def
    by (intro bindS_invariant [where P = "\<lambda>u. ok u \<and> rulesv u = rulesv s"])
      (use assms keeps keeps_rules forS_push_ipset_keeps push_rules_invalid in auto)
  then show ?thesis by simp
qed

end

section \<open>The datapath on an applied bundle\<close>

lemma eval_loop_findi:
  "eval_loop s p i n = map_option (\<lambda>(j, r). (j, e_action r))
     (findi (\<lambda>r. match_rule (qf_ipsets s) p (e_match r)) i (map (\<lambda>j. qf_rules s (of_nat j)) [i..<i + n]))"
proof (induction n arbitrary: i)
  case (Suc n)
  have "[i..<i + Suc n] = i # [Suc i..<Suc i + n]" by (simp add: upt_conv_Cons)
  then show ?case by (simp add: Suc.IH Let_def)
qed simp

lemma eval_rules_find:
  assumes "list_all (\<lambda>e. e_action e \<noteq> 0) (rules_view s)"
  shows "map_option snd (eval_rules s p) =
         map_option e_action (List.find (\<lambda>r. match_rule (qf_ipsets s) p (e_match r)) (rules_view s))"
proof -
  let ?f = "findi (\<lambda>r. match_rule (qf_ipsets s) p (e_match r)) 0 (rules_view s)"
  have l: "eval_loop s p 0 (eval_bound s) = map_option (\<lambda>(j, r). (j, e_action r)) ?f"
    by (simp add: eval_loop_findi rules_view_def)
  have "eval_rules s p = map_option (\<lambda>(j, r). (j, e_action r)) ?f"
  proof (cases ?f)
    case (Some x)
    then obtain j r where x: "?f = Some (j, r)" by (cases x) auto
    then have "r \<in> set (rules_view s)" using findi_Some [OF x] by auto
    then show ?thesis using x l assms by (simp add: eval_rules_def list_all_iff)
  qed (simp add: eval_rules_def l)
  then show ?thesis
    by (simp add: findi_find [symmetric, where i = 0] option.map_comp comp_def case_prod_unfold)
qed

lemma default_action_view:
  "default_action s p = (if pkt_direction p = DirIngress then fst (snd (config_view s)) else snd (snd (config_view s)))"
  by (simp add: default_action_def config_view_def Let_def)

lemma run_datapath_verdict:
  "fst (run_datapath env (Some p0) s) =
     (let p = p0\<lparr>pkt_ct_state := (if ct_enabled s then ct_lookup s p0 else 0)\<rparr>;
          act = (case map_option snd (eval_rules s p) of Some a \<Rightarrow> a | None \<Rightarrow> default_action s p)
      in if act = ActionDeny then TC_ACT_SHOT else TC_ACT_OK)"
  by (simp add: run_datapath_def Let_def apply_action_def split: option.splits)

text \<open>The part of the maps that no packet changes.\<close>

definition policy_part :: "bpf \<Rightarrow> nat \<times> (u32 \<Rightarrow> rule_entry) \<times> u32 \<times> (u32 \<Rightarrow> u32) \<times> lpm_key list" where
  "policy_part s = (maxRules s, qf_rules s, qf_rule_count s, qf_config s, qf_ipsets s)"

lemma policy_part_views:
  assumes "policy_part s = policy_part t"
  shows "rules_view s = rules_view t" "config_view s = config_view t" "ipset_view s = ipset_view t"
    "bpf_ok s = bpf_ok t"
  using assms
  by (auto simp: policy_part_def rules_view_def config_view_def ipset_view_def eval_bound_def
      ct_enabled_def bpf_ok_def fun_eq_iff)

lemma policy_part_steps:
  "policy_part (ct_update now ev p s) = policy_part s"
  "policy_part (snd (check_rate_limit cpu now idx rate s)) = policy_part s"
  "policy_part (bump_counter cpu idx sz s) = policy_part s"
  by (auto simp: policy_part_def ct_update_def check_rate_limit_def bump_counter_def Let_def
      split: prod.splits option.splits if_splits)

lemma policy_part_emit_log: "policy_part (emit_log cpu now room p idx r act ct s) = policy_part s"
  using policy_part_steps(2) [of cpu now idx "e_log_rate_limit r" s]
  by (auto simp: emit_log_def Let_def policy_part_def split: prod.splits)

lemma policy_part_run: "policy_part (snd (run_datapath env pk s)) = policy_part s"
  by (auto simp: run_datapath_def apply_action_def Let_def policy_part_emit_log policy_part_steps
      split: option.splits prod.splits)

fun run_packets :: "(pkt_env \<times> pkt_ctx option) list \<Rightarrow> bpf \<Rightarrow> bpf" where
  "run_packets [] s = s"
| "run_packets ((env, pk) # ps) s = run_packets ps (snd (run_datapath env pk s))"

lemma policy_part_run_packets: "policy_part (run_packets ps s) = policy_part s"
  by (induction ps s rule: run_packets.induct) (auto simp: policy_part_run)

definition bundle_default :: "qfv1_PolicyBundle \<Rightarrow> pkt_ctx \<Rightarrow> u8" where
  "bundle_default b p =
     (let a = (if pkt_direction p = DirIngress then pb_default_ingress_action b
               else pb_default_egress_action b)
      in if (ucast a :: u8) = 0 then ActionAllow else ucast a)"

text \<open>What the datapath makes of a bundle: the first match decides, and only deny drops.\<close>

definition first_match_verdict :: "qfv1_PolicyBundle \<Rightarrow> pkt_ctx \<Rightarrow> verdict" where
  "first_match_verdict b p =
     (let act = (case first_rule p (pb_rules b) of
                   Some er \<Rightarrow> ucast (er_action er) | None \<Rightarrow> bundle_default b p)
      in if act = ActionDeny then TC_ACT_SHOT else TC_ACT_OK)"

text \<open>
  The verdict as \<^verbatim>\<open>common.proto\<close> and \<^verbatim>\<open>agent.proto\<close> document it: allow and deny are terminal, log
  is not, the first terminal match wins, and the default applies if there is none.
\<close>

definition terminal_rule :: "qfv1_EffectiveRule \<Rightarrow> bool" where
  "terminal_rule er \<longleftrightarrow> er_action er = ACTION_ALLOW \<or> er_action er = ACTION_DENY"

definition decides :: "pkt_ctx \<Rightarrow> qfv1_EffectiveRule option \<Rightarrow> bool" where
  "decides p ero \<longleftrightarrow> (case ero of None \<Rightarrow> False | Some er \<Rightarrow> effective_match p er \<and> terminal_rule er)"

definition bundle_verdict :: "qfv1_PolicyBundle \<Rightarrow> pkt_ctx \<Rightarrow> verdict" where
  "bundle_verdict b p =
     (case List.find (decides p) (pb_rules b) of
        Some (Some er) \<Rightarrow> if er_action er = ACTION_DENY then TC_ACT_SHOT else TC_ACT_OK
      | _ \<Rightarrow> if bundle_default b p = ActionDeny then TC_ACT_SHOT else TC_ACT_OK)"

text \<open>A bundle on which documentation and datapath agree: every rule allows or denies, and none asks for TCP flags.\<close>

definition plain_rule :: "qfv1_EffectiveRule \<Rightarrow> bool" where
  "plain_rule er \<longleftrightarrow> terminal_rule er \<and> rm_tcp_flags_match (GetMatch er) = 0 \<and> rm_tcp_flags_mask (GetMatch er) = 0"

definition plain_bundle :: "qfv1_PolicyBundle \<Rightarrow> bool" where
  "plain_bundle b \<longleftrightarrow> list_all (pred_option plain_rule) (pb_rules b)"

lemma first_rule_in: "first_rule p ers = Some er \<Longrightarrow> Some er \<in> set ers"
  by (induction p ers rule: first_rule.induct) (auto split: if_splits)

lemma plain_first: "list_all (pred_option plain_rule) ers \<Longrightarrow> List.find (decides p) ers = map_option Some (first_rule p ers)"
  by (induction p ers rule: first_rule.induct) (auto simp: decides_def plain_rule_def effective_match_def)

lemma plain_verdict:
  assumes "plain_bundle b"
  shows "first_match_verdict b p = bundle_verdict b p"
proof -
  have "(ucast (er_action er) :: u8) = ActionDeny \<longleftrightarrow> er_action er = ACTION_DENY" if "first_rule p (pb_rules b) = Some er" for er
  proof -
    have "pred_option plain_rule (Some er)"
      using first_rule_in [OF that] assms unfolding plain_bundle_def list_all_iff by (rule bspec [rotated])
    then show ?thesis
      by (auto simp: plain_rule_def terminal_rule_def ACTION_ALLOW_def ACTION_DENY_def ActionDeny_def)
  qed
  then show ?thesis using plain_first [OF assms [unfolded plain_bundle_def], of p]
    by (simp add: first_match_verdict_def bundle_verdict_def Let_def split: option.split)
qed

lemma bundleConfig_views:
  "config_spec (bundleConfig b) = (pb_requires_conntrack b,
     (if (ucast (pb_default_ingress_action b) :: u8) = 0 then ActionAllow else ucast (pb_default_ingress_action b)),
     (if (ucast (pb_default_egress_action b) :: u8) = 0 then ActionAllow else ucast (pb_default_egress_action b)))"
  by (simp add: bundleConfig_def config_spec_def DefaultConfig_def ACTION_UNSPECIFIED_def ActionAllow_def Let_def)

lemma verdict_of_views:
  assumes rules: "list_all2 (\<lambda>r e. toRuleEntry r = Inr e) rs (rules_view s)"
    and cfg: "config_view s = config_spec (bundleConfig b)"
    and first: "\<And>p. map_option Action (List.find (spec_match (ipset_view s) p) rs) =
                     map_option (\<lambda>er. ucast (er_action er)) (first_rule p (pb_rules b))"
  shows "fst (run_datapath env (Some p) s) =
         first_match_verdict b (p\<lparr>pkt_ct_state := (if pb_requires_conntrack b then ct_lookup s p else 0)\<rparr>)"
proof -
  have ne: "list_all (\<lambda>e. e_action e \<noteq> 0) (rules_view s)"
    using rules by (auto simp: list_all_iff list_all2_conv_all_nth in_set_conv_nth dest!: toRuleEntry_match(3))
  have "map_option e_action (List.find (\<lambda>r. match_rule (qf_ipsets s) q (e_match r)) (rules_view s)) =
        map_option Action (List.find (spec_match (ipset_view s) q) rs)" for q
    using find_list_all2 [OF rules, of "spec_match (ipset_view s) q" "\<lambda>r. match_rule (qf_ipsets s) q (e_match r)"]
    by (auto simp: toRuleEntry_match option_rel_Some1 dest: toRuleEntry_match(2)
        elim!: option.rel_cases)
  then have ev: "map_option snd (eval_rules s q) = map_option (\<lambda>er. ucast (er_action er)) (first_rule q (pb_rules b))" for q
    by (simp add: eval_rules_find [OF ne] first)
  have d: "default_action s q = bundle_default b q" for q
    by (simp add: default_action_view cfg bundleConfig_views bundle_default_def Let_def)
  have ct: "ct_enabled s = pb_requires_conntrack b"
    using cfg by (simp add: config_view_def bundleConfig_views)
  show ?thesis
    unfolding run_datapath_verdict first_match_verdict_def ev d ct Let_def
    by (simp split: option.splits)
qed

lemma Apply_views:
  assumes "bpf_ok (applier h)" and "\<And>xs. mset (iter xs) = mset xs"
    and "is_ok (fst (Apply (loader_applier flt) iter clk (Some b) h))"
  obtains res where "CompileBundle (Some b) = Inr res"
    and "\<And>s. policy_part s = policy_part (applier (snd (Apply (loader_applier flt) iter clk (Some b) h))) \<Longrightarrow>
          mapR toRuleEntry (sortRules (Rules res)) = Inr (rules_view s)
          \<and> config_view s = config_spec (CConfig res)
          \<and> (\<forall>i a. ipset_view s i a \<longleftrightarrow> (\<exists>cs. (i, cs) \<in> set (IPSets res) \<and> list_ex (cidr4_matches a) cs))"
    and "0 \<notin> fst ` set (IPSets res)"
proof -
  obtain ar h' where A: "Apply (loader_applier flt) iter clk (Some b) h = (Inr ar, h')"
    using assms(3) by (cases "Apply (loader_applier flt) iter clk (Some b) h") (auto simp: is_ok_iff)
  from A obtain res where c: "CompileBundle (Some b) = Inr res"
    and p: "push_all (loader_applier flt) iter res (applier h) = (Inr (), applier h')"
    by (rule Apply_Inr)
  have iter: "set (iter xs) = set xs" for xs using assms(2) [of xs] by (metis set_mset_mset)
  note v = loader.push_all_views [OF assms(1) p iter]
  show thesis
  proof (rule that [OF c])
    show "0 \<notin> fst ` set (IPSets res)" using v by blast
    fix s assume "policy_part s = policy_part (applier (snd (Apply (loader_applier flt) iter clk (Some b) h)))"
    then have s: "policy_part s = policy_part (applier h')" using A by simp
    show "mapR toRuleEntry (sortRules (Rules res)) = Inr (rules_view s)
        \<and> config_view s = config_spec (CConfig res)
        \<and> (\<forall>i a. ipset_view s i a \<longleftrightarrow> (\<exists>cs. (i, cs) \<in> set (IPSets res) \<and> list_ex (cidr4_matches a) cs))"
      unfolding policy_part_views [OF s] using v by blast
  qed
qed

end
