(* ===== verification/Qf_Total.thy ===== *)
theory Qf_Total
  imports Qf_Handler
begin

text \<open>
  When \<open>Apply\<close> succeeds: a well-formed bundle within the capacities of the maps compiles and
  is pushed completely when no system call fails. The conditions are on the messages and
  on the trie; the lemmas follow the steps of \<open>Apply\<close>.
\<close>

section \<open>Well-formed bundles\<close>

definition ports_valid :: "qfv1_PortRange list \<Rightarrow> bool" where
  "ports_valid ps \<longleftrightarrow> length ps \<le> 8 \<and>
     list_all (\<lambda>p. pr_start p \<le> pr_end p \<and> pr_end p \<le> 65535) ps"

definition rule_valid :: "qfv1_EffectiveRule \<Rightarrow> bool" where
  "rule_valid er \<longleftrightarrow>
     er_action er \<in> {ACTION_ALLOW, ACTION_DENY, ACTION_LOG}
     \<and> er_direction er \<in> {DIRECTION_INGRESS, DIRECTION_EGRESS}
     \<and> rm_protocol (GetMatch er) \<in> {PROTOCOL_UNSPECIFIED, PROTOCOL_ANY, PROTOCOL_TCP, PROTOCOL_UDP,
          PROTOCOL_ICMP, PROTOCOL_ICMPV6}
     \<and> is_ok (parseUUID (er_rule_id er))
     \<and> ports_valid (rm_src_ports (GetMatch er)) \<and> ports_valid (rm_dst_ports (GetMatch er))"

definition cidr_count :: "qfv1_EffectiveRule \<Rightarrow> nat" where
  "cidr_count er = length (rm_src_cidrs (GetMatch er)) + length (rm_dst_cidrs (GetMatch er))"

definition bundle_valid :: "nat \<Rightarrow> qfv1_PolicyBundle \<Rightarrow> bool" where
  "bundle_valid n b \<longleftrightarrow> length (pb_rules b) \<le> n
     \<and> list_all (\<lambda>ero. case ero of None \<Rightarrow> False | Some er \<Rightarrow> rule_valid er) (pb_rules b)
     \<and> sum_list (map (\<lambda>ero. case ero of None \<Rightarrow> 0 | Some er \<Rightarrow> cidr_count er) (pb_rules b)) \<le> MaxIPSetEntries"

section \<open>Compilation succeeds\<close>

definition cidr_valid :: "CIDR4 \<Rightarrow> bool" where
  "cidr_valid c \<longleftrightarrow> To4 (IP c) \<noteq> None \<and> 0 \<le> Ones c \<and> Ones c \<le> 32"

lemma uint_le_32 [simp]: "unat (w :: u32) \<le> 32 \<Longrightarrow> uint w \<le> 32"
  by (metis int_nat_eq nat_le_iff of_nat_numeral unat_eq_nat_uint)

lemma compileCIDR_valid: "compileCIDR c = Some k \<Longrightarrow> cidr_valid k"
  using To4_length [of "cidr_ip c"]
  by (cases "To4 (cidr_ip c)") (force simp: compileCIDR_eq cidr_valid_def split: if_splits)+

lemma map_filter_compileCIDR_valid: "list_all cidr_valid (List.map_filter compileCIDR cs)"
  by (induction cs) (auto simp: map_filter_simps compileCIDR_valid split: option.splits)

lemma length_map_filter: "length (List.map_filter f xs) \<le> length xs"
  by (induction xs) (auto simp: map_filter_simps split: option.splits)

lemma mapR_encode_valid: "list_all cidr_valid cs \<Longrightarrow> is_ok (mapR encodeCIDR4 cs)"
proof (induction cs)
  case (Cons c cs)
  then have "is_ok (encodeCIDR4 c)" by (auto simp: encodeCIDR4_def cidr_valid_def)
  then show ?case using Cons by (auto simp: is_ok_iff)
qed simp

lemma compilePorts_valid:
  assumes "ports_valid ps"
  shows "\<exists>rs. compilePorts ps = Inr rs \<and> length rs \<le> 8 \<and> list_all port_ok rs"
proof -
  have "\<exists>r. compilePort p = Inr r \<and> port_ok r" if "p \<in> set ps" for p
  proof -
    have le: "pr_start p \<le> pr_end p" "pr_end p \<le> 65535" using assms that by (auto simp: ports_valid_def list_all_iff)
    then have c: "compilePort p = Inr \<lparr>Start = ucast (pr_start p), End = ucast (pr_end p)\<rparr>"
      by (auto simp: compilePort_def)
    have "unat (ucast w :: u16) = unat w" if "unat w \<le> 65535" for w :: u32
      using that by (simp add: unsigned_ucast_eq take_bit_nat_eq_self)
    then have "port_ok \<lparr>Start = ucast (pr_start p), End = ucast (pr_end p)\<rparr>"
      using le by (simp add: port_ok_def word_le_nat_alt)
    then show ?thesis using c by blast
  qed
  then obtain g where g: "\<And>p. p \<in> set ps \<Longrightarrow> compilePort p = Inr (g p) \<and> port_ok (g p)" by metis
  then have "mapR compilePort ps = Inr (map g ps)" by (intro mapR_ok) simp
  then show ?thesis using g assms by (auto simp: compilePorts_def ports_valid_def list_all_iff)
qed

text \<open>What the table of sets looks like while rules are compiled.\<close>

definition table_ok :: "nat \<Rightarrow> compileState \<Rightarrow> bool" where
  "table_ok k st \<longleftrightarrow> unat (nextID st) \<le> k \<and> 0 \<notin> set_keys st
     \<and> list_all (\<lambda>(i, cs). list_all cidr_valid cs) (ipsets st)"

definition table_size :: "compileState \<Rightarrow> nat" where
  "table_size st = sum_list (map (\<lambda>(i, cs). length cs) (ipsets st))"

lemma update_size:
  "sum_list (map (\<lambda>(i, cs). length cs) (AList.update k v xs)) \<le>
   sum_list (map (\<lambda>(i, cs). length cs) xs) + length v"
  by (induction xs) auto

lemma update_all:
  "list_all (\<lambda>(i, cs). P cs) xs \<Longrightarrow> P v \<Longrightarrow> list_all (\<lambda>(i, cs). P cs) (AList.update k v xs)"
  by (induction xs) auto

lemma compileCIDRs_valid:
  assumes "compileCIDRs cs f st = ((out, sid, w), st')" and "table_ok k st" and "k + 1 < 2 ^ 32"
  shows "table_ok (k + 1) st'" and "table_size st' \<le> table_size st + length cs"
    and "list_all cidr_valid out" and "length out \<le> 8"
proof -
  define fs where "fs = List.map_filter compileCIDR cs"
  have fs: "list_all cidr_valid fs" "length fs \<le> length cs"
    by (simp_all add: fs_def map_filter_compileCIDR_valid length_map_filter)
  have id: "nextID st + 1 \<noteq> 0" "unat (nextID st + 1) \<le> k + 1"
  proof -
    have "unat (nextID st) + 1 < 2 ^ 32" using assms(2,3) by (simp add: table_ok_def)
    then have "unat (nextID st + 1) = unat (nextID st) + 1" by (simp add: unat_word_ariths)
    then show "nextID st + 1 \<noteq> 0" "unat (nextID st + 1) \<le> k + 1" 
      using assms(2) by (auto simp: table_ok_def)
  qed
  consider "st' = st" "out = [] \<or> (out = fs \<and> length fs \<le> 8)"
    | "st' = st\<lparr>nextID := nextID st + 1, ipsets := AList.update (nextID st + 1) fs (ipsets st)\<rparr>" "out = []"
    using assms(1)
    by (auto simp: compileCIDRs_def Let_def fs_def [symmetric] allocIPSet_def IPSetInlineMax_def split: if_splits)
  then have "table_ok (k + 1) st' \<and> table_size st' \<le> table_size st + length cs \<and>
    list_all cidr_valid out \<and> length out \<le> 8"
  proof cases
    case 1
    then show ?thesis using assms(2) fs by (auto simp: table_ok_def)
  next
    case 2
    have "table_size st' \<le> table_size st + length fs" using update_size by (simp add: 2 table_size_def)
    then show ?thesis using assms(2) fs id
      by (auto simp: 2 table_ok_def set_keys_def fst_set_update update_all)
  qed
  then show "table_ok (k + 1) st'" "table_size st' \<le> table_size st + length cs"
    "list_all cidr_valid out" "length out \<le> 8" by auto
qed

lemma ucast_enum:
  "(ucast (0 :: i32) :: u8) = 0" "(ucast (1 :: i32) :: u8) = 1" "(ucast (2 :: i32) :: u8) = 2"
  "(ucast (3 :: i32) :: u8) = 3" "(ucast (4 :: i32) :: u8) = 4" "(ucast (5 :: i32) :: u8) = 5"
  by simp_all

lemma toRuleEntry_ok:
  assumes "validateRule r = Inr ()" and "mapR encodeCIDR4 (SrcCIDRs (Match r)) = Inr es"
    and "mapR encodeCIDR4 (DstCIDRs (Match r)) = Inr ed"
  shows "is_ok (toRuleEntry r)"
  by (simp add: toRuleEntry_def assms)

lemma compileRule_valid:
  assumes v: "rule_valid er" and t: "table_ok k st" and k: "k + 2 < 2 ^ 32"
  shows "\<exists>c st'. compileRule (Some er) prio st = (Inr c, st') \<and> table_ok (k + 2) st'
    \<and> table_size st' \<le> table_size st + cidr_count er
    \<and> (\<forall>r. c = Spec r \<longrightarrow> is_ok (toRuleEntry r))"
proof -
  obtain srcs ssid sw st1 where c1: "compileCIDRs (rm_src_cidrs (GetMatch er)) ''src_cidrs'' st = ((srcs, ssid, sw), st1)"
    by (metis prod.exhaust)
  obtain dsts dsid dw st2 where c2: "compileCIDRs (rm_dst_cidrs (GetMatch er)) ''dst_cidrs'' st1 = ((dsts, dsid, dw), st2)"
    by (metis prod.exhaust)
  have k1: "k + 1 < 2 ^ 32" "k + 1 + 1 < 2 ^ 32" using k by simp_all
  note s = compileCIDRs_valid [OF c1 t k1(1)]
  note d = compileCIDRs_valid [OF c2 s(1) k1(2)]
  obtain uid where u: "parseUUID (er_rule_id er) = Inr uid" using v by (auto simp: rule_valid_def is_ok_iff)
  obtain sports dports where
    sp: "compilePorts (rm_src_ports (GetMatch er)) = Inr sports" "length sports \<le> 8" "list_all port_ok sports" and
    dp: "compilePorts (rm_dst_ports (GetMatch er)) = Inr dports" "length dports \<le> 8" "list_all port_ok dports"
    using v compilePorts_valid unfolding rule_valid_def by metis
  obtain es ed where enc: "mapR encodeCIDR4 srcs = Inr es" "mapR encodeCIDR4 dsts = Inr ed"
    using mapR_encode_valid [OF s(3)] mapR_encode_valid [OF d(3)] by (auto simp: is_ok_iff)
  have act: "(ucast (er_action er) :: u8) \<in> {ActionAllow, ActionDeny, ActionLog}"
    and dir: "(ucast (er_direction er) :: u8) \<in> {DirIngress, DirEgress}"
    and pr: "(if (ucast (rm_protocol (GetMatch er)) :: u8) = 0 then ProtoAny else ucast (rm_protocol (GetMatch er)))
       \<in> {ProtoAny, ProtoTCP, ProtoUDP, ProtoICMP, ProtoICMPv6}"
    using v by (auto simp: rule_valid_def enum_defs loader_consts)
  have nz: "(ucast (er_action er) :: u8) \<noteq> 0" "(ucast (er_direction er) :: u8) \<noteq> 0"
    using act dir by (auto simp: loader_consts)
  have ok1: "table_ok (k + 2) st1" using s(1) by (simp add: table_ok_def)
  have ok2: "table_ok (k + 2) st2" using d(1) by (simp add: table_ok_def)
  have sz: "table_size st1 \<le> table_size st + cidr_count er" "table_size st2 \<le> table_size st + cidr_count er"
    using s(2) d(2) by (simp_all add: cidr_count_def)
  show ?thesis
  proof (cases "sw = None \<and> dw = None")
    case True
    then obtain r where r: "compileRule (Some er) prio st = (Inr (Spec r), st2)"
      and m: "Action r = ucast (er_action er)" "Direction (Match r) = ucast (er_direction er)"
        "Protocol (Match r) = (if (ucast (rm_protocol (GetMatch er)) :: u8) = 0 then ProtoAny
                               else ucast (rm_protocol (GetMatch er)))"
        "SrcCIDRs (Match r) = srcs" "DstCIDRs (Match r) = dsts"
        "SrcPorts (Match r) = sports" "DstPorts (Match r) = dports"
      using nz u c1 c2 sp(1) dp(1) by (simp add: compileRule_def Let_def)
    have "validateRule r = Inr ()"
      unfolding validateRule_Inr Let_def m using act dir pr s(4) d(4) sp dp by blast
    then have "is_ok (toRuleEntry r)" by (rule toRuleEntry_ok) (simp_all add: m enc)
    then show ?thesis using r ok2 sz(2) by auto
  next
    case False
    then show ?thesis using nz u c1 c2 ok1 ok2 sz
      by (cases sw; cases dw) (auto simp: compileRule_def Let_def)
  qed
qed

lemma compileRules_valid:
  assumes "list_all (\<lambda>ero. case ero of None \<Rightarrow> False | Some er \<Rightarrow> rule_valid er) ers"
    and "table_ok k st" and "k + 2 * length ers < 2 ^ 32"
  shows "\<exists>rs ws st'. compileRules i ers st = Inr (rs, ws, st') \<and> table_ok (k + 2 * length ers) st'
    \<and> table_size st' \<le> table_size st + sum_list (map (\<lambda>ero. case ero of None \<Rightarrow> 0 | Some er \<Rightarrow> cidr_count er) ers)
    \<and> length rs \<le> length ers \<and> list_all (\<lambda>r. is_ok (toRuleEntry r)) rs"
  using assms
proof (induction ers arbitrary: i k st)
  case (Cons ero ers)
  then obtain er where er: "ero = Some er" "rule_valid er" by (cases ero) auto
  have "k + 2 < 2 ^ 32" using Cons.prems(3) by simp
  with compileRule_valid [OF er(2) Cons.prems(2)] obtain c st1 where
    c: "compileRule (Some er) (of_nat i) st = (Inr c, st1)" "table_ok (k + 2) st1"
      "table_size st1 \<le> table_size st + cidr_count er" "\<forall>r. c = Spec r \<longrightarrow> is_ok (toRuleEntry r)"
    by blast
  have "k + 2 + 2 * length ers < 2 ^ 32" using Cons.prems(3) by simp
  with Cons.IH [OF _ c(2)] Cons.prems(1) obtain rs ws st' where
    r: "compileRules (Suc i) ers st1 = Inr (rs, ws, st')" "table_ok (k + 2 + 2 * length ers) st'"
      "table_size st' \<le> table_size st1 + sum_list (map (\<lambda>ero. case ero of None \<Rightarrow> 0 | Some er \<Rightarrow> cidr_count er) ers)"
      "length rs \<le> length ers" "list_all (\<lambda>r. is_ok (toRuleEntry r)) rs"
    by fastforce
  have t: "table_ok (k + 2 * length (ero # ers)) st'" using r(2) by (simp add: algebra_simps)
  show ?case
  proof (cases c)
    case (Spec x)
    then show ?thesis using c r t er(1) by (simp add: compileRules.simps(2))
  next
    case (Skip w)
    then show ?thesis using c r t er(1) by (simp add: compileRules.simps(2))
  qed
qed simp

section \<open>The pushes succeed\<close>

lemma forS_ok:
  assumes "\<And>x u. x \<in> set xs \<Longrightarrow> P u \<Longrightarrow> fst (f x u) = Inr () \<and> P (snd (f x u))" and "P s"
  shows "\<exists>t. forS f xs s = (Inr (), t) \<and> P t"
  using assms
proof (induction xs arbitrary: s)
  case (Cons x xs)
  obtain u where u: "f x s = (Inr (), u)" "P u"
    using Cons.prems(1) [of x s] Cons.prems(2) by (cases "f x s") auto
  show ?case using Cons.IH [OF _ u(2)] Cons.prems(1) u(1) by (simp add: bindS_def)
qed simp

lemma PushRules_ok:
  assumes "list_all (\<lambda>r. is_ok (toRuleEntry r)) rs" and "length rs \<le> maxRules s" and "bpf_ok s"
  shows "fst (PushRules (\<lambda>_. False) rs s) = Inr ()"
proof -
  have "\<forall>r \<in> set (sortRules rs). \<exists>e. toRuleEntry r = Inr e"
    using assms(1) by (auto simp: list_all_iff is_ok_iff sortRules_def)
  then obtain g where "\<And>r. r \<in> set (sortRules rs) \<Longrightarrow> toRuleEntry r = Inr (g r)" by metis
  then have m: "mapR toRuleEntry (sortRules rs) = Inr (map g (sortRules rs))" by (rule mapR_ok)
  define es where "es = map g (sortRules rs)"
  have len: "length es \<le> MaxRules" using assms(2,3) by (auto simp: es_def sortRules_def bpf_ok_def MaxRules_def)
  have "\<exists>t. forS (\<lambda>(i, e). qf_rules_Put (\<lambda>_. False) (of_nat i) e) (enumerate 0 es) s = (Inr (), t) \<and> True"
  proof (rule forS_ok)
    fix x u assume "x \<in> set (enumerate 0 es)"
    then have "fst x < length es" by (simp add: in_set_enumerate_eq)
    then obtain i e where x: "x = (i, e)" "i < length es" by (cases x) simp
    have "unat (of_nat i :: u32) = i" using x len by (intro unat_of_nat_index) simp
    then show "fst ((\<lambda>(i, e). qf_rules_Put (\<lambda>_. False) (of_nat i) e) x u) = Inr () \<and> True"
      using x len by (simp add: qf_rules_Put_def sysS_def Let_def)
  qed simp
  then show ?thesis using assms(2) m
    by (auto simp: PushRules_def es_def bindS_def wrapS_def qf_rule_count_Put_def sysS_def Let_def)
qed

lemma SetConfig_ok: "fst (SetConfig (\<lambda>_. False) cfg s) = Inr ()"
  by (simp add: SetConfig_def bindS_def wrapS_def qf_config_Put_def sysS_def Let_def)

text \<open>
  The trie never holds two nodes for the same prefix (\<open>Update\<close> overwrites), which is what
  makes the deletions of \<open>ClearIPSets\<close> find every key they were given.
\<close>

definition trie_ok :: "bpf \<Rightarrow> bool" where
  "trie_ok s \<longleftrightarrow> distinct (qf_ipsets s) \<and> (\<forall>a \<in> set (qf_ipsets s). \<forall>b \<in> set (qf_ipsets s). lpm_same a b \<longrightarrow> a = b)
     \<and> length (qf_ipsets s) \<le> MaxIPSetEntries"

lemma trie_ok_Update: "trie_ok s \<Longrightarrow> trie_ok (snd (qf_ipsets_Update flt k s))"
  unfolding qf_ipsets_Update_def sysS_def Let_def trie_ok_def
  by (auto simp: list_ex_iff dest: lpm_same_sym)

lemma forS_Delete_ok:
  assumes "distinct ks" and "\<And>a b. a \<in> set ks \<Longrightarrow> b \<in> set ks \<Longrightarrow> lpm_same a b \<Longrightarrow> a = b"
    and "set ks \<subseteq> set (qf_ipsets s)"
  shows "fst (forS (\<lambda>k. wrapS m (qf_ipsets_Delete (\<lambda>_. False) k)) ks s) = Inr ()"
  using assms
proof (induction ks arbitrary: s)
  case (Cons k ks)
  have "list_ex (lpm_same k) (qf_ipsets s)" using Cons.prems(3) lpm_same_refl [of k] unfolding list_ex_iff by (meson list.set_intros(1) subsetD)
  then have d: "qf_ipsets_Delete (\<lambda>_. False) k s =
      (Inr (), s\<lparr>syscalls := Suc (syscalls s), qf_ipsets := filter (\<lambda>x. \<not> lpm_same k x) (qf_ipsets s)\<rparr>)"
    by (simp add: qf_ipsets_Delete_def sysS_def Let_def)
  have "\<not> lpm_same k b" if "b \<in> set ks" for b using that Cons.prems(1,2) by (metis distinct.simps(2) list.set_intros)
  then have "set ks \<subseteq> set (filter (\<lambda>x. \<not> lpm_same k x) (qf_ipsets s))" using Cons.prems(3) by auto
  then show ?case using Cons.IH Cons.prems(1,2) by (simp add: bindS_def wrapS_def d)
qed simp

lemma ClearIPSets_ok:
  assumes "trie_ok s"
  shows "\<exists>t. ClearIPSets (\<lambda>_. False) s = (Inr (), t) \<and> qf_ipsets t = []"
proof -
  have "fst (forS (\<lambda>k. wrapS ''delete ipset entry'' (qf_ipsets_Delete (\<lambda>_. False) k)) (qf_ipsets s)
      (s\<lparr>syscalls := Suc (syscalls s)\<rparr>)) = Inr ()"
    using assms by (intro forS_Delete_ok) (auto simp: trie_ok_def)
  then have "fst (ClearIPSets (\<lambda>_. False) s) = Inr ()"
    by (simp add: ClearIPSets_def bindS_def wrapS_def qf_ipsets_Iterate_def sysS_def Let_def)
  then obtain t where t: "ClearIPSets (\<lambda>_. False) s = (Inr (), t)" by (metis prod.collapse)
  then show ?thesis using arg_cong [OF ClearIPSets_Inr [OF t], of qf_ipsets] by auto
qed

lemma pushCIDR_ok:
  assumes "cidr_valid c" and "length (qf_ipsets s) < MaxIPSetEntries"
  shows "\<exists>t. pushCIDR (\<lambda>_. False) sid c s = (Inr (), t) \<and> length (qf_ipsets t) \<le> Suc (length (qf_ipsets s))"
  using assms by (auto simp: pushCIDR_def cidr_valid_def wrapS_def qf_ipsets_Update_def sysS_def Let_def)

lemma forS_pushCIDR_ok:
  assumes "list_all cidr_valid cs" and "length (qf_ipsets s) + length cs \<le> MaxIPSetEntries"
  shows "\<exists>t. forS (pushCIDR (\<lambda>_. False) sid) cs s = (Inr (), t)
             \<and> length (qf_ipsets t) \<le> length (qf_ipsets s) + length cs"
  using assms
proof (induction cs arbitrary: s)
  case (Cons c cs)
  then obtain u where u: "pushCIDR (\<lambda>_. False) sid c s = (Inr (), u)" "length (qf_ipsets u) \<le> Suc (length (qf_ipsets s))"
    using pushCIDR_ok [of c s sid] by auto
  obtain t where "forS (pushCIDR (\<lambda>_. False) sid) cs u = (Inr (), t)"
    "length (qf_ipsets t) \<le> length (qf_ipsets u) + length cs"
    using Cons.IH [of u] Cons.prems u(2) by auto
  then show ?case using u by (simp add: bindS_def)
qed simp

lemma forS_PushIPSet_ok:
  assumes "list_all (\<lambda>(i, cs). i \<noteq> 0 \<and> list_all cidr_valid cs) sets"
    and "length (qf_ipsets s) + sum_list (map (\<lambda>(i, cs). length cs) sets) \<le> MaxIPSetEntries"
  shows "\<exists>t. forS (\<lambda>(i, cs). wrapS m (PushIPSet (\<lambda>_. False) i cs)) sets s = (Inr (), t)"
  using assms
proof (induction sets arbitrary: s)
  case (Cons x sets)
  obtain i cs where x: "x = (i, cs)" by (cases x)
  with Cons.prems obtain u where "forS (pushCIDR (\<lambda>_. False) i) cs s = (Inr (), u)"
    "length (qf_ipsets u) \<le> length (qf_ipsets s) + length cs"
    using forS_pushCIDR_ok [of cs s i] by auto
  moreover have "i \<noteq> 0" using Cons.prems x by simp
  ultimately show ?case using Cons.IH [of u] Cons.prems x
    by (simp add: bindS_def wrapS_def PushIPSet_def)
qed simp

lemma push_all_ok:
  assumes ok: "bpf_ok s" and trie: "trie_ok s"
    and rules: "list_all (\<lambda>r. is_ok (toRuleEntry r)) (Rules res)" "length (Rules res) \<le> maxRules s"
    and sets: "list_all (\<lambda>(i, cs). i \<noteq> 0 \<and> list_all cidr_valid cs) (IPSets res)"
      "sum_list (map (\<lambda>(i, cs). length cs) (IPSets res)) \<le> MaxIPSetEntries"
    and iter: "\<And>xs. mset (iter xs) = mset xs"
  shows "\<exists>t. push_all (loader_applier (\<lambda>_. False)) iter res s = (Inr (), t)"
proof -
  obtain s1 where s1: "ClearIPSets (\<lambda>_. False) s = (Inr (), s1)" "qf_ipsets s1 = []"
    using ClearIPSets_ok [OF trie] by blast
  have "set (iter (IPSets res)) = set (IPSets res)" using iter by (metis set_mset_mset)
  moreover have "sum_list (map (\<lambda>(i, cs). length cs) (iter (IPSets res))) = sum_list (map (\<lambda>(i, cs). length cs) (IPSets res))"
    by (metis iter mset_map sum_mset_sum_list)
  ultimately obtain s2 where s2: "forS (\<lambda>(i, cs). wrapS ''push ipset'' (PushIPSet (\<lambda>_. False) i cs)) (iter (IPSets res)) s1 = (Inr (), s2)"
    using forS_PushIPSet_ok [of "iter (IPSets res)" s1 "''push ipset''"] sets s1(2) by (auto simp: list_all_iff)
  obtain s3 where s3: "SetConfig (\<lambda>_. False) (CConfig res) s2 = (Inr (), s3)"
    using SetConfig_ok by (metis prod.collapse)
  have b1: "base s1 = base s" using ClearIPSets_base [of "\<lambda>_. False" s] s1 by simp
  have b2: "base s2 = base s"
    using forS_invariant [where P = "\<lambda>u. base u = base s" and xs = "iter (IPSets res)" and s = s1
        and f = "\<lambda>(i, cs). wrapS ''push ipset'' (PushIPSet (\<lambda>_. False) i cs)"] PushIPSet_base b1 s2 by fastforce
  have b3: "base s3 = base s" using SetConfig_base [of "\<lambda>_. False" "CConfig res" s2] s3 b2 by simp
  have "maxRules s3 = maxRules s" using b3 by (simp add: base_def)
  then obtain t where "PushRules (\<lambda>_. False) (Rules res) s3 = (Inr (), t)"
    using PushRules_ok [OF rules(1), of s3] rules(2) base_bpf_ok [OF b3] ok by (metis prod.collapse)
  then show ?thesis using s1 s2 s3 by (simp add: push_all_def loader_applier_def bindS_def wrapS_def)
qed

section \<open>The states the loader can reach\<close>

text \<open>
  Every operation of the loader, with any pattern of failing system calls, and every packet,
  from the freshly loaded object (\<open>Load\<close> writes \<open>DefaultConfig\<close> into the new maps).
\<close>

inductive loader_reach :: "bpf \<Rightarrow> bool" where
  load: "n = 64 \<or> n = 32 \<Longrightarrow> SetConfig flt DefaultConfig (init_bpf n cpus) = (Inr (), s) \<Longrightarrow> loader_reach s"
| push_rules: "loader_reach s \<Longrightarrow> loader_reach (snd (PushRules flt rs s))"
| set_config: "loader_reach s \<Longrightarrow> loader_reach (snd (SetConfig flt cfg s))"
| push_ipset: "loader_reach s \<Longrightarrow> loader_reach (snd (PushIPSet flt sid cs s))"
| clear_ipsets: "loader_reach s \<Longrightarrow> loader_reach (snd (ClearIPSets flt s))"
| packet: "loader_reach s \<Longrightarrow> loader_reach (snd (run_datapath env pk s))"

definition loader_inv :: "bpf \<Rightarrow> bool" where
  "loader_inv s \<longleftrightarrow> bpf_ok s \<and> trie_ok s \<and> unat (qf_rule_count s) \<le> maxRules s"

lemma trie_ok_cong: "qf_ipsets s = qf_ipsets t \<Longrightarrow> trie_ok s = trie_ok t"
  by (simp add: trie_ok_def)

lemma trie_ok_Delete: "trie_ok s \<Longrightarrow> trie_ok (snd (qf_ipsets_Delete flt k s))"
proof -
  assume t: "trie_ok s"
  have "length (filter P (qf_ipsets s)) \<le> MaxIPSetEntries" for P
    using t length_filter_le order_trans unfolding trie_ok_def by blast
  then show ?thesis using t by (auto simp: qf_ipsets_Delete_def sysS_def Let_def trie_ok_def)
qed

lemma inv_ops:
  assumes "loader_inv s"
  shows "loader_inv (snd (qf_config_Put flt i v s))" "loader_inv (snd (qf_ipsets_Iterate flt s))"
    "loader_inv (snd (qf_rules_Put flt i e s))" "loader_inv (snd (qf_ipsets_Update flt k s))"
    "loader_inv (snd (qf_ipsets_Delete flt k s))"
proof -
  have t: "trie_ok s" and b: "bpf_ok s" and c: "unat (qf_rule_count s) \<le> maxRules s"
    using assms by (simp_all add: loader_inv_def)
  have cong: "loader_inv u" if "trie_ok u" "base u = base s" "qf_rule_count u = qf_rule_count s" for u
    using that b c base_bpf_ok [OF that(2)] by (simp add: loader_inv_def base_def)
  show "loader_inv (snd (qf_config_Put flt i v s))"
    by (rule cong) (use t in \<open>auto simp: base_ops trie_ok_def qf_config_Put_def sysS_def Let_def\<close>)
  show "loader_inv (snd (qf_ipsets_Iterate flt s))"
    by (rule cong) (use t in \<open>auto simp: base_ops trie_ok_def qf_ipsets_Iterate_def sysS_def Let_def\<close>)
  show "loader_inv (snd (qf_rules_Put flt i e s))"
    by (rule cong) (use t in \<open>auto simp: base_ops trie_ok_def qf_rules_Put_def sysS_def Let_def\<close>)
  show "loader_inv (snd (qf_ipsets_Update flt k s))"
    by (rule cong) (use trie_ok_Update [OF t] ruletab_ops(2) [of flt k s] in \<open>auto simp: base_ops ruletab_def\<close>)
  show "loader_inv (snd (qf_ipsets_Delete flt k s))"
    by (rule cong) (use trie_ok_Delete [OF t] ruletab_ops(3) [of flt k s] in \<open>auto simp: base_ops ruletab_def\<close>)
qed

lemma loader_inv_SetConfig: "loader_inv s \<Longrightarrow> loader_inv (snd (SetConfig flt cfg s))"
  unfolding SetConfig_def Let_def
  by (intro bindS_invariant [where P = loader_inv]) (auto simp: inv_ops)

lemma loader_inv_ClearIPSets: "loader_inv s \<Longrightarrow> loader_inv (snd (ClearIPSets flt s))"
  unfolding ClearIPSets_def
  by (intro bindS_invariant [where P = loader_inv] forS_invariant [where P = loader_inv]) (auto simp: inv_ops)

lemma loader_inv_PushIPSet: "loader_inv s \<Longrightarrow> loader_inv (snd (PushIPSet flt sid cs s))"
  unfolding PushIPSet_def
  by (auto intro!: forS_invariant [where P = loader_inv] simp: pushCIDR_def inv_ops)

lemma loader_inv_PushRules:
  assumes "loader_inv s"
  shows "loader_inv (snd (PushRules flt rs s))"
proof (cases "maxRules s < length rs \<or> \<not> is_ok (mapR toRuleEntry (sortRules rs))")
  case True
  then show ?thesis using assms
    by (cases "mapR toRuleEntry (sortRules rs)") (auto simp: PushRules_def bindS_def wrapS_def)
next
  case False
  then obtain es where es: "mapR toRuleEntry (sortRules rs) = Inr es" and le: "length rs \<le> maxRules s"
    by (auto simp: is_ok_iff)
  have l: "length es \<le> maxRules s" using mapR_length [OF es] le by (simp add: sortRules_def)
  let ?w = "forS (\<lambda>(i, e). qf_rules_Put flt (of_nat i) e) (enumerate 0 es)"
  have w: "loader_inv (snd (?w s)) \<and> base (snd (?w s)) = base s"
    by (intro forS_invariant [where P = "\<lambda>u. loader_inv u \<and> base u = base s"])
      (use assms in \<open>auto simp: inv_ops base_ops\<close>)
  have "length es < MaxRules" using l assms by (auto simp: loader_inv_def bpf_ok_def MaxRules_def)
  then have n: "unat (of_nat (length es) :: u32) = length es" by (rule unat_of_nat_index)
  have "loader_inv (snd (qf_rule_count_Put flt (of_nat (length es)) u))"
    if "loader_inv u \<and> base u = base s" for u
    using that l n by (auto simp: qf_rule_count_Put_def sysS_def Let_def loader_inv_def trie_ok_def bpf_ok_def base_def)
  then show ?thesis using False es w
    by (cases "?w s"; cases "fst (?w s)") (auto simp: PushRules_def bindS_def wrapS_def case_prod_unfold)
qed

lemma loader_inv_packet: "loader_inv s \<Longrightarrow> loader_inv (snd (run_datapath env pk s))"
  using policy_part_run [of env pk s] by (auto simp: loader_inv_def policy_part_def bpf_ok_def trie_ok_def)

lemma loader_inv_reach: "loader_reach s \<Longrightarrow> loader_inv s"
proof (induction rule: loader_reach.induct)
  case (load n flt cpus s)
  have "loader_inv (init_bpf n cpus)" using load(1)
    by (auto simp: loader_inv_def init_bpf_def bpf_ok_def trie_ok_def)
  then show ?case using loader_inv_SetConfig [of "init_bpf n cpus" flt DefaultConfig] load(2) by simp
qed (simp_all add: loader_inv_SetConfig loader_inv_ClearIPSets loader_inv_PushIPSet loader_inv_PushRules loader_inv_packet)

lemma loader_inv_eval_bound: "loader_inv s \<Longrightarrow> eval_bound s = unat (qf_rule_count s)"
  by (auto simp: loader_inv_def bpf_ok_def eval_bound_def MaxRules_def)

section \<open>Properties of the loader\<close>

lemma PushRules_too_many: "maxRules s < length rs \<Longrightarrow> \<not> is_ok (fst (PushRules flt rs s)) \<and> snd (PushRules flt rs s) = s"
  by (simp add: PushRules_def)

lemma PushRules_scanned:
  assumes "bpf_ok s" and "PushRules flt rs s = (Inr (), t)"
  shows "eval_bound t = length rs"
proof -
  have "length (rules_view t) = length rs"
    using mapR_length [OF rules_view_PushRules [OF assms(2,1)]] by (simp add: sortRules_def)
  then show ?thesis by (simp add: rules_view_def)
qed

text \<open>
  C3. In every state the loader reaches, by any sequence of its operations with any system
  calls failing and any packets in between: the number of entries the datapath scans is
  the published rule count (no published rule is cut off by the bound of either build),
  the object is one of the two builds, and the trie holds at most one node per prefix
  within its capacity. A push of more rules than the build evaluates is refused before any
  map is written, and a successful push has all its rules scanned. (The comment on
  \<open>PushRules\<close> says that rules beyond the bound are written but not evaluated; the code
  rejects them.)
\<close>

theorem loader_published_rules_scanned:
  assumes "loader_reach s"
  shows "eval_bound s = unat (qf_rule_count s) \<and> bpf_ok s \<and> trie_ok s
    \<and> (\<forall>flt rs. maxRules s < length rs \<longrightarrow> \<not> is_ok (fst (PushRules flt rs s)) \<and> snd (PushRules flt rs s) = s)
    \<and> (\<forall>flt rs t. PushRules flt rs s = (Inr (), t) \<longrightarrow> eval_bound t = length rs)"
  using loader_inv_reach [OF assms] loader_inv_eval_bound PushRules_too_many PushRules_scanned
  unfolding loader_inv_def by blast

definition ex_loaded :: bpf where
  "ex_loaded = snd (SetConfig (\<lambda>_. False) DefaultConfig (init_bpf 32 1))"

lemma ex_loaded_reach: "loader_reach ex_loaded"
  by (rule loader_reach.load [of 32 "\<lambda>_. False" 1])
    (simp_all add: ex_loaded_def SetConfig_ok prod_eq_iff)

definition ex_spec :: RuleSpec where
  "ex_spec = \<lparr>ID = replicate 16 0, Priority = 0, Action = 2, LogEnabled = False, LogRateLimit = 0,
     Match = \<lparr>Protocol = 2, Direction = 1, State = 0, SrcCIDRs = [\<lparr>IP = [192,168,0,0], Ones = 17\<rparr>],
       DstCIDRs = [], SrcPorts = [], DstPorts = [\<lparr>Start = 80, End = 90\<rparr>], SrcIPSetID = 0, DstIPSetID = 0\<rparr>\<rparr>"

text \<open>One rule is pushed; then a push of forty fails on the 32-rule build, and the one rule is still scanned.\<close>

theorem loader_published_rules_scanned_witness:
  "eval_bound (snd (PushRules (\<lambda>_. False) [ex_spec] ex_loaded)) = 1
   \<and> unat (qf_rule_count (snd (PushRules (\<lambda>_. False) [ex_spec] ex_loaded))) = 1
   \<and> \<not> is_ok (fst (PushRules (\<lambda>_. False) (replicate 40 ex_spec) (snd (PushRules (\<lambda>_. False) [ex_spec] ex_loaded))))"
proof -
  let ?t = "snd (PushRules (\<lambda>_. False) [ex_spec] ex_loaded)"
  have ok: "is_ok (toRuleEntry ex_spec)" by code_simp
  have m: "maxRules ex_loaded = 32"
    using SetConfig_base [of "\<lambda>_. False" DefaultConfig "init_bpf 32 1"] by (simp add: ex_loaded_def base_def init_bpf_def)
  have "fst (PushRules (\<lambda>_. False) [ex_spec] ex_loaded) = Inr ()"
    using ok m loader_published_rules_scanned [OF ex_loaded_reach] by (intro PushRules_ok) simp_all
  then have "PushRules (\<lambda>_. False) [ex_spec] ex_loaded = (Inr (), ?t)" by (simp add: prod_eq_iff)
  then have one: "eval_bound ?t = 1" using loader_published_rules_scanned [OF ex_loaded_reach] by fastforce
  have mt: "maxRules ?t = 32" using PushRules_base [of "\<lambda>_. False" "[ex_spec]" ex_loaded] m by (simp add: base_def)
  note t = loader_published_rules_scanned [OF loader_reach.push_rules [OF ex_loaded_reach], of "\<lambda>_. False" "[ex_spec]"]
  have big: "\<not> is_ok (fst (PushRules (\<lambda>_. False) (replicate 40 ex_spec) ?t))"
    using t mt by simp
  show ?thesis using one t big by simp
qed

text \<open>
  The entry written for a rule means the rule: the BPF matcher, working on masked 32-bit
  words in host order and on counted arrays of eight, accepts a packet exactly when the
  packet's address bits agree with a listed prefix (or no prefix is listed), its ports lie
  in a listed range, and the protocol, direction, connection state and IP sets agree.
\<close>

lemma rule_entry_means_rule:
  assumes "toRuleEntry r = Inr e"
  shows "match_rule (qf_ipsets s) p (e_match e) \<longleftrightarrow> spec_match (ipset_view s) p r"
  by (rule toRuleEntry_match(1) [OF assms])

text \<open>
  A reloaded IP set contains exactly the addresses of its prefixes: after a successful
  \<open>ClearIPSets\<close> and a successful \<open>PushIPSet\<close>, a lookup of an address in a set finds a node iff
  the set is the one pushed and the address lies in one of the pushed prefixes, over the
  trie keyed by the set id followed by the address bytes.
\<close>

lemma ipset_reload_membership:
  assumes "ClearIPSets flt s = (Inr (), s1)" and "PushIPSet flt sid cs s1 = (Inr (), s2)"
  shows "ipset_view s2 i a \<longleftrightarrow> i = sid \<and> list_ex (cidr4_matches a) cs"
proof -
  have "qf_ipsets s1 = []" using arg_cong [OF ClearIPSets_Inr [OF assms(1)], of qf_ipsets] by simp
  then show ?thesis unfolding ipset_view_def PushIPSet_Inr(2) [OF assms(2)] by (simp add: lpm_lookup_def)
qed

text \<open>
  \<open>GetConfig\<close> reads back what \<open>SetConfig\<close> wrote, a default action of 0 being read as
  allow; the two flags share one 32-bit slot without disturbing each other.
\<close>

lemma GetConfig_SetConfig:
  assumes "SetConfig flt cfg s = (Inr (), t)" and "GetConfig flt t = (Inr c, u)"
  shows "c = cfg\<lparr>DefaultIngress := (if DefaultIngress cfg = 0 then ActionAllow else DefaultIngress cfg),
                 DefaultEgress := (if DefaultEgress cfg = 0 then ActionAllow else DefaultEgress cfg)\<rparr>"
proof -
  note t = SetConfig_Inr [OF assms(1)]
  from assms(2) show ?thesis unfolding t
    by (auto simp: GetConfig_def bindS_Inr wrapS_Inr qf_config_Lookup_def sysS_Inr Let_def
        configFlags_bits [simplified] ActionAllow_def)
qed

end
