(* ===== verification/Qf_Telemetry.thy ===== *)
theory Qf_Telemetry
  imports Qf_Total
begin

text \<open>
  What the agent reads back from the BPF maps: rule counters and the suppressed-event
  count (agent/internal/loader/counters.go), the connection table and its garbage
  collector (conntrack.go), ring-buffer events (events.go) and the choice of the BPF
  build from the kernel release (objects.go).
\<close>

section \<open>counters.go\<close>

record RuleCounters =
  Packets :: u64
  Bytes :: u64

text \<open>A per-CPU array lookup returns one value per possible CPU.\<close>

definition qf_rule_counters_Lookup :: "faults \<Rightarrow> u32 \<Rightarrow> (bpf, (u64 \<times> u64) list) st" where
  "qf_rule_counters_Lookup flt i = sysS flt (\<lambda>s.
     if MaxRules \<le> unat i then (Inl (Sentinel ''ErrKeyNotExist''), s)
     else (Inr (map (\<lambda>c. qf_rule_counters s c i) [0..<ncpu s]), s))"

definition qf_rule_count_Lookup :: "faults \<Rightarrow> (bpf, u32) st" where
  "qf_rule_count_Lookup flt = sysS flt (\<lambda>s. (Inr (qf_rule_count s), s))"

definition qf_suppressed_Lookup :: "faults \<Rightarrow> (bpf, u64 list) st" where
  "qf_suppressed_Lookup flt = sysS flt (\<lambda>s. (Inr (map (qf_suppressed_count s) [0..<ncpu s]), s))"

definition qf_suppressed_Put :: "faults \<Rightarrow> u64 list \<Rightarrow> (bpf, unit) st" where
  "qf_suppressed_Put flt vs = sysS flt (\<lambda>s.
     if length vs \<noteq> ncpu s then (Inl (Errorf ''wrong number of per-CPU values''), s)
     else (Inr (), s\<lparr>qf_suppressed_count := (\<lambda>c. if c < ncpu s then vs ! c else qf_suppressed_count s c)\<rparr>))"

definition ReadCounter :: "faults \<Rightarrow> u32 \<Rightarrow> (bpf, RuleCounters) st" where
  "ReadCounter flt idx =
     bindS (wrapS ''read counter'' (qf_rule_counters_Lookup flt idx)) (\<lambda>perCPU.
       retS (foldl (\<lambda>total c. \<lparr>Packets = Packets total + fst c, Bytes = Bytes total + snd c\<rparr>)
               \<lparr>Packets = 0, Bytes = 0\<rparr> perCPU))"

definition ReadCounters :: "faults \<Rightarrow> (bpf, RuleCounters list) st" where
  "ReadCounters flt =
     bindS (wrapS ''read rule_count'' (qf_rule_count_Lookup flt)) (\<lambda>count.
       let n = (if of_nat MaxRules < count then of_nat MaxRules else count) in
       mapS (\<lambda>i. ReadCounter flt (of_nat i)) [0..<unat n])"

definition ReadSuppressedCount :: "faults \<Rightarrow> (bpf, u64) st" where
  "ReadSuppressedCount flt =
     bindS (wrapS ''read suppressed_count'' (qf_suppressed_Lookup flt)) (\<lambda>perCPU.
       retS (foldl (+) 0 perCPU))"

definition ResetSuppressedCount :: "faults \<Rightarrow> (bpf, unit) st" where
  "ResetSuppressedCount flt =
     bindS (wrapS ''read suppressed_count for reset'' (qf_suppressed_Lookup flt)) (\<lambda>perCPU.
       wrapS ''reset suppressed_count'' (qf_suppressed_Put flt (map (\<lambda>_. 0) perCPU)))"

section \<open>conntrack.go\<close>

record ConntrackKey =
  SrcIP :: netIP
  DstIP :: netIP
  SrcPort :: u16
  DstPort :: u16
  KProtocol :: u8

record ConntrackEntry =
  Key :: ConntrackKey
  CState :: u8
  TCPState :: u8
  LastSeenNs :: u64
  EstablishedNs :: u64
  PacketsFwd :: u64
  BytesFwd :: u64
  PacketsRev :: u64
  BytesRev :: u64

definition fromCtKV :: "ct_key \<Rightarrow> ct_entry \<Rightarrow> ConntrackEntry" where
  "fromCtKV k v =
     \<lparr>Key = \<lparr>SrcIP = decodeIP4 (ck_src_ip k), DstIP = decodeIP4 (ck_dst_ip k),
             SrcPort = ck_src_port k, DstPort = ck_dst_port k, KProtocol = ck_proto k\<rparr>,
      CState = ct_pub_state v, TCPState = tcp_state v, LastSeenNs = last_seen_ns v,
      EstablishedNs = established_ns v, PacketsFwd = packets_fwd v, BytesFwd = bytes_fwd v,
      PacketsRev = packets_rev v, BytesRev = bytes_rev v\<rparr>"

definition canonicalCtKey :: "ConntrackKey \<Rightarrow> ct_key" where
  "canonicalCtKey k =
     (let s = encodeIP4 (SrcIP k); d = encodeIP4 (DstIP k) in
      if s \<le> d
      then \<lparr>ck_src_ip = s, ck_dst_ip = d, ck_src_port = SrcPort k, ck_dst_port = DstPort k, ck_proto = KProtocol k\<rparr>
      else \<lparr>ck_src_ip = d, ck_dst_ip = s, ck_src_port = DstPort k, ck_dst_port = SrcPort k, ck_proto = KProtocol k\<rparr>)"

text \<open>
  The iteration order of the hash table is an argument: \<open>ord\<close> lists the entries of the
  table, each once.
\<close>

type_synonym ct_order = "(ct_key \<rightharpoonup> ct_entry) \<Rightarrow> (ct_key \<times> ct_entry) list"

definition qf_conntrack_Iterate :: "faults \<Rightarrow> ct_order \<Rightarrow> (bpf, (ct_key \<times> ct_entry) list) st" where
  "qf_conntrack_Iterate flt ord = sysS flt (\<lambda>s. (Inr (ord (qf_conntrack s)), s))"

definition qf_conntrack_Lookup :: "faults \<Rightarrow> ct_key \<Rightarrow> (bpf, ct_entry) st" where
  "qf_conntrack_Lookup flt k = sysS flt (\<lambda>s. case qf_conntrack s k of
     None \<Rightarrow> (Inl (Sentinel ''ErrKeyNotExist''), s) | Some v \<Rightarrow> (Inr v, s))"

definition qf_conntrack_Delete :: "faults \<Rightarrow> ct_key \<Rightarrow> (bpf, unit) st" where
  "qf_conntrack_Delete flt k = sysS flt (\<lambda>s. case qf_conntrack s k of
     None \<Rightarrow> (Inl (Sentinel ''ErrKeyNotExist''), s)
   | Some v \<Rightarrow> (Inr (), s\<lparr>qf_conntrack := (qf_conntrack s)(k := None)\<rparr>))"

definition ConntrackDump :: "faults \<Rightarrow> ct_order \<Rightarrow> (bpf, ConntrackEntry list) st" where
  "ConntrackDump flt ord =
     bindS (wrapS ''conntrack iterate'' (qf_conntrack_Iterate flt ord)) (\<lambda>kvs.
       retS (map (\<lambda>(k, v). fromCtKV k v) kvs))"

definition ConntrackLookup :: "faults \<Rightarrow> ConntrackKey \<Rightarrow> (bpf, ConntrackEntry option) st" where
  "ConntrackLookup flt key s =
     (let bk = canonicalCtKey key in
      case qf_conntrack_Lookup flt bk s of
        (Inl e, s') \<Rightarrow> if errors_Is e ''ErrKeyNotExist'' then (Inr None, s')
                       else (Inl (Wrapf ''conntrack lookup'' e), s')
      | (Inr v, s') \<Rightarrow> (Inr (Some (fromCtKV bk v)), s'))"

text \<open>
  One pass of the garbage collector: the timeout that applies to an entry (\<open>None\<close> is
  \<open>continue\<close>), then the deletion if the entry is older. Durations are 64-bit. A failed deletion is only logged.
\<close>

definition gc_timeout :: "u64 \<Rightarrow> u64 \<Rightarrow> ConntrackEntry \<Rightarrow> u64 option" where
  "gc_timeout udpTimeout icmpTimeout e =
     (if KProtocol (Key e) = ProtoUDP then Some udpTimeout
      else if KProtocol (Key e) = ProtoICMP then Some icmpTimeout
      else if KProtocol (Key e) = ProtoTCP
      then (if TCPState e \<noteq> TCPCSClosed then None else Some udpTimeout)
      else None)"

definition gc_expired :: "u64 \<Rightarrow> u64 \<Rightarrow> u64 \<Rightarrow> ConntrackEntry \<Rightarrow> bool" where
  "gc_expired now udpTimeout icmpTimeout e =
     (case gc_timeout udpTimeout icmpTimeout e of None \<Rightarrow> False | Some t \<Rightarrow> t < now - LastSeenNs e)"

fun sweep_loop :: "faults \<Rightarrow> u64 \<Rightarrow> u64 \<Rightarrow> u64 \<Rightarrow> ConntrackEntry list \<Rightarrow> nat \<Rightarrow> bpf \<Rightarrow> nat \<times> bpf" where
  "sweep_loop flt now udp icmp [] deleted s = (deleted, s)"
| "sweep_loop flt now udp icmp (e # es) deleted s =
     (if gc_expired now udp icmp e then
        (case qf_conntrack_Delete flt (canonicalCtKey (Key e)) s of
           (Inl err, s') \<Rightarrow>
             sweep_loop flt now udp icmp es (if errors_Is err ''ErrKeyNotExist'' then Suc deleted else deleted) s'
         | (Inr _, s') \<Rightarrow> sweep_loop flt now udp icmp es (Suc deleted) s')
      else sweep_loop flt now udp icmp es deleted s)"

text \<open>
  The two clocks of a host, in nanoseconds: \<open>ck_mono\<close> counts from boot, as
  \<open>bpf_ktime_get_ns\<close> does, and \<open>time.Now().UnixNano()\<close> counts from 1970, \<open>ck_boot\<close> being
  the Unix time of the boot. The datapath stamps entries with the first (\<open>env_now\<close>), the
  collector reads the second.
\<close>

record clocks =
  ck_boot :: u64
  ck_mono :: u64

definition bpf_ktime_get_ns :: "clocks \<Rightarrow> u64" where
  "bpf_ktime_get_ns c = ck_mono c"

definition time_Now_UnixNano :: "clocks \<Rightarrow> u64" where
  "time_Now_UnixNano c = ck_boot c + ck_mono c"

definition sweepConntrack :: "faults \<Rightarrow> ct_order \<Rightarrow> clocks \<Rightarrow> u64 \<Rightarrow> u64 \<Rightarrow> bpf \<Rightarrow> bpf" where
  "sweepConntrack flt ord c udp icmp s =
     (case ConntrackDump flt ord s of
        (Inl _, s') \<Rightarrow> s'
      | (Inr entries, s') \<Rightarrow>
          (let nowNs = time_Now_UnixNano c in snd (sweep_loop flt nowNs udp icmp entries 0 s')))"

section \<open>events.go\<close>

record LogEvent =
  TimestampNs :: u64
  RuleID :: bytes
  ESrcIP :: netIP
  EDstIP :: netIP
  ESrcPort :: u16
  EDstPort :: u16
  PktSize :: u16
  TCPFlags :: u8
  EProto :: u8
  EDirection :: u8
  EAction :: u8
  ECTState :: u8

definition logEventSize :: nat where "logEventSize = 44"

text \<open>The little-endian fields of \<open>logEventWire\<close> at their offsets.\<close>

definition field :: "bytes \<Rightarrow> nat \<Rightarrow> nat \<Rightarrow> 'a::len word" where
  "field raw off n = le_word (take n (drop off raw))"

definition decodeLogEvent :: "bytes \<Rightarrow> LogEvent res" where
  "decodeLogEvent raw =
     (if length raw < logEventSize then Inl (Errorf ''short log_event'')
      else Inr \<lparr>TimestampNs = field raw 0 8,
                RuleID = be_bytes 8 (field raw 8 8 :: u64) @ be_bytes 8 (field raw 16 8 :: u64),
                ESrcIP = decodeIP4 (field raw 24 4), EDstIP = decodeIP4 (field raw 28 4),
                ESrcPort = field raw 32 2, EDstPort = field raw 34 2, PktSize = field raw 36 2,
                TCPFlags = ucast (field raw 38 2 :: u16),
                EProto = field raw 40 1, EDirection = field raw 41 1, EAction = field raw 42 1,
                ECTState = field raw 43 1\<rparr>)"

text \<open>\<open>struct log_event\<close> as it lies in the ring buffer (common.h; no padding).\<close>

definition log_event_bytes :: "log_event \<Rightarrow> bytes" where
  "log_event_bytes e =
     le_bytes 8 (ts_ns e) @ le_bytes 8 (ev_rule_id_hi e) @ le_bytes 8 (ev_rule_id_lo e)
     @ le_bytes 4 (ev_src_ip e) @ le_bytes 4 (ev_dst_ip e)
     @ le_bytes 2 (ev_src_port e) @ le_bytes 2 (ev_dst_port e) @ le_bytes 2 (ev_pkt_size e)
     @ le_bytes 2 (ev_tcp_flags e)
     @ [ev_proto e, ev_direction e, ev_action e, ev_ct_state e]"

text \<open>\<open>EventReader.Read\<close> on a non-empty buffer: the oldest record is consumed.\<close>

definition EventReader_Read :: "bpf \<Rightarrow> (LogEvent res \<times> bpf) option" where
  "EventReader_Read s = (case qf_events s of
     [] \<Rightarrow> None
   | e # es \<Rightarrow> Some (decodeLogEvent (log_event_bytes e), s\<lparr>qf_events := es\<rparr>))"

section \<open>objects.go\<close>

definition KernelVer :: "u32 \<Rightarrow> u32 \<Rightarrow> u32 \<Rightarrow> u32" where
  "KernelVer major minor patch = push_bit 16 major OR push_bit 8 minor OR patch"

text \<open>\<open>strings.FieldsFunc\<close> with the non-digits as separators: the maximal runs of digits.\<close>

fun digit_fields :: "string \<Rightarrow> string \<Rightarrow> string list" where
  "digit_fields [] cur = (if cur = [] then [] else [cur])"
| "digit_fields (c # cs) cur =
     (if is_digit c then digit_fields cs (cur @ [c])
      else (if cur = [] then digit_fields cs [] else cur # digit_fields cs []))"

text \<open>\<open>Sscanf(t, %d)\<close> into a uint32: \<open>None\<close> when the number does not fit.\<close>

definition sscanf_u32 :: "string \<Rightarrow> u32 option" where
  "sscanf_u32 t = (case parseUint32 t of Inl _ \<Rightarrow> None | Inr n \<Rightarrow> Some n)"

definition ParseKernelVersion :: "string \<Rightarrow> u32" where
  "ParseKernelVersion rel =
     (let nums = take 3 (List.map_filter sscanf_u32 (digit_fields rel []));
          nums3 = nums @ replicate (3 - length nums) 0
      in KernelVer (nums3 ! 0) (nums3 ! 1) (nums3 ! 2))"

text \<open>The build that \<open>loadBpfObjects\<close> selects, by its rule limit.\<close>

definition loadBpfObjects_maxRules :: "u32 \<Rightarrow> nat" where
  "loadBpfObjects_maxRules kver = (if KernelVer 5 17 0 \<le> kver then 64 else 32)"

section \<open>The connection table\<close>

lemma canonicalCtKey_fromCtKV:
  assumes "ck_src_ip k \<le> ck_dst_ip k"
  shows "canonicalCtKey (Key (fromCtKV k v)) = k"
  using assms by (simp add: canonicalCtKey_def fromCtKV_def Let_def)

definition ct_canonical :: "bpf \<Rightarrow> bool" where
  "ct_canonical s \<longleftrightarrow> (\<forall>k e. qf_conntrack s k = Some e \<longrightarrow> ck_src_ip k \<le> ck_dst_ip k)"

definition ord_ok :: "ct_order \<Rightarrow> bpf \<Rightarrow> bool" where
  "ord_ok ord s \<longleftrightarrow> distinct (map fst (ord (qf_conntrack s)))
     \<and> (\<forall>k e. (k, e) \<in> set (ord (qf_conntrack s)) \<longleftrightarrow> qf_conntrack s k = Some e)"

lemma ct_build_key_canonical: "ck_src_ip (fst (ct_build_key p)) \<le> ck_dst_ip (fst (ct_build_key p))"
  by (auto simp: ct_build_key_def)

lemma ct_update_canonical: "ct_canonical s \<Longrightarrow> ct_canonical (ct_update now ev p s)"
  using ct_build_key_canonical [of p]
  by (auto simp: ct_update_def ct_canonical_def Let_def split: prod.splits option.splits if_splits)

lemma conntrack_of_steps:
  "qf_conntrack (snd (check_rate_limit cpu now idx rate s)) = qf_conntrack s"
  "qf_conntrack (bump_counter cpu idx sz s) = qf_conntrack s"
  by (auto simp: check_rate_limit_def bump_counter_def Let_def split: prod.splits)

lemma conntrack_apply_action:
  "qf_conntrack (snd (apply_action cpu now room p act idx r ct s)) = qf_conntrack s"
  using conntrack_of_steps(1) [of cpu now idx "e_log_rate_limit r" "bump_counter cpu idx (pkt_size p) s"]
  by (auto simp: apply_action_def emit_log_def Let_def conntrack_of_steps(2) split: prod.splits)

lemma run_datapath_canonical: "ct_canonical s \<Longrightarrow> ct_canonical (snd (run_datapath env pk s))"
proof -
  assume c: "ct_canonical s"
  have cong: "ct_canonical u" if "qf_conntrack u = qf_conntrack t" "ct_canonical t" for t u
    using that by (simp add: ct_canonical_def)
  show ?thesis
    using c ct_update_canonical [OF c]
    by (auto simp: run_datapath_def Let_def intro: cong [OF conntrack_apply_action] split: option.splits)
qed

text \<open>The fate of one key: kept, or removed because its entry had expired.\<close>

definition swept :: "faults \<Rightarrow> bool \<Rightarrow> ct_entry option \<Rightarrow> ct_entry option \<Rightarrow> bool" where
  "swept flt expired old new \<longleftrightarrow> (new = old \<or> (new = None \<and> expired))
     \<and> (flt = (\<lambda>_. False) \<longrightarrow> expired \<longrightarrow> new = None)"

lemma sweep_step:
  assumes "ck_src_ip k \<le> ck_dst_ip k" and "qf_conntrack s k = Some v"
  shows "\<exists>m u. sweep_loop flt now udp icmp (fromCtKV k v # es) n s = sweep_loop flt now udp icmp es m u
     \<and> (\<forall>j. j \<noteq> k \<longrightarrow> qf_conntrack u j = qf_conntrack s j)
     \<and> swept flt (gc_expired now udp icmp (fromCtKV k v)) (Some v) (qf_conntrack u k)"
proof (cases "gc_expired now udp icmp (fromCtKV k v)")
  case True
  have "\<exists>m. sweep_loop flt now udp icmp (fromCtKV k v # es) n s =
      sweep_loop flt now udp icmp es m (snd (qf_conntrack_Delete flt k s))"
    by (auto simp: True canonicalCtKey_fromCtKV [OF assms(1)] split: prod.splits sum.splits)
  moreover have "swept flt True (Some v) (qf_conntrack (snd (qf_conntrack_Delete flt k s)) k)"
    and "\<forall>j. j \<noteq> k \<longrightarrow> qf_conntrack (snd (qf_conntrack_Delete flt k s)) j = qf_conntrack s j"
    using assms(2) by (auto simp: swept_def qf_conntrack_Delete_def sysS_def Let_def)
  ultimately show ?thesis using True by auto
next
  case False
  then have "sweep_loop flt now udp icmp (fromCtKV k v # es) n s = sweep_loop flt now udp icmp es n s" by simp
  then show ?thesis using False assms(2) by (auto simp: swept_def)
qed

lemma sweep_loop_conntrack:
  assumes "distinct (map fst kvs)" and "\<And>k e. (k, e) \<in> set kvs \<Longrightarrow> ck_src_ip k \<le> ck_dst_ip k"
    and "\<And>k e. (k, e) \<in> set kvs \<Longrightarrow> qf_conntrack s k = Some e"
  shows "swept flt (\<exists>e. (k, e) \<in> set kvs \<and> gc_expired now udp icmp (fromCtKV k e)) (qf_conntrack s k)
     (qf_conntrack (snd (sweep_loop flt now udp icmp (map (\<lambda>(k, v). fromCtKV k v) kvs) n s)) k)"
  using assms
proof (induction kvs arbitrary: n s)
  case (Cons x kvs)
  obtain k' v where x: "x = (k', v)" by (cases x)
  have c: "ck_src_ip k' \<le> ck_dst_ip k'" and sv: "qf_conntrack s k' = Some v" using Cons.prems(2,3) x by auto
  have nk: "k' \<notin> fst ` set kvs" and d: "distinct (map fst kvs)" using Cons.prems(1) x by auto
  from sweep_step [OF c sv, of flt now udp icmp "map (\<lambda>(k, v). fromCtKV k v) kvs" n] obtain m u where
    step: "sweep_loop flt now udp icmp (map (\<lambda>(k, v). fromCtKV k v) (x # kvs)) n s =
           sweep_loop flt now udp icmp (map (\<lambda>(k, v). fromCtKV k v) kvs) m u"
    and uo: "\<forall>j. j \<noteq> k' \<longrightarrow> qf_conntrack u j = qf_conntrack s j"
    and uk: "swept flt (gc_expired now udp icmp (fromCtKV k' v)) (Some v) (qf_conntrack u k')"
    unfolding x by auto
  have "qf_conntrack u j = Some e" if "(j, e) \<in> set kvs" for j e
  proof -
    have "j \<noteq> k'" using that nk by force
    then show ?thesis using that Cons.prems(3) [of j e] uo by simp
  qed
  then have IH: "swept flt (\<exists>e. (k, e) \<in> set kvs \<and> gc_expired now udp icmp (fromCtKV k e)) (qf_conntrack u k)
     (qf_conntrack (snd (sweep_loop flt now udp icmp (map (\<lambda>(k, v). fromCtKV k v) kvs) m u)) k)"
    using Cons.prems(2) by (intro Cons.IH [OF d]) auto
  show ?case
  proof (cases "k = k'")
    case True
    then have "\<not> (\<exists>e. (k, e) \<in> set kvs \<and> gc_expired now udp icmp (fromCtKV k e))" using nk by force
    then show ?thesis using IH uk sv True nk unfolding step by (force simp: swept_def x)
  next
    case False
    then show ?thesis using IH uo unfolding step by (simp add: x)
  qed
qed (simp add: swept_def)

lemma sweepConntrack_spec:
  assumes "ct_canonical s" and "ord_ok ord s"
  shows "\<not> (\<exists>e. qf_conntrack s k = Some e \<and> gc_expired (time_Now_UnixNano c) udp icmp (fromCtKV k e)) \<Longrightarrow>
         qf_conntrack (sweepConntrack flt ord c udp icmp s) k = qf_conntrack s k"
    and "qf_conntrack s k = Some e \<Longrightarrow> gc_expired (time_Now_UnixNano c) udp icmp (fromCtKV k e) \<Longrightarrow>
         qf_conntrack (sweepConntrack (\<lambda>_. False) ord c udp icmp s) k = None"
proof -
  let ?s = "s\<lparr>syscalls := Suc (syscalls s)\<rparr>"
  let ?kvs = "ord (qf_conntrack s)"
  have kvs: "distinct (map fst ?kvs)" "\<And>k e. (k, e) \<in> set ?kvs \<Longrightarrow> ck_src_ip k \<le> ck_dst_ip k"
    "\<And>k e. (k, e) \<in> set ?kvs \<Longrightarrow> qf_conntrack ?s k = Some e"
    using assms by (auto simp: ord_ok_def ct_canonical_def)
  have mem: "(k, e) \<in> set ?kvs \<longleftrightarrow> qf_conntrack s k = Some e" for e
    using assms(2) by (simp add: ord_ok_def)
  have "swept flt (\<exists>e. (k, e) \<in> set ?kvs \<and> gc_expired (time_Now_UnixNano c) udp icmp (fromCtKV k e)) (qf_conntrack ?s k)
     (qf_conntrack (snd (sweep_loop flt (time_Now_UnixNano c) udp icmp (map (\<lambda>(k, v). fromCtKV k v) ?kvs) 0 ?s)) k)" for flt
    by (rule sweep_loop_conntrack) (fact kvs)+
  then have L: "swept flt (\<exists>e. qf_conntrack s k = Some e \<and> gc_expired (time_Now_UnixNano c) udp icmp (fromCtKV k e)) (qf_conntrack s k)
     (qf_conntrack (snd (sweep_loop flt (time_Now_UnixNano c) udp icmp (map (\<lambda>(k, v). fromCtKV k v) ?kvs) 0 ?s)) k)" for flt
    unfolding mem by simp
  have run: "sweepConntrack flt ord c udp icmp s =
      (if flt (syscalls s) then ?s else snd (sweep_loop flt (time_Now_UnixNano c) udp icmp (map (\<lambda>(k, v). fromCtKV k v) ?kvs) 0 ?s))" for flt
    by (simp add: sweepConntrack_def ConntrackDump_def qf_conntrack_Iterate_def bindS_def wrapS_def sysS_def Let_def)
  show "qf_conntrack (sweepConntrack flt ord c udp icmp s) k = qf_conntrack s k"
    if "\<not> (\<exists>e. qf_conntrack s k = Some e \<and> gc_expired (time_Now_UnixNano c) udp icmp (fromCtKV k e))"
    using L [of flt] that by (auto simp: run swept_def)
  show "qf_conntrack (sweepConntrack (\<lambda>_. False) ord c udp icmp s) k = None"
    if "qf_conntrack s k = Some e" "gc_expired (time_Now_UnixNano c) udp icmp (fromCtKV k e)"
    using L [of "\<lambda>_. False"] that by (auto simp: run swept_def)
qed

text \<open>Tables reached by packets and sweeps from an empty one.\<close>

inductive ct_reach :: "bpf \<Rightarrow> bool" where
  empty: "qf_conntrack s = Map.empty \<Longrightarrow> ct_reach s"
| packet: "ct_reach s \<Longrightarrow> ct_reach (snd (run_datapath env pk s))"
| sweep: "ct_reach s \<Longrightarrow> ord_ok ord s \<Longrightarrow> ct_reach (sweepConntrack flt ord c udp icmp s)"

lemma ct_reach_canonical: "ct_reach s \<Longrightarrow> ct_canonical s"
proof (induction rule: ct_reach.induct)
  case (sweep s ord flt c udp icmp)
  show ?case unfolding ct_canonical_def
  proof (intro allI impI)
    fix k e assume a: "qf_conntrack (sweepConntrack flt ord c udp icmp s) k = Some e"
    have "\<exists>e'. qf_conntrack s k = Some e'"
    proof (cases "qf_conntrack s k")
      case None
      then have "qf_conntrack (sweepConntrack flt ord c udp icmp s) k = None"
        using sweepConntrack_spec(1) [OF sweep(3,2), of k c udp icmp flt] by simp
      then show ?thesis using a by simp
    qed simp
    then show "ck_src_ip k \<le> ck_dst_ip k" using sweep(3) by (auto simp: ct_canonical_def)
  qed
next
  case (empty s)
  then show ?case by (simp add: ct_canonical_def)
next
  case (packet s env pk)
  then show ?case by (simp add: run_datapath_canonical)
qed

text \<open>
  The garbage collector removes exactly the expired entries. In any reachable table,
  whatever deletions fail, an entry that has not expired is kept unchanged, in particular
  every TCP connection that is not closed; and when no system call fails each expired
  entry is gone afterwards. The keys are rebuilt from the dumped addresses, which works
  because the datapath only stores canonical keys.
\<close>

lemma sweepConntrack_exact:
  assumes "ct_reach s" and "ord_ok ord s"
  shows "(qf_conntrack s k = Some e \<longrightarrow> \<not> gc_expired (time_Now_UnixNano c) udp icmp (fromCtKV k e) \<longrightarrow>
            qf_conntrack (sweepConntrack flt ord c udp icmp s) k = Some e)
       \<and> (qf_conntrack s k = Some e \<longrightarrow> gc_expired (time_Now_UnixNano c) udp icmp (fromCtKV k e) \<longrightarrow>
            qf_conntrack (sweepConntrack (\<lambda>_. False) ord c udp icmp s) k = None)
       \<and> (qf_conntrack s k = None \<longrightarrow> qf_conntrack (sweepConntrack flt ord c udp icmp s) k = None)"
  using sweepConntrack_spec [OF ct_reach_canonical [OF assms(1)] assms(2)] by auto

definition ex_flow :: "ct_key \<times> ct_entry" where
  "ex_flow = (\<lparr>ck_src_ip = 1, ck_dst_ip = 2, ck_src_port = 5353, ck_dst_port = 53, ck_proto = 3\<rparr>,
     \<lparr>last_seen_ns = 3600000000000, established_ns = 0, packets_fwd = 1, bytes_fwd = 80,
      packets_rev = 0, bytes_rev = 0, ct_pub_state = 2, tcp_state = 0\<rparr>)"

text \<open>A state with that flow, reached by one UDP packet on a loaded agent with tracking on.\<close>

definition ex_ct0 :: bpf where
  "ex_ct0 = (init_bpf 64 1)\<lparr>qf_config := (\<lambda>_. 1)\<rparr>"

definition ex_env :: pkt_env where
  "ex_env = \<lparr>env_cpu = 0, env_now = 3600000000000, env_room = True, env_evict = (\<lambda>_. False)\<rparr>"

definition ex_query :: pkt_ctx where
  "ex_query = \<lparr>src_ip4 = 1, dst_ip4 = 2, src_port = 5353, dst_port = 53, pkt_size = 80, tcp_flags = 0,
     proto = 3, pkt_direction = 2, is_ipv6 = False, pkt_ct_state = 0\<rparr>"

definition ex_ct1 :: bpf where
  "ex_ct1 = snd (run_datapath ex_env (Some ex_query) ex_ct0)"

lemma ex_ct1_table: "qf_conntrack ex_ct1 = [fst ex_flow \<mapsto> snd ex_flow]"
  by (auto simp: ex_ct1_def ex_ct0_def ex_env_def ex_query_def ex_flow_def run_datapath_def init_bpf_def ct_enabled_def eval_rules_def eval_bound_def
      default_action_def loader_consts Let_def ct_update_def ct_build_key_def ct_new_def fun_eq_iff)

lemma ex_ct1_reach: "ct_reach ex_ct1"
  unfolding ex_ct1_def by (intro ct_reach.packet ct_reach.empty) (simp add: ex_ct0_def init_bpf_def)

definition ex_ord :: ct_order where
  "ex_ord m = (case m (fst ex_flow) of None \<Rightarrow> [] | Some e \<Rightarrow> [(fst ex_flow, e)])"

lemma ex_ord_ok: "ord_ok ex_ord ex_ct1"
  by (auto simp: ord_ok_def ex_ord_def ex_ct1_table prod_eq_iff)

text \<open>A UDP packet that passes with tracking on leaves an entry stamped with the datapath's clock.\<close>

lemma ct_update_udp:
  assumes "proto p = ProtoUDP"
  shows "\<exists>e. qf_conntrack (ct_update now ev p s) (fst (ct_build_key p)) = Some e \<and> last_seen_ns e = now"
proof -
  have "last_seen_ns (ct_advance now p reply e) = now" "last_seen_ns (ct_new now p reply) = now" for reply e
    by (simp_all add: ct_advance_def ct_new_def Let_def)
  moreover have "proto p \<noteq> ProtoTCP" using assms by (simp add: ProtoUDP_def ProtoTCP_def)
  ultimately show ?thesis
    by (cases "ct_build_key p") (simp add: ct_update_def split: option.split)
qed

lemma passed_conntrack:
  assumes "ct_enabled s" and "fst (run_datapath env (Some p) s) = TC_ACT_OK"
  shows "\<exists>st. qf_conntrack (snd (run_datapath env (Some p) s)) =
    qf_conntrack (ct_update (env_now env) (env_evict env) (p\<lparr>pkt_ct_state := st\<rparr>) s)"
proof -
  have deny: "fst (apply_action cpu now room q ActionDeny i r ct u) = TC_ACT_SHOT" for cpu now room q i r ct u
    by (simp add: apply_action_def Let_def)
  show ?thesis using assms
    by (auto simp: run_datapath_def Let_def conntrack_apply_action deny split: option.splits if_splits)
qed

lemma passed_udp_tracked:
  assumes "ct_enabled s" and "proto p = ProtoUDP" and "fst (run_datapath env (Some p) s) = TC_ACT_OK"
  shows "\<exists>e. qf_conntrack (snd (run_datapath env (Some p) s)) (fst (ct_build_key p)) = Some e
    \<and> last_seen_ns e = env_now env"
proof -
  obtain st where st: "qf_conntrack (snd (run_datapath env (Some p) s)) =
      qf_conntrack (ct_update (env_now env) (env_evict env) (p\<lparr>pkt_ct_state := st\<rparr>) s)"
    using passed_conntrack [OF assms(1,3)] by blast
  have "fst (ct_build_key (p\<lparr>pkt_ct_state := st\<rparr>)) = fst (ct_build_key p)" by (simp add: ct_build_key_def)
  then show ?thesis
    using ct_update_udp [of "p\<lparr>pkt_ct_state := st\<rparr>" "env_now env" "env_evict env" s] assms(2) st by simp
qed

text \<open>Against the wall clock every entry is older than the time of the boot.\<close>

lemma wall_age:
  assumes "unat (ck_boot c) + unat (ck_mono c) < 2 ^ 64" and "m \<le> ck_mono c" and "udp < ck_boot c"
  shows "udp < time_Now_UnixNano c - m"
proof -
  have u: "unat (time_Now_UnixNano c) = unat (ck_boot c) + unat (ck_mono c)"
    unfolding time_Now_UnixNano_def using assms(1) by (subst unat_add_lem [THEN iffD1]) simp_all
  have m: "unat m \<le> unat (ck_mono c)" and b: "unat udp < unat (ck_boot c)"
    using assms(2,3) by (simp_all add: word_le_nat_alt word_less_nat_alt)
  then have "m \<le> time_Now_UnixNano c" by (simp add: word_le_nat_alt u)
  then have "unat (time_Now_UnixNano c - m) = unat (ck_boot c) + unat (ck_mono c) - unat m"
    by (simp add: unat_sub u)
  then show ?thesis unfolding word_less_nat_alt using m b by linarith
qed

text \<open>
  C40. The collector compares the wall clock with the datapath's monotonic time stamps.
  A UDP packet that passes with tracking on leaves an entry stamped with
  \<open>bpf_ktime_get_ns\<close>; if the collector runs while the entry is still within its timeout on
  that clock, even at the same instant, the entry is removed all the same, whenever the
  host booted later than the timeout after 1970 (the sum of the two clocks fitting in 64
  bits). So UDP flows do not survive a sweep, although the comment promises that expired
  entries are evicted.
\<close>

theorem sweep_evicts_active_udp:
  assumes "ct_reach s" and "ct_enabled s" and "proto p = ProtoUDP"
    and "env_now env = bpf_ktime_get_ns c" and "fst (run_datapath env (Some p) s) = TC_ACT_OK"
    and "ord_ok ord (snd (run_datapath env (Some p) s))"
    and "ck_boot c' = ck_boot c" and "bpf_ktime_get_ns c \<le> bpf_ktime_get_ns c'"
    and "bpf_ktime_get_ns c' - bpf_ktime_get_ns c \<le> udp"
    and "udp < ck_boot c'" and "unat (ck_boot c') + unat (ck_mono c') < 2 ^ 64"
  shows "\<exists>e. qf_conntrack (snd (run_datapath env (Some p) s)) (fst (ct_build_key p)) = Some e
    \<and> \<not> gc_expired (bpf_ktime_get_ns c') udp icmp (fromCtKV (fst (ct_build_key p)) e)
    \<and> qf_conntrack (sweepConntrack (\<lambda>_. False) ord c' udp icmp (snd (run_datapath env (Some p) s)))
        (fst (ct_build_key p)) = None"
proof -
  let ?t = "snd (run_datapath env (Some p) s)" and ?k = "fst (ct_build_key p)"
  obtain e where e: "qf_conntrack ?t ?k = Some e" "last_seen_ns e = ck_mono c"
    using passed_udp_tracked [OF assms(2,3,5)] assms(4) by (auto simp: bpf_ktime_get_ns_def)
  have k: "ck_proto ?k = ProtoUDP" using assms(3) by (simp add: ct_build_key_def)
  have "\<not> gc_expired (bpf_ktime_get_ns c') udp icmp (fromCtKV ?k e)"
    using assms(9) by (simp add: gc_expired_def gc_timeout_def fromCtKV_def k e bpf_ktime_get_ns_def not_less)
  moreover have "gc_expired (time_Now_UnixNano c') udp icmp (fromCtKV ?k e)"
    using wall_age [OF assms(11) _ assms(10), of "ck_mono c"] assms(8)
    by (simp add: gc_expired_def gc_timeout_def fromCtKV_def k e bpf_ktime_get_ns_def)
  ultimately show ?thesis
    using e(1) sweepConntrack_spec(2) [OF ct_reach_canonical [OF ct_reach.packet [OF assms(1)]] assms(6) e(1)] by blast
qed

text \<open>A DNS query an hour after the boot in November 2023, swept one second later with a timeout of 30 s.\<close>

theorem sweep_evicts_active_udp_witness:
  "\<exists>e. qf_conntrack ex_ct1 (fst ex_flow) = Some e
    \<and> \<not> gc_expired 3601000000000 30000000000 10000000000 (fromCtKV (fst ex_flow) e)
    \<and> qf_conntrack (sweepConntrack (\<lambda>_. False) ex_ord \<lparr>ck_boot = 1700000000000000000, ck_mono = 3601000000000\<rparr>
         30000000000 10000000000 ex_ct1) (fst ex_flow) = None"
proof -
  have r: "ct_reach ex_ct0" by (rule ct_reach.empty) (simp add: ex_ct0_def init_bpf_def)
  have ct: "ct_enabled ex_ct0" by (simp add: ct_enabled_def ex_ct0_def)
  have key: "fst (ct_build_key ex_query) = fst ex_flow" by (simp add: ct_build_key_def ex_query_def ex_flow_def)
  have ok: "fst (run_datapath ex_env (Some ex_query) ex_ct0) = TC_ACT_OK"
    by (simp add: ex_env_def ex_query_def ex_ct0_def run_datapath_def init_bpf_def ct_enabled_def eval_rules_def eval_bound_def
        default_action_def loader_consts Let_def)
  show ?thesis
    using sweep_evicts_active_udp [of ex_ct0 ex_query ex_env "\<lparr>ck_boot = 1700000000000000000, ck_mono = 3600000000000\<rparr>" ex_ord
        "\<lparr>ck_boot = 1700000000000000000, ck_mono = 3601000000000\<rparr>" 30000000000 10000000000,
        OF r ct _ _ ok ex_ord_ok [unfolded ex_ct1_def], folded ex_ct1_def]
    by (simp add: key bpf_ktime_get_ns_def, simp add: ex_query_def ex_env_def ProtoUDP_def)
qed

text \<open>
  Connection keys on both sides of the kernel boundary agree: the Go lookup key of a
  packet's 5-tuple is the key the datapath stores, and a lookup finds the same entry for
  either direction of a flow, provided its two addresses differ.
\<close>

lemma canonicalCtKey_mirrors_datapath:
  "canonicalCtKey \<lparr>SrcIP = decodeIP4 (src_ip4 p), DstIP = decodeIP4 (dst_ip4 p), SrcPort = src_port p,
      DstPort = dst_port p, KProtocol = proto p\<rparr> = fst (ct_build_key p)
   \<and> (encodeIP4 a \<noteq> encodeIP4 b \<longrightarrow>
        ConntrackLookup flt \<lparr>SrcIP = a, DstIP = b, SrcPort = x, DstPort = y, KProtocol = q\<rparr> s =
        ConntrackLookup flt \<lparr>SrcIP = b, DstIP = a, SrcPort = y, DstPort = x, KProtocol = q\<rparr> s)"
proof -
  have "canonicalCtKey \<lparr>SrcIP = a, DstIP = b, SrcPort = x, DstPort = y, KProtocol = q\<rparr> =
        canonicalCtKey \<lparr>SrcIP = b, DstIP = a, SrcPort = y, DstPort = x, KProtocol = q\<rparr>"
    if "encodeIP4 a \<noteq> encodeIP4 b"
    using that linear [of "encodeIP4 a" "encodeIP4 b"] by (auto simp: canonicalCtKey_def Let_def)
  then show ?thesis by (simp add: canonicalCtKey_def ct_build_key_def ConntrackLookup_def Let_def)
qed

section \<open>Events\<close>

lemma le_words_back:
  "le_word (le_bytes 8 (a :: u64)) = a" "le_word (le_bytes 4 (b :: u32)) = b"
  "le_word (le_bytes 2 (c :: u16)) = c" "le_word [d] = (d :: u8)"
  by (simp_all add: le_word_le_bytes)

lemma decodeLogEvent_bytes:
  "decodeLogEvent (log_event_bytes e @ rest) =
     Inr \<lparr>TimestampNs = ts_ns e, RuleID = be_bytes 8 (ev_rule_id_hi e) @ be_bytes 8 (ev_rule_id_lo e),
          ESrcIP = decodeIP4 (ev_src_ip e), EDstIP = decodeIP4 (ev_dst_ip e),
          ESrcPort = ev_src_port e, EDstPort = ev_dst_port e, PktSize = ev_pkt_size e,
          TCPFlags = ucast (ev_tcp_flags e), EProto = ev_proto e, EDirection = ev_direction e,
          EAction = ev_action e, ECTState = ev_ct_state e\<rparr>"
  by (simp add: decodeLogEvent_def log_event_bytes_def logEventSize_def field_def le_words_back)

text \<open>The events a packet can add: none or one.\<close>

lemma check_rate_limit_events: "qf_events (snd (check_rate_limit cpu now idx rate s)) = qf_events s"
  by (auto simp: check_rate_limit_def Let_def split: prod.splits)

lemma emit_log_events:
  assumes "qf_events (emit_log cpu now room p idx r act ct s) \<noteq> qf_events s"
  shows "qf_events (emit_log cpu now room p idx r act ct s) = qf_events s @
    [\<lparr>ts_ns = now, ev_rule_id_hi = rule_id_hi r, ev_rule_id_lo = rule_id_lo r,
      ev_src_ip = src_ip4 p, ev_dst_ip = dst_ip4 p, ev_src_port = src_port p,
      ev_dst_port = dst_port p, ev_pkt_size = pkt_size p, ev_tcp_flags = ucast (tcp_flags p),
      ev_proto = proto p, ev_direction = pkt_direction p, ev_action = act, ev_ct_state = ct\<rparr>]"
  using assms check_rate_limit_events [of cpu now idx "e_log_rate_limit r" s]
  by (auto simp: emit_log_def Let_def split: prod.splits if_splits)

lemma toRuleEntry_id:
  assumes "toRuleEntry r = Inr e" and "length (ID r) = 16"
  shows "be_bytes 8 (rule_id_hi e) @ be_bytes 8 (rule_id_lo e) = ID r"
proof -
  have "rule_id_hi e = be_word (take 8 (ID r))" "rule_id_lo e = be_word (drop 8 (ID r))"
    using assms(1) by (auto simp: toRuleEntry_Inr)
  then show ?thesis using assms(2) by (simp add: be_bytes_be_word)
qed

lemma ucast_u8_u16_u8 [simp]: "(ucast (ucast (x :: u8) :: u16) :: u8) = x"
  by (rule bit_word_eqI) (simp add: bit_ucast_iff)

text \<open>The entry of the first matching rule is the one whose id is logged.\<close>

lemma eval_rules_entry:
  assumes "eval_rules s p = Some (i, act)"
  shows "\<exists>r. List.find (\<lambda>r. match_rule (qf_ipsets s) p (e_match r)) (rules_view s) = Some r
    \<and> qf_rules s (of_nat i) = r \<and> act = e_action r"
proof -
  let ?f = "findi (\<lambda>r. match_rule (qf_ipsets s) p (e_match r)) 0 (rules_view s)"
  have "map_option (\<lambda>(j, r). (j, e_action r)) ?f = Some (i, act)"
    using assms by (auto simp: eval_rules_def eval_loop_findi rules_view_def split: option.splits prod.splits if_splits)
  then obtain r where f: "?f = Some (i, r)" and act: "act = e_action r" by auto
  have "i < eval_bound s \<and> rules_view s ! i = r" using findi_Some [OF f] by (simp add: rules_view_def)
  then have "qf_rules s (of_nat i) = r" by (auto simp: rules_view_def)
  moreover have "List.find (\<lambda>r. match_rule (qf_ipsets s) p (e_match r)) (rules_view s) = Some r"
    using findi_find [where i = 0 and P = "\<lambda>r. match_rule (qf_ipsets s) p (e_match r)" and xs = "rules_view s"] f by simp
  ultimately show ?thesis using act by blast
qed

lemma events_of_steps:
  "qf_events (bump_counter cpu idx sz s) = qf_events s"
  "qf_events (ct_update now ev p s) = qf_events s"
  by (auto simp: bump_counter_def ct_update_def Let_def split: prod.splits option.splits if_splits)

text \<open>A packet that leaves an event was matched by a rule, and the event is \<open>emit_log\<close>'s for the matching entry.\<close>

lemma run_datapath_event:
  assumes "qf_events (snd (run_datapath env (Some p0) s)) \<noteq> qf_events s"
  defines "p \<equiv> p0\<lparr>pkt_ct_state := (if ct_enabled s then ct_lookup s p0 else 0)\<rparr>"
  shows "\<exists>i act u. eval_rules s p = Some (i, act) \<and> qf_events u = qf_events s
    \<and> qf_events (snd (run_datapath env (Some p0) s)) =
        qf_events (emit_log (env_cpu env) (env_now env) (env_room env) p (of_nat i) (qf_rules s (of_nat i)) act (pkt_ct_state p) u)"
proof (cases "eval_rules s p")
  case None
  then have "qf_events (snd (run_datapath env (Some p0) s)) = qf_events s"
    by (simp add: run_datapath_def p_def [symmetric] Let_def events_of_steps)
  then show ?thesis using assms(1) by simp
next
  case (Some x)
  obtain i act where x: "x = (i, act)" by (cases x)
  let ?s = "if ct_enabled s \<and> act \<noteq> ActionDeny then ct_update (env_now env) (env_evict env) p s else s"
  let ?u = "bump_counter (env_cpu env) (of_nat i) (pkt_size p) ?s"
  have ct: "pkt_ct_state p = (if ct_enabled s then ct_lookup s p0 else 0)" by (simp add: p_def)
  have run: "run_datapath env (Some p0) s =
      apply_action (env_cpu env) (env_now env) (env_room env) p act (of_nat i) (qf_rules s (of_nat i)) (pkt_ct_state p) ?s"
    unfolding run_datapath_def option.case Let_def p_def [symmetric]
    unfolding ct [symmetric] Some x by simp
  have u: "qf_events ?u = qf_events s" by (simp add: events_of_steps)
  have "qf_events (snd (run_datapath env (Some p0) s)) =
      qf_events (emit_log (env_cpu env) (env_now env) (env_room env) p (of_nat i) (qf_rules s (of_nat i)) act (pkt_ct_state p) ?u)"
    using assms(1) u unfolding run apply_action_def Let_def snd_conv by (auto split: if_splits)
  then show ?thesis using u Some x by blast
qed

text \<open>
  C32. An event read from the ring buffer describes the packet and names the rule that
  matched it. After \<open>PushRules\<close> succeeded on the rules \<open>rs\<close> and any packets since, let a
  packet make the datapath append an event. Then some rule matches the packet (with its
  connection state), the event is one record at the end of the buffer, and decoding its
  44 bytes gives the 16-byte id and the action of the first rule, in priority order, that
  matches, and the packet's addresses and ports, its size, flags, protocol, direction and
  connection state.
\<close>

theorem event_names_rule_and_packet:
  assumes "bpf_ok s0" and "PushRules flt rs s0 = (Inr (), s1)" and "list_all (\<lambda>r. length (ID r) = 16) rs"
    and "s = run_packets pks s1" and "q = p\<lparr>pkt_ct_state := (if ct_enabled s then ct_lookup s p else 0)\<rparr>"
    and "qf_events (snd (run_datapath env (Some p) s)) \<noteq> qf_events s"
  shows "\<exists>r ev. List.find (spec_match (ipset_view s) q) (sortRules rs) = Some r
    \<and> qf_events (snd (run_datapath env (Some p) s)) = qf_events s @ [ev]
    \<and> decodeLogEvent (log_event_bytes ev) =
       Inr \<lparr>TimestampNs = env_now env, RuleID = ID r, ESrcIP = decodeIP4 (src_ip4 p), EDstIP = decodeIP4 (dst_ip4 p),
          ESrcPort = src_port p, EDstPort = dst_port p, PktSize = pkt_size p, TCPFlags = tcp_flags p,
          EProto = proto p, EDirection = pkt_direction p, EAction = Action r, ECTState = pkt_ct_state q\<rparr>"
proof -
  have "rules_view s = rules_view s1"
    unfolding assms(4) by (rule policy_part_views(1)) (rule policy_part_run_packets)
  then have rules: "list_all2 (\<lambda>r e. toRuleEntry r = Inr e) (sortRules rs) (rules_view s)"
    using rules_view_PushRules [OF assms(2,1)] by (simp add: mapR_Inr)
  obtain i act u where ev: "eval_rules s q = Some (i, act)" and u: "qf_events u = qf_events s"
    and run: "qf_events (snd (run_datapath env (Some p) s)) =
      qf_events (emit_log (env_cpu env) (env_now env) (env_room env) q (of_nat i) (qf_rules s (of_nat i)) act (pkt_ct_state q) u)"
    using run_datapath_event [OF assms(6)] unfolding assms(5) by blast
  obtain e where e: "List.find (\<lambda>r. match_rule (qf_ipsets s) q (e_match r)) (rules_view s) = Some e"
    and q: "qf_rules s (of_nat i) = e" "act = e_action e" using eval_rules_entry [OF ev] by blast
  have "rel_option (\<lambda>r e. toRuleEntry r = Inr e) (List.find (spec_match (ipset_view s) q) (sortRules rs)) (Some e)"
    unfolding e [symmetric] by (rule find_list_all2 [OF rules]) (simp add: toRuleEntry_match)
  then obtain r where r: "List.find (spec_match (ipset_view s) q) (sortRules rs) = Some r" "toRuleEntry r = Inr e"
    by (auto simp: option_rel_Some2)
  have "r \<in> set (sortRules rs)" using r(1) by (auto simp: find_Some_iff)
  then have id: "length (ID r) = 16" using assms(3) by (auto simp: list_all_iff sortRules_def)
  note last = emit_log_events [OF assms(6) [folded u, unfolded run], unfolded u, folded run]
  show ?thesis
    by (intro exI conjI, rule r(1), rule last,
        simp add: decodeLogEvent_bytes [where rest = "[]", simplified] q toRuleEntry_id [OF r(2) id] toRuleEntry_match(2) [OF r(2)])
      (simp add: assms(5))
qed

definition ex_deny :: RuleSpec where
  "ex_deny = \<lparr>ID = replicate 16 7, Priority = 5, Action = 2, LogEnabled = False, LogRateLimit = 0,
     Match = \<lparr>Protocol = 1, Direction = 2, State = 0, SrcCIDRs = [], DstCIDRs = [], SrcPorts = [], DstPorts = [],
       SrcIPSetID = 0, DstIPSetID = 0\<rparr>\<rparr>"

definition ex_ruled :: bpf where
  "ex_ruled = snd (PushRules (\<lambda>_. False) [ex_deny, ex_spec] ex_loaded)"

lemma ex_ruled_push: "PushRules (\<lambda>_. False) [ex_deny, ex_spec] ex_loaded = (Inr (), ex_ruled)"
proof -
  have "is_ok (fst (PushRules (\<lambda>_. False) [ex_deny, ex_spec] ex_loaded))" by code_simp
  then show ?thesis by (auto simp: ex_ruled_def is_ok_iff prod_eq_iff)
qed

text \<open>Two rules, of which the second in priority order denies the query: the event names that one.\<close>

theorem event_names_rule_and_packet_witness:
  "\<exists>ev e. qf_events (snd (run_datapath ex_env (Some ex_query) ex_ruled)) = qf_events ex_ruled @ [ev]
     \<and> decodeLogEvent (log_event_bytes ev) = Inr e \<and> RuleID e = replicate 16 7 \<and> EAction e = 2 \<and> EDstPort e = 53"
proof -
  have ok: "bpf_ok ex_loaded" using loader_inv_reach [OF ex_loaded_reach] by (simp add: loader_inv_def)
  have ct: "\<not> ct_enabled ex_ruled" by code_simp
  have n: "length (qf_events (snd (run_datapath ex_env (Some ex_query) ex_ruled))) = 1" "length (qf_events ex_ruled) = 0"
    by code_simp+
  have first: "map_option (\<lambda>r. (ID r, Action r))
      (List.find (spec_match (ipset_view ex_ruled) (ex_query\<lparr>pkt_ct_state := 0\<rparr>)) (sortRules [ex_deny, ex_spec]))
      = Some (replicate 16 7, 2)" by code_simp
  have "qf_events (snd (run_datapath ex_env (Some ex_query) ex_ruled)) \<noteq> qf_events ex_ruled" using n by auto
  from event_names_rule_and_packet [OF ok ex_ruled_push, of ex_ruled "[]" "ex_query\<lparr>pkt_ct_state := 0\<rparr>" ex_query, OF _ _ _ this]
  show ?thesis using first ct by (auto simp: ex_deny_def ex_spec_def ex_query_def)
qed

section \<open>Counters\<close>

lemma foldl_counters:
  "foldl (\<lambda>total c. \<lparr>Packets = Packets total + fst c, Bytes = Bytes total + snd c\<rparr>) \<lparr>Packets = a, Bytes = b\<rparr> xs =
   \<lparr>Packets = a + sum_list (map fst xs), Bytes = b + sum_list (map snd xs)\<rparr>"
  by (induction xs arbitrary: a b) (simp_all add: algebra_simps)

definition counter_of :: "bpf \<Rightarrow> u32 \<Rightarrow> RuleCounters" where
  "counter_of s i = \<lparr>Packets = (\<Sum>c \<leftarrow> [0..<ncpu s]. fst (qf_rule_counters s c i)),
                     Bytes = (\<Sum>c \<leftarrow> [0..<ncpu s]. snd (qf_rule_counters s c i))\<rparr>"

lemma ReadCounter_value:
  assumes "ReadCounter flt i s = (Inr c, t)"
  shows "c = counter_of s i"
  using assms
  by (auto simp: ReadCounter_def bindS_Inr wrapS_Inr qf_rule_counters_Lookup_def sysS_Inr foldl_counters counter_of_def
      comp_def split: if_splits)

lemma sum_list_update_one:
  "distinct xs \<Longrightarrow> sum_list (map (\<lambda>x. if x = k then f x + d else f x) xs) =
     sum_list (map f xs) + (if k \<in> set xs then d else (0 :: 'a::ab_group_add))"
  by (induction xs) (auto simp: algebra_simps)

lemma bump_counter_counts:
  assumes "cpu < ncpu s"
  shows "counter_of (bump_counter cpu i sz s) j =
    (if j = i then \<lparr>Packets = Packets (counter_of s i) + 1, Bytes = Bytes (counter_of s i) + ucast sz\<rparr>
     else counter_of s j)"
proof -
  have n: "ncpu (bump_counter cpu i sz s) = ncpu s"
    by (simp add: bump_counter_def split: prod.splits)
  have f: "fst (qf_rule_counters (bump_counter cpu i sz s) c j) =
      (if c = cpu then fst (qf_rule_counters s c j) + (if j = i then 1 else 0) else fst (qf_rule_counters s c j))"
    and g: "snd (qf_rule_counters (bump_counter cpu i sz s) c j) =
      (if c = cpu then snd (qf_rule_counters s c j) + (if j = i then ucast sz else 0) else snd (qf_rule_counters s c j))" for c
    by (auto simp: bump_counter_def split: prod.splits)
  show ?thesis unfolding counter_of_def n f g using assms
    by (simp add: sum_list_update_one)
qed

lemma counter_of_cong:
  "qf_rule_counters s = qf_rule_counters t \<Longrightarrow> ncpu s = ncpu t \<Longrightarrow> counter_of s i = counter_of t i"
  by (simp add: counter_of_def)

lemma counters_of_steps:
  "qf_rule_counters (ct_update now ev p s) = qf_rule_counters s \<and> ncpu (ct_update now ev p s) = ncpu s"
  "qf_rule_counters (snd (check_rate_limit cpu now idx rate s)) = qf_rule_counters s
   \<and> ncpu (snd (check_rate_limit cpu now idx rate s)) = ncpu s"
  by (auto simp: ct_update_def check_rate_limit_def Let_def split: prod.splits option.splits if_splits)

lemma counters_emit_log:
  "qf_rule_counters (emit_log cpu now room p idx r act ct s) = qf_rule_counters s
   \<and> ncpu (emit_log cpu now room p idx r act ct s) = ncpu s"
  using counters_of_steps(2) [of cpu now idx "e_log_rate_limit r" s]
  by (auto simp: emit_log_def Let_def split: prod.splits)

lemma run_datapath_counts:
  assumes cpu: "env_cpu env < ncpu s"
  shows "counter_of (snd (run_datapath env (Some p0) s)) j =
    (case eval_rules s (p0\<lparr>pkt_ct_state := (if ct_enabled s then ct_lookup s p0 else 0)\<rparr>) of
       None \<Rightarrow> counter_of s j
     | Some (i, act) \<Rightarrow>
         if j = of_nat i
         then \<lparr>Packets = Packets (counter_of s j) + 1, Bytes = Bytes (counter_of s j) + ucast (pkt_size p0)\<rparr>
         else counter_of s j)"
proof -
  have upd: "counter_of (if b then ct_update now ev p s else s) j = counter_of s j"
    "ncpu (if b then ct_update now ev p s else s) = ncpu s" for b now ev p j
    using counters_of_steps(1) [of now ev p s] by (auto intro: counter_of_cong)
  have updT: "counter_of (ct_update now ev p s) j = counter_of s j" for now ev p j
    using upd(1) [of True now ev p j] by simp
  have act: "counter_of (snd (apply_action cpu now room p a i r ct t)) j = counter_of (bump_counter cpu i (pkt_size p) t) j"
    for cpu now room p a i r ct t
    unfolding apply_action_def Let_def snd_conv
    by (auto intro!: counter_of_cong simp: counters_emit_log)
  show ?thesis unfolding run_datapath_def Let_def option.case
    by (auto simp: act bump_counter_counts upd updT cpu split: option.splits)
qed

text \<open>
  Rule counters count matches: after a packet on any possible CPU, reading the counter
  of the rule that matched gives one packet and the packet's bytes more than before
  (modulo 2^64), reading any other counter gives the same value as before, and a packet
  that no rule matches changes no counter.
\<close>

lemma ReadCounter_counts_matches:
  assumes "env_cpu env < ncpu s"
    and "ReadCounter flt j s = (Inr c, u)"
    and "ReadCounter flt' j (snd (run_datapath env (Some p) s)) = (Inr c', u')"
  shows "c' = (case eval_rules s (p\<lparr>pkt_ct_state := (if ct_enabled s then ct_lookup s p else 0)\<rparr>) of
       None \<Rightarrow> c
     | Some (i, act) \<Rightarrow>
         if j = of_nat i then \<lparr>Packets = Packets c + 1, Bytes = Bytes c + ucast (pkt_size p)\<rparr> else c)"
  unfolding ReadCounter_value [OF assms(2)] ReadCounter_value [OF assms(3)]
  by (rule run_datapath_counts [OF assms(1)])

lemma ReadCounter_ok: "unat i < MaxRules \<Longrightarrow> \<exists>u. ReadCounter (\<lambda>_. False) i s = (Inr (counter_of s i), u)"
  by (simp add: ReadCounter_def bindS_def wrapS_def qf_rule_counters_Lookup_def sysS_def Let_def foldl_counters
      counter_of_def comp_def)

section \<open>Kernel versions\<close>

lemma nat_or_push:
  assumes "(b :: nat) < 2 ^ n"
  shows "push_bit n a OR b = a * 2 ^ n + b"
proof -
  have "push_bit n a AND b = 0"
  proof (rule bit_eqI)
    fix i
    have "b = take_bit n b" using assms by (simp add: take_bit_nat_eq_self)
    then have "bit b i \<Longrightarrow> i < n" by (metis bit_take_bit_iff)
    then show "bit (push_bit n a AND b) i = bit 0 i" by (auto simp: bit_and_iff bit_push_bit_iff)
  qed
  then show ?thesis using disjunctive_add_eq_or [of "push_bit n a" b] by (simp add: push_bit_nat_def)
qed

lemma unat_KernelVer:
  assumes "unat a < 2 ^ 16" and "unat b < 2 ^ 8" and "unat c < 2 ^ 8"
  shows "unat (KernelVer a b c) = (unat a * 256 + unat b) * 256 + unat c"
proof -
  have "take_bit 32 (push_bit 16 (unat a)) = push_bit 16 (unat a)"
    "take_bit 32 (push_bit 8 (unat b)) = push_bit 8 (unat b)"
    using assms by (simp_all add: push_bit_nat_def take_bit_nat_eq_self)
  then have "unat (KernelVer a b c) = push_bit 16 (unat a) OR (push_bit 8 (unat b) OR unat c)"
    by (simp add: KernelVer_def unsigned_or_eq unsigned_push_bit_eq or.assoc)
  also have "\<dots> = push_bit 16 (unat a) OR (unat b * 2 ^ 8 + unat c)"
    using assms(3) by (simp only: nat_or_push)
  also have "\<dots> = unat a * 2 ^ 16 + (unat b * 2 ^ 8 + unat c)"
    using assms by (intro nat_or_push) auto
  finally show ?thesis by simp
qed

lemmas parse_defs = ParseKernelVersion_def sscanf_u32_def parseUint32_def is_digit_def digit_val_def
  map_filter_simps Let_def

text \<open>
  The packed kernel version orders releases lexicographically, and so selects the
  64-rule build exactly from 5.17 on, as long as minor and patch level fit in a byte.
\<close>

lemma loadBpfObjects_selects_by_version:
  assumes "unat a < 2 ^ 16" and "unat b < 2 ^ 8" and "unat c < 2 ^ 8"
  shows "loadBpfObjects_maxRules (KernelVer a b c) = (if 5 < unat a \<or> unat a = 5 \<and> 17 \<le> unat b then 64 else 32)"
proof -
  have k: "unat (KernelVer 5 17 0) = (5 * 256 + 17) * 256 + 0" using unat_KernelVer [of 5 17 0] by simp
  have bc: "unat b \<le> 255" "unat c \<le> 255" using assms by simp_all
  consider "unat a \<le> 4" | "unat a = 5" "unat b \<le> 16" | "unat a = 5" "17 \<le> unat b" | "6 \<le> unat a"
    by linarith
  then have "KernelVer 5 17 0 \<le> KernelVer a b c \<longleftrightarrow> 5 < unat a \<or> unat a = 5 \<and> 17 \<le> unat b"
    unfolding word_le_nat_alt k unat_KernelVer [OF assms] using bc by cases (simp; linarith)+
  then show ?thesis by (simp add: loadBpfObjects_maxRules_def)
qed

text \<open>
  Without that bound the packed fields overlap: a 5.16 kernel whose release string has
  a third number of 256 or more, such as a distribution build number, is taken for 5.17
  and given the build that needs \<open>bpf_loop\<close>.
\<close>

lemma KernelVer_overlap:
  "ParseKernelVersion ''5.16-1061-azure'' = KernelVer 5 16 1061
   \<and> loadBpfObjects_maxRules (KernelVer 5 16 1061) = 64"
proof -
  have "ParseKernelVersion ''5.16-1061-azure'' = KernelVer 5 16 1061" by (simp add: parse_defs)
  moreover have "KernelVer 5 17 0 \<le> KernelVer 5 16 1061" by (simp add: KernelVer_def)
  ultimately show ?thesis by (simp add: loadBpfObjects_maxRules_def)
qed

end
