(* ===== verification/Qf_Agent.thy ===== *)
theory Qf_Agent
  imports Qf_Telemetry
begin

text \<open>
  How a bundle reaches the handler: signing and verification, the bundle file
  (agent/internal/policy/bundle.go, cp/internal/pki/bundle_signer.go), loading at boot
  (agent/internal/agent/boot.go), and the delivery over the stream with its
  acknowledgements (agent/internal/grpcclient/bundle.go, handshake.go, the message loop of
  agent/internal/agent/agent.go). Ed25519 and the protobuf codec are arguments.
\<close>

section \<open>Signatures\<close>

record crypto =
  ed_Sign :: "bytes \<Rightarrow> bytes \<Rightarrow> bytes"
  ed_Verify :: "bytes \<Rightarrow> bytes \<Rightarrow> bytes \<Rightarrow> bool"
  pb_Marshal :: "qfv1_PolicyBundle \<Rightarrow> bytes res"
  pb_Unmarshal :: "bytes \<Rightarrow> qfv1_PolicyBundle res"

definition ed25519_PublicKeySize :: nat where "ed25519_PublicKeySize = 32"

definition canonicalBytes :: "crypto \<Rightarrow> qfv1_PolicyBundle \<Rightarrow> bytes res" where
  "canonicalBytes C b = pb_Marshal C b"

definition SignBundle :: "crypto \<Rightarrow> int \<Rightarrow> bytes \<Rightarrow> qfv1_PolicyBundle \<Rightarrow> qfv1_PolicyBundle res" where
  "SignBundle C now priv b =
     (let b1 = b\<lparr>pb_signed_at := Some now, pb_signature := []\<rparr> in
      bindR (wrapR ''canonical bytes'' (canonicalBytes C b1)) (\<lambda>msg.
        Inr (b1\<lparr>pb_signature := ed_Sign C priv msg\<rparr>)))"

text \<open>The control plane's signer (bundle_signer.go), with its own error text.\<close>

definition BundleSigner_SignBundle :: "crypto \<Rightarrow> int \<Rightarrow> bytes \<Rightarrow> qfv1_PolicyBundle \<Rightarrow> qfv1_PolicyBundle res" where
  "BundleSigner_SignBundle C now priv b =
     (let b1 = b\<lparr>pb_signature := [], pb_signed_at := Some now\<rparr> in
      bindR (wrapR ''pki: marshal bundle'' (pb_Marshal C b1)) (\<lambda>canonical.
        Inr (b1\<lparr>pb_signature := ed_Sign C priv canonical\<rparr>)))"

definition VerifyBundle :: "crypto \<Rightarrow> qfv1_PolicyBundle \<Rightarrow> bytes \<Rightarrow> unit res" where
  "VerifyBundle C b pub =
     (if pb_signature b = [] then Inl (Sentinel ''ErrNoSignature'')
      else if length pub \<noteq> ed25519_PublicKeySize then Inl (Sentinel ''ErrInvalidSignature'')
      else bindR (wrapR ''canonical bytes'' (canonicalBytes C (b\<lparr>pb_signature := []\<rparr>))) (\<lambda>msg.
        if ed_Verify C pub msg (pb_signature b) then Inr () else Inl (Sentinel ''ErrInvalidSignature'')))"

text \<open>
  What the code relies on of Ed25519 and of the codec: a signature verifies under the
  matching key and is not empty, keys have their size, and \<open>Unmarshal\<close> inverts \<open>Marshal\<close>.
\<close>

definition ed25519_pair :: "crypto \<Rightarrow> bytes \<Rightarrow> bytes \<Rightarrow> bool" where
  "ed25519_pair C priv pub \<longleftrightarrow> length pub = 32 \<and>
     (\<forall>msg. ed_Sign C priv msg \<noteq> [] \<and> ed_Verify C pub msg (ed_Sign C priv msg))"

definition codec_ok :: "crypto \<Rightarrow> bool" where
  "codec_ok C \<longleftrightarrow> (\<forall>b bs. pb_Marshal C b = Inr bs \<longrightarrow> pb_Unmarshal C bs = Inr b)"

section \<open>The bundle file\<close>

text \<open>
  The file system of the bundle directory: contents by path. Each operation may fail; a
  failing write leaves a prefix of the data, as long as \<open>short\<close> says.
\<close>

record fs =
  files :: "string \<rightharpoonup> bytes"
  fsops :: nat

definition fsS :: "(nat \<Rightarrow> bool) \<Rightarrow> (fs, 'a) st \<Rightarrow> (fs, 'a) st \<Rightarrow> (fs, 'a) st" where
  "fsS flt fail op = (\<lambda>s. let s' = s\<lparr>fsops := Suc (fsops s)\<rparr> in if flt (fsops s) then fail s' else op s')"

definition os_Remove :: "(nat \<Rightarrow> bool) \<Rightarrow> string \<Rightarrow> fs \<Rightarrow> fs" where
  "os_Remove flt name s = (let s' = s\<lparr>fsops := Suc (fsops s)\<rparr> in
     if flt (fsops s) then s' else s'\<lparr>files := (files s')(name := None)\<rparr>)"

definition io_err :: "('s, 'a) st" where
  "io_err = failS (Errorf ''i/o error'')"

definition orRemove :: "(nat \<Rightarrow> bool) \<Rightarrow> string \<Rightarrow> (fs, 'a) st \<Rightarrow> (fs, 'a) st" where
  "orRemove flt name m = (\<lambda>s. case m s of
     (Inl e, s') \<Rightarrow> (Inl e, os_Remove flt name s') | (Inr x, s') \<Rightarrow> (Inr x, s'))"

definition SaveBundle :: "crypto \<Rightarrow> (nat \<Rightarrow> bool) \<Rightarrow> nat \<Rightarrow> string \<Rightarrow> string \<Rightarrow> qfv1_PolicyBundle \<Rightarrow> (fs, unit) st" where
  "SaveBundle C flt short tmpName path b =
     bindS (wrapS ''marshal bundle'' (liftS (pb_Marshal C b))) (\<lambda>bs.
     bindS (wrapS ''create temp file'' (fsS flt io_err
              (\<lambda>s. (Inr (), s\<lparr>files := (files s)(tmpName \<mapsto> [])\<rparr>)))) (\<lambda>_.
     bindS (wrapS ''write bundle'' (orRemove flt tmpName (fsS flt
              (\<lambda>s. (Inl (Errorf ''i/o error''), s\<lparr>files := (files s)(tmpName \<mapsto> take short bs)\<rparr>))
              (\<lambda>s. (Inr (), s\<lparr>files := (files s)(tmpName \<mapsto> bs)\<rparr>))))) (\<lambda>_.
     bindS (wrapS ''close temp file'' (orRemove flt tmpName (fsS flt io_err (\<lambda>s. (Inr (), s))))) (\<lambda>_.
     wrapS ''rename bundle file'' (orRemove flt tmpName (fsS flt io_err
              (\<lambda>s. (Inr (), s\<lparr>files := (files s)(tmpName := None, path := files s tmpName)\<rparr>))))))))"

definition LoadBundle :: "crypto \<Rightarrow> (nat \<Rightarrow> bool) \<Rightarrow> string \<Rightarrow> (fs, qfv1_PolicyBundle) st" where
  "LoadBundle C flt path =
     bindS (wrapS ''read bundle file'' (fsS flt io_err
              (\<lambda>s. case files s path of None \<Rightarrow> (Inl (Sentinel ''os.ErrNotExist''), s) | Some b \<Rightarrow> (Inr b, s)))) (\<lambda>b.
     wrapS ''unmarshal bundle'' (liftS (pb_Unmarshal C b)))"

section \<open>boot.go\<close>

text \<open>The agent process: the handler and the disk.\<close>

record 's Agent =
  handler :: "'s PolicyHandler"
  disk :: fs

definition Reload :: "'s RuleApplier \<Rightarrow> ((u32 \<times> CIDR4 list) list \<Rightarrow> (u32 \<times> CIDR4 list) list) \<Rightarrow> clock3 \<Rightarrow>
    qfv1_PolicyBundle \<Rightarrow> ('s PolicyHandler, ApplyResult) st" where
  "Reload A iter clk b = Apply A iter clk (Some b)"

definition LoadAndApply ::
  "crypto \<Rightarrow> 's RuleApplier \<Rightarrow> ((u32 \<times> CIDR4 list) list \<Rightarrow> (u32 \<times> CIDR4 list) list) \<Rightarrow> clock3 \<Rightarrow>
   (nat \<Rightarrow> bool) \<Rightarrow> string \<Rightarrow> bytes \<Rightarrow> ('s Agent, unit) st" where
  "LoadAndApply C A iter clk flt path pub a =
     (case LoadBundle C flt path (disk a) of
        (Inl e, d) \<Rightarrow>
          if errors_Is e ''os.ErrNotExist'' then (Inr (), a\<lparr>disk := d\<rparr>)
          else (Inl (Wrapf ''load bundle'' e), a\<lparr>disk := d\<rparr>)
      | (Inr b, d) \<Rightarrow>
          (case VerifyBundle C b pub of
             Inl e \<Rightarrow> (Inl (Wrapf ''verify bundle'' e), a\<lparr>disk := d\<rparr>)
           | Inr _ \<Rightarrow>
               (case Reload A iter clk b (handler a) of
                  (Inl e, h) \<Rightarrow> (Inl (Wrapf ''apply bundle'' e), a\<lparr>disk := d, handler := h\<rparr>)
                | (Inr _, h) \<Rightarrow> (Inr (), a\<lparr>disk := d, handler := h\<rparr>))))"

section \<open>grpcclient/bundle.go\<close>

text \<open>
  The send side of the stream: what has been sent, and which sends fail (by their number).
\<close>

record 's session =
  sent :: "agent_msg list"
  nsend :: nat
  peer :: 's

definition stream_Send :: "(nat \<Rightarrow> bool) \<Rightarrow> agent_msg \<Rightarrow> ('s session, unit) st" where
  "stream_Send sflt m = (\<lambda>z. let z' = z\<lparr>nsend := Suc (nsend z)\<rparr> in
     if sflt (nsend z) then (Inl (Errorf ''stream send''), z') else (Inr (), z'\<lparr>sent := sent z @ [m]\<rparr>))"

definition onPeer :: "('s, 'a) st \<Rightarrow> 's session \<Rightarrow> 'a res \<times> 's session" where
  "onPeer m z = (case m (peer z) of (r, p) \<Rightarrow> (r, z\<lparr>peer := p\<rparr>))"

definition HandleBundle ::
  "crypto \<Rightarrow> (nat \<Rightarrow> bool) \<Rightarrow> qfv1_PolicyBundle \<Rightarrow> bytes \<Rightarrow> (qfv1_PolicyBundle \<Rightarrow> ('s, u32) st) \<Rightarrow> ('s session, unit) st" where
  "HandleBundle C sflt b pub applyFn z =
     (let gen = pb_generation b; sig = VerifyBundle C b pub;
          ack = \<lparr>ack_generation = gen, ack_signature_verified = is_ok sig,
                 ack_error = (case sig of Inl e \<Rightarrow> (if errors_Is e ''ErrNoSignature'' then None else Some e)
                              | Inr _ \<Rightarrow> None)\<rparr>
      in case stream_Send sflt (BundleAckMsg ack) z of
           (Inl e, z1) \<Rightarrow> (Inl (Wrapf ''bundle: send ack'' e), z1)
         | (Inr _, z1) \<Rightarrow>
             (case sig of
                Inl e \<Rightarrow> stream_Send sflt (BundleAppliedMsg \<lparr>ba_generation = gen, ba_success = False,
                            ba_error = Some (Wrapf ''signature'' e), ba_duration_ms = 0\<rparr>) z1
              | Inr _ \<Rightarrow>
                  (case onPeer (applyFn b) z1 of
                     (Inl e, z2) \<Rightarrow>
                       wrapS ''bundle: send applied'' (stream_Send sflt (BundleAppliedMsg
                         \<lparr>ba_generation = gen, ba_success = False, ba_error = Some e, ba_duration_ms = 0\<rparr>)) z2
                   | (Inr dur, z2) \<Rightarrow>
                       wrapS ''bundle: send applied'' (stream_Send sflt (BundleAppliedMsg
                         \<lparr>ba_generation = gen, ba_success = True, ba_error = None, ba_duration_ms = dur\<rparr>)) z2)))"

text \<open>\<open>Agent.applyFn\<close>: apply and return the duration; warnings are only logged.\<close>

definition applyFn :: "'s RuleApplier \<Rightarrow> ((u32 \<times> CIDR4 list) list \<Rightarrow> (u32 \<times> CIDR4 list) list) \<Rightarrow> clock3 \<Rightarrow>
    qfv1_PolicyBundle \<Rightarrow> ('s PolicyHandler, u32) st" where
  "applyFn A iter clk b h =
     (case Apply A iter clk (Some b) h of
        (Inl e, h') \<Rightarrow> (Inl e, h') | (Inr ar, h') \<Rightarrow> (Inr (ar_DurationMs ar), h'))"

text \<open>The generation the agent reports: \<open>genFn\<close> and \<open>currentGen\<close>.\<close>

definition currentGen :: "'s PolicyHandler \<Rightarrow> i64" where
  "currentGen h = (case current h of None \<Rightarrow> 0 | Some ar \<Rightarrow> ar_Generation ar)"

section \<open>handshake.go\<close>

text \<open>
  \<open>Handshake\<close> on the messages the stream delivers (the end of the list is a receive
  error): the \<open>Welcome\<close> message, the initial bundle if the server generation is ahead, and
  the messages left.
\<close>

definition recv_welcome :: "qfv1_Hello \<Rightarrow> server_msg list \<Rightarrow> (qfv1_Welcome \<times> qfv1_PolicyBundle option \<times> server_msg list) res" where
  "recv_welcome hello inbox =
     (case inbox of
        [] \<Rightarrow> Inl (Wrapf ''handshake: recv welcome'' (Errorf ''stream recv''))
      | WelcomeMsg w # rest \<Rightarrow>
          if \<not> wl_accepted w then Inl (Errorf ''handshake: rejected by CP'')
          else if hl_current_generation hello <s wl_server_generation w then
            (case rest of
               [] \<Rightarrow> Inl (Wrapf ''handshake: recv initial bundle'' (Errorf ''stream recv''))
             | PolicyBundleMsg b # rest' \<Rightarrow> Inr (w, Some b, rest')
             | DisconnectRequestMsg _ # _ \<Rightarrow> Inl (Sentinel ''codes.Unavailable'')
             | _ \<Rightarrow> Inl (Errorf ''handshake: expected PolicyBundle''))
          else Inr (w, None, rest)
      | _ \<Rightarrow> Inl (Errorf ''handshake: expected Welcome''))"

definition Handshake ::
  "(nat \<Rightarrow> bool) \<Rightarrow> qfv1_Hello \<Rightarrow> server_msg list \<Rightarrow> ('s session, qfv1_Welcome \<times> qfv1_PolicyBundle option \<times> server_msg list) st" where
  "Handshake sflt hello inbox =
     bindS (wrapS ''handshake: send hello'' (stream_Send sflt (HelloMsg hello))) (\<lambda>_. liftS (recv_welcome hello inbox))"

section \<open>Properties\<close>

lemma stream_Send_cases:
  "stream_Send sflt m z =
     (if sflt (nsend z) then (Inl (Errorf ''stream send''), z\<lparr>nsend := Suc (nsend z)\<rparr>)
      else (Inr (), z\<lparr>nsend := Suc (nsend z), sent := sent z @ [m]\<rparr>))"
  by (simp add: stream_Send_def Let_def)

lemma applyFn_current:
  assumes "applyFn A iter clk b h = (Inr d, h')"
  shows "currentGen h' = pb_generation b"
  using assms unfolding applyFn_def
  by (auto simp: currentGen_def split: prod.splits sum.splits elim!: Apply_Inr)

lemma HandleBundle_applied:
  assumes "HandleBundle C sflt b pub (applyFn A iter clk) z = (r, z')"
    and "BundleAppliedMsg m \<in> set (drop (length (sent z)) (sent z'))" and "ba_success m"
  shows "is_ok (fst (Apply A iter clk (Some b) (peer z))) \<and> peer z' = snd (Apply A iter clk (Some b) (peer z))"
proof -
  obtain q h where q: "Apply A iter clk (Some b) (peer z) = (q, h)" by (cases "Apply A iter clk (Some b) (peer z)")
  show ?thesis
    using assms q
    by (cases "VerifyBundle C b pub"; cases q)
      (auto simp: HandleBundle_def stream_Send_cases onPeer_def wrapS_def applyFn_def Let_def split: if_splits)
qed

text \<open>
  C7. Delivery of a bundle. The handler's state changes only if the signature verified
  under the configured key; a \<open>BundleApplied\<close> that reports success is sent only if the
  signature verified and the bundle was applied, so that its generation is then the current
  one; and when \<open>HandleBundle\<close> returns without error it has sent exactly an acknowledgement
  that tells whether the signature verified, followed by a result that tells whether the
  bundle was applied, both with the bundle's generation.
\<close>

theorem HandleBundle_sound:
  assumes "HandleBundle C sflt b pub (applyFn A iter clk) z = (r, z')"
  shows "(peer z' \<noteq> peer z \<longrightarrow> VerifyBundle C b pub = Inr ())
    \<and> (\<forall>m. BundleAppliedMsg m \<in> set (drop (length (sent z)) (sent z')) \<longrightarrow> ba_success m \<longrightarrow>
          VerifyBundle C b pub = Inr () \<and> ba_generation m = pb_generation b \<and> currentGen (peer z') = pb_generation b)
    \<and> (r = Inr () \<longrightarrow> (\<exists>ack res. sent z' = sent z @ [BundleAckMsg ack, BundleAppliedMsg res]
          \<and> ack_generation ack = pb_generation b \<and> ack_signature_verified ack = is_ok (VerifyBundle C b pub)
          \<and> ba_generation res = pb_generation b
          \<and> ba_success res = (is_ok (VerifyBundle C b pub) \<and> is_ok (fst (applyFn A iter clk b (peer z))))))"
proof (cases "VerifyBundle C b pub")
  case (Inl e)
  then show ?thesis using assms
    by (auto simp: HandleBundle_def stream_Send_cases Let_def split: if_splits)
next
  case (Inr u)
  obtain q h where q: "applyFn A iter clk b (peer z) = (q, h)" by (cases "applyFn A iter clk b (peer z)")
  have gen: "currentGen h = pb_generation b" if "q = Inr d" for d
    using applyFn_current q that by blast
  show ?thesis
  proof (cases q)
    case (Inl e)
    then show ?thesis using assms Inr q
      by (auto simp: HandleBundle_def stream_Send_cases onPeer_def wrapS_def Let_def split: if_splits)
  next
    case (Inr d)
    then show ?thesis using assms \<open>VerifyBundle C b pub = Inr u\<close> q gen
      by (auto simp: HandleBundle_def stream_Send_cases onPeer_def wrapS_def Let_def split: if_splits)
  qed
qed

text \<open>A signature scheme and codec for the witnesses, defined on two bundles.\<close>

definition ex_key :: bytes where "ex_key = replicate 32 7"

definition ex_empty :: qfv1_PolicyBundle where
  "ex_empty = \<lparr>pb_generation = 4, pb_rules = [], pb_default_ingress_action = 2, pb_default_egress_action = 1,
     pb_requires_conntrack = False, pb_signature = [], pb_signed_at = Some 9\<rparr>"

definition ex_signed :: qfv1_PolicyBundle where
  "ex_signed = ex_empty\<lparr>pb_signature := ex_key @ [1]\<rparr>"

definition ex_crypto :: crypto where
  "ex_crypto = \<lparr>ed_Sign = (\<lambda>priv msg. priv @ msg), ed_Verify = (\<lambda>pub msg sig. sig = pub @ msg),
     pb_Marshal = (\<lambda>b. if b = ex_empty then Inr [1] else if b = ex_signed then Inr [2] else Inl (Errorf ''marshal'')),
     pb_Unmarshal = (\<lambda>bs. if bs = [1] then Inr ex_empty else if bs = [2] then Inr ex_signed else Inl (Errorf ''unmarshal''))\<rparr>"

lemma ex_key_length [simp]: "length ex_key = 32" "ex_key \<noteq> []"
  by (simp_all add: ex_key_def)

lemma ex_pair: "ed25519_pair ex_crypto ex_key ex_key"
  by (simp add: ed25519_pair_def ex_crypto_def)

lemma ex_codec: "codec_ok ex_crypto"
  by (auto simp: codec_ok_def ex_crypto_def split: if_splits)

lemma ex_verifies: "VerifyBundle ex_crypto ex_signed ex_key = Inr ()"
  by (simp add: VerifyBundle_def ex_signed_def ex_empty_def ex_crypto_def canonicalBytes_def ed25519_PublicKeySize_def)

definition ex_handler0 :: "bpf PolicyHandler" where
  "ex_handler0 = NewPolicyHandler (init_bpf 64 1)"

definition ex_clock0 :: clock3 where
  "ex_clock0 = \<lparr>clk_start = 0, clk_since = 3000000, clk_applied = 3000000\<rparr>"

lemma ex_empty_compiles:
  "CompileBundle (Some (ex_empty\<lparr>pb_signature := sig\<rparr>)) =
     Inr \<lparr>Rules = [], CConfig = bundleConfig ex_empty, IPSets = [], Warnings = []\<rparr>"
  by (simp add: CompileBundle_def ex_empty_def bundleConfig_def Let_def)

lemma ex_signed_applies:
  "is_ok (fst (Apply (loader_applier (\<lambda>_. False)) id ex_clock0 (Some ex_signed) ex_handler0))"
proof -
  have "\<exists>t. push_all (loader_applier (\<lambda>_. False)) id
      \<lparr>Rules = [], CConfig = bundleConfig ex_empty, IPSets = [], Warnings = []\<rparr> (applier ex_handler0) = (Inr (), t)"
    by (rule push_all_ok) (simp_all add: ex_handler0_def NewPolicyHandler_def init_bpf_def bpf_ok_def trie_ok_def)
  then show ?thesis by (auto simp: Apply_def ex_signed_def ex_empty_compiles Let_def)
qed

definition ex_session :: "bpf PolicyHandler session" where
  "ex_session = \<lparr>sent = [], nsend = 0, peer = ex_handler0\<rparr>"

theorem HandleBundle_sound_witness:
  "\<exists>z' ack res. HandleBundle ex_crypto (\<lambda>_. False) ex_signed ex_key
        (applyFn (loader_applier (\<lambda>_. False)) id ex_clock0) ex_session = (Inr (), z')
     \<and> sent z' = [BundleAckMsg ack, BundleAppliedMsg res] \<and> ba_success res \<and> currentGen (peer z') = 4"
proof -
  let ?f = "applyFn (loader_applier (\<lambda>_. False)) id ex_clock0"
  have p: "peer ex_session = ex_handler0" "sent ex_session = []" by (simp_all add: ex_session_def)
  have a: "is_ok (fst (?f ex_signed ex_handler0))"
    using ex_signed_applies by (auto simp: applyFn_def is_ok_iff split: prod.splits sum.splits)
  then obtain d h where "?f ex_signed ex_handler0 = (Inr d, h)" by (metis is_ok_iff prod.collapse)
  then obtain z' where z': "HandleBundle ex_crypto (\<lambda>_. False) ex_signed ex_key ?f ex_session = (Inr (), z')"
    by (simp add: HandleBundle_def ex_verifies stream_Send_cases onPeer_def wrapS_def p Let_def)
  note h = HandleBundle_sound [OF z', unfolded p]
  from h obtain ack res where s: "sent z' = [BundleAckMsg ack, BundleAppliedMsg res]" "ba_success res"
    using a ex_verifies by auto
  then have "currentGen (peer z') = pb_generation ex_signed" using h by auto
  then show ?thesis using z' s by (auto simp: ex_signed_def ex_empty_def)
qed

lemma SignBundle_verifies:
  assumes "ed25519_pair C priv pub" and "BundleSigner_SignBundle C now priv b = Inr b'"
  shows "VerifyBundle C b' pub = Inr ()"
proof -
  let ?b1 = "b\<lparr>pb_signature := [], pb_signed_at := Some now\<rparr>"
  from assms(2) obtain msg where msg: "pb_Marshal C ?b1 = Inr msg" and b': "b' = ?b1\<lparr>pb_signature := ed_Sign C priv msg\<rparr>"
    by (auto simp: BundleSigner_SignBundle_def bindR_eq_Inr Let_def)
  have b1: "b'\<lparr>pb_signature := []\<rparr> = ?b1" unfolding b' by (rule qfv1_PolicyBundle.equality) simp_all
  have "pb_signature b' = ed_Sign C priv msg" by (simp add: b')
  then show ?thesis
    using assms(1) msg by (simp add: VerifyBundle_def b1 canonicalBytes_def ed25519_pair_def ed25519_PublicKeySize_def)
qed

text \<open>
  Signing, storing and verifying compose across the two programs: a bundle signed by
  the control plane verifies on the agent under the matching public key, saving it and
  loading it back gives the same bundle, and so a verified bundle survives a restart. The
  hypotheses are the documented behaviour of Ed25519 and of the protobuf codec.
\<close>

lemma signed_bundle_roundtrip:
  assumes "ed25519_pair C priv pub" and "codec_ok C"
    and "BundleSigner_SignBundle C now priv b = Inr b'"
    and "SaveBundle C flt short tmp path b' s = (Inr (), s')"
    and "LoadBundle C flt path s' = (r, s'')" and "\<not> flt (fsops s')"
  shows "r = Inr b' \<and> VerifyBundle C b' pub = Inr ()"
proof -
  have v: "VerifyBundle C b' pub = Inr ()" using assms(1,3) by (rule SignBundle_verifies)
  from assms(4) obtain bs where bs: "pb_Marshal C b' = Inr bs" and f: "files s' path = Some bs"
    by (auto simp: SaveBundle_def bindS_Inr wrapS_Inr fsS_def orRemove_def io_err_def Let_def split: if_splits)
  then have "r = Inr b'"
    using assms(2,5,6) by (auto simp: LoadBundle_def bindS_def wrapS_def fsS_def Let_def codec_ok_def)
  then show ?thesis using v by simp
qed

text \<open>
  C31. Saving a bundle is atomic: whatever operations fail, and however much of a failing
  write reached the disk, the bundle file afterwards holds either what it held before or
  the complete serialised bundle, the latter exactly on success, and no file other than
  the temporary one is touched. A failure whose clean-up succeeds leaves no temporary file.
\<close>

theorem SaveBundle_atomic:
  assumes "SaveBundle C flt short tmp path b s = (r, s')" and "tmp \<noteq> path" and "pb_Marshal C b = Inr bs"
  shows "files s' path = (if r = Inr () then Some bs else files s path)
    \<and> (\<forall>f. f \<noteq> path \<longrightarrow> f \<noteq> tmp \<longrightarrow> files s' f = files s f)
    \<and> (\<not> flt (fsops s' - 1) \<longrightarrow> files s tmp = None \<longrightarrow> files s' tmp = None)"
  using assms
  by (auto simp: SaveBundle_def bindS_def wrapS_def fsS_def orRemove_def os_Remove_def io_err_def Let_def split: if_splits)

theorem SaveBundle_atomic_witness:
  "\<exists>e s'. SaveBundle ex_crypto (\<lambda>n. n = 1) 0 ''t'' ''p'' ex_signed \<lparr>files = [''p'' \<mapsto> [9]], fsops = 0\<rparr> = (Inl e, s')
     \<and> files s' ''p'' = Some [9] \<and> files s' ''t'' = None"
proof -
  have ne: "ex_signed \<noteq> ex_empty" by (simp add: ex_signed_def ex_empty_def)
  let ?s = "\<lparr>files = [''p'' \<mapsto> [9]], fsops = 0\<rparr> :: fs"
  obtain e s' where s': "SaveBundle ex_crypto (\<lambda>n. n = 1) 0 ''t'' ''p'' ex_signed ?s = (Inl e, s')" and n: "fsops s' = 3"
    using ne by (simp add: SaveBundle_def bindS_def wrapS_def fsS_def orRemove_def os_Remove_def ex_crypto_def Let_def)
  from SaveBundle_atomic [OF s', of "[2]"] s' n ne show ?thesis by (simp add: ex_crypto_def)
qed

end
