(* ===== verification/Qf_Ruleset.thy ===== *)
theory Qf_Ruleset
  imports Qf_Writes Qf_Agent
begin

text \<open>
  The control plane's policy compiler (cp/internal/policy/resolver.go, ruleset.go,
  bundle.go): object groups are resolved to CIDRs and ports, the rules of the policies that
  select a host are resolved and ordered, and the result becomes a signed bundle.
\<close>

section \<open>resolver.go\<close>

record ResolvedGroup =
  g_ID :: string
  g_Type :: string
  g_CIDRs :: "qfv1_CIDR list"
  g_Ports :: "qfv1_PortRange list"

definition parseCIDR :: "string \<Rightarrow> qfv1_CIDR res" where
  "parseCIDR s =
     bindR (netParseCIDR s) (\<lambda>(ip, netip, m).
       case To4 ip of
         Some ip4 \<Rightarrow> Inr \<lparr>cidr_ip = ip4, cidr_prefix_len = of_nat (maskOnes m)\<rparr>
       | None \<Rightarrow> Inr \<lparr>cidr_ip = (case To16 ip of None \<Rightarrow> [] | Some b \<Rightarrow> b), cidr_prefix_len = of_nat (maskOnes m)\<rparr>)"

definition parsePortRange :: "string \<Rightarrow> qfv1_PortRange res" where
  "parsePortRange s =
     (case strCut (CHR ''-'') s of
        Some (a, b) \<Rightarrow>
          bindR (parseUint32 a) (\<lambda>lo. bindR (parseUint32 b) (\<lambda>hi.
            if hi < lo then Inl (Errorf ''invalid range'') else Inr \<lparr>pr_start = lo, pr_end = hi\<rparr>))
      | None \<Rightarrow> bindR (parseUint32 s) (\<lambda>p. Inr \<lparr>pr_start = p, pr_end = p\<rparr>))"

definition resolveIPSet :: "Queries \<Rightarrow> ObjectGroup \<Rightarrow> ResolvedGroup res" where
  "resolveIPSet Q og =
     bindR (wrapR ''resolver: ipset spec'' (json_IPSetSpec Q (og_Spec og))) (\<lambda>ss.
     bindR (wrapR ''resolver: ipset cidr'' (mapR parseCIDR ss)) (\<lambda>cs.
       Inr \<lparr>g_ID = pgUUIDToStr (og_ID og), g_Type = ''ipset'', g_CIDRs = cs, g_Ports = []\<rparr>))"

definition resolvePortSet :: "Queries \<Rightarrow> ObjectGroup \<Rightarrow> ResolvedGroup res" where
  "resolvePortSet Q og =
     bindR (wrapR ''resolver: portset spec'' (json_PortSetSpec Q (og_Spec og))) (\<lambda>ss.
     bindR (wrapR ''resolver: portset entry'' (mapR parsePortRange ss)) (\<lambda>ps.
       Inr \<lparr>g_ID = pgUUIDToStr (og_ID og), g_Type = ''portset'', g_CIDRs = [], g_Ports = ps\<rparr>))"

text \<open>The address of a host in a host set, from its \<open>ip\<close> label; \<open>None\<close> is \<open>continue\<close>.\<close>

definition host_cidr :: "Queries \<Rightarrow> Host \<Rightarrow> qfv1_CIDR option" where
  "host_cidr Q h =
     (case fst (parseLabels Q (h_Labels h)) ''ip'' of
        None \<Rightarrow> None
      | Some s \<Rightarrow> if s = '''' then None else
          (case netParseIP s of
             None \<Rightarrow> None
           | Some ip \<Rightarrow>
               (case To4 ip of
                  Some ip4 \<Rightarrow> Some \<lparr>cidr_ip = ip4, cidr_prefix_len = 32\<rparr>
                | None \<Rightarrow> Some \<lparr>cidr_ip = (case To16 ip of None \<Rightarrow> [] | Some b \<Rightarrow> b), cidr_prefix_len = 128\<rparr>)))"

definition resolveHostSet :: "Queries \<Rightarrow> db \<Rightarrow> string \<Rightarrow> ObjectGroup \<Rightarrow> ResolvedGroup res" where
  "resolveHostSet Q d tenantID og =
     bindR (wrapR ''resolver: hostset spec'' (json_HostSetSpec Q (og_Spec og))) (\<lambda>sel.
     bindR (wrapR ''resolver: hostset selector'' (ResolveHosts Q d tenantID sel)) (\<lambda>hosts.
       Inr \<lparr>g_ID = pgUUIDToStr (og_ID og), g_Type = ''hostset'', g_CIDRs = List.map_filter (host_cidr Q) hosts, g_Ports = []\<rparr>))"

definition Resolve :: "Queries \<Rightarrow> db \<Rightarrow> string \<Rightarrow> string \<Rightarrow> ResolvedGroup res" where
  "Resolve Q d tenantID ogID =
     bindR (wrapR ''resolver: invalid tenant_id'' (uuid_Scan Q tenantID)) (\<lambda>tid.
     bindR (wrapR ''resolver: invalid og_id'' (uuid_Scan Q ogID)) (\<lambda>oid.
     bindR (wrapR ''resolver: get object_group'' (GetObjectGroup Q d oid tid)) (\<lambda>og.
       if og_Type og = ''ipset'' then resolveIPSet Q og
       else if og_Type og = ''portset'' then resolvePortSet Q og
       else if og_Type og = ''hostset'' then resolveHostSet Q d tenantID og
       else Inl (Errorf ''resolver: unknown object_group type''))))"

section \<open>ruleset.go\<close>

record ResolvedRule =
  rr_Rule :: Rule
  rr_Policy :: Policy
  rr_Match :: RuleMatchSpec
  rr_SrcCIDRs :: "qfv1_CIDR list"
  rr_DstCIDRs :: "qfv1_CIDR list"
  rr_SrcPorts :: "qfv1_PortRange list"
  rr_DstPorts :: "qfv1_PortRange list"

record EffectiveRuleset =
  rs_Rules :: "ResolvedRule list"
  rs_DefaultIngress :: string
  rs_DefaultEgress :: string

definition parseCIDRList :: "string list \<Rightarrow> qfv1_CIDR list res" where
  "parseCIDRList ss = mapR parseCIDR ss"

definition parsePortList :: "string list \<Rightarrow> qfv1_PortRange list res" where
  "parsePortList ss = mapR parsePortRange ss"

text \<open>\<open>x, _ := f()\<close> where \<open>f\<close> returns nil with its error: the empty list.\<close>

definition dropErr :: "'a list res \<Rightarrow> 'a list" where
  "dropErr r = (case r of Inl _ \<Rightarrow> [] | Inr xs \<Rightarrow> xs)"

text \<open>The two shapes of reference in \<open>resolveRule\<close>: IP set, host set or inline; port set or inline.\<close>

definition resolveCIDRs :: "Queries \<Rightarrow> db \<Rightarrow> string \<Rightarrow> string \<Rightarrow> string \<Rightarrow> string list \<Rightarrow> qfv1_CIDR list res" where
  "resolveCIDRs Q d tenantID ipset hostset inline =
     (if ipset \<noteq> '''' then bindR (Resolve Q d tenantID ipset) (\<lambda>g. Inr (g_CIDRs g))
      else if hostset \<noteq> '''' then bindR (Resolve Q d tenantID hostset) (\<lambda>g. Inr (g_CIDRs g))
      else Inr (dropErr (parseCIDRList inline)))"

definition resolvePorts :: "Queries \<Rightarrow> db \<Rightarrow> string \<Rightarrow> string \<Rightarrow> string list \<Rightarrow> qfv1_PortRange list res" where
  "resolvePorts Q d tenantID portset inline =
     (if portset \<noteq> '''' then bindR (Resolve Q d tenantID portset) (\<lambda>g. Inr (g_Ports g))
      else Inr (dropErr (parsePortList inline)))"

definition resolveRule :: "Queries \<Rightarrow> db \<Rightarrow> string \<Rightarrow> Policy \<Rightarrow> Rule \<Rightarrow> ResolvedRule res" where
  "resolveRule Q d tenantID p r =
     bindR (if r_Match r = [] then Inr empty_RuleMatchSpec
            else wrapR ''compiler: parse rule match'' (json_RuleMatchSpec Q (r_Match r))) (\<lambda>ms.
     bindR (resolveCIDRs Q d tenantID (ms_SrcIPSetID ms) (ms_SrcHostSetID ms) (ms_SrcCIDRs ms)) (\<lambda>src.
     bindR (resolveCIDRs Q d tenantID (ms_DstIPSetID ms) (ms_DstHostSetID ms) (ms_DstCIDRs ms)) (\<lambda>dst.
     bindR (resolvePorts Q d tenantID (ms_SrcPortSetID ms) (ms_SrcPorts ms)) (\<lambda>sports.
     bindR (resolvePorts Q d tenantID (ms_DstPortSetID ms) (ms_DstPorts ms)) (\<lambda>dports.
       Inr \<lparr>rr_Rule = r, rr_Policy = p, rr_Match = ms, rr_SrcCIDRs = src, rr_DstCIDRs = dst,
            rr_SrcPorts = sports, rr_DstPorts = dports\<rparr>)))))"

definition resolveRulesForPolicy :: "Queries \<Rightarrow> db \<Rightarrow> string \<Rightarrow> Policy \<Rightarrow> ResolvedRule list res" where
  "resolveRulesForPolicy Q d tenantID p =
     bindR (uuid_Scan Q (pgUUIDToStr (p_ID p))) (\<lambda>pid.
     bindR (wrapR ''compiler: list rules for policy'' (ListRulesByPolicy Q d pid)) (\<lambda>rules.
       mapR (resolveRule Q d tenantID p) rules))"

text \<open>The order of \<open>slices.SortFunc\<close>: policy priority, rule priority, then the id as a string.\<close>

definition rule_key :: "ResolvedRule \<Rightarrow> int \<times> int \<times> string" where
  "rule_key rr = (sint (p_Priority (rr_Policy rr)), sint (r_Priority (rr_Rule rr)), pgUUIDToStr (r_ID (rr_Rule rr)))"

text \<open>A policy whose selector does not parse is skipped.\<close>

definition policy_selects :: "Queries \<Rightarrow> (string \<rightharpoonup> string) \<Rightarrow> Policy \<Rightarrow> bool" where
  "policy_selects Q labels p =
     (case ParseSelector Q (p_Selector p) of (sel, err) \<Rightarrow> err = None \<and> MatchesLabels sel labels)"

lemma policy_selects_iff: "policy_selects Q labels p \<longleftrightarrow> (\<exists>sel. ParseSelector Q (p_Selector p) = (sel, None) \<and> MatchesLabels sel labels)"
  by (auto simp: policy_selects_def split: prod.split)

definition collectRules ::
  "Queries \<Rightarrow> db \<Rightarrow> string \<Rightarrow> (string \<rightharpoonup> string) \<Rightarrow> (Policy \<Rightarrow> ResolvedRule list res) \<Rightarrow> Policy list \<Rightarrow> ResolvedRule list res" where
  "collectRules Q d tenantID labels f ps =
     bindR (mapR f (filter (policy_selects Q labels) ps)) (\<lambda>rss. Inr (concat rss))"

definition Compile :: "Queries \<Rightarrow> db \<Rightarrow> string \<Rightarrow> string \<Rightarrow> EffectiveRuleset res" where
  "Compile Q d tenantID hostID =
     bindR (wrapR ''compiler: invalid tenant_id'' (uuid_Scan Q tenantID)) (\<lambda>tid.
     bindR (wrapR ''compiler: get default policy'' (GetDefaultPolicy Q d tid)) (\<lambda>dp.
     bindR (wrapR ''compiler: list policies'' (ListPolicies Q d tid)) (\<lambda>policies.
     bindR (wrapR ''compiler: invalid host_id'' (uuid_Scan Q hostID)) (\<lambda>hid.
     bindR (wrapR ''compiler: get host'' (GetHost Q d hid tid)) (\<lambda>h.
     bindR (collectRules Q d tenantID (fst (parseLabels Q (h_Labels h)))
              (resolveRulesForPolicy Q d tenantID) policies) (\<lambda>resolved.
       Inr \<lparr>rs_Rules = sort_key rule_key resolved, rs_DefaultIngress = dp_Ingress dp,
            rs_DefaultEgress = dp_Egress dp\<rparr>))))))"

definition to_lower_char :: "char \<Rightarrow> char" where
  "to_lower_char c = (let n = (of_char c :: nat) in if 65 \<le> n \<and> n \<le> 90 then char_of (n + 32) else c)"

definition ToLower :: "string \<Rightarrow> string" where
  "ToLower s = map to_lower_char s"

definition protoProtocol :: "string \<Rightarrow> i32" where
  "protoProtocol s = (let l = ToLower s in
     if l = ''tcp'' then PROTOCOL_TCP else if l = ''udp'' then PROTOCOL_UDP
     else if l = ''icmp'' then PROTOCOL_ICMP else if l = ''icmpv6'' then PROTOCOL_ICMPV6
     else PROTOCOL_ANY)"

definition protoAction :: "string \<Rightarrow> i32" where
  "protoAction s = (if s = ''allow'' then ACTION_ALLOW else if s = ''deny'' then ACTION_DENY
     else if s = ''log'' then ACTION_LOG else ACTION_DENY)"

definition protoDirection :: "string \<Rightarrow> i32" where
  "protoDirection s = (if s = ''egress'' then DIRECTION_EGRESS else DIRECTION_INGRESS)"

definition protoState :: "string \<Rightarrow> i32" where
  "protoState s = (if s = ''new'' then CONNTRACK_STATE_NEW
     else if s = ''established'' then CONNTRACK_STATE_ESTABLISHED
     else if s = ''related'' then CONNTRACK_STATE_RELATED
     else if s = ''invalid'' then CONNTRACK_STATE_INVALID else CONNTRACK_STATE_NONE)"

section \<open>bundle.go\<close>

definition nullableString :: "string option \<Rightarrow> string" where
  "nullableString s = (case s of None \<Rightarrow> '''' | Some v \<Rightarrow> v)"

definition buildProtoRule :: "ResolvedRule \<Rightarrow> qfv1_EffectiveRule" where
  "buildProtoRule rr =
     (let state = protoState (nullableString (r_State (rr_Rule rr)));
          action = protoAction (r_Action (rr_Rule rr));
          logEnabled = (if action = ACTION_LOG \<or> (action = ACTION_DENY \<and> \<not> r_Silent (rr_Rule rr))
                        then True else r_Log (rr_Rule rr))
      in \<lparr>er_rule_id = pgUUIDToStr (r_ID (rr_Rule rr)), er_policy_id = pgUUIDToStr (p_ID (rr_Policy rr)),
          er_rule_name = r_Name (rr_Rule rr), er_policy_name = p_Name (rr_Policy rr),
          er_policy_priority = p_Priority (rr_Policy rr), er_rule_priority = r_Priority (rr_Rule rr),
          er_direction = protoDirection (r_Direction (rr_Rule rr)),
          er_match = Some \<lparr>rm_protocol = protoProtocol (ms_Protocol (rr_Match rr)),
            rm_src_cidrs = rr_SrcCIDRs rr, rm_dst_cidrs = rr_DstCIDRs rr,
            rm_src_ports = rr_SrcPorts rr, rm_dst_ports = rr_DstPorts rr,
            rm_tcp_flags_match = ms_TCPFlagsMatch (rr_Match rr), rm_tcp_flags_mask = ms_TCPFlagsMask (rr_Match rr)\<rparr>,
          er_state = state, er_action = action, er_log_enabled = logEnabled, er_log_rate_limit_per_sec = 0\<rparr>)"

definition rule_needs_ct :: "ResolvedRule \<Rightarrow> bool" where
  "rule_needs_ct rr =
     (let state = protoState (nullableString (r_State (rr_Rule rr))) in
      state \<noteq> CONNTRACK_STATE_NONE \<and> state \<noteq> CONNTRACK_STATE_UNSPECIFIED)"

definition buildProtoBundle :: "EffectiveRuleset \<Rightarrow> i64 \<Rightarrow> qfv1_PolicyBundle" where
  "buildProtoBundle rs generation =
     \<lparr>pb_generation = generation, pb_rules = map (\<lambda>rr. Some (buildProtoRule rr)) (rs_Rules rs),
      pb_default_ingress_action = protoAction (rs_DefaultIngress rs),
      pb_default_egress_action = protoAction (rs_DefaultEgress rs),
      pb_requires_conntrack = list_ex rule_needs_ct (rs_Rules rs),
      pb_signature = [], pb_signed_at = None\<rparr>"

text \<open>The signer is optional (nil in tests): the private key, if any, and the clock.\<close>

definition Build ::
  "Queries \<Rightarrow> crypto \<Rightarrow> bytes option \<Rightarrow> int \<Rightarrow> db \<Rightarrow> string \<Rightarrow> string \<Rightarrow> i64 \<Rightarrow> qfv1_PolicyBundle res" where
  "Build Q C signer now d tenantID hostID generation =
     bindR (wrapR ''bundle: compile'' (Compile Q d tenantID hostID)) (\<lambda>rs.
       let bundle = buildProtoBundle rs generation in
       case signer of
         None \<Rightarrow> Inr bundle
       | Some priv \<Rightarrow> wrapR ''bundle: sign'' (BundleSigner_SignBundle C now priv bundle))"

definition GetBundle ::
  "Queries \<Rightarrow> crypto \<Rightarrow> bytes option \<Rightarrow> int \<Rightarrow> db \<Rightarrow> string \<Rightarrow> string \<Rightarrow> qfv1_PolicyBundle res" where
  "GetBundle Q C signer now d tenantID hostID =
     bindR (wrapR ''bundle: tenant uuid'' (uuid_Scan Q tenantID)) (\<lambda>tid.
     bindR (wrapR ''bundle: host uuid'' (uuid_Scan Q hostID)) (\<lambda>hid.
     bindR (wrapR ''bundle: get host'' (GetHost Q d hid tid)) (\<lambda>h.
       Build Q C signer now d tenantID hostID (scast (h_CurrentGeneration h) + 1))))"

section \<open>Rule ids survive the trip\<close>

lemma hex_val_hex_digit: "n < 16 \<Longrightarrow> hex_val (hex_digit n) = Some n"
  by (auto simp: hex_val_def hex_digit_def Let_def)

lemma hex_digit_not_dash: "n < 16 \<Longrightarrow> hex_digit n \<noteq> CHR ''-''"
proof
  assume n: "n < 16" and "hex_digit n = CHR ''-''"
  then have "of_char (hex_digit n) = (45 :: nat)" by simp
  then show False using n by (auto simp: hex_digit_def split: if_splits)
qed

lemma unat_u8_less: "unat (b :: u8) < 256"
  using unsigned_less [of b, where ?'a = nat] by simp

lemma filter_hexEncode: "filter (\<lambda>c. c \<noteq> CHR ''-'') (hexEncode bs) = hexEncode bs"
  using unat_u8_less by (induction bs) (auto simp: hexEncode_def hex_digit_not_dash less_mult_imp_div_less)

lemma hexDecode_hexEncode: "hexDecodeString (hexEncode bs) = Inr bs"
proof (induction bs)
  case (Cons b bs)
  have "unat b div 16 < 16" using unat_u8_less [of b] by (simp add: less_mult_imp_div_less)
  moreover have "16 * (unat b div 16) + unat b mod 16 = unat b" by simp
  ultimately show ?case using Cons by (simp add: hexEncode_def hex_val_hex_digit)
qed (simp add: hexEncode_def)

lemma hexEncode_append: "hexEncode (xs @ ys) = hexEncode xs @ hexEncode ys"
  by (simp add: hexEncode_def)

lemma pgUUID_parts:
  "take 4 b @ take 2 (drop 4 b) @ take 2 (drop 6 b) @ take 2 (drop 8 b) @ drop 10 b = b"
proof -
  have "take 4 b @ take 2 (drop 4 b) = take 6 b" "take 6 b @ take 2 (drop 6 b) = take 8 b"
    "take 8 b @ take 2 (drop 8 b) = take 10 b"
    using take_add [of 4 2 b] take_add [of 6 2 b] take_add [of 8 2 b] by simp_all
  then show ?thesis by (metis append_assoc append_take_drop_id)
qed

text \<open>
  A rule id printed by the control plane parses back on the agent to the same 16
  bytes, so that no bundle is rejected for its ids, and the ids in events and counters are
  those of the database.
\<close>

lemma parseUUID_pgUUIDToStr:
  assumes "length b = 16"
  shows "parseUUID (pgUUIDToStr b) = Inr b"
proof -
  have "filter (\<lambda>c. c \<noteq> CHR ''-'') (pgUUIDToStr b) =
      hexEncode (take 4 b @ take 2 (drop 4 b) @ take 2 (drop 6 b) @ take 2 (drop 8 b) @ drop 10 b)"
    by (simp add: pgUUIDToStr_def filter_hexEncode hexEncode_append)
  then show ?thesis using assms by (simp add: parseUUID_def pgUUID_parts hexDecode_hexEncode)
qed

section \<open>The meaning of a ruleset\<close>

text \<open>
  A resolved rule as the administrator wrote it: names of protocols, states and actions,
  CIDRs and port ranges; and the verdict of a ruleset, first match in its order.
\<close>

definition protocol_admits :: "string \<Rightarrow> u8 \<Rightarrow> bool" where
  "protocol_admits name q \<longleftrightarrow> (let l = ToLower name in
     if l = ''tcp'' then q = ProtoTCP else if l = ''udp'' then q = ProtoUDP
     else if l = ''icmp'' then q = ProtoICMP else if l = ''icmpv6'' then q = ProtoICMPv6 else True)"

definition state_admits :: "string \<Rightarrow> u8 \<Rightarrow> bool" where
  "state_admits name ct \<longleftrightarrow>
     (if name = ''new'' then ct = CTNew else if name = ''established'' then ct = CTEstablished
      else if name = ''related'' then False else if name = ''invalid'' then ct = CTInvalid else True)"

definition resolved_kept :: "pkt_ctx \<Rightarrow> ResolvedRule \<Rightarrow> bool" where
  "resolved_kept p rr \<longleftrightarrow>
     pkt_direction p = (if r_Direction (rr_Rule rr) = ''egress'' then DirEgress else DirIngress)
     \<and> protocol_admits (ms_Protocol (rr_Match rr)) (proto p)
     \<and> qcidrs_match (src_ip4 p) (is_ipv6 p) (rr_SrcCIDRs rr)
     \<and> qcidrs_match (dst_ip4 p) (is_ipv6 p) (rr_DstCIDRs rr)
     \<and> qports_match (src_port p) (rr_SrcPorts rr)
     \<and> qports_match (dst_port p) (rr_DstPorts rr)
     \<and> state_admits (nullableString (r_State (rr_Rule rr))) (pkt_ct_state p)"

definition accepts :: "string \<Rightarrow> bool" where
  "accepts act \<longleftrightarrow> act = ''allow'' \<or> act = ''log''"

definition first_match_ruleset :: "EffectiveRuleset \<Rightarrow> pkt_ctx \<Rightarrow> verdict" where
  "first_match_ruleset rs p =
     (let act = (case List.find (resolved_kept p) (rs_Rules rs) of
                   Some rr \<Rightarrow> r_Action (rr_Rule rr)
                 | None \<Rightarrow> if pkt_direction p = DirIngress then rs_DefaultIngress rs else rs_DefaultEgress rs)
      in if accepts act then TC_ACT_OK else TC_ACT_SHOT)"

text \<open>
  The verdict as documented, with the TCP flags of a rule and with log rules that do not end the
  evaluation, and the rulesets on which both agree.
\<close>

definition resolved_match :: "pkt_ctx \<Rightarrow> ResolvedRule \<Rightarrow> bool" where
  "resolved_match p rr \<longleftrightarrow> resolved_kept p rr \<and> flags_admit p (ms_TCPFlagsMatch (rr_Match rr)) (ms_TCPFlagsMask (rr_Match rr))"

definition ruleset_verdict :: "EffectiveRuleset \<Rightarrow> pkt_ctx \<Rightarrow> verdict" where
  "ruleset_verdict rs p =
     (let act = (case List.find (\<lambda>rr. resolved_match p rr \<and> r_Action (rr_Rule rr) \<in> {''allow'', ''deny''}) (rs_Rules rs) of
                   Some rr \<Rightarrow> r_Action (rr_Rule rr)
                 | None \<Rightarrow> if pkt_direction p = DirIngress then rs_DefaultIngress rs else rs_DefaultEgress rs)
      in if act = ''deny'' then TC_ACT_SHOT else TC_ACT_OK)"

definition plain_resolved :: "ResolvedRule \<Rightarrow> bool" where
  "plain_resolved rr \<longleftrightarrow> r_Action (rr_Rule rr) \<in> {''allow'', ''deny''}
     \<and> ms_TCPFlagsMatch (rr_Match rr) = 0 \<and> ms_TCPFlagsMask (rr_Match rr) = 0"

definition plain_ruleset :: "EffectiveRuleset \<Rightarrow> bool" where
  "plain_ruleset rs \<longleftrightarrow> list_all plain_resolved (rs_Rules rs)
     \<and> rs_DefaultIngress rs \<in> {''allow'', ''deny''} \<and> rs_DefaultEgress rs \<in> {''allow'', ''deny''}"

lemma plain_ruleset_verdict:
  assumes "plain_ruleset rs"
  shows "first_match_ruleset rs p = ruleset_verdict rs p"
proof -
  have "List.find (\<lambda>rr. resolved_match p rr \<and> r_Action (rr_Rule rr) \<in> {''allow'', ''deny''}) rrs = List.find (resolved_kept p) rrs"
    if "list_all plain_resolved rrs" for rrs
    using that by (induction rrs) (auto simp: plain_resolved_def resolved_match_def)
  then have f: "List.find (\<lambda>rr. resolved_match p rr \<and> r_Action (rr_Rule rr) \<in> {''allow'', ''deny''}) (rs_Rules rs) = List.find (resolved_kept p) (rs_Rules rs)"
    using assms by (simp add: plain_ruleset_def)
  have "r_Action (rr_Rule rr) \<in> {''allow'', ''deny''}" if "List.find (resolved_kept p) (rs_Rules rs) = Some rr" for rr
    using that assms by (auto simp: find_Some_iff plain_ruleset_def list_all_iff plain_resolved_def dest!: nth_mem)
  then show ?thesis using assms unfolding first_match_ruleset_def ruleset_verdict_def f
    by (cases "List.find (resolved_kept p) (rs_Rules rs)") (auto simp: accepts_def plain_ruleset_def Let_def)
qed

lemma ucast_proto [simp]:
  "(ucast (protoProtocol s) :: u8) = (let l = ToLower s in
     if l = ''tcp'' then ProtoTCP else if l = ''udp'' then ProtoUDP
     else if l = ''icmp'' then ProtoICMP else if l = ''icmpv6'' then ProtoICMPv6 else ProtoAny)"
  "(ucast (protoDirection s) :: u8) = (if s = ''egress'' then DirEgress else DirIngress)"
  "(ucast (protoAction s) :: u8) = (if s = ''allow'' then ActionAllow else if s = ''log'' then ActionLog else ActionDeny)"
  "(ucast (protoState s) :: u8) = (if s = ''new'' then CTNew else if s = ''established'' then CTEstablished
     else if s = ''related'' then CTRelated else if s = ''invalid'' then CTInvalid else CTNone)"
  by (simp_all add: protoProtocol_def protoDirection_def protoAction_def protoState_def Let_def enum_defs loader_consts)

lemma protocol_admits_proto:
  "(let pr = (ucast (protoProtocol s) :: u8) in pr = 0 \<or> pr = ProtoAny \<or> pr = q) \<longleftrightarrow> protocol_admits s q"
  by (auto simp: protocol_admits_def Let_def loader_consts)

lemma state_match_consts:
  "state_match CTNone ct" "state_match CTNew ct \<longleftrightarrow> ct = CTNew" "state_match CTEstablished ct \<longleftrightarrow> ct = CTEstablished"
  "\<not> state_match CTRelated ct" "state_match CTInvalid ct \<longleftrightarrow> ct = CTInvalid"
  by (auto simp: state_match_def loader_consts)

lemma state_admits_proto: "state_match (ucast (protoState s)) ct \<longleftrightarrow> state_admits s ct"
  unfolding ucast_proto(4) state_admits_def
  by (simp only: if_distrib [of "\<lambda>x. state_match x ct"] state_match_consts simp_thms)

lemma kept_match_built: "kept_match p (buildProtoRule rr) \<longleftrightarrow> resolved_kept p rr"
proof -
  let ?er = "buildProtoRule rr"
  have m: "GetMatch ?er = \<lparr>rm_protocol = protoProtocol (ms_Protocol (rr_Match rr)),
      rm_src_cidrs = rr_SrcCIDRs rr, rm_dst_cidrs = rr_DstCIDRs rr,
      rm_src_ports = rr_SrcPorts rr, rm_dst_ports = rr_DstPorts rr,
      rm_tcp_flags_match = ms_TCPFlagsMatch (rr_Match rr), rm_tcp_flags_mask = ms_TCPFlagsMask (rr_Match rr)\<rparr>"
    by (simp add: GetMatch_def buildProtoRule_def Let_def)
  have e: "er_direction ?er = protoDirection (r_Direction (rr_Rule rr))"
    "er_state ?er = protoState (nullableString (r_State (rr_Rule rr)))"
    by (simp_all add: buildProtoRule_def Let_def)
  show ?thesis
    unfolding kept_match_def resolved_kept_def m e qfv1_RuleMatch.simps protocol_admits_proto state_admits_proto
    by auto
qed

lemma first_rule_built:
  "map_option er_action (first_rule p (map (\<lambda>rr. Some (buildProtoRule rr)) rs)) =
   map_option (\<lambda>rr. protoAction (r_Action (rr_Rule rr))) (List.find (resolved_kept p) rs)"
  by (induction rs) (auto simp: kept_match_built, simp add: buildProtoRule_def Let_def)

lemma first_match_verdict_built:
  assumes "pb_rules b = pb_rules (buildProtoBundle rs gen)"
    and "pb_default_ingress_action b = protoAction (rs_DefaultIngress rs)"
    and "pb_default_egress_action b = protoAction (rs_DefaultEgress rs)"
  shows "first_match_verdict b p = first_match_ruleset rs p"
proof -
  have act: "(ucast (protoAction s) :: u8) = ActionDeny \<longleftrightarrow> \<not> accepts s" for s
    by (simp add: accepts_def loader_consts)
  have d: "bundle_default b p = ActionDeny \<longleftrightarrow>
      \<not> accepts (if pkt_direction p = DirIngress then rs_DefaultIngress rs else rs_DefaultEgress rs)"
  proof -
    have "(ucast (protoAction s) :: u8) \<noteq> 0" for s by (simp add: loader_consts)
    then show ?thesis using act by (simp add: bundle_default_def assms(2,3) Let_def)
  qed
  have f: "map_option er_action (first_rule p (pb_rules b)) =
      map_option (\<lambda>rr. protoAction (r_Action (rr_Rule rr))) (List.find (resolved_kept p) (rs_Rules rs))"
    by (simp add: assms(1) buildProtoBundle_def first_rule_built)
  show ?thesis
  proof (cases "first_rule p (pb_rules b)")
    case None
    then have "List.find (resolved_kept p) (rs_Rules rs) = None" using f by simp
    then show ?thesis using None d by (simp add: first_match_verdict_def first_match_ruleset_def Let_def)
  next
    case (Some er)
    then obtain rr where "List.find (resolved_kept p) (rs_Rules rs) = Some rr"
      "er_action er = protoAction (r_Action (rr_Rule rr))"
      using f by (cases "List.find (resolved_kept p) (rs_Rules rs)") auto
    then show ?thesis using Some act by (simp add: first_match_verdict_def first_match_ruleset_def Let_def)
  qed
qed

lemma Build_Inr:
  assumes "Build Q C signer now d tenantID hostID gen = Inr b"
  obtains rs where "Compile Q d tenantID hostID = Inr rs"
    and "pb_rules b = pb_rules (buildProtoBundle rs gen)" and "pb_generation b = gen"
    and "pb_default_ingress_action b = protoAction (rs_DefaultIngress rs)"
    and "pb_default_egress_action b = protoAction (rs_DefaultEgress rs)"
    and "pb_requires_conntrack b = list_ex rule_needs_ct (rs_Rules rs)"
proof -
  from assms obtain rs where c: "Compile Q d tenantID hostID = Inr rs"
    and b: "(case signer of None \<Rightarrow> Inr (buildProtoBundle rs gen)
       | Some priv \<Rightarrow> wrapR ''bundle: sign'' (BundleSigner_SignBundle C now priv (buildProtoBundle rs gen))) = Inr b"
    by (auto simp: Build_def bindR_eq_Inr Let_def)
  from b have "pb_rules b = pb_rules (buildProtoBundle rs gen) \<and> pb_generation b = gen
      \<and> pb_default_ingress_action b = protoAction (rs_DefaultIngress rs)
      \<and> pb_default_egress_action b = protoAction (rs_DefaultEgress rs)
      \<and> pb_requires_conntrack b = list_ex rule_needs_ct (rs_Rules rs)"
    by (cases signer) (auto simp: BundleSigner_SignBundle_def bindR_eq_Inr buildProtoBundle_def Let_def)
  then show thesis using that c by blast
qed

section \<open>Which rules a host gets\<close>

lemma mapR_concat_Inr:
  assumes "bindR (mapR f xs) (\<lambda>rss. Inr (concat rss)) = Inr ys"
  shows "set ys = {y. \<exists>x zs. x \<in> set xs \<and> f x = Inr zs \<and> y \<in> set zs}"
proof -
  from assms obtain rss where "mapR f xs = Inr rss" and ys: "ys = concat rss" by (auto simp: bindR_eq_Inr)
  then have l: "list_all2 (\<lambda>x zs. f x = Inr zs) xs rss" by (simp add: mapR_Inr)
  then have "set (concat rss) = {y. \<exists>x zs. x \<in> set xs \<and> f x = Inr zs \<and> y \<in> set zs}"
    by (induction rule: list_all2_induct) auto
  then show ?thesis using ys by simp
qed

lemma resolveRule_rule: "resolveRule Q d t p r = Inr rr \<Longrightarrow> rr_Rule rr = r \<and> rr_Policy rr = p"
  by (auto simp: resolveRule_def bindR_eq_Inr)

lemma mapR_each_ok: "mapR f xs = Inr ys \<Longrightarrow> x \<in> set xs \<Longrightarrow> \<exists>y. f x = Inr y"
  by (auto simp: mapR_Inr list_all2_conv_all_nth in_set_conv_nth)

lemma collect_results:
  assumes "\<And>p. p \<in> P \<Longrightarrow> \<exists>z. f p = Inr z" and "\<And>p z. p \<in> P \<Longrightarrow> f p = Inr z \<Longrightarrow> G z = A p"
  shows "{x. \<exists>p z. p \<in> P \<and> f p = Inr z \<and> x \<in> G z} = (\<Union>p \<in> P. A p)"
  using assms by (fastforce intro!: set_eqI)

lemma resolveRulesForPolicy_pairs:
  assumes "resolveRulesForPolicy Q d t p = Inr zs" and "uuid_Scan Q (pgUUIDToStr (p_ID p)) = Inr (p_ID p)"
  shows "(\<lambda>rr. (rr_Policy rr, rr_Rule rr)) ` set zs = {(p, r) | r. r \<in> set (t_rules d) \<and> r_PolicyID r = p_ID p}"
proof -
  from assms obtain rules where r: "ListRulesByPolicy Q d (p_ID p) = Inr rules" and z: "mapR (resolveRule Q d t p) rules = Inr zs"
    by (auto simp: resolveRulesForPolicy_def bindR_eq_Inr)
  have "list_all2 (\<lambda>r rr. resolveRule Q d t p r = Inr rr) rules zs" using z by (simp add: mapR_Inr)
  then have "map (\<lambda>rr. (rr_Policy rr, rr_Rule rr)) zs = map (\<lambda>r. (p, r)) rules"
    by (induction rule: list_all2_induct) (auto dest: resolveRule_rule)
  then have "(\<lambda>rr. (rr_Policy rr, rr_Rule rr)) ` set zs = (\<lambda>r. (p, r)) ` set rules" by (metis set_map)
  moreover have "set rules = {r. r \<in> set (t_rules d) \<and> r_PolicyID r = p_ID p}"
    using r by (auto simp: ListRulesByPolicy_def query_def split: option.splits)
  ultimately show ?thesis by auto
qed

text \<open>
  C4. The compiled ruleset of a host holds exactly the rules of the tenant's policies whose
  selector parses and matches the host's labels, each with its policy, in ascending order
  of policy priority, rule priority and rule id. The UUID scanner is only assumed to read
  back the ids of policies that \<open>pgUUIDToStr\<close> prints.
\<close>

theorem Compile_selects_and_orders:
  assumes "Compile Q d tenantID hostID = Inr rs"
    and "uuid_Scan Q tenantID = Inr tid" and "uuid_Scan Q hostID = Inr hid" and "GetHost Q d hid tid = Inr h"
    and "\<And>p. p \<in> set (t_policies d) \<Longrightarrow> uuid_Scan Q (pgUUIDToStr (p_ID p)) = Inr (p_ID p)"
  shows "(\<lambda>rr. (rr_Policy rr, rr_Rule rr)) ` set (rs_Rules rs) =
      {(p, r). p \<in> set (t_policies d) \<and> p_TenantID p = tid
         \<and> (\<exists>sel. ParseSelector Q (p_Selector p) = (sel, None) \<and> MatchesLabels sel (fst (parseLabels Q (h_Labels h))))
         \<and> r \<in> set (t_rules d) \<and> r_PolicyID r = p_ID p}
    \<and> sorted (map (\<lambda>rr. (sint (p_Priority (rr_Policy rr)), sint (r_Priority (rr_Rule rr)), pgUUIDToStr (r_ID (rr_Rule rr)))) (rs_Rules rs))"
proof -
  let ?f = "resolveRulesForPolicy Q d tenantID"
  let ?S = "\<lambda>p. policy_selects Q (fst (parseLabels Q (h_Labels h))) p"
  from assms(1-4) obtain policies rss where
    ps: "ListPolicies Q d tid = Inr policies" and
    m: "mapR ?f (filter ?S policies) = Inr rss" and
    rs: "rs_Rules rs = sort_key rule_key (concat rss)"
    by (auto simp: Compile_def collectRules_def bindR_eq_Inr)
  have pset: "set policies = {p. p \<in> set (t_policies d) \<and> p_TenantID p = tid}"
    using ps by (auto simp: ListPolicies_def query_def split: option.splits)
  have "set (concat rss) = {y. \<exists>p zs. p \<in> set (filter ?S policies) \<and> ?f p = Inr zs \<and> y \<in> set zs}"
    by (rule mapR_concat_Inr) (simp add: m)
  then have "(\<lambda>rr. (rr_Policy rr, rr_Rule rr)) ` set (concat rss) =
      {x. \<exists>p zs. p \<in> set policies \<and> ?S p \<and> ?f p = Inr zs \<and> x \<in> (\<lambda>rr. (rr_Policy rr, rr_Rule rr)) ` set zs}"
    by auto
  also have "\<dots> = {(p, r). p \<in> set policies \<and> ?S p \<and> r \<in> set (t_rules d) \<and> r_PolicyID r = p_ID p}"
  proof -
    let ?A = "\<lambda>p. {(p, r) | r. r \<in> set (t_rules d) \<and> r_PolicyID r = p_ID p}"
    have "{x. \<exists>p zs. p \<in> {p \<in> set policies. ?S p} \<and> ?f p = Inr zs \<and> x \<in> (\<lambda>rr. (rr_Policy rr, rr_Rule rr)) ` set zs} =
        (\<Union>p \<in> {p \<in> set policies. ?S p}. ?A p)"
    proof (rule collect_results)
      show "\<exists>zs. ?f p = Inr zs" if "p \<in> {p \<in> set policies. ?S p}" for p
        using mapR_each_ok [OF m] that by simp
      show "(\<lambda>rr. (rr_Policy rr, rr_Rule rr)) ` set zs = ?A p"
        if "p \<in> {p \<in> set policies. ?S p}" "?f p = Inr zs" for p zs
        using resolveRulesForPolicy_pairs [OF that(2)] assms(5) that(1) pset by simp
    qed
    then show ?thesis by (simp add: conj_assoc) blast
  qed
  finally have "(\<lambda>rr. (rr_Policy rr, rr_Rule rr)) ` set (rs_Rules rs) =
      {(p, r). p \<in> set (t_policies d) \<and> p_TenantID p = tid \<and> ?S p \<and> r \<in> set (t_rules d) \<and> r_PolicyID r = p_ID p}"
    by (simp add: rs pset)
  then show ?thesis by (simp add: rs policy_selects_iff flip: rule_key_def)
qed

text \<open>A store for the witnesses: one host, one policy that selects it and one that does not.\<close>

definition ex_id :: "u8 \<Rightarrow> bytes" where
  "ex_id n = replicate 15 0 @ [n]"

definition ex_Q :: Queries where
  "ex_Q = \<lparr>db_err = (\<lambda>_. None), db_werr = (\<lambda>_. None), db_uuid = (\<lambda>n. replicate 15 1 @ [of_nat n]), db_now = int, jsonb = Inr,
     uuid_Scan = parseUUID,
     json_Selector = (\<lambda>raw. (\<lparr>MatchLabels = [(''env'', if raw = [1] then ''prod'' else ''test'')], MatchExpressions = []\<rparr>, None)),
     json_Labels = (\<lambda>_. ([''env'' \<mapsto> ''prod''], None)),
     json_IPSetSpec = (\<lambda>_. Inr []), json_PortSetSpec = (\<lambda>_. Inr []), json_HostSetSpec = (\<lambda>_. Inr empty_Selector),
     json_RuleMatchSpec = (\<lambda>_. Inr (empty_RuleMatchSpec\<lparr>ms_Protocol := ''TCP'', ms_SrcCIDRs := [''10.0.0.0/8''], ms_DstPorts := [''22'']\<rparr>))\<rparr>"

definition ex_db :: db where
  "ex_db = empty_db\<lparr>t_hosts := [\<lparr>h_ID = ex_id 1, h_TenantID = ex_id 9, h_Hostname = ''web'', h_Labels = [1], h_Status = ''active'',
       h_CurrentGeneration = 6, h_DesiredGeneration = 7, h_LastHeartbeatAt = None, h_AgentVersion = None, h_KernelVersion = None,
       h_CreatedAt = 0, h_FlowEventsEnabled = False\<rparr>],
     t_policies := [\<lparr>p_ID = ex_id 2, p_TenantID = ex_id 9, p_Name = ''ssh'', p_Description = [], p_Priority = 10, p_Selector = [1],
                     p_CurrentVersion = 0, p_CreatedAt = 0\<rparr>,
                   \<lparr>p_ID = ex_id 3, p_TenantID = ex_id 9, p_Name = ''test'', p_Description = [], p_Priority = 5, p_Selector = [2],
                     p_CurrentVersion = 0, p_CreatedAt = 0\<rparr>],
     t_rules := [\<lparr>r_ID = ex_id 4, r_PolicyID = ex_id 2, r_Name = ''no ssh'', r_Priority = 1, r_Direction = ''ingress'',
                 r_Match = [1], r_State = None, r_Action = ''deny'', r_Log = False, r_Silent = False\<rparr>,
                \<lparr>r_ID = ex_id 5, r_PolicyID = ex_id 3, r_Name = ''other'', r_Priority = 1, r_Direction = ''ingress'',
                 r_Match = [1], r_State = None, r_Action = ''allow'', r_Log = False, r_Silent = False\<rparr>],
     t_default_policies := [\<lparr>dp_TenantID = ex_id 9, dp_Ingress = ''allow'', dp_Egress = ''allow''\<rparr>]\<rparr>"

lemma ex_scan: "length b = 16 \<Longrightarrow> uuid_Scan ex_Q (pgUUIDToStr b) = Inr b"
  by (simp add: ex_Q_def parseUUID_def pgUUIDToStr_def filter_hexEncode hexEncode_append [symmetric] hexDecode_hexEncode pgUUID_parts)

definition ex_rr :: ResolvedRule where
  "ex_rr = \<lparr>rr_Rule = hd (t_rules ex_db), rr_Policy = hd (t_policies ex_db),
     rr_Match = empty_RuleMatchSpec\<lparr>ms_Protocol := ''TCP'', ms_SrcCIDRs := [''10.0.0.0/8''], ms_DstPorts := [''22'']\<rparr>,
     rr_SrcCIDRs = [\<lparr>cidr_ip = [10,0,0,0], cidr_prefix_len = 8\<rparr>], rr_DstCIDRs = [], rr_SrcPorts = [],
     rr_DstPorts = [\<lparr>pr_start = 22, pr_end = 22\<rparr>]\<rparr>"

lemma ex_parse_cidr: "parseCIDR ''10.0.0.0/8'' = Inr \<lparr>cidr_ip = [10,0,0,0], cidr_prefix_len = 8\<rparr>"
proof -
  have s: "''10.0.0.0/8'' = ip4String [10,0,0,0] @ ''/'' @ dec 8"
    by (simp add: ip4String_def dec_small dec_2 digit_char_def char_of_def bit_Suc_0_iff)
  show ?thesis unfolding s parseCIDR_def
    by (subst netParseCIDR_ip4String) code_simp+
qed

lemma ex_parse_port: "parsePortRange ''22'' = Inr \<lparr>pr_start = 22, pr_end = 22\<rparr>"
  by (simp add: parsePortRange_def parseUint32_def strCut_def is_digit_def digit_val_def)

definition ex_rs :: EffectiveRuleset where
  "ex_rs = \<lparr>rs_Rules = [ex_rr], rs_DefaultIngress = ''allow'', rs_DefaultEgress = ''allow''\<rparr>"

abbreviation ex_host :: Host where
  "ex_host \<equiv> hd (t_hosts ex_db)"

lemma ex_ids [simp]: "length (ex_id n) = 16" "ex_id m = ex_id n \<longleftrightarrow> m = n"
  by (simp_all add: ex_id_def)

lemma ex_resolve: "resolveRule ex_Q ex_db t (hd (t_policies ex_db)) (hd (t_rules ex_db)) = Inr ex_rr"
  by (simp add: resolveRule_def resolveCIDRs_def resolvePorts_def parseCIDRList_def parsePortList_def dropErr_def
      ex_parse_cidr ex_parse_port ex_rr_def, simp add: ex_db_def ex_Q_def empty_RuleMatchSpec_def dropErr_def parseCIDRList_def parsePortList_def ex_parse_cidr ex_parse_port)

lemma ex_store:
  "GetHost ex_Q ex_db (ex_id 1) (ex_id 9) = Inr ex_host"
  "GetDefaultPolicy ex_Q ex_db (ex_id 9) = Inr \<lparr>dp_TenantID = ex_id 9, dp_Ingress = ''allow'', dp_Egress = ''allow''\<rparr>"
  "ListPolicies ex_Q ex_db (ex_id 9) = Inr [hd (tl (t_policies ex_db)), hd (t_policies ex_db)]"
  "ListRulesByPolicy ex_Q ex_db (ex_id 2) = Inr [hd (t_rules ex_db)]"
  by (simp_all add: GetHost_def GetDefaultPolicy_def ListPolicies_def ListRulesByPolicy_def query_one_def query_def ex_Q_def ex_db_def)

lemma ex_selects:
  "policy_selects ex_Q (fst (parseLabels ex_Q (h_Labels ex_host))) (hd (t_policies ex_db))"
  "\<not> policy_selects ex_Q (fst (parseLabels ex_Q (h_Labels ex_host))) (hd (tl (t_policies ex_db)))"
  by (simp_all add: policy_selects_def parseLabels_def ParseSelector_def ex_Q_def ex_db_def MatchesLabels_def label_get_def)

lemma ex_Compile: "Compile ex_Q ex_db (pgUUIDToStr (ex_id 9)) (pgUUIDToStr (ex_id 1)) = Inr ex_rs"
proof -
  have "p_ID (hd (t_policies ex_db)) = ex_id 2" by (simp add: ex_db_def)
  then show ?thesis
    by (simp add: Compile_def collectRules_def resolveRulesForPolicy_def ex_scan ex_store ex_selects ex_resolve ex_rs_def)
qed

theorem Compile_selects_and_orders_witness:
  "(\<lambda>rr. (rr_Policy rr, rr_Rule rr)) ` set (rs_Rules ex_rs) =
      {(p, r). p \<in> set (t_policies ex_db) \<and> p_TenantID p = ex_id 9
         \<and> (\<exists>sel. ParseSelector ex_Q (p_Selector p) = (sel, None) \<and> MatchesLabels sel (fst (parseLabels ex_Q (h_Labels ex_host))))
         \<and> r \<in> set (t_rules ex_db) \<and> r_PolicyID r = p_ID p}
    \<and> sorted (map (\<lambda>rr. (sint (p_Priority (rr_Policy rr)), sint (r_Priority (rr_Rule rr)), pgUUIDToStr (r_ID (rr_Rule rr)))) (rs_Rules ex_rs))"
proof (rule Compile_selects_and_orders [OF ex_Compile])
  show "uuid_Scan ex_Q (pgUUIDToStr (p_ID p)) = Inr (p_ID p)" if "p \<in> set (t_policies ex_db)" for p
    using that by (auto simp: ex_db_def intro!: ex_scan)
qed (rule ex_scan ex_store(1), simp?)+

section \<open>Inline lists that do not parse\<close>

lemma mapR_Inl: "x \<in> set xs \<Longrightarrow> f x = Inl e \<Longrightarrow> \<exists>e'. mapR f xs = Inl e'"
  by (cases "mapR f xs") (auto dest: mapR_each_ok)

text \<open>
  C33. A rule with a malformed inline source CIDR is not refused: the error is dropped, the
  whole list becomes empty, and an empty list matches every source. So one typing error
  turns a rule for some networks into a rule for all of them.
\<close>

theorem inline_error_widens:
  assumes "resolveRule Q d tenantID p r = Inr rr" and "r_Match r \<noteq> []" and "json_RuleMatchSpec Q (r_Match r) = Inr ms"
    and "ms_SrcIPSetID ms = ''''" and "ms_SrcHostSetID ms = ''''"
    and "c \<in> set (ms_SrcCIDRs ms)" and "parseCIDR c = Inl e"
  shows "rr_SrcCIDRs rr = [] \<and> qcidrs_match a v6 (rr_SrcCIDRs rr)"
proof -
  have "resolveCIDRs Q d tenantID (ms_SrcIPSetID ms) (ms_SrcHostSetID ms) (ms_SrcCIDRs ms) =
      Inr (dropErr (parseCIDRList (ms_SrcCIDRs ms)))" by (simp add: resolveCIDRs_def assms(4,5))
  then have "rr_SrcCIDRs rr = dropErr (parseCIDRList (ms_SrcCIDRs ms))"
    using assms(1-3) by (auto simp: resolveRule_def bindR_eq_Inr)
  moreover obtain e' where "mapR parseCIDR (ms_SrcCIDRs ms) = Inl e'" using mapR_Inl [where f = parseCIDR, OF assms(6,7)] ..
  ultimately show ?thesis by (simp add: dropErr_def parseCIDRList_def qcidrs_match_def)
qed

definition ex_Q_typo :: Queries where
  "ex_Q_typo = ex_Q\<lparr>json_RuleMatchSpec := (\<lambda>_. Inr (empty_RuleMatchSpec\<lparr>ms_SrcCIDRs := [''10.0.0.0/8'', ''10.0.0.0'']\<rparr>))\<rparr>"

theorem inline_error_widens_witness:
  "\<exists>rr. resolveRule ex_Q_typo ex_db ''t'' (hd (t_policies ex_db)) (hd (t_rules ex_db)) = Inr rr
      \<and> rr_SrcCIDRs rr = [] \<and> qcidrs_match 7 False (rr_SrcCIDRs rr)"
proof -
  let ?ms = "empty_RuleMatchSpec\<lparr>ms_SrcCIDRs := [''10.0.0.0/8'', ''10.0.0.0'']\<rparr>"
  have j: "json_RuleMatchSpec ex_Q_typo (r_Match (hd (t_rules ex_db))) = Inr ?ms" "r_Match (hd (t_rules ex_db)) \<noteq> []"
    by (simp_all add: ex_Q_typo_def ex_db_def)
  obtain e where e: "parseCIDR ''10.0.0.0'' = Inl e"
    by (simp add: parseCIDR_def netParseCIDR_def strCut_def)
  obtain rr where rr: "resolveRule ex_Q_typo ex_db ''t'' (hd (t_policies ex_db)) (hd (t_rules ex_db)) = Inr rr"
    by (simp add: resolveRule_def j resolveCIDRs_def resolvePorts_def empty_RuleMatchSpec_def)
  from inline_error_widens [OF rr j(2) j(1) _ _ _ e, of 7 False] have "rr_SrcCIDRs rr = [] \<and> qcidrs_match 7 False (rr_SrcCIDRs rr)"
    by (simp add: empty_RuleMatchSpec_def qcidrs_match_def)
  with rr show ?thesis by blast
qed

end
