(* ===== verification/Qf_Cascade.thy ===== *)
theory Qf_Cascade
  imports Qf_Ruleset
begin

text \<open>
  Propagation of changes (cp/internal/policy/cascade.go): which hosts are recompiled after a
  policy, an object group, a default policy or a host changed, and the delivery of their
  bundles. The \<open>Dispatcher\<close> interface is the locale \<open>dispatcher\<close>; the registry of
  streams of the theory \<open>Qf_Registry\<close> implements it.
\<close>

section \<open>Data\<close>

record BundleUpdate =
  bu_TenantID :: string
  bu_HostID :: string
  bu_Bundle :: qfv1_PolicyBundle

text \<open>What a \<open>BundleBuilder\<close> holds besides the queries: the signer, its clock, the codec.\<close>

record BundleBuilder =
  bb_crypto :: crypto
  bb_signer :: "bytes option"
  bb_now :: int

definition getBundle :: "Queries \<Rightarrow> BundleBuilder \<Rightarrow> db \<Rightarrow> string \<Rightarrow> string \<Rightarrow> qfv1_PolicyBundle res" where
  "getBundle Q B d tenantID hostID = GetBundle Q (bb_crypto B) (bb_signer B) (bb_now B) d tenantID hostID"

text \<open>The control plane's state as the recompiler sees it: the tables and the dispatcher.\<close>

record 'r CP =
  store :: db
  registry :: 'r

text \<open>
  \<open>cr\<close> collects the fields of a \<open>CascadeRecompiler\<close>; \<open>cr_iter\<close> is the iteration order of Go
  maps used as sets.
\<close>

record 'r CascadeRecompiler =
  cr_queries :: Queries
  cr_builder :: BundleBuilder
  cr_dispatcher :: "(BundleUpdate \<Rightarrow> 'r \<Rightarrow> 'r) option"
  cr_iter :: "string list \<Rightarrow> string list"

section \<open>recompileAndDispatch\<close>

definition bump_desired :: "Queries \<Rightarrow> string \<Rightarrow> string \<Rightarrow> db \<Rightarrow> db" where
  "bump_desired Q tenantID hostID d =
     (case uuid_Scan Q hostID of Inl _ \<Rightarrow> d | Inr hid \<Rightarrow>
       (case uuid_Scan Q tenantID of Inl _ \<Rightarrow> d | Inr tid \<Rightarrow> snd (IncrementHostDesiredGeneration Q hid tid d)))"

fun recompile_hosts :: "'r CascadeRecompiler \<Rightarrow> string \<Rightarrow> string list \<Rightarrow> 'r CP \<Rightarrow> goerr list \<times> 'r CP" where
  "recompile_hosts cr tenantID [] s = ([], s)"
| "recompile_hosts cr tenantID (hostID # hostIDs) s =
     (let s1 = s\<lparr>store := bump_desired (cr_queries cr) tenantID hostID (store s)\<rparr> in
      case getBundle (cr_queries cr) (cr_builder cr) (store s1) tenantID hostID of
        Inl e \<Rightarrow> (case recompile_hosts cr tenantID hostIDs s1 of (es, s2) \<Rightarrow> (e # es, s2))
      | Inr b \<Rightarrow> recompile_hosts cr tenantID hostIDs
          (case cr_dispatcher cr of
             None \<Rightarrow> s1
           | Some disp \<Rightarrow> s1\<lparr>registry := disp \<lparr>bu_TenantID = tenantID, bu_HostID = hostID, bu_Bundle = b\<rparr> (registry s1)\<rparr>))"

definition recompileAndDispatch :: "'r CascadeRecompiler \<Rightarrow> string \<Rightarrow> string list \<Rightarrow> ('r CP, unit) st" where
  "recompileAndDispatch cr tenantID hostIDs s =
     (case recompile_hosts cr tenantID hostIDs s of
        ([], s') \<Rightarrow> (Inr (), s')
      | (e # _, s') \<Rightarrow> (Inl (Wrapf ''cascade: hosts failed recompile'' e), s'))"

section \<open>The events\<close>

text \<open>One rule and one policy of the loops of \<open>affectedHosts\<close>; a failure skips the element.\<close>

definition rule_policy :: "Queries \<Rightarrow> db \<Rightarrow> bytes \<Rightarrow> string option" where
  "rule_policy Q d rid = (case GetRule Q d rid of Inl _ \<Rightarrow> None | Inr r \<Rightarrow> Some (pgUUIDToStr (r_PolicyID r)))"

definition policy_hosts :: "Queries \<Rightarrow> db \<Rightarrow> string \<Rightarrow> bytes \<Rightarrow> string \<Rightarrow> string list" where
  "policy_hosts Q d tenantID tid policyID =
     (case uuid_Scan Q policyID of Inl _ \<Rightarrow> [] | Inr pid \<Rightarrow>
      (case GetPolicy Q d pid tid of Inl _ \<Rightarrow> [] | Inr p \<Rightarrow>
       (case ParseSelector Q (p_Selector p) of (sel, Some _) \<Rightarrow> [] | (sel, None) \<Rightarrow>
        (case ResolveHostIDs Q d tenantID sel of Inl _ \<Rightarrow> [] | Inr ids \<Rightarrow> ids))))"

definition affectedHosts :: "'r CascadeRecompiler \<Rightarrow> db \<Rightarrow> string \<Rightarrow> string \<Rightarrow> string list res" where
  "affectedHosts cr d tenantID ogID = (let Q = cr_queries cr in
     bindR (uuid_Scan Q ogID) (\<lambda>oid.
     bindR (uuid_Scan Q tenantID) (\<lambda>tid.
     bindR (wrapR ''list rules by og'' (ListRuleIDsByObjectGroup Q d oid)) (\<lambda>ruleIDs.
       let policySet = cr_iter cr (remdups (List.map_filter (rule_policy Q d) ruleIDs))
       in Inr (cr_iter cr (remdups (concat (map (policy_hosts Q d tenantID tid) policySet))))))))"

definition OnObjectGroupChanged :: "'r CascadeRecompiler \<Rightarrow> string \<Rightarrow> string \<Rightarrow> ('r CP, unit) st" where
  "OnObjectGroupChanged cr tenantID ogID s =
     (case affectedHosts cr (store s) tenantID ogID of
        Inl e \<Rightarrow> (Inl (Wrapf ''cascade: find affected hosts'' e), s)
      | Inr hostIDs \<Rightarrow> if hostIDs = [] then (Inr (), s) else recompileAndDispatch cr tenantID hostIDs s)"

definition OnDefaultPolicyChanged :: "'r CascadeRecompiler \<Rightarrow> string \<Rightarrow> ('r CP, unit) st" where
  "OnDefaultPolicyChanged cr tenantID s = (let Q = cr_queries cr in
     case bindR (uuid_Scan Q tenantID) (\<lambda>tid. wrapR ''cascade: list hosts'' (ListHosts Q (store s) tid)) of
       Inl e \<Rightarrow> (Inl e, s)
     | Inr hosts \<Rightarrow> recompileAndDispatch cr tenantID (map (\<lambda>h. pgUUIDToStr (h_ID h)) hosts) s)"

text \<open>The hosts a stored policy selects now, shared by the two events for policies.\<close>

definition new_policy_hosts :: "Queries \<Rightarrow> db \<Rightarrow> string \<Rightarrow> bytes \<Rightarrow> bytes \<Rightarrow> string list res" where
  "new_policy_hosts Q d tenantID tid pid =
     bindR (wrapR ''cascade: get policy'' (GetPolicy Q d pid tid)) (\<lambda>p.
       case ParseSelector Q (p_Selector p) of
         (sel, Some e) \<Rightarrow> Inl (Wrapf ''cascade: parse selector'' e)
       | (sel, None) \<Rightarrow> wrapR ''cascade: resolve hosts'' (ResolveHostIDs Q d tenantID sel))"

definition OnPolicyChangedWithOldSelector ::
  "'r CascadeRecompiler \<Rightarrow> string \<Rightarrow> string \<Rightarrow> bytes \<Rightarrow> ('r CP, unit) st" where
  "OnPolicyChangedWithOldSelector cr tenantID policyID oldSelectorRaw s = (let Q = cr_queries cr in
     case bindR (uuid_Scan Q tenantID) (\<lambda>tid. bindR (uuid_Scan Q policyID) (\<lambda>pid.
            let oldSel = fst (ParseSelector Q oldSelectorRaw);
                oldHostIDs = dropErr (ResolveHostIDs Q (store s) tenantID oldSel)
            in bindR (new_policy_hosts Q (store s) tenantID tid pid) (\<lambda>newHostIDs.
                 Inr (cr_iter cr (remdups (oldHostIDs @ newHostIDs)))))) of
       Inl e \<Rightarrow> (Inl e, s)
     | Inr hostIDs \<Rightarrow> recompileAndDispatch cr tenantID hostIDs s)"

definition OnPolicyChanged :: "'r CascadeRecompiler \<Rightarrow> string \<Rightarrow> string \<Rightarrow> ('r CP, unit) st" where
  "OnPolicyChanged cr tenantID policyID s = (let Q = cr_queries cr in
     case bindR (uuid_Scan Q tenantID) (\<lambda>tid. bindR (uuid_Scan Q policyID) (\<lambda>pid.
            new_policy_hosts Q (store s) tenantID tid pid)) of
       Inl e \<Rightarrow> (Inl e, s)
     | Inr hostIDs \<Rightarrow> recompileAndDispatch cr tenantID hostIDs s)"

definition OnHostLabelsChanged :: "'r CascadeRecompiler \<Rightarrow> string \<Rightarrow> string \<Rightarrow> ('r CP, unit) st" where
  "OnHostLabelsChanged cr tenantID hostID = recompileAndDispatch cr tenantID [hostID]"

definition OnHostEnrolled :: "'r CascadeRecompiler \<Rightarrow> string \<Rightarrow> string \<Rightarrow> ('r CP, unit) st" where
  "OnHostEnrolled cr tenantID hostID = recompileAndDispatch cr tenantID [hostID]"

section \<open>What compilation depends on\<close>

text \<open>Two rows of a host that compilation does not tell apart, and two databases.\<close>

definition host_same :: "Host \<Rightarrow> Host \<Rightarrow> bool" where
  "host_same h h' \<longleftrightarrow> h_ID h = h_ID h' \<and> h_TenantID h = h_TenantID h' \<and> h_Labels h = h_Labels h'
     \<and> h_Status h = h_Status h' \<and> h_CreatedAt h = h_CreatedAt h' \<and> h_Hostname h = h_Hostname h'"

definition hosts_same :: "db \<Rightarrow> db \<Rightarrow> bool" where
  "hosts_same d d' \<longleftrightarrow> list_all2 host_same (t_hosts d) (t_hosts d')"

lemma host_same_refl [simp]: "host_same h h"
  by (simp add: host_same_def)

lemma hosts_same_refl [simp]: "hosts_same d d"
  by (simp add: hosts_same_def list_all2_same)

lemma hosts_same_ex: "hosts_same d d' \<Longrightarrow> h \<in> set (t_hosts d) \<Longrightarrow> \<exists>h' \<in> set (t_hosts d'). host_same h h'"
  by (auto simp: hosts_same_def list_all2_conv_all_nth in_set_conv_nth) (metis nth_mem)

lemma list_all2_filter_same:
  "list_all2 R xs ys \<Longrightarrow> (\<And>x y. R x y \<Longrightarrow> P x = P y) \<Longrightarrow> list_all2 R (filter P xs) (filter P ys)"
  by (induction rule: list_all2_induct) auto

lemma list_all2_insort_key:
  "list_all2 R xs ys \<Longrightarrow> R x y \<Longrightarrow> (\<And>x y. R x y \<Longrightarrow> k x = k y) \<Longrightarrow>
   list_all2 R (insort_key k x xs) (insort_key k y ys)"
  by (induction rule: list_all2_induct) auto

lemma list_all2_sort_key:
  "list_all2 R xs ys \<Longrightarrow> (\<And>x y. R x y \<Longrightarrow> k x = k y) \<Longrightarrow> list_all2 R (sort_key k xs) (sort_key k ys)"
  unfolding sort_key_def by (induction rule: list_all2_induct) (auto intro: list_all2_insort_key)

lemma list_all2_map_same: "list_all2 R xs ys \<Longrightarrow> (\<And>x y. R x y \<Longrightarrow> f x = f y) \<Longrightarrow> map f xs = map f ys"
  by (induction rule: list_all2_induct) auto

lemma list_all2_map_filter_same:
  "list_all2 R xs ys \<Longrightarrow> (\<And>x y. R x y \<Longrightarrow> f x = f y) \<Longrightarrow> List.map_filter f xs = List.map_filter f ys"
  by (induction rule: list_all2_induct) (auto simp: map_filter_simps split: option.splits)

lemma GetHost_rel:
  assumes "list_all2 R (t_hosts d) (t_hosts d')" and "\<And>h h'. R h h' \<Longrightarrow> host_same h h'"
  shows "rel_sum (=) R (GetHost Q d hid tid) (GetHost Q d' hid tid)"
proof -
  have "list_all2 R (filter (\<lambda>h. h_ID h = hid \<and> h_TenantID h = tid) (t_hosts d))
      (filter (\<lambda>h. h_ID h = hid \<and> h_TenantID h = tid) (t_hosts d'))"
    using assms(1) by (rule list_all2_filter_same) (auto dest: assms(2) simp: host_same_def)
  then show ?thesis
    by (auto simp: GetHost_def query_one_def query_def bindR_def split: option.splits list.splits)
qed

lemmas GetHost_same = GetHost_rel [of host_same, folded hosts_same_def, simplified]

lemma ListHosts_same:
  assumes "hosts_same d d'"
  shows "rel_sum (=) (list_all2 host_same) (ListHosts Q d tid) (ListHosts Q d' tid)"
proof -
  have "list_all2 host_same (sort_key (\<lambda>h. - h_CreatedAt h) (filter (\<lambda>h. h_TenantID h = tid) (t_hosts d)))
      (sort_key (\<lambda>h. - h_CreatedAt h) (filter (\<lambda>h. h_TenantID h = tid) (t_hosts d')))"
    using assms unfolding hosts_same_def
    by (intro list_all2_sort_key list_all2_filter_same) (auto simp: host_same_def)
  then show ?thesis by (auto simp: ListHosts_def query_def split: option.splits)
qed

lemma host_selected_same: "host_same h h' \<Longrightarrow> host_selected Q sel h = host_selected Q sel h'"
  by (simp add: host_selected_def host_same_def)

lemma ResolveHosts_same:
  assumes "hosts_same d d'"
  shows "rel_sum (=) (list_all2 host_same) (ResolveHosts Q d tenantID sel) (ResolveHosts Q d' tenantID sel)"
proof (cases "uuid_Scan Q tenantID")
  case (Inr tid)
  from ListHosts_same [OF assms, of Q tid] show ?thesis
    by (cases rule: rel_sum.cases)
      (simp_all add: ResolveHosts_def Inr list_all2_filter_same [OF _ host_selected_same])
qed (simp add: ResolveHosts_def)

lemma ResolveHostIDs_same:
  assumes "hosts_same d d'"
  shows "ResolveHostIDs Q d tenantID sel = ResolveHostIDs Q d' tenantID sel"
  using ResolveHosts_same [OF assms, of Q tenantID sel]
  by (cases rule: rel_sum.cases) (auto simp: ResolveHostIDs_def host_same_def elim: list_all2_map_same)

lemma resolveHostSet_same:
  assumes "hosts_same d d'"
  shows "resolveHostSet Q d tenantID og = resolveHostSet Q d' tenantID og"
proof -
  have "host_cidr Q h = host_cidr Q h'" if "host_same h h'" for h h'
    using that by (simp add: host_cidr_def host_same_def)
  then have m: "List.map_filter (host_cidr Q) hs = List.map_filter (host_cidr Q) hs'" if "list_all2 host_same hs hs'" for hs hs'
    using that by (rule list_all2_map_filter_same [rotated])
  have "bindR (wrapR w (ResolveHosts Q d tenantID sel)) (\<lambda>hosts. Inr (f (List.map_filter (host_cidr Q) hosts))) =
      bindR (wrapR w (ResolveHosts Q d' tenantID sel)) (\<lambda>hosts. Inr (f (List.map_filter (host_cidr Q) hosts)))"
    for w sel and f :: "qfv1_CIDR list \<Rightarrow> ResolvedGroup"
    using ResolveHosts_same [OF assms, of Q tenantID sel] by (cases rule: rel_sum.cases) (simp_all add: m)
  from this [of _ _ "\<lambda>cs. \<lparr>g_ID = pgUUIDToStr (og_ID og), g_Type = ''hostset'', g_CIDRs = cs, g_Ports = []\<rparr>"]
  show ?thesis by (simp add: resolveHostSet_def)
qed

text \<open>Rules resolve alike over the same object groups and hosts.\<close>

lemma Resolve_same:
  assumes "hosts_same d d'" and "t_object_groups d = t_object_groups d'"
  shows "Resolve Q d tenantID ogID = Resolve Q d' tenantID ogID"
  by (simp add: Resolve_def GetObjectGroup_def assms(2) resolveHostSet_same [OF assms(1)] cong: if_cong)

lemma resolveRule_same:
  assumes "hosts_same d d'" and "t_object_groups d = t_object_groups d'"
  shows "resolveRule Q d tenantID p r = resolveRule Q d' tenantID p r"
  by (simp only: resolveRule_def resolveCIDRs_def resolvePorts_def Resolve_same [OF assms])

text \<open>
  \<open>d'\<close> is \<open>d\<close> but for the policies with id \<open>pid\<close> and their rules; what the recompiler and the
  agents' sessions write in host rows does not matter.
\<close>

definition policy_change :: "bytes \<Rightarrow> db \<Rightarrow> db \<Rightarrow> bool" where
  "policy_change pid d d' \<longleftrightarrow>
     filter (\<lambda>p. p_ID p \<noteq> pid) (t_policies d) = filter (\<lambda>p. p_ID p \<noteq> pid) (t_policies d')
     \<and> filter (\<lambda>r. r_PolicyID r \<noteq> pid) (t_rules d) = filter (\<lambda>r. r_PolicyID r \<noteq> pid) (t_rules d')
     \<and> t_object_groups d = t_object_groups d' \<and> t_default_policies d = t_default_policies d' \<and> hosts_same d d'"

text \<open>The UUID scanner reads back what \<open>pgUUIDToStr\<close> prints.\<close>

definition scan_ok :: "Queries \<Rightarrow> db \<Rightarrow> bool" where
  "scan_ok Q d \<longleftrightarrow> list_all (\<lambda>p. uuid_Scan Q (pgUUIDToStr (p_ID p)) = Inr (p_ID p)) (t_policies d)"

lemma ListRulesByPolicy_other:
  assumes "policy_change pid d d'" and "q \<noteq> pid"
  shows "ListRulesByPolicy Q d q = ListRulesByPolicy Q d' q"
proof -
  have "filter (\<lambda>r. r_PolicyID r = q) (t_rules e) = filter (\<lambda>r. r_PolicyID r = q) (filter (\<lambda>r. r_PolicyID r \<noteq> pid) (t_rules e))" for e
    using assms(2) unfolding filter_filter by (intro filter_cong) auto
  moreover have "filter (\<lambda>r. r_PolicyID r \<noteq> pid) (t_rules d) = filter (\<lambda>r. r_PolicyID r \<noteq> pid) (t_rules d')"
    using assms(1) by (simp add: policy_change_def)
  ultimately have "filter (\<lambda>r. r_PolicyID r = q) (t_rules d) = filter (\<lambda>r. r_PolicyID r = q) (t_rules d')" by metis
  then show ?thesis by (simp add: ListRulesByPolicy_def)
qed

lemma mapR_cong: "(\<And>x. x \<in> set xs \<Longrightarrow> f x = g x) \<Longrightarrow> mapR f xs = mapR g xs"
  by (induction xs) (auto split: sum.splits)

lemma collectRules_unselected:
  assumes ch: "policy_change pid d d'" and sc: "scan_ok Q d" "scan_ok Q d'"
    and un: "\<And>p. p \<in> set (t_policies d) \<union> set (t_policies d') \<Longrightarrow> p_ID p = pid \<Longrightarrow> \<not> policy_selects Q labels p"
  shows "bindR (ListPolicies Q d tid) (collectRules Q d tenantID labels (resolveRulesForPolicy Q d tenantID)) =
         bindR (ListPolicies Q d' tid) (collectRules Q d' tenantID labels (resolveRulesForPolicy Q d' tenantID))"
proof -
  let ?k = "\<lambda>p. (sint (p_Priority p), p_CreatedAt p)"
  have sel: "filter (policy_selects Q labels) (sort_key ?k (filter (\<lambda>p. p_TenantID p = tid) (t_policies e))) =
      sort_key ?k (filter (policy_selects Q labels) (filter (\<lambda>p. p_TenantID p = tid) (filter (\<lambda>p. p_ID p \<noteq> pid) (t_policies e))))"
    if "e \<in> {d, d'}" for e
    using un that unfolding filter_sort filter_filter by (intro arg_cong [of _ _ "sort_key ?k"] filter_cong) auto
  have c: "filter (\<lambda>p. p_ID p \<noteq> pid) (t_policies d) = filter (\<lambda>p. p_ID p \<noteq> pid) (t_policies d')"
    using ch by (simp add: policy_change_def)
  have ps: "filter (policy_selects Q labels) (sort_key ?k (filter (\<lambda>p. p_TenantID p = tid) (t_policies d))) =
      filter (policy_selects Q labels) (sort_key ?k (filter (\<lambda>p. p_TenantID p = tid) (t_policies d')))"
    by (rule trans [OF sel [of d, unfolded c] sel [of d', symmetric]]) simp_all
  let ?ps = "filter (policy_selects Q labels) (sort_key ?k (filter (\<lambda>p. p_TenantID p = tid) (t_policies d')))"
  have "resolveRulesForPolicy Q d tenantID p = resolveRulesForPolicy Q d' tenantID p" if "p \<in> set ?ps" for p
  proof -
    have "p_ID p \<noteq> pid" "uuid_Scan Q (pgUUIDToStr (p_ID p)) = Inr (p_ID p)"
      using that un sc by (auto simp: scan_ok_def list_all_iff)
    moreover have "resolveRule Q d tenantID p = resolveRule Q d' tenantID p"
      using ch by (auto simp: policy_change_def intro!: ext resolveRule_same)
    ultimately show ?thesis using ListRulesByPolicy_other [OF ch] by (simp add: resolveRulesForPolicy_def)
  qed
  then have "mapR (resolveRulesForPolicy Q d tenantID) ?ps = mapR (resolveRulesForPolicy Q d' tenantID) ?ps"
    by (rule mapR_cong)
  then show ?thesis by (simp add: ListPolicies_def query_def collectRules_def ps split: option.splits)
qed

lemma Compile_unfold:
  "Compile Q d tenantID hostID =
     bindR (wrapR ''compiler: invalid tenant_id'' (uuid_Scan Q tenantID)) (\<lambda>tid.
     bindR (wrapR ''compiler: get default policy'' (GetDefaultPolicy Q d tid)) (\<lambda>dp.
     bindR (wrapR ''compiler: list policies'' (ListPolicies Q d tid)) (\<lambda>_.
     bindR (wrapR ''compiler: invalid host_id'' (uuid_Scan Q hostID)) (\<lambda>hid.
     bindR (wrapR ''compiler: get host'' (bindR (GetHost Q d hid tid) (\<lambda>h. Inr (h_Labels h)))) (\<lambda>l.
     bindR (bindR (ListPolicies Q d tid) (collectRules Q d tenantID (fst (parseLabels Q l)) (resolveRulesForPolicy Q d tenantID))) (\<lambda>resolved.
       Inr \<lparr>rs_Rules = sort_key rule_key resolved, rs_DefaultIngress = dp_Ingress dp,
            rs_DefaultEgress = dp_Egress dp\<rparr>))))))"
  by (auto simp: Compile_def bindR_def wrapR_def split: sum.splits)

lemma host_labels_same:
  "hosts_same d d' \<Longrightarrow> bindR (GetHost Q d hid tid) (\<lambda>h. Inr (h_Labels h)) = bindR (GetHost Q d' hid tid) (\<lambda>h. Inr (h_Labels h))"
  using GetHost_same [of d d' Q hid tid] by (cases rule: rel_sum.cases) (auto simp: host_same_def)

lemma bindR_ListPolicies_const:
  "bindR (wrapR w (ListPolicies Q d tid)) (\<lambda>_. m) = bindR (wrapR w (ListPolicies Q d' tid)) (\<lambda>_. m)"
  by (simp add: ListPolicies_def query_def split: option.splits)

text \<open>A host that the changed policy selects neither before nor after compiles to the same ruleset.\<close>

lemma Compile_unselected:
  assumes ch: "policy_change pid d d'" and sc: "scan_ok Q d" "scan_ok Q d'"
    and host: "uuid_Scan Q tenantID = Inr tid" "uuid_Scan Q hostID = Inr hid" "GetHost Q d hid tid = Inr h"
    and un: "\<And>p. p \<in> set (t_policies d) \<union> set (t_policies d') \<Longrightarrow> p_ID p = pid \<Longrightarrow>
       \<not> policy_selects Q (fst (parseLabels Q (h_Labels h))) p"
  shows "Compile Q d tenantID hostID = Compile Q d' tenantID hostID"
proof -
  have hs: "hosts_same d d'" and dp: "GetDefaultPolicy Q d tid = GetDefaultPolicy Q d' tid"
    using ch by (auto simp: policy_change_def GetDefaultPolicy_def)
  have l: "bindR (GetHost Q d' hid tid) (\<lambda>h. Inr (h_Labels h)) = Inr (h_Labels h)"
    using host_labels_same [OF hs, of Q hid tid] host(3) by simp
  have col: "bindR (ListPolicies Q d tid) (collectRules Q d tenantID (fst (parseLabels Q (h_Labels h))) (resolveRulesForPolicy Q d tenantID)) =
      bindR (ListPolicies Q d' tid) (collectRules Q d' tenantID (fst (parseLabels Q (h_Labels h))) (resolveRulesForPolicy Q d' tenantID))"
    by (rule collectRules_unselected [OF ch sc]) (rule un)
  show ?thesis
    unfolding Compile_unfold host l host_labels_same [OF hs] wrapR_simps bindR_simps dp col
    by (simp only: bindR_ListPolicies_const [of _ Q d tid _ d'])
qed

definition compile_same :: "db \<Rightarrow> db \<Rightarrow> bool" where
  "compile_same d d' \<longleftrightarrow> t_policies d = t_policies d' \<and> t_rules d = t_rules d'
     \<and> t_object_groups d = t_object_groups d' \<and> t_default_policies d = t_default_policies d' \<and> hosts_same d d'"

lemma Compile_same:
  assumes "compile_same d d'"
  shows "Compile Q d tenantID hostID = Compile Q d' tenantID hostID"
proof -
  have hs: "hosts_same d d'" and og: "t_object_groups d = t_object_groups d'"
    and t: "t_policies d = t_policies d'" "t_rules d = t_rules d'" "t_default_policies d = t_default_policies d'"
    using assms by (auto simp: compile_same_def)
  have q: "GetDefaultPolicy Q d = GetDefaultPolicy Q d'" "ListPolicies Q d = ListPolicies Q d'"
    "ListRulesByPolicy Q d = ListRulesByPolicy Q d'"
    by (simp_all add: fun_eq_iff GetDefaultPolicy_def ListPolicies_def ListRulesByPolicy_def t)
  have "resolveRule Q d tenantID = resolveRule Q d' tenantID"
    by (intro ext resolveRule_same [OF hs og])
  then have "resolveRulesForPolicy Q d tenantID = resolveRulesForPolicy Q d' tenantID"
    by (intro ext) (simp only: resolveRulesForPolicy_def q)
  moreover have "collectRules Q d = collectRules Q d'" by (intro ext) (simp only: collectRules_def)
  ultimately show ?thesis unfolding Compile_unfold q host_labels_same [OF hs] by (simp only:)
qed

text \<open>Bundles also depend on the generation in the host's row.\<close>

definition bundle_same :: "db \<Rightarrow> db \<Rightarrow> bool" where
  "bundle_same d d' \<longleftrightarrow> compile_same d d' \<and>
     list_all2 (\<lambda>h h'. host_same h h' \<and> h_CurrentGeneration h = h_CurrentGeneration h') (t_hosts d) (t_hosts d')"

lemma getBundle_same:
  assumes "bundle_same d d'"
  shows "getBundle Q B d tenantID hostID = getBundle Q B d' tenantID hostID"
proof -
  let ?R = "\<lambda>h h'. host_same h h' \<and> h_CurrentGeneration h = h_CurrentGeneration h'"
  have "list_all2 ?R (t_hosts d) (t_hosts d')" and c: "compile_same d d'"
    using assms by (simp_all add: bundle_same_def)
  from GetHost_rel [OF this(1)] have g: "rel_sum (=) ?R (GetHost Q d hid tid) (GetHost Q d' hid tid)" for hid tid by simp
  let ?f = "\<lambda>h. Build Q (bb_crypto B) (bb_signer B) (bb_now B) d' tenantID hostID (scast (h_CurrentGeneration h) + 1)"
  have "bindR (wrapR w (GetHost Q d hid tid)) ?f = bindR (wrapR w (GetHost Q d' hid tid)) ?f" for hid tid w
    using g [of hid tid] by (cases rule: rel_sum.cases) simp_all
  moreover have "Build Q C k n d tenantID hostID i = Build Q C k n d' tenantID hostID i" for C k n i
    by (simp only: Build_def Compile_same [OF c])
  ultimately show ?thesis by (simp only: getBundle_def GetBundle_def)
qed

lemma bump_desired_same: "bundle_same d (bump_desired Q tenantID hostID d)"
proof -
  have "list_all2 (\<lambda>h h'. host_same h h' \<and> h_CurrentGeneration h = h_CurrentGeneration h') hs
      (update_rows P (\<lambda>h. h\<lparr>h_DesiredGeneration := f h\<rparr>) hs)" for hs P f
    by (simp add: update_rows_def list_all2_map2 host_same_def list_all2_same)
  moreover have "list_all2 host_same hs (update_rows P (\<lambda>h. h\<lparr>h_DesiredGeneration := f h\<rparr>) hs)" for hs P f
    by (simp add: update_rows_def list_all2_map2 host_same_def list_all2_same)
  ultimately show ?thesis
    by (auto simp: bump_desired_def IncrementHostDesiredGeneration_def writeS_def exec_hosts_def Let_def
        bundle_same_def compile_same_def hosts_same_def list_all2_same split: sum.splits option.splits)
qed

lemma bundle_same_refl [simp]: "bundle_same d d"
  by (simp add: bundle_same_def compile_same_def list_all2_same)

lemma host_same_trans: "host_same x y \<Longrightarrow> host_same y z \<Longrightarrow> host_same x z"
  by (simp add: host_same_def)

lemma bundle_same_trans:
  assumes "bundle_same d d'" and "bundle_same d' d''"
  shows "bundle_same d d''"
proof -
  have "list_all2 host_same (t_hosts d) (t_hosts d'')"
    using assms unfolding bundle_same_def compile_same_def hosts_same_def
    by (elim conjE) (rule list_all2_trans [OF host_same_trans])
  moreover have "list_all2 (\<lambda>h h'. host_same h h' \<and> h_CurrentGeneration h = h_CurrentGeneration h') (t_hosts d) (t_hosts d'')"
    using assms unfolding bundle_same_def by (elim conjE) (rule list_all2_trans, auto elim: host_same_trans)
  ultimately show ?thesis using assms by (simp add: bundle_same_def compile_same_def hosts_same_def)
qed

section \<open>Who is affected\<close>

text \<open>
  A host that the cascade can name: an active row of the tenant whose labels parse.
\<close>

definition live_host :: "Queries \<Rightarrow> db \<Rightarrow> bytes \<Rightarrow> bytes \<Rightarrow> Host \<Rightarrow> bool" where
  "live_host Q d tid hid h \<longleftrightarrow> GetHost Q d hid tid = Inr h \<and> h_Status h = ''active'' \<and> snd (parseLabels Q (h_Labels h)) = None"

lemma GetHost_Inr: "GetHost Q d hid tid = Inr h \<Longrightarrow> h \<in> set (t_hosts d) \<and> h_ID h = hid \<and> h_TenantID h = tid"
  by (auto simp: GetHost_def query_one_def query_def bindR_eq_Inr split: option.splits list.splits dest: filter_eq_ConsD)

lemma resolved_host:
  assumes "live_host Q d tid hid h" and "MatchesLabels sel (fst (parseLabels Q (h_Labels h)))"
    and "uuid_Scan Q tenantID = Inr tid" and "ResolveHostIDs Q d tenantID sel = Inr ids"
  shows "pgUUIDToStr hid \<in> set ids"
proof -
  have "h \<in> set (t_hosts d)" "h_ID h = hid" "h_TenantID h = tid" "host_selected Q sel h"
    using assms(1,2) GetHost_Inr [of Q d hid tid h]
    by (auto simp: live_host_def host_selected_def split: prod.splits)
  then show ?thesis using assms(3,4)
    by (auto simp: ResolveHostIDs_def ResolveHosts_def ListHosts_def query_def bindR_eq_Inr split: option.splits)
qed

lemma changed_selected:
  assumes ch: "policy_change pid d d'" and sc: "scan_ok Q d" "scan_ok Q d'"
    and host: "uuid_Scan Q tenantID = Inr tid" "uuid_Scan Q hostID = Inr hid" "GetHost Q d' hid tid = Inr h"
    and ne: "Compile Q d tenantID hostID \<noteq> Compile Q d' tenantID hostID"
  shows "\<exists>p. p \<in> set (t_policies d) \<union> set (t_policies d') \<and> p_ID p = pid
    \<and> policy_selects Q (fst (parseLabels Q (h_Labels h))) p"
proof -
  have "hosts_same d d'" using ch by (simp add: policy_change_def)
  from GetHost_same [OF this, of Q hid tid] host(3) obtain h0 where "GetHost Q d hid tid = Inr h0" "host_same h0 h"
    by (cases rule: rel_sum.cases) auto
  then have g: "GetHost Q d hid tid = Inr h0" and l: "h_Labels h0 = h_Labels h" by (simp_all add: host_same_def)
  show ?thesis
  proof (rule ccontr)
    assume n: "\<not> ?thesis"
    have "Compile Q d tenantID hostID = Compile Q d' tenantID hostID"
      by (rule Compile_unselected [OF ch sc host(1,2) g]) (use n l in auto)
    then show False using ne by simp
  qed
qed

lemma ResolveHostIDs_is_ok: "is_ok (ResolveHostIDs Q d tenantID sel) = is_ok (ResolveHostIDs Q d tenantID sel')"
  by (auto simp: ResolveHostIDs_def ResolveHosts_def is_ok_iff bindR_eq_Inr)

text \<open>The hosts of the two policy events include every live host whose ruleset changed.\<close>

lemma new_policy_hosts_Inr:
  assumes "new_policy_hosts Q d tenantID tid pid = Inr ids"
  obtains p sel where "GetPolicy Q d pid tid = Inr p" "ParseSelector Q (p_Selector p) = (sel, None)"
    "ResolveHostIDs Q d tenantID sel = Inr ids"
proof -
  from assms obtain p where p: "GetPolicy Q d pid tid = Inr p"
    and r: "(case ParseSelector Q (p_Selector p) of (sel, Some e) \<Rightarrow> Inl (Wrapf ''cascade: parse selector'' e)
       | (sel, None) \<Rightarrow> wrapR ''cascade: resolve hosts'' (ResolveHostIDs Q d tenantID sel)) = Inr ids"
    by (auto simp: new_policy_hosts_def bindR_eq_Inr)
  obtain sel err where "ParseSelector Q (p_Selector p) = (sel, err)" by (cases "ParseSelector Q (p_Selector p)")
  then show thesis using p r that by (cases err) auto
qed

lemma policy_hosts_complete:
  assumes ch: "policy_change pid d d'" and sc: "scan_ok Q d" "scan_ok Q d'"
    and host: "uuid_Scan Q tenantID = Inr tid" "uuid_Scan Q (pgUUIDToStr hid) = Inr hid" "live_host Q d' tid hid h"
    and ne: "Compile Q d tenantID (pgUUIDToStr hid) \<noteq> Compile Q d' tenantID (pgUUIDToStr hid)"
    and old: "\<And>p. p \<in> set (t_policies d) \<Longrightarrow> p_ID p = pid \<Longrightarrow> p_Selector p = old"
    and new: "\<And>p. p \<in> set (t_policies d') \<Longrightarrow> p_ID p = pid \<Longrightarrow> GetPolicy Q d' pid tid = Inr p"
    and ids: "new_policy_hosts Q d' tenantID tid pid = Inr ids"
  shows "pgUUIDToStr hid \<in> set (dropErr (ResolveHostIDs Q d' tenantID (fst (ParseSelector Q old))) @ ids)"
proof -
  let ?l = "fst (parseLabels Q (h_Labels h))"
  have g: "GetHost Q d' hid tid = Inr h" using host(3) by (simp add: live_host_def)
  from changed_selected [OF ch sc host(1,2) g ne]
  obtain p where p: "p \<in> set (t_policies d) \<union> set (t_policies d')" "p_ID p = pid" "policy_selects Q ?l p" by blast
  from ids obtain q sel where q: "GetPolicy Q d' pid tid = Inr q" "ParseSelector Q (p_Selector q) = (sel, None)"
    "ResolveHostIDs Q d' tenantID sel = Inr ids" by (rule new_policy_hosts_Inr)
  show ?thesis
  proof (cases "p \<in> set (t_policies d')")
    case True
    then have "MatchesLabels sel ?l" using new p q by (auto simp: policy_selects_def)
    then show ?thesis using resolved_host [OF host(3) _ host(1) q(3)] by simp
  next
    case False
    then have m: "MatchesLabels (fst (ParseSelector Q old)) ?l"
      using old p by (auto simp: policy_selects_def split: prod.splits)
    have "is_ok (ResolveHostIDs Q d' tenantID (fst (ParseSelector Q old)))"
      using q(3) ResolveHostIDs_is_ok [of Q d' tenantID sel] by simp
    then obtain ids' where "ResolveHostIDs Q d' tenantID (fst (ParseSelector Q old)) = Inr ids'" by (auto simp: is_ok_iff)
    then show ?thesis using resolved_host [OF host(3) m host(1)] by (simp add: dropErr_def)
  qed
qed

text \<open>The primary key of \<open>hosts\<close>, as printed.\<close>

definition hosts_keyed :: "db \<Rightarrow> bool" where
  "hosts_keyed d \<longleftrightarrow> distinct (map (\<lambda>h. pgUUIDToStr (h_ID h)) (t_hosts d))"

lemma distinct_map_sort_key: "distinct (map f (sort_key k xs)) = distinct (map f xs)"
  by (simp add: distinct_map)

lemma ResolveHostIDs_distinct:
  assumes "hosts_keyed d" and "ResolveHostIDs Q d tenantID sel = Inr ids"
  shows "distinct ids"
proof -
  from assms(2) obtain tid where "ids = map (\<lambda>h. pgUUIDToStr (h_ID h)) (filter (host_selected Q sel)
      (sort_key (\<lambda>h. - h_CreatedAt h) (filter (\<lambda>h. h_TenantID h = tid) (t_hosts d))))"
    by (auto simp: ResolveHostIDs_def ResolveHosts_def ListHosts_def query_def bindR_eq_Inr split: option.splits)
  then show ?thesis using assms(1)
    by (simp add: filter_sort distinct_map_sort_key hosts_keyed_def distinct_map_filter)
qed

section \<open>The dispatcher\<close>

text \<open>
  What the recompiler relies on, in the states \<open>ok\<close> the dispatcher keeps: a bundle goes to
  the inbox of its host if that host accepts it, no other inbox changes, and dispatching to
  one host does not change whether another accepts. A host that failed to accept a bundle
  may fail again: nothing is assumed about a second dispatch to the same host.
\<close>

locale dispatcher =
  fixes disp :: "BundleUpdate \<Rightarrow> 'r \<Rightarrow> 'r"
    and inbox :: "'r \<Rightarrow> string \<Rightarrow> qfv1_PolicyBundle list"
    and accepts :: "'r \<Rightarrow> string \<Rightarrow> bool"
    and ok :: "'r \<Rightarrow> bool"
  assumes inbox_disp: "ok r \<Longrightarrow> inbox (disp u r) h = (if h = bu_HostID u \<and> accepts r h then inbox r h @ [bu_Bundle u] else inbox r h)"
    and accepts_disp: "ok r \<Longrightarrow> h \<noteq> bu_HostID u \<Longrightarrow> accepts (disp u r) h = accepts r h"
    and ok_disp: "ok r \<Longrightarrow> ok (disp u r)"
begin

lemma recompile_hosts_spec:
  assumes "cr_dispatcher cr = Some disp" and "recompile_hosts cr tenantID hostIDs s = (es, s')" and "distinct hostIDs" and "ok (registry s)"
  shows "bundle_same (store s) (store s') \<and> ok (registry s')
    \<and> inbox (registry s') h = inbox (registry s) h @
       (case getBundle (cr_queries cr) (cr_builder cr) (store s) tenantID h of
          Inl _ \<Rightarrow> [] | Inr b \<Rightarrow> if h \<in> set hostIDs \<and> accepts (registry s) h then [b] else [])
    \<and> set es = {e. \<exists>x \<in> set hostIDs. getBundle (cr_queries cr) (cr_builder cr) (store s) tenantID x = Inl e}"
  using assms(2,3,4)
proof (induction hostIDs arbitrary: s es)
  case (Cons x xs)
  let ?g = "getBundle (cr_queries cr) (cr_builder cr)"
  define s1 where "s1 = s\<lparr>store := bump_desired (cr_queries cr) tenantID x (store s)\<rparr>"
  have b1: "bundle_same (store s) (store s1)" by (simp add: s1_def bump_desired_same)
  have g1: "?g (store s1) tenantID y = ?g (store s) tenantID y" for y using getBundle_same [OF b1] by simp
  have r1: "registry s1 = registry s" by (simp add: s1_def)
  show ?case
  proof (cases "?g (store s) tenantID x")
    case (Inl e)
    then obtain es' where rec: "recompile_hosts cr tenantID xs s1 = (es', s')" and es: "es = e # es'"
      using Cons.prems(1) g1 by (auto simp: s1_def [symmetric] Let_def split: prod.splits)
    note IH = Cons.IH [OF rec] Cons.prems(2,3)
    then show ?thesis
      using Inl es b1 by (auto simp: g1 r1 intro: bundle_same_trans split: sum.splits)
  next
    case (Inr b)
    define s2 where "s2 = s1\<lparr>registry := disp \<lparr>bu_TenantID = tenantID, bu_HostID = x, bu_Bundle = b\<rparr> (registry s1)\<rparr>"
    have rec: "recompile_hosts cr tenantID xs s2 = (es, s')"
      using Cons.prems(1) g1 Inr by (simp add: s1_def [symmetric] s2_def assms(1) Let_def)
    have s2: "store s2 = store s1" "y \<noteq> x \<Longrightarrow> accepts (registry s2) y = accepts (registry s) y" "ok (registry s2)"
      "inbox (registry s2) y = (if y = x \<and> accepts (registry s) y then inbox (registry s) y @ [b] else inbox (registry s) y)" for y
      using Cons.prems(3) by (auto simp: s2_def r1 accepts_disp inbox_disp ok_disp)
    have "x \<notin> set xs" "distinct xs" using Cons.prems(2) by auto
    then show ?thesis
      using Cons.IH [OF rec] Inr b1 s2(1,2,3)
      by (cases "h = x") (auto simp: s2(4) g1 intro: bundle_same_trans split: sum.splits)
  qed
qed (simp split: sum.splits)

lemma recompile_reaches:
  assumes "cr_dispatcher cr = Some disp" and "recompileAndDispatch cr tenantID hostIDs s = (r, s')" and "distinct hostIDs"
    and "h \<in> set hostIDs" and "accepts (registry s) h" and "ok (registry s)"
  shows "(\<exists>b. getBundle (cr_queries cr) (cr_builder cr) (store s) tenantID h = Inr b
            \<and> inbox (registry s') h = inbox (registry s) h @ [b]) \<or> \<not> is_ok r"
proof -
  obtain es where rec: "recompile_hosts cr tenantID hostIDs s = (es, s')" and r: "r = Inr () \<longleftrightarrow> es = []"
    using assms(2) by (auto simp: recompileAndDispatch_def split: prod.splits list.splits)
  note spec = recompile_hosts_spec [OF assms(1) rec assms(3,6), of h]
  show ?thesis
  proof (cases "getBundle (cr_queries cr) (cr_builder cr) (store s) tenantID h")
    case (Inl e)
    then have "e \<in> set es" using spec assms(4) by blast
    then show ?thesis using r by (auto simp: is_ok_iff)
  next
    case (Inr b)
    then show ?thesis using spec assms(4,5) by simp
  qed
qed

lemma OnPolicyChangedWithOldSelector_reaches:
  assumes "cr_dispatcher cr = Some disp" and iter: "\<And>xs. mset (cr_iter cr xs) = mset xs" and Q: "cr_queries cr = Q"
    and ch: "policy_change pid d (store s)" and sc: "scan_ok Q d" "scan_ok Q (store s)"
    and host: "uuid_Scan Q tenantID = Inr tid" "uuid_Scan Q (pgUUIDToStr hid) = Inr hid" "live_host Q (store s) tid hid h"
    and ne: "Compile Q d tenantID (pgUUIDToStr hid) \<noteq> Compile Q (store s) tenantID (pgUUIDToStr hid)"
    and old: "\<And>p. p \<in> set (t_policies d) \<Longrightarrow> p_ID p = pid \<Longrightarrow> p_Selector p = old"
    and new: "\<And>p. p \<in> set (t_policies (store s)) \<Longrightarrow> p_ID p = pid \<Longrightarrow> GetPolicy Q (store s) pid tid = Inr p"
    and pol: "uuid_Scan Q policyID = Inr pid"
    and run: "OnPolicyChangedWithOldSelector cr tenantID policyID old s = (r, s')"
    and acc: "accepts (registry s) (pgUUIDToStr hid)" "ok (registry s)"
  shows "(\<exists>b. getBundle Q (cr_builder cr) (store s) tenantID (pgUUIDToStr hid) = Inr b
            \<and> inbox (registry s') (pgUUIDToStr hid) = inbox (registry s) (pgUUIDToStr hid) @ [b]) \<or> \<not> is_ok r"
proof (cases "new_policy_hosts Q (store s) tenantID tid pid")
  case (Inl e)
  then show ?thesis using run by (auto simp: OnPolicyChangedWithOldSelector_def Q host(1) pol Let_def)
next
  case (Inr ids)
  let ?ids = "dropErr (ResolveHostIDs Q (store s) tenantID (fst (ParseSelector Q old))) @ ids"
  have run': "recompileAndDispatch cr tenantID (cr_iter cr (remdups ?ids)) s = (r, s')"
    using run by (simp add: OnPolicyChangedWithOldSelector_def Q host(1) pol Inr Let_def)
  have "pgUUIDToStr hid \<in> set ?ids"
    by (rule policy_hosts_complete [OF ch sc host ne _ _ Inr]) (fact old new)+
  then have "pgUUIDToStr hid \<in> set (cr_iter cr (remdups ?ids))"
    using iter [of "remdups ?ids"] by (metis mset_eq_setD set_remdups)
  moreover have "distinct (cr_iter cr (remdups ?ids))"
    using iter [of "remdups ?ids"] mset_eq_imp_distinct_iff by (metis distinct_remdups)
  ultimately show ?thesis using recompile_reaches [OF assms(1) run' _ _ acc] unfolding Q by blast
qed

lemma OnPolicyChanged_reaches:
  assumes "cr_dispatcher cr = Some disp" and Q: "cr_queries cr = Q" and key: "hosts_keyed (store s)"
    and ch: "policy_change pid d (store s)" and same: "t_policies d = t_policies (store s)" and sc: "scan_ok Q d"
    and host: "uuid_Scan Q tenantID = Inr tid" "uuid_Scan Q (pgUUIDToStr hid) = Inr hid" "live_host Q (store s) tid hid h"
    and ne: "Compile Q d tenantID (pgUUIDToStr hid) \<noteq> Compile Q (store s) tenantID (pgUUIDToStr hid)"
    and new: "\<And>p. p \<in> set (t_policies (store s)) \<Longrightarrow> p_ID p = pid \<Longrightarrow> GetPolicy Q (store s) pid tid = Inr p"
    and pol: "uuid_Scan Q policyID = Inr pid"
    and run: "OnPolicyChanged cr tenantID policyID s = (r, s')"
    and acc: "accepts (registry s) (pgUUIDToStr hid)" "ok (registry s)"
  shows "(\<exists>b. getBundle Q (cr_builder cr) (store s) tenantID (pgUUIDToStr hid) = Inr b
            \<and> inbox (registry s') (pgUUIDToStr hid) = inbox (registry s) (pgUUIDToStr hid) @ [b]) \<or> \<not> is_ok r"
proof (cases "new_policy_hosts Q (store s) tenantID tid pid")
  case (Inl e)
  then show ?thesis using run by (auto simp: OnPolicyChanged_def Q host(1) pol Let_def)
next
  case (Inr ids)
  then have run': "recompileAndDispatch cr tenantID ids s = (r, s')"
    using run by (simp add: OnPolicyChanged_def Q host(1) pol Let_def)
  from Inr obtain q sel where q: "GetPolicy Q (store s) pid tid = Inr q" "ParseSelector Q (p_Selector q) = (sel, None)"
    "ResolveHostIDs Q (store s) tenantID sel = Inr ids" by (rule new_policy_hosts_Inr)
  have "pgUUIDToStr hid \<in> set (dropErr (ResolveHostIDs Q (store s) tenantID (fst (ParseSelector Q (p_Selector q)))) @ ids)"
    by (rule policy_hosts_complete [OF ch sc _ host ne _ _ Inr]) (use sc same new q(1) in \<open>auto simp: scan_ok_def\<close>)
  then have "pgUUIDToStr hid \<in> set ids" by (simp add: q dropErr_def)
  then show ?thesis
    using recompile_reaches [OF assms(1) run' ResolveHostIDs_distinct [OF key q(3)] _ acc] unfolding Q by blast
qed

end

end
