(* ===== verification/Qf_Registry.thy ===== *)
theory Qf_Registry
  imports Qf_Cascade
begin

text \<open>
  The registry of agent streams (cp/internal/agentsrv/registry.go), which implements the
  dispatcher the cascades push bundles through. A stream is a number; the registry keeps the
  stream of each host, and for each stream what was sent on it and the one disconnect signal
  its channel can hold. Sending may fail: \<open>flt i n\<close> is the fate of the \<open>n\<close>-th send on
  stream \<open>i\<close>.
\<close>

section \<open>registry.go\<close>

record disconnectSignal =
  ds_reason :: string
  ds_reconnectAfterMs :: u32

record StreamRegistry =
  rg_streams :: "string \<rightharpoonup> nat"
  rg_disconnectCh :: "nat \<Rightarrow> disconnectSignal option"
  rg_sent :: "nat \<Rightarrow> server_msg list"
  rg_nsend :: "nat \<Rightarrow> nat"
  rg_ActiveStreams :: int

definition NewStreamRegistry :: StreamRegistry where
  "NewStreamRegistry = \<lparr>rg_streams = Map.empty, rg_disconnectCh = (\<lambda>_. None), rg_sent = (\<lambda>_. []), rg_nsend = (\<lambda>_. 0), rg_ActiveStreams = 0\<rparr>"

definition srv_Send :: "(nat \<Rightarrow> nat \<Rightarrow> bool) \<Rightarrow> nat \<Rightarrow> server_msg \<Rightarrow> (StreamRegistry, unit) st" where
  "srv_Send flt i m r =
     (let r1 = r\<lparr>rg_nsend := (rg_nsend r)(i := Suc (rg_nsend r i))\<rparr> in
      if flt i (rg_nsend r i) then (Inl (Errorf ''stream send''), r1)
      else (Inr (), r1\<lparr>rg_sent := (rg_sent r1)(i := rg_sent r1 i @ [m])\<rparr>))"

definition register :: "string \<Rightarrow> nat \<Rightarrow> StreamRegistry \<Rightarrow> StreamRegistry" where
  "register hostID i r = r\<lparr>rg_streams := (rg_streams r)(hostID \<mapsto> i), rg_disconnectCh := (rg_disconnectCh r)(i := None),
     rg_ActiveStreams := rg_ActiveStreams r + 1\<rparr>"

definition deregister :: "string \<Rightarrow> StreamRegistry \<Rightarrow> StreamRegistry" where
  "deregister hostID r = r\<lparr>rg_streams := (rg_streams r)(hostID := None), rg_ActiveStreams := rg_ActiveStreams r - 1\<rparr>"

definition Dispatch :: "(nat \<Rightarrow> nat \<Rightarrow> bool) \<Rightarrow> BundleUpdate \<Rightarrow> StreamRegistry \<Rightarrow> StreamRegistry" where
  "Dispatch flt update r =
     (case rg_streams r (bu_HostID update) of
        None \<Rightarrow> r
      | Some i \<Rightarrow> snd (srv_Send flt i (PolicyBundleMsg (bu_Bundle update)) r))"

definition Disconnect :: "string \<Rightarrow> string \<Rightarrow> u32 \<Rightarrow> StreamRegistry \<Rightarrow> StreamRegistry" where
  "Disconnect hostID reason ms r =
     (case rg_streams r hostID of
        None \<Rightarrow> r
      | Some i \<Rightarrow> (case rg_disconnectCh r i of
           Some _ \<Rightarrow> r
         | None \<Rightarrow> r\<lparr>rg_disconnectCh := (rg_disconnectCh r)(i \<mapsto> \<lparr>ds_reason = reason, ds_reconnectAfterMs = ms\<rparr>)\<rparr>))"

text \<open>\<open>ids\<close> are the keys of the map in the order the range loop visits them.\<close>

definition DisconnectAll :: "string list \<Rightarrow> string \<Rightarrow> u32 \<Rightarrow> StreamRegistry \<Rightarrow> StreamRegistry" where
  "DisconnectAll ids reason ms r = foldl (\<lambda>r h. Disconnect h reason ms r) r ids"

section \<open>The registry as a dispatcher\<close>

text \<open>The bundles sent on a host's current stream; no two hosts share a stream.\<close>

fun bundles_of :: "server_msg list \<Rightarrow> qfv1_PolicyBundle list" where
  "bundles_of [] = []"
| "bundles_of (PolicyBundleMsg b # ms) = b # bundles_of ms"
| "bundles_of (m # ms) = bundles_of ms"

lemma bundles_of_append [simp]: "bundles_of (xs @ ys) = bundles_of xs @ bundles_of ys"
  by (induction xs rule: bundles_of.induct) auto

definition reg_inbox :: "StreamRegistry \<Rightarrow> string \<Rightarrow> qfv1_PolicyBundle list" where
  "reg_inbox r h = (case rg_streams r h of None \<Rightarrow> [] | Some i \<Rightarrow> bundles_of (rg_sent r i))"

definition reg_accepts :: "(nat \<Rightarrow> nat \<Rightarrow> bool) \<Rightarrow> StreamRegistry \<Rightarrow> string \<Rightarrow> bool" where
  "reg_accepts flt r h \<longleftrightarrow> (case rg_streams r h of None \<Rightarrow> False | Some i \<Rightarrow> \<not> flt i (rg_nsend r i))"

definition reg_ok :: "StreamRegistry \<Rightarrow> bool" where
  "reg_ok r \<longleftrightarrow> inj_on (rg_streams r) (dom (rg_streams r))"

lemma reg_okD: "reg_ok r \<Longrightarrow> rg_streams r h = Some i \<Longrightarrow> rg_streams r h' = Some i \<Longrightarrow> h = h'"
  by (auto simp: reg_ok_def dest: inj_onD [where x = h and y = h'])

lemma reg_ok_register: "reg_ok r \<Longrightarrow> i \<notin> ran (rg_streams r) \<Longrightarrow> reg_ok (register h i r)"
  by (auto simp: reg_ok_def register_def inj_on_def ran_def)

lemma reg_ok_deregister: "reg_ok r \<Longrightarrow> reg_ok (deregister h r)"
  by (auto simp: reg_ok_def deregister_def inj_on_def)

lemma reg_ok_streams: "rg_streams r' = rg_streams r \<Longrightarrow> reg_ok r' = reg_ok r"
  by (simp add: reg_ok_def)

lemma srv_Send_streams [simp]: "rg_streams (snd (srv_Send flt i m r)) = rg_streams r"
  by (simp add: srv_Send_def Let_def)

lemma Dispatch_streams [simp]: "rg_streams (Dispatch flt u r) = rg_streams r"
  by (simp add: Dispatch_def split: option.splits)

lemma Disconnect_streams [simp]: "rg_streams (Disconnect h reason ms r) = rg_streams r"
  by (simp add: Disconnect_def split: option.splits)

text \<open>Dispatching to a host leaves the stream of every other host as it was.\<close>

lemma Dispatch_other:
  assumes "reg_ok r" and "h \<noteq> bu_HostID u" and "rg_streams r h = Some i"
  shows "rg_sent (Dispatch flt u r) i = rg_sent r i \<and> rg_nsend (Dispatch flt u r) i = rg_nsend r i"
proof (cases "rg_streams r (bu_HostID u)")
  case (Some j)
  then have "i \<noteq> j" using reg_okD [OF assms(1) assms(3)] assms(2) by blast
  then show ?thesis using Some by (simp add: Dispatch_def srv_Send_def Let_def)
qed (simp add: Dispatch_def)

interpretation sr: dispatcher "Dispatch flt" reg_inbox "reg_accepts flt" reg_ok for flt
proof
  fix r u h
  assume ok: "reg_ok r"
  show "reg_inbox (Dispatch flt u r) h = (if h = bu_HostID u \<and> reg_accepts flt r h then reg_inbox r h @ [bu_Bundle u] else reg_inbox r h)"
  proof (cases "h = bu_HostID u")
    case True
    then show ?thesis by (simp add: reg_inbox_def reg_accepts_def Dispatch_def srv_Send_def Let_def split: option.split)
  next
    case False
    then show ?thesis using Dispatch_other [OF ok False] by (simp add: reg_inbox_def split: option.split)
  qed
  show "reg_accepts flt (Dispatch flt u r) h = reg_accepts flt r h" if "h \<noteq> bu_HostID u"
    using Dispatch_other [OF ok that] by (simp add: reg_accepts_def split: option.split)
  show "reg_ok (Dispatch flt u r)" using ok reg_ok_streams [OF Dispatch_streams] by blast
qed

end
