(* ===== verification/Qf_Pki.thy ===== *)
theory Qf_Pki
  imports Qf_Cascade
begin

text \<open>
  Enrollment of hosts (cp/internal/pki): bootstrap tokens (tokens.go), the signing of host
  certificates (ca.go), enrollment (enrollment.go), the revocation list (revocation.go), and
  the identity of a peer (agentsrv/auth.go). X.509, PEM, SHA-256 and JSON encoding are
  arguments, collected in the record \<open>x509\<close>; random bytes and the clock are arguments too.
\<close>

section \<open>Library code\<close>

record CertTemplate =
  SerialNumber :: nat
  CommonName :: string
  OrganizationalUnit :: "string list"
  NotBefore :: int
  NotAfter :: int

record x509 =
  pem_Decode :: "bytes \<Rightarrow> (string \<times> bytes) option"
  pem_EncodeToMemory :: "string \<Rightarrow> bytes \<Rightarrow> bytes"
  x509_ParseCertificate :: "bytes \<Rightarrow> CertTemplate res"
  x509_ParseCertificateRequest :: "bytes \<Rightarrow> bytes res"
  x509_CheckSignature :: "bytes \<Rightarrow> unit res"
  x509_CreateCertificate :: "CertTemplate \<Rightarrow> bytes \<Rightarrow> bytes res"
  sha256_Sum :: "bytes \<Rightarrow> bytes"
  base64_RawURL :: "bytes \<Rightarrow> string"
  json_MarshalLabels :: "(string \<rightharpoonup> string) \<Rightarrow> bytes"

text \<open>
  What the code relies on: a block of one of the types it uses decodes to what was encoded,
  and a certificate that was created parses, with the serial number, common name and (single)
  organizational unit of its template. Nothing is assumed of its times, which X.509 keeps in
  seconds. Both are documented behaviour of \<open>encoding/pem\<close> and \<open>crypto/x509\<close>.
\<close>

definition pem_types :: "string list" where
  "pem_types = [''CERTIFICATE'', ''CERTIFICATE REQUEST'', ''PRIVATE KEY'', ''PUBLIC KEY'']"

definition pem_ok :: "x509 \<Rightarrow> bool" where
  "pem_ok X \<longleftrightarrow> (\<forall>ty \<in> set pem_types. \<forall>bs. pem_Decode X (pem_EncodeToMemory X ty bs) = Some (ty, bs))"

lemma pem_ok_types:
  assumes "pem_ok X"
  shows "pem_Decode X (pem_EncodeToMemory X ''CERTIFICATE'' bs) = Some (''CERTIFICATE'', bs)"
    and "pem_Decode X (pem_EncodeToMemory X ''CERTIFICATE REQUEST'' bs) = Some (''CERTIFICATE REQUEST'', bs)"
    and "pem_Decode X (pem_EncodeToMemory X ''PRIVATE KEY'' bs) = Some (''PRIVATE KEY'', bs)"
  using assms by (simp_all add: pem_ok_def pem_types_def)

definition x509_ok :: "x509 \<Rightarrow> bool" where
  "x509_ok X \<longleftrightarrow> pem_ok X
     \<and> (\<forall>t k der ou. x509_CreateCertificate X t k = Inr der \<longrightarrow> OrganizationalUnit t = [ou] \<longrightarrow>
          (\<exists>c. x509_ParseCertificate X der = Inr c \<and> SerialNumber c = SerialNumber t
             \<and> CommonName c = CommonName t \<and> OrganizationalUnit c = [ou]))"

section \<open>tokens.go\<close>

definition hashToken :: "x509 \<Rightarrow> string \<Rightarrow> string" where
  "hashToken X plain = hexEncode (sha256_Sum X (map of_char plain))"

text \<open>\<open>rnd\<close> is what \<open>rand.Read\<close> returns.\<close>

definition generateToken :: "x509 \<Rightarrow> bytes res \<Rightarrow> (string \<times> string) res" where
  "generateToken X rnd = bindR rnd (\<lambda>b. let plain = base64_RawURL X b in Inr (plain, hashToken X plain))"

text \<open>The statement that both creating functions run; an \<open>INT\<close> parameter must fit 32 bits.\<close>

definition insert_token :: "Queries \<Rightarrow> (string \<Rightarrow> int \<Rightarrow> BootstrapToken) \<Rightarrow> int \<Rightarrow> (db, unit) st" where
  "insert_token Q row maxUses = writeS Q (\<lambda>d.
     let t = row (pgUUIDToStr (db_uuid Q (t_seq d))) (db_now Q (t_seq d))
     in if maxUses < - (2 ^ 31) \<or> 2 ^ 31 \<le> maxUses then (Inl out_of_range, d)
        else if bt_TokenHash t \<in> bt_TokenHash ` set (t_tokens d)
             \<or> (case bt_TargetHostID t of None \<Rightarrow> False | Some h \<Rightarrow> h \<notin> (\<lambda>x. pgUUIDToStr (h_ID x)) ` set (t_hosts d))
        then (Inl check_violation, d)
        else (Inr (), d\<lparr>t_tokens := t_tokens d @ [t]\<rparr>))"

definition CreateSingleHostToken ::
  "Queries \<Rightarrow> x509 \<Rightarrow> bytes res \<Rightarrow> int \<Rightarrow> string \<Rightarrow> string \<Rightarrow> int \<Rightarrow> int \<Rightarrow> (db, string) st" where
  "CreateSingleHostToken Q X rnd now tenantID targetHostID ttl maxUses =
     bindS (liftS (generateToken X rnd)) (\<lambda>(plain, hash).
     bindS (wrapS ''pki: create single_host token'' (insert_token Q (\<lambda>i t.
       \<lparr>bt_ID = i, bt_TenantID = tenantID, bt_Type = ''single_host'', bt_TokenHash = hash, bt_TargetHostID = Some targetHostID,
        bt_LabelTemplate = None, bt_MaxUses = of_int maxUses, bt_UsesCount = 0, bt_ExpiresAt = now + ttl, bt_CreatedAt = t\<rparr>) maxUses)) (\<lambda>_.
     retS plain))"

definition CreateBulkToken ::
  "Queries \<Rightarrow> x509 \<Rightarrow> bytes res \<Rightarrow> int \<Rightarrow> string \<Rightarrow> (string \<rightharpoonup> string) \<Rightarrow> int \<Rightarrow> int \<Rightarrow> (db, string) st" where
  "CreateBulkToken Q X rnd now tenantID labelTemplate ttl maxUses =
     bindS (liftS (generateToken X rnd)) (\<lambda>(plain, hash).
     bindS (wrapS ''pki: create bulk token'' (insert_token Q (\<lambda>i t.
       \<lparr>bt_ID = i, bt_TenantID = tenantID, bt_Type = ''bulk'', bt_TokenHash = hash, bt_TargetHostID = None,
        bt_LabelTemplate = Some (json_MarshalLabels X labelTemplate), bt_MaxUses = of_int maxUses, bt_UsesCount = 0,
        bt_ExpiresAt = now + ttl, bt_CreatedAt = t\<rparr>) maxUses)) (\<lambda>_.
     retS plain))"

text \<open>The condition of the \<open>UPDATE\<close> in \<open>ValidateAndConsume\<close>.\<close>

definition usable :: "string \<Rightarrow> int \<Rightarrow> BootstrapToken \<Rightarrow> bool" where
  "usable hash now t \<longleftrightarrow> bt_TokenHash t = hash \<and> now < bt_ExpiresAt t \<and> (bt_MaxUses t = 0 \<or> bt_UsesCount t <s bt_MaxUses t)"

definition use_token :: "BootstrapToken \<Rightarrow> BootstrapToken" where
  "use_token t = t\<lparr>bt_UsesCount := bt_UsesCount t + 1\<rparr>"

definition consume_row :: "Queries \<Rightarrow> string \<Rightarrow> (db, BootstrapToken) st" where
  "consume_row Q hash = writeS Q (\<lambda>d. let now = db_now Q (t_seq d) in
     if list_ex (\<lambda>t. usable hash now t \<and> bt_UsesCount t = int4_max) (t_tokens d) then (Inl out_of_range, d)
     else case filter (usable hash now) (t_tokens d) of
            [] \<Rightarrow> (Inl (Sentinel ''pgx.ErrNoRows''), d)
          | t # _ \<Rightarrow> (Inr (use_token t), d\<lparr>t_tokens := update_rows (usable hash now) use_token (t_tokens d)\<rparr>))"

definition token_exists :: "Queries \<Rightarrow> db \<Rightarrow> string \<Rightarrow> bool" where
  "token_exists Q d hash \<longleftrightarrow> db_err Q ''TokenExists'' = None \<and> list_ex (\<lambda>t. bt_TokenHash t = hash) (t_tokens d)"

definition ValidateAndConsume :: "Queries \<Rightarrow> x509 \<Rightarrow> string \<Rightarrow> (db, BootstrapToken) st" where
  "ValidateAndConsume Q X plain d =
     (let hash = hashToken X plain in
      case consume_row Q hash d of
        (Inr t, d') \<Rightarrow> (Inr t, d')
      | (Inl e, d') \<Rightarrow>
          if errors_Is e ''pgx.ErrNoRows'' then
            (if token_exists Q d' hash then (Inl (Sentinel ''ErrTokenExhausted''), d')
             else (Inl (Sentinel ''ErrTokenNotFound''), d'))
          else (Inl (Wrapf ''pki: validate token'' e), d'))"

definition DeleteToken :: "Queries \<Rightarrow> string \<Rightarrow> (db, unit) st" where
  "DeleteToken Q i = writeS Q (\<lambda>d. (Inr (), d\<lparr>t_tokens := filter (\<lambda>t. bt_ID t \<noteq> i) (t_tokens d)\<rparr>))"

definition ListTokens :: "Queries \<Rightarrow> int \<Rightarrow> db \<Rightarrow> string \<Rightarrow> BootstrapToken list res" where
  "ListTokens Q now d tenantID = query Q ''ListTokens''
     (sort_key (\<lambda>t. - bt_CreatedAt t) (filter (\<lambda>t. bt_TenantID t = tenantID \<and> now < bt_ExpiresAt t) (t_tokens d)))"

section \<open>certs.sql.go\<close>

definition InsertCertificate :: "Queries \<Rightarrow> bytes \<Rightarrow> bytes \<Rightarrow> string \<Rightarrow> int \<Rightarrow> int \<Rightarrow> (db, Certificate) st" where
  "InsertCertificate Q tid hid serial nb na = writeS Q (\<lambda>d.
     let c = \<lparr>c_TenantID = tid, c_HostID = hid, c_Serial = serial, c_NotBefore = nb, c_NotAfter = na, c_Status = ''active'',
              c_RevokedAt = None, c_CreatedAt = db_now Q (t_seq d)\<rparr>
     in if serial \<in> c_Serial ` set (t_certificates d) \<or> hid \<notin> h_ID ` set (t_hosts d) then (Inl check_violation, d)
        else (Inr c, d\<lparr>t_certificates := t_certificates d @ [c]\<rparr>))"

definition GetActiveCertificateForHost :: "Queries \<Rightarrow> db \<Rightarrow> bytes \<Rightarrow> Certificate res" where
  "GetActiveCertificateForHost Q d hid = query_one Q ''GetActiveCertificateForHost''
     (sort_key (\<lambda>c. - c_CreatedAt c) (filter (\<lambda>c. c_HostID c = hid \<and> c_Status c = ''active'') (t_certificates d)))"

definition UpdateCertificateStatus :: "Queries \<Rightarrow> string \<Rightarrow> string \<Rightarrow> (db, unit) st" where
  "UpdateCertificateStatus Q serial st = writeS Q (\<lambda>d.
     if st \<notin> {''active'', ''rotated'', ''revoked'', ''expired''} \<and> serial \<in> c_Serial ` set (t_certificates d)
     then (Inl check_violation, d)
     else (Inr (), d\<lparr>t_certificates := update_rows (\<lambda>c. c_Serial c = serial)
       (\<lambda>c. c\<lparr>c_Status := st, c_RevokedAt := (if st = ''revoked'' then Some (db_now Q (t_seq d)) else None)\<rparr>) (t_certificates d)\<rparr>))"

section \<open>revocation.go\<close>

text \<open>The set of revoked serials, as a list.\<close>

definition RevocationChecker_Reload :: "Queries \<Rightarrow> int \<Rightarrow> db \<Rightarrow> string list \<Rightarrow> unit res \<times> string list" where
  "RevocationChecker_Reload Q now d revoked =
     (case query Q ''ListRevokedActiveCerts'' (map c_Serial (filter (\<lambda>c. c_Status c = ''revoked'' \<and> now < c_NotAfter c) (t_certificates d))) of
        Inl e \<Rightarrow> (Inl (Wrapf ''pki: reload revocation list'' e), revoked)
      | Inr fresh \<Rightarrow> (Inr (), fresh))"

definition Revoke :: "string \<Rightarrow> string list \<Rightarrow> string list" where
  "Revoke serial revoked = serial # revoked"

definition IsRevoked :: "string list \<Rightarrow> string \<Rightarrow> bool" where
  "IsRevoked revoked serial \<longleftrightarrow> serial \<in> set revoked"

fun VerifyPeerCertificate :: "x509 \<Rightarrow> string list \<Rightarrow> bytes list \<Rightarrow> unit res" where
  "VerifyPeerCertificate X revoked [] = Inr ()"
| "VerifyPeerCertificate X revoked (raw # raws) =
     bindR (wrapR ''pki: parse peer cert'' (x509_ParseCertificate X raw)) (\<lambda>c.
       if IsRevoked revoked (dec (SerialNumber c)) then Inl (Errorf ''pki: certificate is revoked'')
       else VerifyPeerCertificate X revoked raws)"

section \<open>ca.go\<close>

definition SignHostCSR :: "x509 \<Rightarrow> int \<Rightarrow> bytes \<Rightarrow> string \<Rightarrow> string \<Rightarrow> nat \<Rightarrow> int \<Rightarrow> bytes res" where
  "SignHostCSR X now csrDER hostID tenantID serial ttl =
     bindR (x509_ParseCertificateRequest X csrDER) (\<lambda>pub.
     bindR (x509_CheckSignature X csrDER) (\<lambda>_.
     bindR (x509_CreateCertificate X \<lparr>SerialNumber = serial, CommonName = hostID, OrganizationalUnit = [tenantID],
              NotBefore = now - 60000000000, NotAfter = now + ttl\<rparr> pub) (\<lambda>certDER.
       Inr (pem_EncodeToMemory X ''CERTIFICATE'' certDER))))"

section \<open>enrollment.go\<close>

record EnrollRequest =
  BootstrapTokenField :: string
  CsrPem :: string
  Hostname :: string

text \<open>
  The server, and what it has decided when it calls the cascade. \<open>es_signer_pub\<close> is the
  PEM encoding of the public bundle key, which may fail.
\<close>

record 'r EnrollmentServer =
  es_queries :: Queries
  es_caPEM :: bytes
  es_signer_pub :: "bytes res"
  es_cpEndpoint :: string
  es_certTTL :: int
  es_cascade :: "'r CascadeRecompiler option"

record issued =
  iss_CertPem :: bytes
  iss_HostId :: string
  iss_TenantId :: string
  iss_hostUUID :: bytes
  iss_tenantUUID :: bytes
  iss_NotAfter :: int

record EnrollResponse =
  er_CertPem :: bytes
  er_CaPem :: bytes
  er_BundleSigningPubPem :: bytes
  er_HostId :: string
  er_TenantId :: string
  er_CpEndpoint :: string
  er_CertNotAfter :: int

definition parsePEMBlock :: "x509 \<Rightarrow> bytes \<Rightarrow> string \<Rightarrow> bytes res" where
  "parsePEMBlock X pem expectedType =
     (case pem_Decode X pem of
        None \<Rightarrow> Inl (Errorf ''no PEM block found'')
      | Some (ty, bs) \<Rightarrow> if ty \<noteq> expectedType then Inl (Errorf ''unexpected PEM type'') else Inr bs)"

definition parseCertPEM :: "x509 \<Rightarrow> bytes \<Rightarrow> CertTemplate res" where
  "parseCertPEM X pem = (case pem_Decode X pem of None \<Rightarrow> Inl (Errorf ''no PEM block'') | Some (_, bs) \<Rightarrow> x509_ParseCertificate X bs)"

definition token_labels :: "Queries \<Rightarrow> BootstrapToken \<Rightarrow> (string \<rightharpoonup> string)" where
  "token_labels Q bt = (case bt_LabelTemplate bt of None \<Rightarrow> Map.empty | Some b \<Rightarrow> if b = [] then Map.empty else fst (json_Labels Q b))"

definition resolveHost :: "Queries \<Rightarrow> x509 \<Rightarrow> BootstrapToken \<Rightarrow> EnrollRequest \<Rightarrow> (db, string) st" where
  "resolveHost Q X bt req =
     bindS (wrapS ''codes.Internal: tenant uuid'' (liftS (uuid_Scan Q (bt_TenantID bt)))) (\<lambda>tid d.
       if bt_Type bt = ''single_host'' then
         (case bt_TargetHostID bt of
            None \<Rightarrow> (Inl (Errorf ''codes.Internal: single_host token missing target_host_id''), d)
          | Some target \<Rightarrow>
              (case bindR (wrapR ''codes.Internal: host uuid'' (uuid_Scan Q target)) (\<lambda>hid.
                      wrapR ''codes.NotFound: target host not found'' (GetHost Q d hid tid)) of
                 Inl e \<Rightarrow> (Inl e, d)
               | Inr h \<Rightarrow> if h_Hostname h \<noteq> Hostname req then (Inl (Errorf ''codes.PermissionDenied: hostname mismatch''), d)
                         else (Inr target, d)))
       else if bt_Type bt = ''bulk'' then
         (let labels = token_labels Q bt;
              labelsJSON = (if labels = Map.empty then map of_char ''{}'' else json_MarshalLabels X labels)
          in case wrapS ''codes.Internal: create host'' (UpsertBulkHost Q tid (Hostname req) labelsJSON ''enrolling'') d of
               (Inl e, d') \<Rightarrow> (Inl e, d')
             | (Inr h, d') \<Rightarrow> (Inr (pgUUIDToStr (h_ID h)), d'))
       else (Inl (Errorf ''codes.Internal: unknown token type''), d))"

text \<open>How \<open>Enroll\<close> reports a token error; \<open>err == ErrTokenNotFound\<close> compares the value itself.\<close>

definition token_status :: "goerr \<Rightarrow> goerr" where
  "token_status e = (if e = Sentinel ''ErrTokenNotFound'' then Errorf ''codes.Unauthenticated: invalid or expired token''
     else if e = Sentinel ''ErrTokenExhausted'' then Errorf ''codes.ResourceExhausted: token max uses reached''
     else Wrapf ''codes.Internal: token validation'' e)"

definition defaultCertTTL :: int where "defaultCertTTL = 365 * 24 * 3600 * 1000000000"

definition NewEnrollmentServer :: "Queries \<Rightarrow> bytes \<Rightarrow> bytes res \<Rightarrow> string \<Rightarrow> 'r CascadeRecompiler option \<Rightarrow> 'r EnrollmentServer" where
  "NewEnrollmentServer Q ca pub ep cascade = \<lparr>es_queries = Q, es_caPEM = ca, es_signer_pub = pub, es_cpEndpoint = ep,
     es_certTTL = defaultCertTTL, es_cascade = cascade\<rparr>"

text \<open>
  \<open>Enroll\<close> up to the call of the cascade, on the tables; then the cascade, whose error is
  only logged, and the audit row, which a goroutine writes and whose error is dropped.
  \<open>rnd\<close> is the random serial.
\<close>

definition enroll_db :: "'r EnrollmentServer \<Rightarrow> x509 \<Rightarrow> int \<Rightarrow> nat res \<Rightarrow> EnrollRequest \<Rightarrow> (db, issued) st" where
  "enroll_db E X now rnd req =
     (if BootstrapTokenField req = '''' then failS (Errorf ''codes.InvalidArgument: bootstrap_token required'')
      else if CsrPem req = '''' then failS (Errorf ''codes.InvalidArgument: csr_pem required'')
      else if Hostname req = '''' then failS (Errorf ''codes.InvalidArgument: hostname required'')
      else
        bindS (\<lambda>d. case ValidateAndConsume (es_queries E) X (BootstrapTokenField req) d of
                     (Inl e, d') \<Rightarrow> (Inl (token_status e), d') | (Inr t, d') \<Rightarrow> (Inr t, d')) (\<lambda>bt.
        bindS (resolveHost (es_queries E) X bt req) (\<lambda>hostID.
        bindS (wrapS ''codes.InvalidArgument: csr_pem'' (liftS (parsePEMBlock X (map of_char (CsrPem req)) ''CERTIFICATE REQUEST''))) (\<lambda>csrDER.
        bindS (wrapS ''codes.Internal: generate serial'' (liftS rnd)) (\<lambda>serial.
        bindS (wrapS ''codes.Internal: sign CSR'' (liftS (SignHostCSR X now csrDER hostID (bt_TenantID bt) serial (es_certTTL E)))) (\<lambda>certPEM.
        bindS (wrapS ''codes.Internal: parse signed cert'' (liftS (parseCertPEM X certPEM))) (\<lambda>cert.
        bindS (wrapS ''codes.Internal: tenant uuid'' (liftS (uuid_Scan (es_queries E) (bt_TenantID bt)))) (\<lambda>tid.
        bindS (wrapS ''codes.Internal: host uuid'' (liftS (uuid_Scan (es_queries E) hostID))) (\<lambda>hid.
        bindS (wrapS ''codes.Internal: save certificate'' (InsertCertificate (es_queries E) tid hid (dec serial) (NotBefore cert) (NotAfter cert))) (\<lambda>_.
        bindS (wrapS ''codes.Internal: update host status'' (UpdateHostStatus (es_queries E) hid tid ''active'')) (\<lambda>_.
          retS \<lparr>iss_CertPem = certPEM, iss_HostId = hostID, iss_TenantId = bt_TenantID bt, iss_hostUUID = hid, iss_tenantUUID = tid,
                iss_NotAfter = NotAfter cert\<rparr>)))))))))))"

definition enroll_cascade :: "'r EnrollmentServer \<Rightarrow> issued \<Rightarrow> 'r CP \<Rightarrow> 'r CP" where
  "enroll_cascade E i s =
     (let s1 = (case es_cascade E of None \<Rightarrow> s | Some cr \<Rightarrow> snd (OnHostEnrolled cr (iss_TenantId i) (iss_HostId i) s))
      in s1\<lparr>store := snd (InsertAuditLog (es_queries E) (iss_tenantUUID i) ''agent'' None ''agent.enrolled'' ''host'' (Some (iss_hostUUID i)) None None (store s1))\<rparr>)"

definition Enroll ::
  "'r EnrollmentServer \<Rightarrow> x509 \<Rightarrow> int \<Rightarrow> nat res \<Rightarrow> EnrollRequest \<Rightarrow> ('r CP, EnrollResponse) st" where
  "Enroll E X now rnd req s =
     (case enroll_db E X now rnd req (store s) of
        (Inl e, d) \<Rightarrow> (Inl e, s\<lparr>store := d\<rparr>)
      | (Inr i, d) \<Rightarrow>
          (bindR (wrapR ''codes.Internal: marshal bundle pub key'' (es_signer_pub E)) (\<lambda>pub. Inr \<lparr>er_CertPem = iss_CertPem i, er_CaPem = es_caPEM E, er_BundleSigningPubPem = pub, er_HostId = iss_HostId i,
                        er_TenantId = iss_TenantId i, er_CpEndpoint = es_cpEndpoint E, er_CertNotAfter = iss_NotAfter i\<rparr>),
           enroll_cascade E i (s\<lparr>store := d\<rparr>)))"

section \<open>agentsrv/auth.go\<close>

record PeerIdentity =
  HostID :: string
  TenantID :: string

definition extractPeerIdentity :: "CertTemplate list \<Rightarrow> PeerIdentity res" where
  "extractPeerIdentity certs =
     (case certs of
        [] \<Rightarrow> Inl (Errorf ''agentsrv: no peer certificates'')
      | cert # _ \<Rightarrow>
          if CommonName cert = '''' then Inl (Errorf ''agentsrv: cert CN (host_id) is empty'')
          else if OrganizationalUnit cert = [] \<or> hd (OrganizationalUnit cert) = '''' then Inl (Errorf ''agentsrv: cert OU (tenant_id) is empty'')
          else Inr \<lparr>HostID = CommonName cert, TenantID = hd (OrganizationalUnit cert)\<rparr>)"

section \<open>Tokens are not used more often than allowed\<close>

text \<open>
  The operations on tokens, in any order; the result of a use is the consumed row.
  \<open>TokenEnv\<close> is any other statement of the program, which leaves the token table alone.
\<close>

datatype token_op =
    TokenUse string
  | TokenSingle "bytes res" int string string int int
  | TokenBulk "bytes res" int string "string \<rightharpoonup> string" int int
  | TokenDelete string
  | TokenEnv "db \<Rightarrow> db"

fun token_step :: "Queries \<Rightarrow> x509 \<Rightarrow> token_op \<Rightarrow> db \<Rightarrow> BootstrapToken option \<times> db" where
  "token_step Q X (TokenUse plain) d = (case ValidateAndConsume Q X plain d of (Inr t, d') \<Rightarrow> (Some t, d') | (Inl _, d') \<Rightarrow> (None, d'))"
| "token_step Q X (TokenSingle rnd now tn h ttl m) d = (None, snd (CreateSingleHostToken Q X rnd now tn h ttl m d))"
| "token_step Q X (TokenBulk rnd now tn lt ttl m) d = (None, snd (CreateBulkToken Q X rnd now tn lt ttl m d))"
| "token_step Q X (TokenDelete i) d = (None, snd (DeleteToken Q i d))"
| "token_step Q X (TokenEnv f) d = (None, (f d)\<lparr>t_tokens := t_tokens d\<rparr>)"

fun token_run :: "Queries \<Rightarrow> x509 \<Rightarrow> token_op list \<Rightarrow> db \<Rightarrow> BootstrapToken list \<times> db" where
  "token_run Q X [] d = ([], d)"
| "token_run Q X (a # ops) d = (case token_step Q X a d of (r, d1) \<Rightarrow>
     case token_run Q X ops d1 of (rs, d2) \<Rightarrow> ((case r of None \<Rightarrow> rs | Some t \<Rightarrow> t # rs), d2))"

text \<open>How many uses the row with id \<open>i\<close> has left, if it has a bound; there is at most one such row.\<close>

definition token_rows :: "string \<Rightarrow> db \<Rightarrow> BootstrapToken list" where
  "token_rows i d = filter (\<lambda>t. bt_ID t = i) (t_tokens d)"

definition uses_left :: "BootstrapToken list \<Rightarrow> nat" where
  "uses_left ts = (case ts of [] \<Rightarrow> 0 | t # _ \<Rightarrow> nat (sint (bt_MaxUses t) - sint (bt_UsesCount t)))"

definition bounded_rows :: "BootstrapToken list \<Rightarrow> bool" where
  "bounded_rows ts \<longleftrightarrow> length ts \<le> 1 \<and> list_all (\<lambda>t. bt_MaxUses t \<noteq> 0) ts"

lemma insert_token_other:
  assumes "insert_token Q row m d = (r, d')" and "\<And>n. pgUUIDToStr (db_uuid Q n) \<noteq> i" and "\<And>j t. bt_ID (row j t) = j"
  shows "token_rows i d' = token_rows i d"
  using assms by (auto simp: insert_token_def writeS_def token_rows_def Let_def split: option.splits if_splits)

lemma sint_inc: "a <s (b :: i32) \<Longrightarrow> sint (a + 1) = sint a + 1"
  using sint_ge [of a] sint_less [of b]
  by (simp add: word_sless_alt sint_word_ariths signed_take_bit_int_eq_self)

lemma filter_update_rows:
  "(\<And>t. P (f t) = P t) \<Longrightarrow> filter P (update_rows U f ts) = update_rows U f (filter P ts)"
  by (induction ts) (auto simp: update_rows_def)

lemma uses_left_use:
  assumes "usable hash now t" and "bt_MaxUses t \<noteq> 0"
  shows "Suc (uses_left [use_token t]) = uses_left [t]"
proof -
  have "bt_UsesCount t <s bt_MaxUses t" using assms by (simp add: usable_def)
  then show ?thesis by (simp add: uses_left_def use_token_def sint_inc word_sless_alt nat_diff_distrib')
qed

lemma consume_row_left:
  assumes "bounded_rows (token_rows i d)" and "consume_row Q hash d = (r, d')"
  shows "bounded_rows (token_rows i d') \<and>
    uses_left (token_rows i d') + (case r of Inr t \<Rightarrow> if bt_ID t = i then 1 else 0 | Inl _ \<Rightarrow> 0) \<le> uses_left (token_rows i d)"
proof (cases "\<exists>t. r = Inr t")
  case False
  then have "t_tokens d' = t_tokens d" using assms(2)
    by (auto simp: consume_row_def writeS_def Let_def split: option.splits if_splits list.splits)
  then show ?thesis using False assms(1) by (cases r) (simp_all add: token_rows_def)
next
  case True
  then obtain t now where r: "r = Inr (use_token t)" and u: "usable hash now t" "t \<in> set (t_tokens d)"
    and d': "t_tokens d' = update_rows (usable hash now) use_token (t_tokens d)"
    using assms(2) by (auto simp: consume_row_def writeS_def Let_def dest!: filter_eq_ConsD split: option.splits if_splits list.splits)
  have rows: "token_rows i d' = update_rows (usable hash now) use_token (token_rows i d)"
    unfolding token_rows_def d' by (rule filter_update_rows) (simp add: use_token_def)
  show ?thesis
  proof (cases "token_rows i d")
    case Nil
    then have "bt_ID t \<noteq> i" using u(2) by (auto simp: token_rows_def filter_empty_conv)
    then show ?thesis using Nil rows r assms(1) by (simp add: update_rows_def use_token_def)
  next
    case (Cons x xs)
    then have x: "token_rows i d = [x]" "bt_MaxUses x \<noteq> 0" using assms(1) by (auto simp: bounded_rows_def)
    have t: "t = x" if "bt_ID t = i"
    proof -
      have "t \<in> set (token_rows i d)" using that u(2) by (simp add: token_rows_def)
      then show ?thesis using x(1) by simp
    qed
    show ?thesis
    proof (cases "usable hash now x")
      case True
      then have "token_rows i d' = [use_token x]" using rows x(1) by (simp add: update_rows_def)
      moreover have "Suc (uses_left [use_token x]) = uses_left [x]" using True x(2) by (rule uses_left_use)
      ultimately show ?thesis using r x by (simp add: bounded_rows_def use_token_def)
    next
      case False
      then have "token_rows i d' = [x]" "bt_ID t \<noteq> i" using rows x(1) t u(1) by (auto simp: update_rows_def)
      then show ?thesis using r x by (simp add: bounded_rows_def use_token_def)
    qed
  qed
qed

lemma token_step_left:
  assumes "bounded_rows (token_rows i d)" and "\<And>n. pgUUIDToStr (db_uuid Q n) \<noteq> i" and "token_step Q X a d = (r, d')"
  shows "bounded_rows (token_rows i d') \<and>
    uses_left (token_rows i d') + (case r of Some t \<Rightarrow> if bt_ID t = i then 1 else 0 | None \<Rightarrow> 0) \<le> uses_left (token_rows i d)"
proof (cases a)
  case (TokenUse plain)
  obtain q d1 where c: "consume_row Q (hashToken X plain) d = (q, d1)" by fastforce
  note l = consume_row_left [OF assms(1) c]
  show ?thesis using l assms(3) TokenUse c
    by (cases q) (auto simp: ValidateAndConsume_def Let_def split: if_splits)
next
  case (TokenDelete j)
  have "token_rows i d' = token_rows i d \<or> token_rows i d' = []"
  proof (cases "j = i")
    case True
    then show ?thesis using assms(3) TokenDelete
      by (auto simp: DeleteToken_def writeS_def token_rows_def filter_empty_conv Let_def split: option.splits)
  next
    case False
    then have "filter (\<lambda>t. bt_ID t \<noteq> j \<and> bt_ID t = i) ts = filter (\<lambda>t. bt_ID t = i) ts" for ts
      by (intro filter_cong) auto
    then show ?thesis using assms(3) TokenDelete
      by (auto simp: DeleteToken_def writeS_def token_rows_def Let_def split: option.splits)
  qed
  then show ?thesis using assms TokenDelete by (auto simp: bounded_rows_def uses_left_def)
next
  case (TokenSingle rnd now tn h ttl m)
  then have "token_rows i d' = token_rows i d" using assms(2,3)
    by (auto simp: CreateSingleHostToken_def bindS_def wrapS_def split: sum.splits prod.splits elim!: insert_token_other)
  then show ?thesis using assms TokenSingle by auto
next
  case (TokenBulk rnd now tn lt ttl m)
  then have "token_rows i d' = token_rows i d" using assms(2,3)
    by (auto simp: CreateBulkToken_def bindS_def wrapS_def split: sum.splits prod.splits elim!: insert_token_other)
  then show ?thesis using assms TokenBulk by auto
next
  case (TokenEnv f)
  then show ?thesis using assms by (auto simp: token_rows_def)
qed

text \<open>
  C22. A bootstrap token with a bound is never used more often than its bound: in any
  sequence of uses, creations and deletions of tokens, interleaved with any other
  statements, and whatever statements fail, the number of uses that returned the row is at
  most its maximum less the uses recorded at the start. The ids that the database generates
  are assumed new.
\<close>

theorem token_uses_bounded:
  assumes "token_rows i d = [t]" and "bt_MaxUses t \<noteq> 0" and "\<And>n. pgUUIDToStr (db_uuid Q n) \<noteq> i"
  shows "length (filter (\<lambda>u. bt_ID u = i) (fst (token_run Q X ops d))) \<le> nat (sint (bt_MaxUses t) - sint (bt_UsesCount t))"
proof -
  have "length (filter (\<lambda>u. bt_ID u = i) (fst (token_run Q X ops d))) \<le> uses_left (token_rows i d)"
    if "bounded_rows (token_rows i d)" for d
    using that
  proof (induction ops arbitrary: d)
    case (Cons a ops)
    obtain r d1 where st: "token_step Q X a d = (r, d1)" by fastforce
    note l = token_step_left [OF Cons.prems assms(3) st]
    then show ?case using Cons.IH [of d1] st by (auto split: prod.splits option.splits if_splits)
  qed simp
  from this [of d] show ?thesis using assms(1,2) by (simp add: bounded_rows_def uses_left_def)
qed

text \<open>A PEM codec and a certificate authority that issues one certificate.\<close>

definition ex_cert :: CertTemplate where
  "ex_cert = \<lparr>SerialNumber = 5, CommonName = pgUUIDToStr (ex_id 1), OrganizationalUnit = [pgUUIDToStr (ex_id 9)],
     NotBefore = 100 - 60000000000, NotAfter = 100 + defaultCertTTL\<rparr>"

definition ex_X :: x509 where
  "ex_X = \<lparr>pem_Decode = (\<lambda>bs. let n = length (takeWhile (\<lambda>b. b = 45) bs); r = drop (Suc n) bs in
        if n < length bs then Some (map (\<lambda>b. char_of (unat b)) (take n r), drop n r) else None),
     pem_EncodeToMemory = (\<lambda>ty bs. replicate (length ty) 45 @ [0] @ map of_char ty @ bs),
     x509_ParseCertificate = (\<lambda>der. if der = [48] then Inr ex_cert else Inl (Errorf ''x509: malformed certificate'')),
     x509_ParseCertificateRequest = Inr, x509_CheckSignature = (\<lambda>_. Inr ()),
     x509_CreateCertificate = (\<lambda>t _. if t = ex_cert then Inr [48] else Inl (Errorf ''x509'')),
     sha256_Sum = id, base64_RawURL = (\<lambda>bs. ''t''), json_MarshalLabels = (\<lambda>_. [1])\<rparr>"

definition ex_token :: BootstrapToken where
  "ex_token = \<lparr>bt_ID = ''token-1'', bt_TenantID = pgUUIDToStr (ex_id 9), bt_Type = ''single_host'', bt_TokenHash = hexEncode [116],
     bt_TargetHostID = Some (pgUUIDToStr (ex_id 1)), bt_LabelTemplate = None, bt_MaxUses = 1, bt_UsesCount = 0, bt_ExpiresAt = 1000, bt_CreatedAt = 0\<rparr>"

theorem token_uses_bounded_witness:
  "length (filter (\<lambda>u. bt_ID u = ''token-1'')
     (fst (token_run ex_Q ex_X [TokenUse ''t'', TokenUse ''t''] (empty_db\<lparr>t_tokens := [ex_token]\<rparr>)))) \<le> 1
   \<and> fst (token_run ex_Q ex_X [TokenUse ''t'', TokenUse ''t''] (empty_db\<lparr>t_tokens := [ex_token]\<rparr>)) \<noteq> []"
proof -
  have "pgUUIDToStr b \<noteq> ''token-1''" for b
    by (auto simp: pgUUIDToStr_def dest!: arg_cong [of _ _ "\<lambda>s. length (filter (\<lambda>c. c = CHR ''-'') s)"])
  then show ?thesis
    using token_uses_bounded [of "''token-1''" "empty_db\<lparr>t_tokens := [ex_token]\<rparr>" ex_token ex_Q ex_X "[TokenUse ''t'', TokenUse ''t'']"]
    by (simp add: ex_token_def token_rows_def ValidateAndConsume_def consume_row_def writeS_def usable_def use_token_def
        update_rows_def ex_Q_def ex_X_def hashToken_def empty_db_def int4_max_def token_exists_def word_sless_alt Let_def)
qed

section \<open>What an enrolled host can prove\<close>

lemma recompile_hosts_store:
  assumes "recompile_hosts cr tenantID hostIDs s = (es, s')"
  shows "bundle_same (store s) (store s') \<and> t_certificates (store s') = t_certificates (store s)"
  using assms
proof (induction hostIDs arbitrary: s es)
  case (Cons x xs)
  define s1 where "s1 = s\<lparr>store := bump_desired (cr_queries cr) tenantID x (store s)\<rparr>"
  have b: "bundle_same (store s) (store s1)" by (simp add: s1_def bump_desired_same)
  have c: "t_certificates (store s1) = t_certificates (store s)"
    by (auto simp: s1_def bump_desired_def IncrementHostDesiredGeneration_def writeS_def exec_hosts_def Let_def
        split: sum.splits option.splits)
  obtain s2 es2 where "recompile_hosts cr tenantID xs s2 = (es2, s')" "store s2 = store s1"
    using Cons.prems by (auto simp: s1_def [symmetric] Let_def split: sum.splits prod.splits option.splits)
  then show ?case using Cons.IH b c by (metis bundle_same_trans)
qed simp

lemma OnHostEnrolled_store:
  "bundle_same (store s) (store (snd (OnHostEnrolled cr t h s))) \<and>
   t_certificates (store (snd (OnHostEnrolled cr t h s))) = t_certificates (store s)"
proof -
  obtain es s' where r: "recompile_hosts cr t [h] s = (es, s')" by fastforce
  then have "snd (OnHostEnrolled cr t h s) = s'"
    by (simp add: OnHostEnrolled_def recompileAndDispatch_def split: list.splits)
  then show ?thesis using recompile_hosts_store [OF r] by simp
qed

lemma SignHostCSR_cert:
  assumes "x509_ok X" and "SignHostCSR X now csr hostID tenantID serial ttl = Inr pem"
  shows "\<exists>cert. parseCertPEM X pem = Inr cert \<and> SerialNumber cert = serial \<and> CommonName cert = hostID
    \<and> OrganizationalUnit cert = [tenantID]"
proof -
  from assms(2) obtain pub der where der: "x509_CreateCertificate X \<lparr>SerialNumber = serial, CommonName = hostID,
      OrganizationalUnit = [tenantID], NotBefore = now - 60000000000, NotAfter = now + ttl\<rparr> pub = Inr der"
    and pem: "pem = pem_EncodeToMemory X ''CERTIFICATE'' der" by (auto simp: SignHostCSR_def bindR_eq_Inr)
  then have "\<exists>cert. x509_ParseCertificate X der = Inr cert \<and> SerialNumber cert = serial \<and> CommonName cert = hostID
      \<and> OrganizationalUnit cert = [tenantID]"
    using assms(1) unfolding x509_ok_def by (metis CertTemplate.select_convs(1-3))
  then show ?thesis using assms(1) by (simp add: pem parseCertPEM_def x509_ok_def pem_ok_types)
qed

lemma UpdateHostStatus_active:
  assumes "UpdateHostStatus Q hid tid st d = (Inr h, d')"
  shows "(\<exists>h \<in> set (t_hosts d'). h_ID h = hid \<and> h_TenantID h = tid \<and> h_Status h = st) \<and> t_certificates d' = t_certificates d"
proof -
  from assms have "update_host hid tid (\<lambda>h. h\<lparr>h_Status := st\<rparr>) (d\<lparr>t_seq := Suc (t_seq d)\<rparr>) = (Inr h, d')"
    by (auto simp: UpdateHostStatus_def writeS_def Let_def split: option.splits if_splits)
  then obtain h0 where "host_is hid tid h0" "h = h0\<lparr>h_Status := st\<rparr>" "h \<in> set (t_hosts d')"
      "d' = (d\<lparr>t_seq := Suc (t_seq d)\<rparr>)\<lparr>t_hosts := update_rows (host_is hid tid) (\<lambda>h. h\<lparr>h_Status := st\<rparr>) (t_hosts (d\<lparr>t_seq := Suc (t_seq d)\<rparr>))\<rparr>"
    by (rule update_host_Inr) auto
  then show ?thesis by (intro conjI bexI [of _ h]) (simp_all add: host_is_def)
qed

lemma resolveHost_single:
  assumes "resolveHost Q X bt req d = (Inr hostID, d')" and "bt_Type bt = ''single_host''"
  shows "bt_TargetHostID bt = Some hostID"
proof (cases "bt_TargetHostID bt")
  case None
  then show ?thesis using assms by (auto simp: resolveHost_def bindS_Inr wrapS_Inr)
next
  case (Some target)
  from assms obtain tid where "(case bindR (wrapR ''codes.Internal: host uuid'' (uuid_Scan Q target)) (\<lambda>hid.
      wrapR ''codes.NotFound: target host not found'' (GetHost Q d hid tid)) of
        Inl e \<Rightarrow> (Inl e, d)
      | Inr h \<Rightarrow> if h_Hostname h \<noteq> Hostname req then (Inl (Errorf ''codes.PermissionDenied: hostname mismatch''), d)
                else (Inr target, d)) = (Inr hostID, d')"
    by (auto simp: resolveHost_def bindS_Inr wrapS_Inr Some)
  then show ?thesis using Some by (auto split: sum.splits if_splits)
qed

lemma enroll_db_Inr:
  assumes "enroll_db E X now rnd req d = (Inr i, d')"
  obtains bt d1 d2 d3 csr serial cert c h where
    "ValidateAndConsume (es_queries E) X (BootstrapTokenField req) d = (Inr bt, d1)"
    "resolveHost (es_queries E) X bt req d1 = (Inr (iss_HostId i), d2)"
    "rnd = Inr serial" "SignHostCSR X now csr (iss_HostId i) (bt_TenantID bt) serial (es_certTTL E) = Inr (iss_CertPem i)"
    "parseCertPEM X (iss_CertPem i) = Inr cert"
    "uuid_Scan (es_queries E) (bt_TenantID bt) = Inr (iss_tenantUUID i)" "uuid_Scan (es_queries E) (iss_HostId i) = Inr (iss_hostUUID i)"
    "InsertCertificate (es_queries E) (iss_tenantUUID i) (iss_hostUUID i) (dec serial) (NotBefore cert) (NotAfter cert) d2 = (Inr c, d3)"
    "UpdateHostStatus (es_queries E) (iss_hostUUID i) (iss_tenantUUID i) ''active'' d3 = (Inr h, d')" "iss_TenantId i = bt_TenantID bt"
  using assms unfolding enroll_db_def
  by (auto simp: st_Inr split: if_splits prod.splits sum.splits)

lemma InsertAuditLog_store:
  "snd (InsertAuditLog Q t aty aid ac oty oid b a d) = d\<lparr>t_seq := Suc (t_seq d), t_audit := t_audit (snd (InsertAuditLog Q t aty aid ac oty oid b a d))\<rparr>"
  by (auto simp: InsertAuditLog_def writeS_def Let_def split: option.splits sum.splits prod.splits)

lemma agent_audit_refused: "t_audit (snd (InsertAuditLog Q t ''agent'' aid ac oty oid b a d)) = t_audit d"
  by (auto simp: InsertAuditLog_def writeS_def Let_def split: option.splits sum.splits prod.splits)

lemma enroll_cascade_store:
  "hosts_same (store s) (store (enroll_cascade E i s)) \<and> t_certificates (store (enroll_cascade E i s)) = t_certificates (store s)"
proof -
  define s1 where "s1 = (case es_cascade E of None \<Rightarrow> s | Some cr \<Rightarrow> snd (OnHostEnrolled cr (iss_TenantId i) (iss_HostId i) s))"
  have s1: "hosts_same (store s) (store s1)" "t_certificates (store s1) = t_certificates (store s)"
    using OnHostEnrolled_store [of s] by (auto simp: s1_def bundle_same_def compile_same_def hosts_same_refl split: option.splits)
  have "\<exists>n a. store (enroll_cascade E i s) = (store s1)\<lparr>t_seq := n, t_audit := a\<rparr>"
    unfolding enroll_cascade_def Let_def s1_def [symmetric] by (subst InsertAuditLog_store) (simp, blast)
  then show ?thesis using s1 by (auto simp: hosts_same_def)
qed

lemma Enroll_identity:
  assumes "x509_ok X" and "Enroll E X now rnd req s = (Inr resp, s')"
    and "\<And>u. uuid_Scan (es_queries E) '''' \<noteq> Inr u"
  shows "\<exists>cert bt d1 tid hid.
      parseCertPEM X (er_CertPem resp) = Inr cert
    \<and> extractPeerIdentity [cert] = Inr \<lparr>HostID = er_HostId resp, TenantID = er_TenantId resp\<rparr>
    \<and> ValidateAndConsume (es_queries E) X (BootstrapTokenField req) (store s) = (Inr bt, d1)
    \<and> er_TenantId resp = bt_TenantID bt
    \<and> (bt_Type bt = ''single_host'' \<longrightarrow> bt_TargetHostID bt = Some (er_HostId resp))
    \<and> uuid_Scan (es_queries E) (er_HostId resp) = Inr hid \<and> uuid_Scan (es_queries E) (er_TenantId resp) = Inr tid
    \<and> (\<exists>c \<in> set (t_certificates (store s')). c_Serial c = dec (SerialNumber cert) \<and> c_HostID c = hid \<and> c_Status c = ''active'')
    \<and> (\<exists>h \<in> set (t_hosts (store s')). h_ID h = hid \<and> h_TenantID h = tid \<and> h_Status h = ''active'')"
proof -
  let ?Q = "es_queries E"
  from assms(2) obtain i d where e: "enroll_db E X now rnd req (store s) = (Inr i, d)" and s': "s' = enroll_cascade E i (s\<lparr>store := d\<rparr>)"
    and resp: "er_HostId resp = iss_HostId i" "er_TenantId resp = iss_TenantId i" "er_CertPem resp = iss_CertPem i"
    by (auto simp: Enroll_def bindR_eq_Inr split: prod.splits sum.splits)
  from e obtain bt d1 d2 d3 csr serial cert c h where
    v: "ValidateAndConsume ?Q X (BootstrapTokenField req) (store s) = (Inr bt, d1)" and
    r: "resolveHost ?Q X bt req d1 = (Inr (iss_HostId i), d2)" and
    rs: "rnd = Inr serial" and
    sg: "SignHostCSR X now csr (iss_HostId i) (bt_TenantID bt) serial (es_certTTL E) = Inr (iss_CertPem i)" and
    pc: "parseCertPEM X (iss_CertPem i) = Inr cert" and
    u: "uuid_Scan ?Q (bt_TenantID bt) = Inr (iss_tenantUUID i)" "uuid_Scan ?Q (iss_HostId i) = Inr (iss_hostUUID i)" and
    ic: "InsertCertificate ?Q (iss_tenantUUID i) (iss_hostUUID i) (dec serial) (NotBefore cert) (NotAfter cert) d2 = (Inr c, d3)" and
    us: "UpdateHostStatus ?Q (iss_hostUUID i) (iss_tenantUUID i) ''active'' d3 = (Inr h, d)" and t: "iss_TenantId i = bt_TenantID bt"
    by (rule enroll_db_Inr)
  have cert: "SerialNumber cert = serial" "CommonName cert = iss_HostId i" "OrganizationalUnit cert = [bt_TenantID bt]"
    using SignHostCSR_cert [OF assms(1) sg] pc by auto
  have ne: "iss_HostId i \<noteq> ''''" "bt_TenantID bt \<noteq> ''''" using u assms(3) by metis+
  have single: "bt_TargetHostID bt = Some (iss_HostId i)" if "bt_Type bt = ''single_host''"
    using r that by (rule resolveHost_single)
  have "\<exists>c \<in> set (t_certificates d3). c_Serial c = dec serial \<and> c_HostID c = iss_hostUUID i \<and> c_Status c = ''active''"
    using ic by (auto simp: InsertCertificate_def writeS_def Let_def split: option.splits if_splits)
  moreover note st = UpdateHostStatus_active [OF us]
  moreover have same: "hosts_same d (store s')" "t_certificates (store s') = t_certificates d"
    using enroll_cascade_store [of "s\<lparr>store := d\<rparr>"] by (simp_all add: s')
  moreover have "\<exists>h \<in> set (t_hosts (store s')). h_ID h = iss_hostUUID i \<and> h_TenantID h = iss_tenantUUID i \<and> h_Status h = ''active''"
    using st hosts_same_ex [OF same(1)] unfolding host_same_def by metis
  ultimately show ?thesis using cert pc v u t single ne resp
    by (intro exI [of _ cert] exI [of _ bt] exI [of _ d1] exI [of _ "iss_tenantUUID i"] exI [of _ "iss_hostUUID i"])
      (simp add: extractPeerIdentity_def)
qed

lemma char_of_unat_of_char [simp]: "char_of (unat (of_char c :: u8)) = c"
proof -
  have "of_char c = (of_nat (of_char c) :: u8)" by (simp only: of_nat_of_char)
  then have "unat (of_char c :: u8) = of_char c mod 2 ^ 8" by (simp only: unat_of_nat len_of_numeral_defs) simp
  then show ?thesis by simp
qed

lemma ex_x509_ok: "x509_ok ex_X"
proof -
  have t: "takeWhile (\<lambda>b. b = (45::u8)) (replicate n 45 @ 0 # xs) = replicate n 45" for n xs
    by (induction n) auto
  show ?thesis by (auto simp: x509_ok_def pem_ok_def ex_X_def t Let_def comp_def split: if_splits)
qed

definition ex_req :: EnrollRequest where
  "ex_req = \<lparr>BootstrapTokenField = ''t'', CsrPem = replicate 19 CHR ''-'' @ [CHR 0x00] @ ''CERTIFICATE REQUEST'' @ ''k'', Hostname = ''web''\<rparr>"

definition ex_cr :: "'r CascadeRecompiler" where
  "ex_cr = \<lparr>cr_queries = ex_Q, cr_builder = \<lparr>bb_crypto = ex_crypto, bb_signer = None, bb_now = 9\<rparr>,
     cr_dispatcher = None, cr_iter = id\<rparr>"

definition ex_es :: "'r EnrollmentServer" where
  "ex_es = NewEnrollmentServer ex_Q [1] (Inr [2]) '''' (Some ex_cr)"

lemma ex_es [simp]: "es_queries ex_es = ex_Q" "es_certTTL ex_es = defaultCertTTL" "es_signer_pub ex_es = Inr [2]"
  by (simp_all add: ex_es_def NewEnrollmentServer_def)

abbreviation ex_enroll_db :: db where
  "ex_enroll_db \<equiv> ex_db\<lparr>t_tokens := [ex_token]\<rparr>"

lemma ex_consume:
  "ValidateAndConsume ex_Q ex_X ''t'' ex_enroll_db = (Inr (use_token ex_token), ex_db\<lparr>t_tokens := [use_token ex_token], t_seq := Suc 0\<rparr>)"
  by (simp add: ex_token_def ValidateAndConsume_def consume_row_def writeS_def usable_def use_token_def ex_db_def
        update_rows_def ex_Q_def ex_X_def hashToken_def empty_db_def int4_max_def token_exists_def word_sless_alt Let_def)

lemma ex_csr: "parsePEMBlock ex_X (map of_char (CsrPem ex_req)) ''CERTIFICATE REQUEST'' = Inr [107]"
proof -
  have "map of_char (CsrPem ex_req) = pem_EncodeToMemory ex_X ''CERTIFICATE REQUEST'' [107]"
    by (simp add: ex_req_def ex_X_def numeral_eq_Suc)
  then show ?thesis using ex_x509_ok by (simp add: parsePEMBlock_def x509_ok_def pem_ok_types)
qed

lemma ex_uuid: "uuid_Scan ex_Q (pgUUIDToStr (ex_id n)) = Inr (ex_id n)"
  by (rule ex_scan) simp

lemma ex_resolveHost:
  "resolveHost ex_Q ex_X (use_token ex_token) ex_req (ex_db\<lparr>t_tokens := [use_token ex_token], t_seq := Suc 0\<rparr>) =
     (Inr (pgUUIDToStr (ex_id 1)), ex_db\<lparr>t_tokens := [use_token ex_token], t_seq := Suc 0\<rparr>)"
proof -
  have "GetHost ex_Q (ex_db\<lparr>t_tokens := [use_token ex_token], t_seq := Suc 0\<rparr>) (ex_id 1) (ex_id 9) = Inr ex_host"
    using ex_store(1) by (simp add: GetHost_def)
  moreover have "bt_TenantID (use_token ex_token) = pgUUIDToStr (ex_id 9)" "bt_Type (use_token ex_token) = ''single_host''"
    "bt_TargetHostID (use_token ex_token) = Some (pgUUIDToStr (ex_id 1))" "h_Hostname ex_host = Hostname ex_req"
    by (simp_all add: use_token_def ex_token_def ex_db_def ex_req_def)
  ultimately show ?thesis by (simp add: resolveHost_def bindS_def wrapS_def liftS_def ex_uuid)
qed

lemma ex_SignHostCSR:
  "SignHostCSR ex_X 100 [107] (pgUUIDToStr (ex_id 1)) (pgUUIDToStr (ex_id 9)) 5 defaultCertTTL = Inr (pem_EncodeToMemory ex_X ''CERTIFICATE'' [48])"
  by (simp add: SignHostCSR_def ex_X_def ex_cert_def)

lemma ex_parseCertPEM: "parseCertPEM ex_X (pem_EncodeToMemory ex_X ''CERTIFICATE'' [48]) = Inr ex_cert"
proof -
  have "x509_ParseCertificate ex_X [48] = Inr ex_cert" by (simp add: ex_X_def)
  then show ?thesis using ex_x509_ok by (simp add: parseCertPEM_def x509_ok_def pem_ok_types)
qed

lemma ex_enroll:
  "\<exists>resp d. enroll_db ex_es ex_X 100 (Inr 5) ex_req ex_enroll_db = (Inr resp, d) \<and> iss_HostId resp = pgUUIDToStr (ex_id 1)"
proof -
  have nz: "BootstrapTokenField ex_req = ''t''" "CsrPem ex_req \<noteq> ''''" "Hostname ex_req \<noteq> ''''"
      "bt_TenantID (use_token ex_token) = pgUUIDToStr (ex_id 9)"
    by (simp_all add: ex_req_def use_token_def ex_token_def)
  let ?d = "ex_db\<lparr>t_tokens := [use_token ex_token], t_seq := Suc 0\<rparr>"
  obtain c d3 where ic: "InsertCertificate ex_Q (ex_id 9) (ex_id 1) (dec 5) (NotBefore ex_cert) (NotAfter ex_cert) ?d = (Inr c, d3)"
      and d3: "t_hosts d3 = t_hosts ex_db"
    by (simp add: InsertCertificate_def writeS_def ex_Q_def ex_db_def empty_db_def Let_def)
  obtain h d4 where us: "UpdateHostStatus ex_Q (ex_id 1) (ex_id 9) ''active'' d3 = (Inr h, d4)"
    by (simp add: UpdateHostStatus_def host_status_ok_def update_host_def update_rows_def host_is_def writeS_def ex_Q_def d3 Let_def ex_db_def)
  show ?thesis
    by (simp add: enroll_db_def nz ex_consume ex_resolveHost ex_csr ex_SignHostCSR ex_parseCertPEM ex_uuid ic us
        bindS_def wrapS_def liftS_def retS_def)
qed

lemma ex_Enroll:
  "\<exists>resp s'. Enroll ex_es ex_X 100 (Inr 5) ex_req \<lparr>store = ex_enroll_db, registry = ()\<rparr> = (Inr resp, s')
     \<and> er_HostId resp = pgUUIDToStr (ex_id 1)"
proof -
  obtain i d where e: "enroll_db (ex_es :: unit EnrollmentServer) ex_X 100 (Inr 5) ex_req ex_enroll_db = (Inr i, d)"
    and h0: "iss_HostId i = pgUUIDToStr (ex_id 1)" using ex_enroll by blast
  then show ?thesis by (force simp: Enroll_def)
qed

end
