(* ===== verification/Qf_Typing.thy ===== *)
theory Qf_Typing
  imports Qf_Pki
begin

text \<open>
  What the constraints of cp/migrations keep true of the tables: enumerated columns hold
  their values, references point to rows, names are unique and counters do not wrap. Every
  writing statement of the store preserves it. \<open>keeps P m\<close> says that the statement or
  sequence of statements \<open>m\<close> preserves \<open>P\<close>, whatever it returns.
\<close>

section \<open>Preservation\<close>

definition keeps :: "('s \<Rightarrow> bool) \<Rightarrow> ('s, 'a) st \<Rightarrow> bool" where
  "keeps P m \<longleftrightarrow> (\<forall>s. P s \<longrightarrow> P (snd (m s)))"

named_theorems keeps_intros \<open>rules for keeps\<close>

lemma keepsD: "keeps P m \<Longrightarrow> P s \<Longrightarrow> P (snd (m s))"
  by (simp add: keeps_def)

lemma keepsD': "keeps P m \<Longrightarrow> m s = (r, s') \<Longrightarrow> P s \<Longrightarrow> P s'"
  by (metis keeps_def snd_conv)

lemma keeps_ret [keeps_intros]: "keeps P (retS x)" "keeps P (failS e)" "keeps P (liftS r)"
  by (simp_all add: keeps_def)

lemma keeps_bindS [keeps_intros]:
  assumes "keeps P m" and "\<And>x. keeps P (f x)"
  shows "keeps P (bindS m f)"
  using assms by (auto simp: keeps_def bindS_def split: prod.splits sum.splits)

lemma keeps_wrapS [keeps_intros]: "keeps P m \<Longrightarrow> keeps P (wrapS msg m)"
  by (simp add: keeps_def)

lemma keeps_forS [keeps_intros]: "(\<And>x. keeps P (f x)) \<Longrightarrow> keeps P (forS f xs)"
  unfolding keeps_def by (intro allI impI, rule forS_invariant) simp_all

lemma keeps_writeS:
  assumes "\<And>d n. P (d\<lparr>t_seq := n\<rparr>) = P d" and "keeps P m"
  shows "keeps P (writeS Q m)"
  using assms by (auto simp: keeps_def writeS_def Let_def split: option.splits)

section \<open>The tables\<close>

definition group_type_ok :: "string \<Rightarrow> bool" where
  "group_type_ok ty \<longleftrightarrow> ty \<in> {''ipset'', ''portset'', ''hostset''}"

definition default_ok :: "DefaultPolicy \<Rightarrow> bool" where
  "default_ok p \<longleftrightarrow> dp_Ingress p \<in> {''allow'', ''deny''} \<and> dp_Egress p \<in> {''allow'', ''deny''}"

definition cert_ok :: "Certificate \<Rightarrow> bool" where
  "cert_ok c \<longleftrightarrow> c_Status c \<in> {''active'', ''rotated'', ''revoked'', ''expired''}"

definition audit_ok :: "AuditLog \<Rightarrow> bool" where
  "audit_ok l \<longleftrightarrow> al_ActorType l \<in> {''user'', ''api_token'', ''system''}"

definition hosts_typed :: "Host list \<Rightarrow> bool" where
  "hosts_typed hs \<longleftrightarrow> list_all (\<lambda>h. host_status_ok (h_Status h) \<and> 0 \<le> sint (h_DesiredGeneration h)) hs
     \<and> distinct (map (\<lambda>h. (h_TenantID h, h_Hostname h)) hs)"

definition policies_typed :: "Policy list \<Rightarrow> Rule list \<Rightarrow> (bytes \<times> bytes) list \<Rightarrow> bool" where
  "policies_typed ps rs refs \<longleftrightarrow> list_all (\<lambda>p. 0 \<le> sint (p_CurrentVersion p)) ps
     \<and> list_all (\<lambda>r. rule_row_ok r \<and> r_PolicyID r \<in> p_ID ` set ps) rs
     \<and> list_all (\<lambda>(r, g). r \<in> r_ID ` set rs) refs"

definition groups_typed :: "ObjectGroup list \<Rightarrow> (bytes \<times> bytes) list \<Rightarrow> bool" where
  "groups_typed gs refs \<longleftrightarrow> list_all (\<lambda>g. group_type_ok (og_Type g)) gs
     \<and> distinct (map (\<lambda>g. (og_TenantID g, og_Name g)) gs) \<and> list_all (\<lambda>(r, g). g \<in> og_ID ` set gs) refs"

definition versions_typed :: "ConfigVersion list \<Rightarrow> bool" where
  "versions_typed vs \<longleftrightarrow> list_all (\<lambda>v. 1 \<le> sint (cv_Version v)) vs
     \<and> distinct (map (\<lambda>v. (cv_TenantID v, cv_EntityType v, cv_EntityID v, cv_Version v)) vs)"

definition role_ok :: "string \<Rightarrow> bool" where
  "role_ok r \<longleftrightarrow> r \<in> {''admin'', ''editor'', ''operator'', ''auditor''}"

definition user_ok :: "User \<Rightarrow> bool" where
  "user_ok u \<longleftrightarrow> u_Status u \<in> {''active'', ''disabled''} \<and> 0 \<le> sint (u_TokenVersion u)"

definition accounts_typed :: "User list \<Rightarrow> UserRole list \<Rightarrow> ApiToken list \<Rightarrow> bool" where
  "accounts_typed us rs ts \<longleftrightarrow> list_all user_ok us
     \<and> distinct (map (\<lambda>u. (u_TenantID u, u_Email u)) us) \<and> distinct (map (\<lambda>u. (u_TenantID u, u_Username u)) us)
     \<and> list_all (\<lambda>r. role_ok (ur_Role r) \<and> ur_UserID r \<in> u_ID ` set us) rs
     \<and> distinct (map (\<lambda>r. (ur_UserID r, ur_TenantID r)) rs)
     \<and> list_all (\<lambda>t. role_ok (at_Role t) \<and> pred_option (\<lambda>u. u \<in> u_ID ` set us) (at_CreatedBy t)) ts
     \<and> distinct (map at_TokenHash ts)"

definition db_typed :: "db \<Rightarrow> bool" where
  "db_typed d \<longleftrightarrow> hosts_typed (t_hosts d) \<and> policies_typed (t_policies d) (t_rules d) (t_refs d)
     \<and> groups_typed (t_object_groups d) (t_refs d) \<and> versions_typed (t_versions d)
     \<and> list_all default_ok (t_default_policies d) \<and> distinct (map dp_TenantID (t_default_policies d))
     \<and> list_all cert_ok (t_certificates d) \<and> distinct (map c_Serial (t_certificates d))
     \<and> distinct (map bt_TokenHash (t_tokens d)) \<and> list_all audit_ok (t_audit d)
     \<and> accounts_typed (t_users d) (t_user_roles d) (t_api_tokens d)"

lemma db_typed_seq [simp]: "db_typed (d\<lparr>t_seq := n\<rparr>) = db_typed d"
  by (simp add: db_typed_def)

lemma db_typed_empty: "db_typed empty_db"
  by (simp add: db_typed_def empty_db_def hosts_typed_def policies_typed_def groups_typed_def versions_typed_def accounts_typed_def)

section \<open>Updates of rows\<close>

lemma list_all_update_rows:
  "list_all R rows \<Longrightarrow> (\<And>r. R r \<Longrightarrow> P r \<Longrightarrow> R (f r)) \<Longrightarrow> list_all R (update_rows P f rows)"
  by (induction rows) (auto simp: update_rows_def)

lemma map_update_rows: "(\<And>r. P r \<Longrightarrow> k (f r) = k r) \<Longrightarrow> map k (update_rows P f rows) = map k rows"
  by (induction rows) (auto simp: update_rows_def)

lemma image_update_rows: "(\<And>r. P r \<Longrightarrow> k (f r) = k r) \<Longrightarrow> k ` set (update_rows P f rows) = k ` set rows"
  using map_update_rows [of P k f rows] by (metis list.set_map)

lemma list_all_filter: "list_all R rows \<Longrightarrow> list_all R (filter P rows)"
  by (auto simp: list_all_iff)

lemma sint_inc_max: "0 \<le> sint w \<Longrightarrow> w \<noteq> int4_max \<Longrightarrow> 0 \<le> sint (w + 1)"
proof -
  assume "0 \<le> sint w" and ne: "w \<noteq> int4_max"
  have m: "sint int4_max = 2 ^ 31 - 1" by (simp add: int4_max_def)
  have "sint w \<le> 2 ^ 31 - 1" using sint_lt [of w] by simp
  moreover have "sint w \<noteq> 2 ^ 31 - 1" using ne m by (metis signed_word_eqI)
  ultimately have "w <s int4_max" using m by (simp add: word_sless_alt)
  then show "0 \<le> sint (w + 1)" using \<open>0 \<le> sint w\<close> by (simp add: sint_inc)
qed

text \<open>A change of host rows that keeps names and respects the checks.\<close>

lemma hosts_typed_update:
  assumes "hosts_typed hs"
    and "\<And>h. P h \<Longrightarrow> h_TenantID (f h) = h_TenantID h \<and> h_Hostname (f h) = h_Hostname h"
    and "\<And>h. h \<in> set hs \<Longrightarrow> P h \<Longrightarrow> host_status_ok (h_Status h) \<Longrightarrow> 0 \<le> sint (h_DesiredGeneration h) \<Longrightarrow>
      host_status_ok (h_Status (f h)) \<and> 0 \<le> sint (h_DesiredGeneration (f h))"
  shows "hosts_typed (update_rows P f hs)"
proof -
  have "map (\<lambda>h. (h_TenantID h, h_Hostname h)) (update_rows P f hs) = map (\<lambda>h. (h_TenantID h, h_Hostname h)) hs"
    by (rule map_update_rows) (simp add: assms(2))
  moreover have "list_all (\<lambda>h. host_status_ok (h_Status h) \<and> 0 \<le> sint (h_DesiredGeneration h)) (update_rows P f hs)"
    using assms(1,3) by (auto simp: hosts_typed_def list_all_iff update_rows_def)
  ultimately show ?thesis using assms(1) by (simp add: hosts_typed_def)
qed

lemma db_typed_hosts: "db_typed d \<Longrightarrow> hosts_typed hs \<Longrightarrow> db_typed (d\<lparr>t_hosts := hs\<rparr>)"
  by (simp add: db_typed_def)

lemma keeps_exec_hosts:
  assumes "\<And>d h. h_TenantID (f d h) = h_TenantID h \<and> h_Hostname (f d h) = h_Hostname h"
    and "\<And>d h. host_status_ok (h_Status h) \<Longrightarrow> host_status_ok (h_Status (f d h))"
    and "\<And>d h. h_DesiredGeneration (f d h) = h_DesiredGeneration h"
  shows "keeps db_typed (\<lambda>d. exec_hosts hid tid (f d) d)"
  unfolding keeps_def exec_hosts_def using assms
  by (auto intro!: db_typed_hosts hosts_typed_update simp: db_typed_def)

lemma keeps_update_host:
  assumes "\<And>h. h_TenantID (f h) = h_TenantID h \<and> h_Hostname (f h) = h_Hostname h"
    and "\<And>h. host_status_ok (h_Status h) \<Longrightarrow> host_status_ok (h_Status (f h))"
    and "\<And>h. h_DesiredGeneration (f h) = h_DesiredGeneration h"
  shows "keeps db_typed (update_host hid tid f)"
  unfolding keeps_def update_host_def Let_def using assms
  by (auto intro!: db_typed_hosts hosts_typed_update simp: db_typed_def split: list.splits)

section \<open>The statements\<close>

lemmas keeps_write = keeps_writeS [of db_typed, OF db_typed_seq]

text \<open>The change of one table by a statement, given that it keeps that table's typing.\<close>

lemma db_typed_policies: "db_typed d \<Longrightarrow> policies_typed ps rs (t_refs d) \<Longrightarrow> db_typed (d\<lparr>t_policies := ps, t_rules := rs\<rparr>)"
  by (simp add: db_typed_def)

lemma db_typed_groups: "db_typed d \<Longrightarrow> groups_typed gs (t_refs d) \<Longrightarrow> db_typed (d\<lparr>t_object_groups := gs\<rparr>)"
  by (simp add: db_typed_def)

lemma keeps_CreatePolicy [keeps_intros]: "keeps db_typed (CreatePolicy Q tid name desc prio sel)"
  unfolding CreatePolicy_def
  by (rule keeps_write) (auto simp: keeps_def Let_def db_typed_def policies_typed_def list_all_iff split: sum.splits)

lemma keeps_UpdatePolicy [keeps_intros]: "keeps db_typed (UpdatePolicy Q pid tid name desc prio sel)"
proof -
  define f where "f js = (\<lambda>p :: Policy. p\<lparr>p_Name := name, p_Description := desc, p_Priority := prio, p_Selector := js,
    p_CurrentVersion := p_CurrentVersion p + 1\<rparr>)" for js
  have "policies_typed (update_rows (policy_is pid tid) (f js) ps) rs refs"
    if "policies_typed ps rs refs" "\<not> list_ex (\<lambda>p. policy_is pid tid p \<and> p_CurrentVersion p = int4_max) ps" for ps rs refs js
  proof -
    have "p_ID ` set (update_rows (policy_is pid tid) (f js) ps) = p_ID ` set ps"
      by (rule image_update_rows) (simp add: f_def)
    moreover have "list_all (\<lambda>p. 0 \<le> sint (p_CurrentVersion p)) (update_rows (policy_is pid tid) (f js) ps)"
      using that by (auto simp: policies_typed_def list_all_iff list_ex_iff update_rows_def f_def intro!: sint_inc_max)
    ultimately show ?thesis using that(1) by (simp add: policies_typed_def)
  qed
  then show ?thesis unfolding UpdatePolicy_def f_def [symmetric]
    by (intro keeps_write) (auto simp: keeps_def Let_def db_typed_def split: sum.splits list.splits)
qed

lemma keeps_DeletePolicy [keeps_intros]: "keeps db_typed (DeletePolicy Q pid tid)"
proof -
  have "policies_typed (filter (\<lambda>p. \<not> policy_is pid tid p) ps)
      (filter (\<lambda>r. r_PolicyID r \<notin> set (map p_ID (filter (policy_is pid tid) ps))) rs)
      (filter (\<lambda>(r, g). r \<notin> set (map r_ID (filter (\<lambda>r. r_PolicyID r \<in> set (map p_ID (filter (policy_is pid tid) ps))) rs))) refs)"
    if "policies_typed ps rs refs" for ps rs refs
    using that by (fastforce simp: policies_typed_def list_all_iff)
  moreover have "groups_typed gs (filter P refs)" if "groups_typed gs refs" for gs refs P
    using that by (auto simp: groups_typed_def list_all_iff)
  ultimately show ?thesis unfolding DeletePolicy_def
    by (intro keeps_write) (auto simp: keeps_def Let_def db_typed_def)
qed

lemma policies_typed_rules:
  assumes "policies_typed ps rs refs" and "list_all (\<lambda>r. rule_row_ok r \<and> r_PolicyID r \<in> p_ID ` set ps) rs'"
    and "r_ID ` set rs \<subseteq> r_ID ` set rs'"
  shows "policies_typed ps rs' refs"
  using assms by (fastforce simp: policies_typed_def list_all_iff)

lemma keeps_CreateRule [keeps_intros]: "keeps db_typed (CreateRule Q par)"
  unfolding CreateRule_def
  by (rule keeps_write) (auto simp: keeps_def Let_def db_typed_def policies_typed_def list_all_iff split: sum.splits)

lemma keeps_UpdateRule [keeps_intros]: "keeps db_typed (UpdateRule Q par)"
proof -
  define f where "f js = (\<lambda>r :: Rule. par\<lparr>r_PolicyID := r_PolicyID r, r_Match := js\<rparr>)" for js
  have f: "rule_row_ok (f js r) = rule_row_ok par" "r_PolicyID (f js r) = r_PolicyID r" "r_ID (f js r) = r_ID par" for js r
    by (simp_all add: f_def rule_row_ok_def)
  have "policies_typed ps (update_rows (\<lambda>r. r_ID r = r_ID par) (f js) rs) refs"
    if "policies_typed ps rs refs" "rule_row_ok par" for ps rs refs js
  proof (rule policies_typed_rules [OF that(1)])
    show "list_all (\<lambda>r. rule_row_ok r \<and> r_PolicyID r \<in> p_ID ` set ps) (update_rows (\<lambda>r. r_ID r = r_ID par) (f js) rs)"
      using that by (auto simp: policies_typed_def f intro!: list_all_update_rows)
    show "r_ID ` set rs \<subseteq> r_ID ` set (update_rows (\<lambda>r. r_ID r = r_ID par) (f js) rs)"
      by (subst image_update_rows) (simp_all add: f)
  qed
  then show ?thesis unfolding UpdateRule_def f_def [symmetric]
    by (intro keeps_write) (auto simp: keeps_def Let_def db_typed_def split: sum.splits list.splits)
qed

lemma keeps_DeleteRule [keeps_intros]: "keeps db_typed (DeleteRule Q rid)"
  unfolding DeleteRule_def
  by (rule keeps_write) (fastforce simp: keeps_def db_typed_def policies_typed_def groups_typed_def list_all_iff)

text \<open>The next version number is new and positive.\<close>

lemma latest_version_bounds:
  "0 \<le> latest_version tid ty eid vs \<and> (\<forall>v \<in> set vs. version_of tid ty eid v \<longrightarrow> sint (cv_Version v) \<le> latest_version tid ty eid vs)"
  by (induction vs) (auto simp: latest_version_def)

lemma keeps_InsertConfigVersion [keeps_intros]: "keeps db_typed (InsertConfigVersion Q tid ty eid content actor)"
proof -
  let ?k = "\<lambda>v. (cv_TenantID v, cv_EntityType v, cv_EntityID v, cv_Version v)"
  have "versions_typed (vs @ [\<lparr>cv_TenantID = tid, cv_EntityType = ty, cv_EntityID = eid, cv_Version = of_int n,
      cv_Content = js, cv_CreatedBy = actor\<rparr>])"
    if "versions_typed vs" "n = latest_version tid ty eid vs + 1" "n \<le> sint int4_max" for vs js n
  proof -
    have "sint (of_int n :: i32) = n"
    proof -
      have "0 \<le> n" "n < 2 ^ 31" using that(2,3) latest_version_bounds [of tid ty eid vs] by (auto simp: int4_max_def)
      then show ?thesis by (simp add: signed_of_int signed_take_bit_int_eq_self)
    qed
    moreover have "(tid, ty, eid, of_int n) \<notin> ?k ` set vs"
    proof
      assume "(tid, ty, eid, of_int n) \<in> ?k ` set vs"
      then obtain v where "v \<in> set vs" "version_of tid ty eid v" "cv_Version v = of_int n" by (auto simp: version_of_def)
      then show False using latest_version_bounds [of tid ty eid vs] that(2) calculation by fastforce
    qed
    ultimately show ?thesis using that(1,2) latest_version_bounds [of tid ty eid vs] by (auto simp: versions_typed_def)
  qed
  then show ?thesis unfolding InsertConfigVersion_def
    by (intro keeps_write) (auto simp: keeps_def Let_def db_typed_def split: sum.splits)
qed

lemma keeps_CreateObjectGroup [keeps_intros]: "keeps db_typed (CreateObjectGroup Q tid ty name spec)"
  unfolding CreateObjectGroup_def
  by (rule keeps_write) (auto simp: keeps_def Let_def db_typed_def groups_typed_def group_type_ok_def list_all_iff list_ex_iff
      split: sum.splits)

lemma keeps_UpdateObjectGroup [keeps_intros]: "keeps db_typed (UpdateObjectGroup Q oid tid spec)"
proof -
  have "groups_typed (update_rows P (\<lambda>g. g\<lparr>og_Spec := js\<rparr>) gs) refs" if "groups_typed gs refs" for gs refs js P
  proof -
    have "map (\<lambda>g. (og_TenantID g, og_Name g)) (update_rows P (\<lambda>g. g\<lparr>og_Spec := js\<rparr>) gs) = map (\<lambda>g. (og_TenantID g, og_Name g)) gs"
      by (rule map_update_rows) simp
    moreover have "og_ID ` set (update_rows P (\<lambda>g. g\<lparr>og_Spec := js\<rparr>) gs) = og_ID ` set gs" by (rule image_update_rows) simp
    moreover have "list_all (\<lambda>g. group_type_ok (og_Type g)) (update_rows P (\<lambda>g. g\<lparr>og_Spec := js\<rparr>) gs)"
      using that by (intro list_all_update_rows) (auto simp: groups_typed_def)
    ultimately show ?thesis using that by (simp add: groups_typed_def)
  qed
  then show ?thesis unfolding UpdateObjectGroup_def
    by (intro keeps_write) (auto simp: keeps_def Let_def db_typed_def split: sum.splits list.splits)
qed

lemma keeps_DeleteObjectGroup [keeps_intros]: "keeps db_typed (DeleteObjectGroup Q oid tid)"
proof -
  have "groups_typed (filter (\<lambda>g. \<not> group_is oid tid g) gs) refs"
    if t: "groups_typed gs refs" and n: "\<not> (list_ex (group_is oid tid) gs \<and> oid \<in> snd ` set refs)" for gs refs
  proof (cases "list_ex (group_is oid tid) gs")
    case True
    then have "y \<noteq> oid" if "(x, y) \<in> set refs" for x y using n that by (metis imageI snd_conv)
    then show ?thesis using t
      by (fastforce simp: groups_typed_def list_all_iff distinct_map_filter group_is_def)
  next
    case False
    then have "filter (\<lambda>g. \<not> group_is oid tid g) gs = gs" by (auto simp: list_ex_iff filter_id_conv)
    then show ?thesis using t by simp
  qed
  then show ?thesis unfolding DeleteObjectGroup_def
    by (intro keeps_write) (auto simp: keeps_def Let_def db_typed_def)
qed

lemma keeps_UpsertDefaultPolicy [keeps_intros]: "keeps db_typed (UpsertDefaultPolicy Q tid ingress egress)"
proof -
  let ?row = "\<lparr>dp_TenantID = tid, dp_Ingress = ingress, dp_Egress = egress\<rparr>" and ?P = "\<lambda>p :: DefaultPolicy. dp_TenantID p = tid"
  have m: "map dp_TenantID (update_rows ?P (\<lambda>_. ?row) ds) = map dp_TenantID ds" for ds by (rule map_update_rows) simp
  have a: "list_all default_ok (update_rows ?P (\<lambda>_. ?row) ds)" if "list_all default_ok ds" "default_ok ?row" for ds
    using that by (intro list_all_update_rows) auto
  have n: "\<not> list_ex ?P ds \<longleftrightarrow> tid \<notin> dp_TenantID ` set ds" for ds by (auto simp: list_ex_iff)
  show ?thesis unfolding UpsertDefaultPolicy_def
    by (rule keeps_write) (auto simp: keeps_def Let_def db_typed_def m a n default_ok_def [of ?row])
qed

lemma keeps_CreateHost [keeps_intros]: "keeps db_typed (CreateHost Q tid name labels st)"
  unfolding CreateHost_def
  by (rule keeps_write) (auto simp: keeps_def Let_def db_typed_def hosts_typed_def list_ex_iff host_named_def new_host_def split: sum.splits)

lemma keeps_UpsertBulkHost [keeps_intros]: "keeps db_typed (UpsertBulkHost Q tid name labels st)"
proof -
  define f where "f js = (\<lambda>h :: Host. h\<lparr>h_Labels := js, h_Status := ''enrolling''\<rparr>)" for js
  have u: "hosts_typed (update_rows (host_named tid name) (f js) hs)" if "hosts_typed hs" for hs js
    using that by (rule hosts_typed_update) (simp_all add: f_def host_status_ok_def)
  have fl: "filter (host_named tid name) (update_rows (host_named tid name) (f js) hs) = map (f js) (filter (host_named tid name) hs)" for js hs
    by (rule filter_update_rows_same) (simp add: f_def host_named_def)
  have i: "hosts_typed (hs @ [new_host Q tid name js st d])"
    if "hosts_typed hs" "filter (host_named tid name) hs = []" "host_status_ok st" for hs js d
    using that by (auto simp: hosts_typed_def new_host_def filter_empty_conv host_named_def)
  show ?thesis unfolding UpsertBulkHost_def f_def [symmetric]
    by (rule keeps_write) (auto simp: keeps_def Let_def db_typed_def fl u i split: sum.splits list.splits)
qed

lemma keeps_UpdateHostLabels [keeps_intros]: "keeps db_typed (UpdateHostLabels Q hid tid labels)"
proof -
  have "keeps db_typed (update_host hid tid (\<lambda>h. h\<lparr>h_Labels := js\<rparr>))" for js by (rule keeps_update_host) simp_all
  then show ?thesis unfolding UpdateHostLabels_def by (intro keeps_write) (auto simp: keeps_def split: sum.splits)
qed

lemma keeps_UpdateHostStatus [keeps_intros]: "keeps db_typed (UpdateHostStatus Q hid tid st)"
proof (cases "host_status_ok st")
  case True
  then have "keeps db_typed (update_host hid tid (\<lambda>h. h\<lparr>h_Status := st\<rparr>))" by (intro keeps_update_host) simp_all
  then show ?thesis unfolding UpdateHostStatus_def by (intro keeps_write) (auto simp: keeps_def)
next
  case False
  have "db_typed (snd (update_host hid tid (\<lambda>h. h\<lparr>h_Status := st\<rparr>) d))" if "db_typed d" "\<not> list_ex (host_is hid tid) (t_hosts d)" for d
  proof -
    have "update_rows (host_is hid tid) (\<lambda>h. h\<lparr>h_Status := st\<rparr>) (t_hosts d) = t_hosts d"
      using that(2) unfolding update_rows_def by (intro map_idI) (auto simp: list_ex_iff)
    then show ?thesis using that by (auto simp: update_host_def Let_def split: list.splits)
  qed
  then show ?thesis using False unfolding UpdateHostStatus_def by (intro keeps_write) (auto simp: keeps_def)
qed

lemma keeps_host_execs [keeps_intros]:
  "keeps db_typed (UpdateHostHeartbeat Q hid tid gen)" "keeps db_typed (UpdateHostConnected Q hid tid aver kver)"
  "keeps db_typed (UpdateHostGeneration Q hid tid gen)" "keeps db_typed (UpdateHostFlowEnabled Q hid tid v)"
  unfolding UpdateHostHeartbeat_def UpdateHostConnected_def UpdateHostGeneration_def UpdateHostFlowEnabled_def
  by (intro keeps_write keeps_exec_hosts; simp add: host_status_ok_def)+

lemma keeps_IncrementHostDesiredGeneration [keeps_intros]: "keeps db_typed (IncrementHostDesiredGeneration Q hid tid)"
proof -
  have "hosts_typed (update_rows (host_is hid tid) (\<lambda>h. h\<lparr>h_DesiredGeneration := h_DesiredGeneration h + 1\<rparr>) hs)"
    if "hosts_typed hs" "\<not> list_ex (\<lambda>h. host_is hid tid h \<and> h_DesiredGeneration h = int4_max) hs" for hs
    using that by (intro hosts_typed_update) (auto simp: list_ex_iff intro!: sint_inc_max)
  then show ?thesis unfolding IncrementHostDesiredGeneration_def
    by (intro keeps_write) (auto simp: keeps_def exec_hosts_def db_typed_def)
qed

lemma keeps_MarkStaleHosts [keeps_intros]: "keeps db_typed (MarkStaleHosts Q)"
  unfolding MarkStaleHosts_def
  by (intro keeps_write) (auto simp: keeps_def db_typed_def host_status_ok_def intro!: hosts_typed_update)

lemma keeps_DeleteHost [keeps_intros]: "keeps db_typed (DeleteHost Q hid tid)"
proof -
  have t: "map bt_TokenHash (map (\<lambda>t. case bt_TargetHostID t of
      Some s \<Rightarrow> if s \<in> S then t\<lparr>bt_TargetHostID := None\<rparr> else t | None \<Rightarrow> t) ts) = map bt_TokenHash ts" for S and ts :: "BootstrapToken list"
    by (auto split: option.splits)
  have h: "hosts_typed (filter P hs)" if "hosts_typed hs" for P hs
    using that by (auto simp: hosts_typed_def list_all_iff distinct_map_filter)
  have "list_all cert_ok (filter P cs) \<and> distinct (map c_Serial (filter P cs))" if "list_all cert_ok cs" "distinct (map c_Serial cs)" for P cs
    using that by (auto simp: list_all_iff distinct_map_filter)
  then show ?thesis unfolding DeleteHost_def
    by (intro keeps_write) (auto simp: keeps_def Let_def db_typed_def h t simp del: map_map)
qed

lemma keeps_InsertAuditLog [keeps_intros]: "keeps db_typed (InsertAuditLog Q tid aty aid ac oty oid b a)"
  unfolding InsertAuditLog_def
  by (rule keeps_write) (auto simp: keeps_def Let_def db_typed_def audit_ok_def split: sum.splits)

lemma keeps_insert_token [keeps_intros]: "keeps db_typed (insert_token Q row m)"
  unfolding insert_token_def by (rule keeps_write) (auto simp: keeps_def Let_def db_typed_def)

lemma keeps_consume_row [keeps_intros]: "keeps db_typed (consume_row Q hash)"
proof -
  have "map bt_TokenHash (update_rows P use_token ts) = map bt_TokenHash ts" for P ts
    by (rule map_update_rows) (simp add: use_token_def)
  then show ?thesis unfolding consume_row_def
    by (intro keeps_write) (auto simp: keeps_def Let_def db_typed_def split: list.splits)
qed

lemma keeps_DeleteToken [keeps_intros]: "keeps db_typed (DeleteToken Q i)"
  unfolding DeleteToken_def by (intro keeps_write) (auto simp: keeps_def db_typed_def distinct_map_filter)

lemma keeps_InsertCertificate [keeps_intros]: "keeps db_typed (InsertCertificate Q tid hid serial nb na)"
  unfolding InsertCertificate_def by (intro keeps_write) (auto simp: keeps_def Let_def db_typed_def cert_ok_def)

lemma keeps_UpdateCertificateStatus [keeps_intros]: "keeps db_typed (UpdateCertificateStatus Q serial st)"
proof -
  define f where "f n = (\<lambda>c :: Certificate. c\<lparr>c_Status := st, c_RevokedAt := n\<rparr>)" for n
  have m: "map c_Serial (update_rows P (f n) cs) = map c_Serial cs" for P n cs by (rule map_update_rows) (simp add: f_def)
  have l: "list_all cert_ok (update_rows (\<lambda>c. c_Serial c = serial) (f n) cs)"
    if "list_all cert_ok cs" "st \<in> {''active'', ''rotated'', ''revoked'', ''expired''} \<or> serial \<notin> c_Serial ` set cs" for n cs
    using that by (auto simp: list_all_iff update_rows_def f_def cert_ok_def)
  show ?thesis unfolding UpdateCertificateStatus_def f_def [symmetric]
    by (rule keeps_write) (auto simp: keeps_def db_typed_def m intro!: l)
qed

end
