(* ===== verification/Qf_Accounts.thy ===== *)
theory Qf_Accounts
  imports Qf_Typing
begin

text \<open>
  The statements on users, their roles and API tokens (cp/internal/store/gen/auth.sql.go,
  migrations 5, 9 and 11) and what their constraints keep true of the tables.
\<close>

section \<open>Users\<close>

definition user_is :: "bytes \<Rightarrow> bytes \<Rightarrow> User \<Rightarrow> bool" where
  "user_is uid tid u \<longleftrightarrow> u_ID u = uid \<and> u_TenantID u = tid"

definition CreateUser :: "Queries \<Rightarrow> bytes \<Rightarrow> string \<Rightarrow> string \<Rightarrow> string option \<Rightarrow> string option \<Rightarrow> (db, User) st" where
  "CreateUser Q tid email username hash subj = writeS Q (\<lambda>d.
     let u = \<lparr>u_ID = db_uuid Q (t_seq d), u_TenantID = tid, u_Email = email, u_PasswordHash = hash, u_OidcSubject = subj,
              u_Status = ''active'', u_LastLoginAt = None, u_CreatedAt = db_now Q (t_seq d), u_Username = username, u_TokenVersion = 0\<rparr>
     in if list_ex (\<lambda>u. u_TenantID u = tid \<and> (u_Email u = email \<or> u_Username u = username)) (t_users d) then (Inl check_violation, d)
        else (Inr u, d\<lparr>t_users := t_users d @ [u]\<rparr>))"

definition GetUser :: "Queries \<Rightarrow> db \<Rightarrow> bytes \<Rightarrow> bytes \<Rightarrow> User res" where
  "GetUser Q d uid tid = query_one Q ''GetUser'' (filter (user_is uid tid) (t_users d))"

definition GetUserByEmail :: "Queries \<Rightarrow> db \<Rightarrow> bytes \<Rightarrow> string \<Rightarrow> User res" where
  "GetUserByEmail Q d tid email = query_one Q ''GetUserByEmail'' (filter (\<lambda>u. u_TenantID u = tid \<and> u_Email u = email) (t_users d))"

definition GetUserByUsername :: "Queries \<Rightarrow> db \<Rightarrow> bytes \<Rightarrow> string \<Rightarrow> User res" where
  "GetUserByUsername Q d tid name = query_one Q ''GetUserByUsername''
     (filter (\<lambda>u. u_TenantID u = tid \<and> u_Username u = name) (t_users d))"

definition ListUsers :: "Queries \<Rightarrow> db \<Rightarrow> bytes \<Rightarrow> User list res" where
  "ListUsers Q d tid = query Q ''ListUsers'' (sort_key (\<lambda>u. - u_CreatedAt u) (filter (\<lambda>u. u_TenantID u = tid) (t_users d)))"

text \<open>\<open>UPDATE users SET ... token_version = token_version + 1 ... RETURNING *\<close>, which \<open>ok\<close> may refuse.\<close>

definition update_user :: "bool \<Rightarrow> bytes \<Rightarrow> bytes \<Rightarrow> (User \<Rightarrow> User) \<Rightarrow> (db, User) st" where
  "update_user ok uid tid f d =
     (case filter (user_is uid tid) (t_users d) of
        [] \<Rightarrow> (Inl (Sentinel ''pgx.ErrNoRows''), d)
      | u # us \<Rightarrow>
          if \<not> ok then (Inl check_violation, d)
          else if list_ex (\<lambda>u. u_TokenVersion u = int4_max) (u # us) then (Inl out_of_range, d)
          else (Inr (f u), d\<lparr>t_users := update_rows (user_is uid tid) f (t_users d)\<rparr>))"

definition UpdateUserPassword :: "Queries \<Rightarrow> bytes \<Rightarrow> bytes \<Rightarrow> string option \<Rightarrow> (db, User) st" where
  "UpdateUserPassword Q uid tid hash = writeS Q (update_user True uid tid
     (\<lambda>u. u\<lparr>u_PasswordHash := hash, u_TokenVersion := u_TokenVersion u + 1\<rparr>))"

definition UpdateUserStatus :: "Queries \<Rightarrow> bytes \<Rightarrow> bytes \<Rightarrow> string \<Rightarrow> (db, User) st" where
  "UpdateUserStatus Q uid tid st = writeS Q (update_user (st \<in> {''active'', ''disabled''}) uid tid
     (\<lambda>u. u\<lparr>u_Status := st, u_TokenVersion := u_TokenVersion u + 1\<rparr>))"

definition BumpUserTokenVersion :: "Queries \<Rightarrow> bytes \<Rightarrow> (db, unit) st" where
  "BumpUserTokenVersion Q uid = writeS Q (\<lambda>d.
     if list_ex (\<lambda>u. u_ID u = uid \<and> u_TokenVersion u = int4_max) (t_users d) then (Inl out_of_range, d)
     else (Inr (), d\<lparr>t_users := update_rows (\<lambda>u. u_ID u = uid) (\<lambda>u. u\<lparr>u_TokenVersion := u_TokenVersion u + 1\<rparr>) (t_users d)\<rparr>))"

definition UpdateUserLastLogin :: "Queries \<Rightarrow> bytes \<Rightarrow> (db, unit) st" where
  "UpdateUserLastLogin Q uid = writeS Q (\<lambda>d.
     (Inr (), d\<lparr>t_users := update_rows (\<lambda>u. u_ID u = uid) (\<lambda>u. u\<lparr>u_LastLoginAt := Some (db_now Q (t_seq d))\<rparr>) (t_users d)\<rparr>))"

definition UpdateUserOIDCSubject :: "Queries \<Rightarrow> bytes \<Rightarrow> bytes \<Rightarrow> string option \<Rightarrow> (db, unit) st" where
  "UpdateUserOIDCSubject Q uid tid subj = writeS Q (\<lambda>d.
     (Inr (), d\<lparr>t_users := update_rows (user_is uid tid) (\<lambda>u. u\<lparr>u_OidcSubject := subj\<rparr>) (t_users d)\<rparr>))"

text \<open>Deleting a user deletes its roles and clears \<open>created_by\<close> of its API tokens.\<close>

definition DeleteUser :: "Queries \<Rightarrow> bytes \<Rightarrow> bytes \<Rightarrow> (db, unit) st" where
  "DeleteUser Q uid tid = writeS Q (\<lambda>d.
     let gone = map u_ID (filter (user_is uid tid) (t_users d))
     in (Inr (), d\<lparr>t_users := filter (\<lambda>u. \<not> user_is uid tid u) (t_users d),
           t_user_roles := filter (\<lambda>r. ur_UserID r \<notin> set gone) (t_user_roles d),
           t_api_tokens := map (\<lambda>t. case at_CreatedBy t of
               Some c \<Rightarrow> if c \<in> set gone then t\<lparr>at_CreatedBy := None\<rparr> else t | None \<Rightarrow> t) (t_api_tokens d)\<rparr>))"

section \<open>Roles\<close>

definition role_is :: "bytes \<Rightarrow> bytes \<Rightarrow> UserRole \<Rightarrow> bool" where
  "role_is uid tid r \<longleftrightarrow> ur_UserID r = uid \<and> ur_TenantID r = tid"

definition GetUserRole :: "Queries \<Rightarrow> db \<Rightarrow> bytes \<Rightarrow> bytes \<Rightarrow> UserRole res" where
  "GetUserRole Q d uid tid = query_one Q ''GetUserRole'' (filter (role_is uid tid) (t_user_roles d))"

definition UpsertUserRole :: "Queries \<Rightarrow> bytes \<Rightarrow> bytes \<Rightarrow> string \<Rightarrow> (db, unit) st" where
  "UpsertUserRole Q uid tid role = writeS Q (\<lambda>d.
     if \<not> role_ok role \<or> uid \<notin> u_ID ` set (t_users d) then (Inl check_violation, d)
     else (Inr (), d\<lparr>t_user_roles :=
            (if list_ex (role_is uid tid) (t_user_roles d)
             then update_rows (role_is uid tid) (\<lambda>r. r\<lparr>ur_Role := role\<rparr>) (t_user_roles d)
             else t_user_roles d @ [\<lparr>ur_UserID = uid, ur_TenantID = tid, ur_Role = role\<rparr>])\<rparr>))"

section \<open>API tokens\<close>

definition CreateAPIToken ::
  "Queries \<Rightarrow> bytes \<Rightarrow> string \<Rightarrow> string \<Rightarrow> string \<Rightarrow> bytes option \<Rightarrow> int option \<Rightarrow> (db, ApiToken) st" where
  "CreateAPIToken Q tid name hash role by exp = writeS Q (\<lambda>d.
     let t = \<lparr>at_ID = db_uuid Q (t_seq d), at_TenantID = tid, at_Name = name, at_TokenHash = hash, at_Role = role,
              at_CreatedBy = by, at_ExpiresAt = exp, at_LastUsedAt = None, at_CreatedAt = db_now Q (t_seq d)\<rparr>
     in if \<not> role_ok role \<or> hash \<in> at_TokenHash ` set (t_api_tokens d)
           \<or> (case by of None \<Rightarrow> False | Some u \<Rightarrow> u \<notin> u_ID ` set (t_users d)) then (Inl check_violation, d)
        else (Inr t, d\<lparr>t_api_tokens := t_api_tokens d @ [t]\<rparr>))"

definition GetAPITokenByHash :: "Queries \<Rightarrow> db \<Rightarrow> string \<Rightarrow> ApiToken res" where
  "GetAPITokenByHash Q d hash = query_one Q ''GetAPITokenByHash'' (filter (\<lambda>t. at_TokenHash t = hash) (t_api_tokens d))"

definition ListAPITokens :: "Queries \<Rightarrow> db \<Rightarrow> bytes \<Rightarrow> ApiToken list res" where
  "ListAPITokens Q d tid = query Q ''ListAPITokens''
     (sort_key (\<lambda>t. - at_CreatedAt t) (filter (\<lambda>t. at_TenantID t = tid) (t_api_tokens d)))"

definition token_is :: "bytes \<Rightarrow> bytes \<Rightarrow> ApiToken \<Rightarrow> bool" where
  "token_is i tid t \<longleftrightarrow> at_ID t = i \<and> at_TenantID t = tid"

definition DeleteAPIToken :: "Queries \<Rightarrow> bytes \<Rightarrow> bytes \<Rightarrow> (db, unit) st" where
  "DeleteAPIToken Q i tid = writeS Q (\<lambda>d.
     (Inr (), d\<lparr>t_api_tokens := filter (\<lambda>t. \<not> token_is i tid t) (t_api_tokens d)\<rparr>))"

definition UpdateAPITokenLastUsed :: "Queries \<Rightarrow> bytes \<Rightarrow> (db, unit) st" where
  "UpdateAPITokenLastUsed Q i = writeS Q (\<lambda>d.
     (Inr (), d\<lparr>t_api_tokens := update_rows (\<lambda>t. at_ID t = i) (\<lambda>t. t\<lparr>at_LastUsedAt := Some (db_now Q (t_seq d))\<rparr>) (t_api_tokens d)\<rparr>))"

section \<open>Typing\<close>

lemma db_typed_accounts_users:
  "db_typed d \<Longrightarrow> accounts_typed us (t_user_roles d) (t_api_tokens d) \<Longrightarrow> db_typed (d\<lparr>t_users := us\<rparr>)"
  by (simp add: db_typed_def)

text \<open>A change of user rows that keeps ids and names.\<close>

lemma accounts_typed_users:
  assumes "accounts_typed us rs ts"
    and "\<And>u. P u \<Longrightarrow> u_TenantID (f u) = u_TenantID u \<and> u_Email (f u) = u_Email u \<and> u_Username (f u) = u_Username u \<and> u_ID (f u) = u_ID u"
    and "\<And>u. u \<in> set us \<Longrightarrow> P u \<Longrightarrow> user_ok u \<Longrightarrow> user_ok (f u)"
  shows "accounts_typed (update_rows P f us) rs ts"
proof -
  have "map (\<lambda>u. (u_TenantID u, u_Email u)) (update_rows P f us) = map (\<lambda>u. (u_TenantID u, u_Email u)) us"
    "map (\<lambda>u. (u_TenantID u, u_Username u)) (update_rows P f us) = map (\<lambda>u. (u_TenantID u, u_Username u)) us"
    by (rule map_update_rows; simp add: assms(2))+
  moreover have "u_ID ` set (update_rows P f us) = u_ID ` set us" by (rule image_update_rows) (simp add: assms(2))
  moreover have "list_all user_ok (update_rows P f us)"
    using assms(1,3) by (auto simp: accounts_typed_def list_all_iff update_rows_def)
  ultimately show ?thesis using assms(1) by (simp add: accounts_typed_def)
qed

lemma user_ok_bump: "user_ok u \<Longrightarrow> u_TokenVersion u \<noteq> int4_max \<Longrightarrow> user_ok (u\<lparr>u_TokenVersion := u_TokenVersion u + 1\<rparr>)"
  by (simp add: user_ok_def sint_inc_max)

lemma keeps_update_user:
  assumes "\<And>u. u_TenantID (f u) = u_TenantID u \<and> u_Email (f u) = u_Email u \<and> u_Username (f u) = u_Username u \<and> u_ID (f u) = u_ID u"
    and "\<And>u. ok \<Longrightarrow> user_ok u \<Longrightarrow> u_TokenVersion u \<noteq> int4_max \<Longrightarrow> user_ok (f u)"
  shows "keeps db_typed (update_user ok uid tid f)"
proof -
  have "accounts_typed (update_rows (user_is uid tid) f us) rs ts"
    if "accounts_typed us rs ts" and "ok" and "filter (user_is uid tid) us = v # vs"
      and n: "\<not> list_ex (\<lambda>u. u_TokenVersion u = int4_max) (v # vs)" for us rs ts v vs
  proof (rule accounts_typed_users [OF that(1)])
    fix u assume "u \<in> set us" "user_is uid tid u" "user_ok u"
    then have "u \<in> set (v # vs)" unfolding that(3) [symmetric] by simp
    then show "user_ok (f u)" using n \<open>user_ok u\<close> \<open>ok\<close> by (intro assms(2)) (auto simp: list_ex_iff)
  qed (simp add: assms(1))
  then have "accounts_typed (t_users (snd (update_user ok uid tid f d))) (t_user_roles d) (t_api_tokens d)"
    if "accounts_typed (t_users d) (t_user_roles d) (t_api_tokens d)" for d
    using that by (cases "filter (user_is uid tid) (t_users d)") (simp_all add: update_user_def)
  moreover have "snd (update_user ok uid tid f d) = d\<lparr>t_users := t_users (snd (update_user ok uid tid f d))\<rparr>" for d
    by (simp add: update_user_def split: list.splits)
  ultimately show ?thesis unfolding keeps_def by (metis db_typed_accounts_users db_typed_def)
qed

lemma keeps_UpdateUser [keeps_intros]:
  "keeps db_typed (UpdateUserPassword Q uid tid hash)" "keeps db_typed (UpdateUserStatus Q uid tid st)"
  unfolding UpdateUserPassword_def UpdateUserStatus_def
  by (intro keeps_write keeps_update_user; auto simp: user_ok_def intro!: sint_inc_max)+

lemma keeps_CreateUser [keeps_intros]: "keeps db_typed (CreateUser Q tid email username hash subj)"
proof -
  have "accounts_typed (us @ [u]) rs ts"
    if "accounts_typed us rs ts" "user_ok u" "\<not> list_ex (\<lambda>v. u_TenantID v = u_TenantID u \<and> (u_Email v = u_Email u \<or> u_Username v = u_Username u)) us"
    for us rs ts u
    using that unfolding accounts_typed_def by (auto simp: list_ex_iff list_all_iff elim!: option.pred_mono_strong)
  then show ?thesis unfolding CreateUser_def
    by (intro keeps_write) (simp add: keeps_def Let_def db_typed_def user_ok_def)
qed

lemma keeps_BumpUserTokenVersion [keeps_intros]: "keeps db_typed (BumpUserTokenVersion Q uid)"
  unfolding BumpUserTokenVersion_def
  by (intro keeps_write) (auto simp: keeps_def db_typed_def list_ex_iff intro!: accounts_typed_users user_ok_bump)

lemma keeps_user_execs [keeps_intros]:
  "keeps db_typed (UpdateUserLastLogin Q uid)" "keeps db_typed (UpdateUserOIDCSubject Q uid tid subj)"
  unfolding UpdateUserLastLogin_def UpdateUserOIDCSubject_def
  by (intro keeps_write; auto simp: keeps_def db_typed_def user_ok_def intro!: accounts_typed_users)+

lemma keeps_DeleteUser [keeps_intros]: "keeps db_typed (DeleteUser Q uid tid)"
proof -
  have "accounts_typed (filter (\<lambda>u. \<not> user_is uid tid u) us) (filter (\<lambda>r. ur_UserID r \<notin> set gone) rs)
      (map (\<lambda>t. case at_CreatedBy t of Some c \<Rightarrow> if c \<in> set gone then t\<lparr>at_CreatedBy := None\<rparr> else t | None \<Rightarrow> t) ts)"
    (is "accounts_typed ?us _ (map ?f ts)")
    if t: "accounts_typed us rs ts" and g: "gone = map u_ID (filter (user_is uid tid) us)" for us rs ts gone
  proof -
    have i: "x \<in> u_ID ` set ?us" if "x \<in> u_ID ` set us" "x \<notin> set gone" for x using that g by auto
    have h: "map at_TokenHash (map ?f ts) = map at_TokenHash ts" by (auto split: option.splits)
    have "list_all (\<lambda>t. role_ok (at_Role t) \<and> pred_option (\<lambda>u. u \<in> u_ID ` set ?us) (at_CreatedBy t)) (map ?f ts)"
      using t i by (auto simp: accounts_typed_def list_all_iff split: option.splits)
    moreover have "list_all (\<lambda>r. role_ok (ur_Role r) \<and> ur_UserID r \<in> u_ID ` set ?us) (filter (\<lambda>r. ur_UserID r \<notin> set gone) rs)"
      using t i unfolding accounts_typed_def list_all_iff by simp
    ultimately show ?thesis using t h
      by (simp add: accounts_typed_def list_all_filter distinct_map_filter del: map_map)
  qed
  then show ?thesis unfolding DeleteUser_def
    by (intro keeps_write) (simp add: keeps_def Let_def db_typed_def)
qed

lemma keeps_UpsertUserRole [keeps_intros]: "keeps db_typed (UpsertUserRole Q uid tid role)"
proof -
  let ?f = "\<lambda>r :: UserRole. r\<lparr>ur_Role := role\<rparr>"
  have m: "map (\<lambda>r. (ur_UserID r, ur_TenantID r)) (update_rows (role_is uid tid) ?f rs) = map (\<lambda>r. (ur_UserID r, ur_TenantID r)) rs" for rs
    by (rule map_update_rows) simp
  have u: "accounts_typed us (update_rows (role_is uid tid) ?f rs) ts" if "accounts_typed us rs ts" "role_ok role" for us rs ts
    using that by (auto simp: accounts_typed_def m intro!: list_all_update_rows)
  have i: "accounts_typed us (rs @ [\<lparr>ur_UserID = uid, ur_TenantID = tid, ur_Role = role\<rparr>]) ts"
    if "accounts_typed us rs ts" "role_ok role" "uid \<in> u_ID ` set us" "\<not> list_ex (role_is uid tid) rs" for us rs ts
    using that by (auto simp: accounts_typed_def list_ex_iff role_is_def)
  show ?thesis unfolding UpsertUserRole_def by (intro keeps_write) (simp add: keeps_def db_typed_def u i)
qed

lemma keeps_CreateAPIToken [keeps_intros]: "keeps db_typed (CreateAPIToken Q tid name hash role by exp)"
proof -
  have "accounts_typed us rs (ts @ [t])" if "accounts_typed us rs ts" "role_ok (at_Role t)" "at_TokenHash t \<notin> at_TokenHash ` set ts"
    "\<not> (case at_CreatedBy t of None \<Rightarrow> False | Some u \<Rightarrow> u \<notin> u_ID ` set us)" for us rs ts t
    using that by (auto simp: accounts_typed_def split: option.splits)
  then show ?thesis unfolding CreateAPIToken_def by (intro keeps_write) (simp add: keeps_def Let_def db_typed_def)
qed

lemma keeps_token_execs [keeps_intros]:
  "keeps db_typed (DeleteAPIToken Q i tid)" "keeps db_typed (UpdateAPITokenLastUsed Q i)"
proof -
  have "map at_TokenHash (update_rows P (\<lambda>t. t\<lparr>at_LastUsedAt := n\<rparr>) ts) = map at_TokenHash ts" for P n and ts :: "ApiToken list"
    by (rule map_update_rows) simp
  then have "accounts_typed us rs (update_rows P (\<lambda>t. t\<lparr>at_LastUsedAt := n\<rparr>) ts)" if "accounts_typed us rs ts" for us rs ts P n
    using that by (auto simp: accounts_typed_def intro!: list_all_update_rows)
  then show "keeps db_typed (UpdateAPITokenLastUsed Q i)"
    unfolding UpdateAPITokenLastUsed_def by (intro keeps_write) (simp add: keeps_def db_typed_def)
  show "keeps db_typed (DeleteAPIToken Q i tid)" unfolding DeleteAPIToken_def
    by (intro keeps_write) (simp add: keeps_def db_typed_def accounts_typed_def list_all_filter distinct_map_filter)
qed

section \<open>Invariants of the store\<close>

text \<open>
  What a property of the tables needs to hold in every state of the server: that each
  writing statement keeps it, when the store's generated values are \<open>ok\<close>. The theories of the
  handlers derive in this context that every handler keeps it.
\<close>

locale store_invariant =
  fixes P :: "db \<Rightarrow> bool" and ok :: "Queries \<Rightarrow> bool"
  assumes seq: "P (d\<lparr>t_seq := n\<rparr>) = P d"
    and st_CreatePolicy: "ok Q \<Longrightarrow> keeps P (CreatePolicy Q tid name desc prio sel)"
    and st_UpdatePolicy: "ok Q \<Longrightarrow> keeps P (UpdatePolicy Q pid tid name desc prio sel)"
    and st_DeletePolicy: "ok Q \<Longrightarrow> keeps P (DeletePolicy Q pid tid)"
    and st_CreateRule: "ok Q \<Longrightarrow> keeps P (CreateRule Q par)"
    and st_UpdateRule: "ok Q \<Longrightarrow> keeps P (UpdateRule Q par)"
    and st_DeleteRule: "ok Q \<Longrightarrow> keeps P (DeleteRule Q rid)"
    and st_InsertConfigVersion: "ok Q \<Longrightarrow> keeps P (InsertConfigVersion Q tid ty eid content actor)"
    and st_CreateObjectGroup: "ok Q \<Longrightarrow> keeps P (CreateObjectGroup Q tid ty name spec)"
    and st_UpdateObjectGroup: "ok Q \<Longrightarrow> keeps P (UpdateObjectGroup Q oid tid spec)"
    and st_DeleteObjectGroup: "ok Q \<Longrightarrow> keeps P (DeleteObjectGroup Q oid tid)"
    and st_UpsertDefaultPolicy: "ok Q \<Longrightarrow> keeps P (UpsertDefaultPolicy Q tid ingress egress)"
    and st_CreateHost: "ok Q \<Longrightarrow> keeps P (CreateHost Q tid name labels st)"
    and st_UpsertBulkHost: "ok Q \<Longrightarrow> keeps P (UpsertBulkHost Q tid name labels st)"
    and st_UpdateHostLabels: "ok Q \<Longrightarrow> keeps P (UpdateHostLabels Q hid tid labels)"
    and st_UpdateHostStatus: "ok Q \<Longrightarrow> keeps P (UpdateHostStatus Q hid tid st)"
    and st_UpdateHostHeartbeat: "ok Q \<Longrightarrow> keeps P (UpdateHostHeartbeat Q hid tid gen)"
    and st_UpdateHostConnected: "ok Q \<Longrightarrow> keeps P (UpdateHostConnected Q hid tid aver kver)"
    and st_UpdateHostGeneration: "ok Q \<Longrightarrow> keeps P (UpdateHostGeneration Q hid tid gen)"
    and st_UpdateHostFlowEnabled: "ok Q \<Longrightarrow> keeps P (UpdateHostFlowEnabled Q hid tid v)"
    and st_IncrementHostDesiredGeneration: "ok Q \<Longrightarrow> keeps P (IncrementHostDesiredGeneration Q hid tid)"
    and st_MarkStaleHosts: "ok Q \<Longrightarrow> keeps P (MarkStaleHosts Q)"
    and st_DeleteHost: "ok Q \<Longrightarrow> keeps P (DeleteHost Q hid tid)"
    and st_InsertAuditLog: "ok Q \<Longrightarrow> keeps P (InsertAuditLog Q tid aty aid ac oty obj b a)"
    and st_insert_token: "ok Q \<Longrightarrow> keeps P (insert_token Q row mx)"
    and st_consume_row: "ok Q \<Longrightarrow> keeps P (consume_row Q hash)"
    and st_DeleteToken: "ok Q \<Longrightarrow> keeps P (DeleteToken Q i)"
    and st_InsertCertificate: "ok Q \<Longrightarrow> keeps P (InsertCertificate Q tid hid serial nb na)"
    and st_UpdateCertificateStatus: "ok Q \<Longrightarrow> keeps P (UpdateCertificateStatus Q serial st)"
    and st_CreateUser: "ok Q \<Longrightarrow> keeps P (CreateUser Q tid email username pw subj)"
    and st_UpdateUserPassword: "ok Q \<Longrightarrow> keeps P (UpdateUserPassword Q uid tid pw)"
    and st_UpdateUserStatus: "ok Q \<Longrightarrow> keeps P (UpdateUserStatus Q uid tid st)"
    and st_BumpUserTokenVersion: "ok Q \<Longrightarrow> keeps P (BumpUserTokenVersion Q uid)"
    and st_UpdateUserLastLogin: "ok Q \<Longrightarrow> keeps P (UpdateUserLastLogin Q uid)"
    and st_UpdateUserOIDCSubject: "ok Q \<Longrightarrow> keeps P (UpdateUserOIDCSubject Q uid tid subj)"
    and st_DeleteUser: "ok Q \<Longrightarrow> keeps P (DeleteUser Q uid tid)"
    and st_UpsertUserRole: "ok Q \<Longrightarrow> keeps P (UpsertUserRole Q uid tid role)"
    and st_CreateAPIToken: "ok Q \<Longrightarrow> keeps P (CreateAPIToken Q tid name hash role by exp)"
    and st_DeleteAPIToken: "ok Q \<Longrightarrow> keeps P (DeleteAPIToken Q j tid)"
    and st_UpdateAPITokenLastUsed: "ok Q \<Longrightarrow> keeps P (UpdateAPITokenLastUsed Q j)"
begin

lemmas stmts = st_CreatePolicy st_UpdatePolicy st_DeletePolicy st_CreateRule st_UpdateRule st_DeleteRule
  st_InsertConfigVersion st_CreateObjectGroup st_UpdateObjectGroup st_DeleteObjectGroup st_UpsertDefaultPolicy st_CreateHost
  st_UpsertBulkHost st_UpdateHostLabels st_UpdateHostStatus st_UpdateHostHeartbeat st_UpdateHostConnected st_UpdateHostGeneration
  st_UpdateHostFlowEnabled st_IncrementHostDesiredGeneration st_MarkStaleHosts st_DeleteHost st_InsertAuditLog st_insert_token
  st_consume_row st_DeleteToken st_InsertCertificate st_UpdateCertificateStatus st_CreateUser st_UpdateUserPassword
  st_UpdateUserStatus st_BumpUserTokenVersion st_UpdateUserLastLogin st_UpdateUserOIDCSubject st_DeleteUser st_UpsertUserRole
  st_CreateAPIToken st_DeleteAPIToken st_UpdateAPITokenLastUsed

lemma inv_CreateSingleHostToken: "ok Q \<Longrightarrow> keeps P (CreateSingleHostToken Q X rnd now tn h ttl m)"
  unfolding CreateSingleHostToken_def by (intro keeps_intros) (simp split: prod.split, intro allI impI keeps_intros stmts)

lemma inv_CreateBulkToken: "ok Q \<Longrightarrow> keeps P (CreateBulkToken Q X rnd now tn lt ttl m)"
  unfolding CreateBulkToken_def by (intro keeps_intros) (simp split: prod.split, intro allI impI keeps_intros stmts)

lemma inv_ValidateAndConsume: "ok Q \<Longrightarrow> keeps P (ValidateAndConsume Q X plain)"
proof -
  assume "ok Q"
  have "snd (ValidateAndConsume Q X plain d) = snd (consume_row Q (hashToken X plain) d)" for d
    by (simp add: ValidateAndConsume_def Let_def split: prod.split sum.split)
  then show ?thesis using keepsD [OF st_consume_row [OF \<open>ok Q\<close>]] by (simp add: keeps_def)
qed

lemma inv_bump: "ok Q \<Longrightarrow> P d \<Longrightarrow> P (bump_desired Q tenantID hostID d)"
  by (auto simp: bump_desired_def split: sum.splits intro: keepsD [OF st_IncrementHostDesiredGeneration])

lemma inv_recompile: "ok (cr_queries cr) \<Longrightarrow> P (store s) \<Longrightarrow> P (store (snd (recompile_hosts cr tenantID hostIDs s)))"
proof (induction hostIDs arbitrary: s)
  case (Cons x xs)
  define s1 where "s1 = s\<lparr>store := bump_desired (cr_queries cr) tenantID x (store s)\<rparr>"
  have "P (store s1)" using Cons.prems by (simp add: s1_def inv_bump)
  then show ?case using Cons.prems(1)
    by (auto simp: s1_def [symmetric] Let_def Cons.IH split: sum.splits prod.splits option.splits) (metis Cons.IH snd_conv)
qed simp

lemma inv_recompileAndDispatch: "ok (cr_queries cr) \<Longrightarrow> keeps (\<lambda>s. P (store s)) (recompileAndDispatch cr tenantID hostIDs)"
proof -
  have "snd (recompileAndDispatch cr tenantID hostIDs s) = snd (recompile_hosts cr tenantID hostIDs s)" for s
    by (auto simp: recompileAndDispatch_def split: prod.splits list.splits)
  then show "ok (cr_queries cr) \<Longrightarrow> ?thesis" by (simp add: keeps_def inv_recompile)
qed

lemma inv_enroll_db: "ok (es_queries E) \<Longrightarrow> keeps P (enroll_db E X now rnd req)"
proof -
  assume o: "ok (es_queries E)"
  have V: "keeps P (\<lambda>d. case ValidateAndConsume (es_queries E) X t d of (Inl e, d') \<Rightarrow> (Inl (token_status e), d') | (Inr t, d') \<Rightarrow> (Inr t, d'))" for t
    using inv_ValidateAndConsume [OF o, of X t] by (auto simp: keeps_def split: prod.splits sum.splits)
  have "keeps P (UpsertBulkHost (es_queries E) tid n l st)" for tid n l st by (rule st_UpsertBulkHost [OF o])
  then have R: "keeps P (resolveHost (es_queries E) X bt req)" for bt
    unfolding resolveHost_def
    by (intro keeps_intros) (auto simp: keeps_def Let_def wrapS_def split: prod.splits sum.splits option.splits, (metis snd_conv)+)
  show ?thesis unfolding enroll_db_def by (auto intro!: keeps_intros stmts V R o)
qed

lemma inv_cascades:
  assumes "ok (cr_queries cr)"
  shows "keeps (\<lambda>s. P (store s)) (OnPolicyChanged cr t p)" "keeps (\<lambda>s. P (store s)) (OnPolicyChangedWithOldSelector cr t p old)"
    "keeps (\<lambda>s. P (store s)) (OnObjectGroupChanged cr t g)" "keeps (\<lambda>s. P (store s)) (OnDefaultPolicyChanged cr t)"
    "keeps (\<lambda>s. P (store s)) (OnHostLabelsChanged cr t h)" "keeps (\<lambda>s. P (store s)) (OnHostEnrolled cr t h)"
  using keepsD [OF inv_recompileAndDispatch [OF assms]]
  by (auto simp: keeps_def OnPolicyChanged_def OnPolicyChangedWithOldSelector_def OnObjectGroupChanged_def OnDefaultPolicyChanged_def
      OnHostLabelsChanged_def OnHostEnrolled_def Let_def split: sum.splits)

lemma inv_Enroll:
  assumes "ok (es_queries E)" and "\<And>cr. es_cascade E = Some cr \<Longrightarrow> ok (cr_queries cr)"
  shows "keeps (\<lambda>s. P (store s)) (Enroll E X now rnd req)"
proof -
  have c: "P (store (enroll_cascade E i s))" if "P (store s)" for i s
    using that assms by (cases "es_cascade E") (simp_all add: enroll_cascade_def Let_def keepsD [OF inv_cascades(6)] keepsD [OF st_InsertAuditLog])
  have "P (snd (enroll_db E X now rnd req (store s)))" if "P (store s)" for s
    using keepsD [OF inv_enroll_db [OF assms(1)] that] .
  then show ?thesis using c by (force simp: keeps_def Enroll_def split: prod.splits sum.splits)
qed

end

interpretation typed: store_invariant db_typed "\<lambda>_. True"
  by unfold_locales (simp_all add: keeps_intros)

end
