(* ===== verification/Qf_RateLimit.thy ===== *)
theory Qf_RateLimit
  imports Qf_Prelude
begin

text \<open>
  The limit on login attempts (cp/internal/api/ratelimit.go): a window of one minute per
  client address that starts with its first attempt. Times are nanoseconds of the
  monotonic clock.
\<close>

section \<open>ratelimit.go\<close>

definition loginMaxAttempts :: int where "loginMaxAttempts = 5"
definition loginWindowDur :: int where "loginWindowDur = 60 * 1000000000"

record loginWindow =
  lw_count :: int
  lw_start :: int

type_synonym loginRateLimiter = "string \<rightharpoonup> loginWindow"

definition window_over :: "int \<Rightarrow> loginWindow \<Rightarrow> bool" where
  "window_over now w \<longleftrightarrow> loginWindowDur \<le> now - lw_start w"

text \<open>The loop that deletes all windows that are over.\<close>

definition prune :: "int \<Rightarrow> loginRateLimiter \<Rightarrow> loginRateLimiter" where
  "prune now l k = (case l k of None \<Rightarrow> None | Some w \<Rightarrow> if window_over now w then None else Some w)"

definition Allow :: "int \<Rightarrow> string \<Rightarrow> loginRateLimiter \<Rightarrow> bool \<times> loginRateLimiter" where
  "Allow now ip l =
     (let opened = (True, (prune now l)(ip \<mapsto> \<lparr>lw_count = 1, lw_start = now\<rparr>))
      in case l ip of
           None \<Rightarrow> opened
         | Some w \<Rightarrow>
             if window_over now w then opened
             else if loginMaxAttempts \<le> lw_count w then (False, l)
             else (True, l(ip \<mapsto> w\<lparr>lw_count := lw_count w + 1\<rparr>)))"

section \<open>The bound\<close>

text \<open>The times at which the attempts of an address are granted, in a sequence of attempts of all addresses.\<close>

fun granted :: "string \<Rightarrow> loginRateLimiter \<Rightarrow> (string \<times> int) list \<Rightarrow> int list" where
  "granted ip l [] = []"
| "granted ip l ((a, now) # calls) =
     (case Allow now a l of (g, l') \<Rightarrow> if a = ip \<and> g then now # granted ip l' calls else granted ip l' calls)"

definition in_minute :: "int \<Rightarrow> int list \<Rightarrow> nat" where
  "in_minute t xs = length (filter (\<lambda>x. t \<le> x \<and> x < t + loginWindowDur) xs)"

lemma in_minute_Cons: "in_minute t (x # xs) = (if t \<le> x \<and> x < t + loginWindowDur then 1 else 0) + in_minute t xs"
  by (simp add: in_minute_def)

lemma dur_pos: "0 < loginWindowDur"
  by (simp add: loginWindowDur_def)

lemma granted_times: "set (granted ip l calls) \<subseteq> snd ` set calls"
proof (induction calls arbitrary: l)
  case (Cons c calls)
  obtain a now where c: "c = (a, now)" by fastforce
  obtain g l' where "Allow now a l = (g, l')" by fastforce
  then show ?case using Cons.IH [of l'] by (auto simp: c)
qed simp

lemma in_minute_late:
  assumes "\<And>x. x \<in> snd ` set calls \<Longrightarrow> t + loginWindowDur \<le> x"
  shows "in_minute t (granted ip l calls) = 0"
  using assms granted_times [of ip l calls] by (fastforce simp: in_minute_def filter_empty_conv)

text \<open>How many attempts can still be granted in the minute after \<open>t\<close>, when the address has the given window at time \<open>u\<close>.\<close>

fun budget :: "loginWindow option \<Rightarrow> int \<Rightarrow> int \<Rightarrow> int" where
  "budget None u t = (if t \<le> u then 5 else 9)"
| "budget (Some w) u t = (if t \<le> lw_start w then 5 - lw_count w else if t \<le> lw_start w + loginWindowDur then 10 - lw_count w else 9)"

definition window_ok :: "loginWindow option \<Rightarrow> int \<Rightarrow> bool" where
  "window_ok wo u \<longleftrightarrow> pred_option (\<lambda>w. 1 \<le> lw_count w \<and> lw_count w \<le> 5 \<and> lw_start w \<le> u) wo"

text \<open>What one attempt does to the window of an address.\<close>

lemma Allow_other:
  assumes "a \<noteq> ip"
  shows "snd (Allow now a l) ip = l ip \<or> snd (Allow now a l) ip = prune now l ip"
  using assms by (auto simp: Allow_def Let_def split: option.split)

lemma Allow_self:
  "Allow now ip l = (g, l') \<Longrightarrow>
    (case l ip of
       Some w \<Rightarrow> if window_over now w then g \<and> l' ip = Some \<lparr>lw_count = 1, lw_start = now\<rparr>
         else if 5 \<le> lw_count w then \<not> g \<and> l' ip = Some w else g \<and> l' ip = Some (w\<lparr>lw_count := lw_count w + 1\<rparr>)
     | None \<Rightarrow> g \<and> l' ip = Some \<lparr>lw_count = 1, lw_start = now\<rparr>)"
  by (auto simp: Allow_def Let_def loginMaxAttempts_def split: option.splits if_splits)

lemma prune_cases: "prune now l ip = l ip \<or> (\<exists>w. l ip = Some w \<and> window_over now w \<and> prune now l ip = None)"
  by (auto simp: prune_def split: option.splits)

lemma granted_budget:
  assumes "window_ok (l ip) u" and "sorted (u # map snd calls)"
  shows "int (in_minute t (granted ip l calls)) \<le> budget (l ip) u t"
  using assms
proof (induction ip l calls arbitrary: u rule: granted.induct)
  case (1 ip l)
  then show ?case by (cases "l ip") (simp_all add: in_minute_def window_ok_def)
next
  case (2 ip l a now calls)
  obtain g l' where A: "Allow now a l = (g, l')" by fastforce
  have u: "u \<le> now" and srt: "sorted (now # map snd calls)" using "2.prems"(2) by auto
  have later: "x \<in> snd ` set calls \<Longrightarrow> now \<le> x" for x using srt by auto
  have late: "in_minute t (granted ip l' calls) = 0" if "t + loginWindowDur \<le> now"
    by (rule in_minute_late) (use later that in force)
  have IH: "int (in_minute t (granted ip l' calls)) \<le> budget (l' ip) now t" if "window_ok (l' ip) now"
    using that srt by (cases "a = ip \<and> g") (auto intro: "2.IH" [OF A [symmetric]])
  show ?case
  proof (cases "a = ip")
    case True
    have self: "case l ip of
       Some w \<Rightarrow> if window_over now w then g \<and> l' ip = Some \<lparr>lw_count = 1, lw_start = now\<rparr>
         else if 5 \<le> lw_count w then \<not> g \<and> l' ip = Some w else g \<and> l' ip = Some (w\<lparr>lw_count := lw_count w + 1\<rparr>)
     | None \<Rightarrow> g \<and> l' ip = Some \<lparr>lw_count = 1, lw_start = now\<rparr>"
      using Allow_self [of now ip l g l'] A True by simp
    then show ?thesis
      using IH late "2.prems"(1) u dur_pos A True
      by (cases "l ip") (auto simp: window_ok_def in_minute_Cons window_over_def split: if_splits)
  next
    case False
    have "l' ip = l ip \<or> (\<exists>w. l ip = Some w \<and> window_over now w \<and> l' ip = None)"
      using Allow_other [OF False, of now l] prune_cases [of now l ip] A by auto
    then show ?thesis
      using IH late "2.prems"(1) u dur_pos A False
      by (cases "l ip") (auto simp: window_ok_def window_over_def split: if_splits)
  qed
qed


text \<open>The first five attempts of an address are granted, whatever the others do.\<close>

definition used :: "loginWindow option \<Rightarrow> int" where
  "used wo = (case wo of None \<Rightarrow> 0 | Some w \<Rightarrow> lw_count w)"

lemma granted_all:
  assumes "used (l ip) + int (length (filter (\<lambda>c. fst c = ip) calls)) \<le> 5" and "0 \<le> used (l ip)"
  shows "granted ip l calls = map snd (filter (\<lambda>c. fst c = ip) calls)"
  using assms
proof (induction calls arbitrary: l)
  case (Cons c calls)
  obtain a now where c: "c = (a, now)" by fastforce
  obtain g l' where A: "Allow now a l = (g, l')" by fastforce
  show ?case
  proof (cases "a = ip")
    case True
    from Allow_self [of now ip l g l'] A True have "g \<and> 0 \<le> used (l' ip) \<and> used (l' ip) \<le> used (l ip) + 1"
      using Cons.prems c by (cases "l ip") (auto simp: used_def split: if_splits)
    then show ?thesis using Cons.prems Cons.IH [of l'] by (simp add: c True A [unfolded True])
  next
    case False
    have "l' ip = l ip \<or> l' ip = None" using Allow_other [OF False, of now l] prune_cases [of now l ip] A by auto
    then have "0 \<le> used (l' ip) \<and> used (l' ip) \<le> used (l ip)" using Cons.prems(2) by (auto simp: used_def)
    then show ?thesis using Cons.prems Cons.IH [of l'] False by (simp add: c A)
  qed
qed simp

text \<open>
  C23. The limit on logins: in any sequence of attempts of any addresses, at most nine
  attempts of one address are granted within any minute, and an address that makes at most
  five attempts is never refused, whatever other addresses do. Nine are possible, because the
  windows are fixed: four at the end of a window and five at the beginning of the next, as the
  witness shows.
\<close>

theorem login_attempts_bounded:
  assumes "sorted (map snd calls)"
  shows "in_minute t (granted ip Map.empty calls) \<le> 9
    \<and> (length (filter (\<lambda>c. fst c = ip) calls) \<le> 5 \<longrightarrow> granted ip Map.empty calls = map snd (filter (\<lambda>c. fst c = ip) calls))"
proof -
  have "int (in_minute t (granted ip Map.empty calls)) \<le> 9"
  proof (cases calls)
    case (Cons c cs)
    then have "sorted (snd c # map snd calls)" using assms by simp
    from granted_budget [OF _ this, where ip = ip and l = Map.empty and t = t] show ?thesis
      by (simp add: window_ok_def split: if_splits)
  qed (simp add: in_minute_def)
  then show ?thesis using granted_all [of Map.empty ip calls] by (simp add: used_def)
qed

theorem login_attempts_bounded_witness:
  "in_minute 1 (granted ''a'' Map.empty ((''a'', 0) # (''b'', 7) # replicate 5 (''a'', 59000000000) @ replicate 6 (''a'', 60000000000))) \<le> 9
   \<and> in_minute 1 (granted ''a'' Map.empty ((''a'', 0) # (''b'', 7) # replicate 5 (''a'', 59000000000) @ replicate 6 (''a'', 60000000000))) = 9
   \<and> granted ''b'' Map.empty ((''a'', 0) # (''b'', 7) # replicate 5 (''a'', 59000000000) @ replicate 6 (''a'', 60000000000)) = [7]"
proof -
  let ?calls = "(''a'', 0) # (''b'', 7) # replicate 5 (''a'', 59000000000) @ replicate 6 (''a'', 60000000000) :: (string \<times> int) list"
  have s: "sorted (map snd ?calls)" by (simp add: numeral_eq_Suc)
  have "in_minute 1 (granted ''a'' Map.empty ?calls) = 9" by code_simp
  then show ?thesis using login_attempts_bounded [OF s, of 1 "''a''"] login_attempts_bounded [OF s, of 1 "''b''"] by simp
qed

end
