(* ===== verification/Qf_Api.thy ===== *)
theory Qf_Api
  imports Qf_Registry Qf_Accounts Qf_RateLimit
begin

text \<open>
  The REST handlers of the control plane that change policies, rules, object groups, default
  policies, hosts and tokens (cp/internal/api), with the role check of cp/internal/auth and
  the audit middleware. A handler is a function on the tables, the registry of streams and
  the goroutines it started but that have not run yet: cascades, version snapshots, audit
  rows and disconnect signals are jobs, run later in any order. The JSON codec is an
  argument: a request body is the result of decoding it.
\<close>

section \<open>Requests and responses\<close>

record Claims =
  cl_UserID :: string
  cl_TenantID :: string
  cl_Username :: string
  cl_Email :: string
  cl_Role :: string

text \<open>
  \<open>rq_claims\<close> are the claims in the request's context, \<open>rq_cookie\<close> and \<open>rq_refresh\<close> the two
  session cookies, \<open>rq_authz\<close> the \<open>Authorization\<close> header and \<open>rq_tenant\<close> \<open>X-Tenant-ID\<close>, both
  empty when absent.
\<close>

record http_Request =
  rq_claims :: "Claims option"
  rq_cookie :: "string option"
  rq_refresh :: "string option"
  rq_authz :: string
  rq_ip :: string
  rq_path :: string
  rq_tenant :: string
  rq_id :: string
  rq_ruleID :: string
  rq_v :: string
  rq_type :: string

record PolicyResponse =
  pr_ID :: string
  pr_TenantID :: string
  pr_Name :: string
  pr_Description :: string
  pr_Priority :: i32
  pr_Selector :: bytes
  pr_CurrentVersion :: i32
  pr_CreatedAt :: int

record RuleResponse =
  rr_ID :: string
  rr_PolicyID :: string
  rr_Name :: string
  rr_Priority :: i32
  rr_Direction :: string
  rr_Match :: bytes
  rr_State :: "string option"
  rr_Action :: string
  rr_Log :: bool
  rr_Silent :: bool

record ObjectGroupResponse =
  ogr_ID :: string
  ogr_TenantID :: string
  ogr_Type :: string
  ogr_Name :: string
  ogr_Spec :: bytes

record DefaultPolicyResponse =
  dpr_TenantID :: string
  dpr_Ingress :: string
  dpr_Egress :: string

record HostResponse =
  hr_ID :: string
  hr_TenantID :: string
  hr_Hostname :: string
  hr_Labels :: "string \<rightharpoonup> string"
  hr_Status :: string
  hr_CurrentGeneration :: i32
  hr_DesiredGeneration :: i32
  hr_LastHeartbeatAt :: "int option"
  hr_AgentVersion :: "string option"
  hr_KernelVersion :: "string option"
  hr_FlowEventsEnabled :: bool
  hr_CreatedAt :: int

record versionResponse =
  vr_Version :: i32
  vr_Content :: bytes
  vr_CreatedBy :: string

record TokenResponse =
  tr_ID :: string
  tr_TenantID :: string
  tr_Type :: string
  tr_TargetHostID :: "string option"
  tr_LabelTemplate :: "bytes option"
  tr_MaxUses :: i32
  tr_UsesCount :: i32
  tr_ExpiresAt :: int
  tr_PlainToken :: string

record meResponse =
  me_ID :: string
  me_Username :: string
  me_Email :: string
  me_Role :: string
  me_TenantID :: string

record userResponse =
  usr_ID :: string
  usr_Username :: string
  usr_Email :: string
  usr_Status :: string
  usr_Role :: string
  usr_IsOIDC :: bool
  usr_LastLoginAt :: "int option"
  usr_CreatedAt :: int

record apiTokenResponse =
  atr_ID :: string
  atr_Name :: string
  atr_Role :: string
  atr_CreatedBy :: string
  atr_ExpiresAt :: "int option"
  atr_LastUsedAt :: "int option"
  atr_CreatedAt :: int
  atr_PlainToken :: string

text \<open>
  The bodies of responses. The ones of the session endpoints carry the cookies that are
  set: the access token and the refresh token, empty when the cookie is cleared.
\<close>

datatype json_body =
    NoBody
  | ErrorBody goerr
  | PolicyBody PolicyResponse
  | PoliciesBody "PolicyResponse list"
  | PolicyDetailBody PolicyResponse "RuleResponse list"
  | RuleBody RuleResponse
  | RulesBody "RuleResponse list"
  | VersionsBody "versionResponse list"
  | GroupBody ObjectGroupResponse
  | GroupsBody "ObjectGroupResponse list"
  | DefaultPolicyBody DefaultPolicyResponse
  | HostBody HostResponse
  | HostsBody "HostResponse list"
  | TokenBody TokenResponse
  | TokensBody "TokenResponse list"
  | PlainTokenBody string
  | MeBody meResponse
  | SessionBody meResponse string "string option"
  | ClearedBody
  | RedirectBody string string
  | UserBody userResponse
  | UsersBody "userResponse list"
  | RoleBody string string
  | ApiTokenBody apiTokenResponse
  | ApiTokensBody "apiTokenResponse list"

type_synonym response = "nat \<times> json_body"

record createPolicyRequest =
  cpr_Name :: string
  cpr_Description :: string
  cpr_Priority :: i32
  cpr_Selector :: bytes

record createRuleRequest =
  crr_Name :: string
  crr_Priority :: i32
  crr_Direction :: string
  crr_Match :: bytes
  crr_State :: "string option"
  crr_Action :: string
  crr_Log :: bool
  crr_Silent :: bool

record updatePolicyRequest = createPolicyRequest +
  upr_Rules :: "createRuleRequest list"

record policySnapshot =
  ps_Name :: string
  ps_Description :: string
  ps_Priority :: i32
  ps_Selector :: bytes
  ps_Rules :: "createRuleRequest list"

record createHostRequest =
  chr_Hostname :: string
  chr_Labels :: "string \<rightharpoonup> string"
  chr_Status :: string

record patchHostRequest =
  phr_Labels :: "(string \<rightharpoonup> string) option"
  phr_Status :: "string option"
  phr_FlowEventsEnabled :: "bool option"

record createTokenRequest =
  ctr_Type :: string
  ctr_TargetHostID :: string
  ctr_LabelTemplate :: "string \<rightharpoonup> string"
  ctr_TTLSeconds :: int
  ctr_MaxUses :: int

section \<open>The server\<close>

text \<open>
  Work handed to goroutines. \<open>JobAudit\<close> is the row of the audit middleware, \<open>JobVersion\<close>
  the snapshot of a policy, which runs under the request's context.
\<close>

datatype job =
    JobPolicy string string
  | JobPolicyOld string string bytes
  | JobGroup string string
  | JobDefault string
  | JobLabels string string
  | JobDisconnect string
  | JobVersion bytes bytes bytes string
  | JobAudit bytes string "bytes option" string string "bytes option" "bytes option" "bytes option"
  | JobTokenUsed bytes

record web =
  wb_cp :: "StreamRegistry CP"
  wb_jobs :: "job list"
  wb_before :: "bytes option"
  wb_logins :: loginRateLimiter

abbreviation wb_store :: "web \<Rightarrow> db" where
  "wb_store w \<equiv> store (wb_cp w)"

text \<open>
  The dependencies of the router: the queries, the recompiler, the configured tenant, whether
  a disconnector is set, and the JSON encoders. Encoding a body never fails here: the types
  of the responses have no values JSON cannot express.
\<close>

record jwt_payload =
  jp_uid :: string
  jp_tid :: string
  jp_username :: string
  jp_email :: string
  jp_role :: string
  jp_tv :: i32
  jp_sub :: string
  jp_iat :: int
  jp_exp :: int

text \<open>
  \<open>ap_jwt_Sign\<close> and \<open>ap_jwt_Parse\<close> sign a payload with HMAC and check such a token at a given
  time; fields a token does not have are decoded as zero values. \<open>ap_bcrypt_Compare\<close> and
  \<open>ap_bcrypt_Generate\<close> check and make password hashes.
\<close>

record api =
  ap_q :: Queries
  ap_X :: x509
  ap_cascade :: "StreamRegistry CascadeRecompiler option"
  ap_tenantID :: bytes
  ap_disconnector :: bool
  ap_json :: "json_body \<Rightarrow> bytes"
  ap_snapshot :: "policySnapshot \<Rightarrow> bytes"
  ap_unsnapshot :: "bytes \<Rightarrow> policySnapshot res"
  ap_secret :: bytes
  ap_jwt_Sign :: "bytes \<Rightarrow> jwt_payload \<Rightarrow> string res"
  ap_jwt_Parse :: "bytes \<Rightarrow> int \<Rightarrow> string \<Rightarrow> jwt_payload res"
  ap_bcrypt_Compare :: "string \<Rightarrow> string \<Rightarrow> bool"
  ap_bcrypt_Generate :: "string \<Rightarrow> string res"

type_synonym 'a handler = "web \<Rightarrow> (response + 'a) \<times> web"

definition bindH :: "'a handler \<Rightarrow> ('a \<Rightarrow> 'b handler) \<Rightarrow> 'b handler" where
  "bindH m f w = (case m w of (Inl r, w') \<Rightarrow> (Inl r, w') | (Inr x, w') \<Rightarrow> f x w')"

definition retH :: "'a \<Rightarrow> 'a handler" where
  "retH x w = (Inr x, w)"

text \<open>Both kinds of answers end the handler: an error, or a response.\<close>

definition apiError :: "nat \<Rightarrow> goerr \<Rightarrow> 'a handler" where
  "apiError code e w = (Inl (code, ErrorBody e), w)"

definition writeJSON :: "nat \<Rightarrow> json_body \<Rightarrow> 'a handler" where
  "writeJSON code v w = (Inl (code, v), w)"

definition readH :: "(db \<Rightarrow> 'a) \<Rightarrow> 'a handler" where
  "readH f w = (Inr (f (wb_store w)), w)"

text \<open>A query or statement whose error is answered with the given code.\<close>

definition queryH :: "nat \<Rightarrow> (goerr \<Rightarrow> goerr) \<Rightarrow> (db \<Rightarrow> 'a res) \<Rightarrow> 'a handler" where
  "queryH code msg f w = (case f (wb_store w) of Inl e \<Rightarrow> apiError code (msg e) w | Inr x \<Rightarrow> (Inr x, w))"

definition stmtH :: "nat \<Rightarrow> (goerr \<Rightarrow> goerr) \<Rightarrow> (db, 'a) st \<Rightarrow> 'a handler" where
  "stmtH code msg m w = (case m (wb_store w) of (r, d) \<Rightarrow>
     let w' = w\<lparr>wb_cp := (wb_cp w)\<lparr>store := d\<rparr>\<rparr> in
     case r of Inl e \<Rightarrow> apiError code (msg e) w' | Inr x \<Rightarrow> (Inr x, w'))"

definition spawn :: "job \<Rightarrow> unit handler" where
  "spawn j w = (Inr (), w\<lparr>wb_jobs := wb_jobs w @ [j]\<rparr>)"

definition SetAuditBefore :: "bytes \<Rightarrow> unit handler" where
  "SetAuditBefore b w = (Inr (), w\<lparr>wb_before := Some b\<rparr>)"

definition decodeJSON :: "'a res \<Rightarrow> 'a handler" where
  "decodeJSON body = (case body of Inl e \<Rightarrow> apiError 400 (Wrapf ''invalid JSON'' e) | Inr x \<Rightarrow> retH x)"

definition tenantFromRequest :: "api \<Rightarrow> http_Request \<Rightarrow> bytes handler" where
  "tenantFromRequest A rq =
     (let header = (if rq_tenant rq = '''' then apiError 400 (Errorf ''X-Tenant-ID header required'')
                    else case uuid_Scan (ap_q A) (rq_tenant rq) of
                      Inl _ \<Rightarrow> apiError 400 (Errorf ''invalid X-Tenant-ID'') | Inr u \<Rightarrow> retH u)
      in case rq_claims rq of
           None \<Rightarrow> header
         | Some c \<Rightarrow> if cl_TenantID c = '''' then header
             else (case uuid_Scan (ap_q A) (cl_TenantID c) of Inr u \<Rightarrow> retH u | Inl _ \<Rightarrow> header))"

definition uuidParam :: "api \<Rightarrow> string \<Rightarrow> bytes handler" where
  "uuidParam A raw = (case uuid_Scan (ap_q A) raw of Inl _ \<Rightarrow> apiError 400 (Errorf ''invalid id'') | Inr u \<Rightarrow> retH u)"

definition rawJSONOrEmpty :: "bytes \<Rightarrow> bytes" where
  "rawJSONOrEmpty raw = (if raw = [] then map of_char ''{}'' else raw)"

definition jsonOrNull :: "bytes \<Rightarrow> bytes" where
  "jsonOrNull b = (if b = [] then map of_char ''null'' else b)"

definition RequireRole :: "string list \<Rightarrow> http_Request \<Rightarrow> unit handler" where
  "RequireRole roles rq =
     (case rq_claims rq of
        None \<Rightarrow> apiError 401 (Errorf ''unauthorized'')
      | Some c \<Rightarrow> if cl_Role c \<in> set roles then retH () else apiError 403 (Errorf ''forbidden''))"

section \<open>policies.go\<close>

definition toPolicyResponse :: "Policy \<Rightarrow> PolicyResponse" where
  "toPolicyResponse p = \<lparr>pr_ID = pgUUIDToStr (p_ID p), pr_TenantID = pgUUIDToStr (p_TenantID p), pr_Name = p_Name p,
     pr_Description = p_Description p, pr_Priority = p_Priority p, pr_Selector = jsonOrNull (p_Selector p),
     pr_CurrentVersion = p_CurrentVersion p, pr_CreatedAt = p_CreatedAt p\<rparr>"

definition toRuleResponse :: "Rule \<Rightarrow> RuleResponse" where
  "toRuleResponse r = \<lparr>rr_ID = pgUUIDToStr (r_ID r), rr_PolicyID = pgUUIDToStr (r_PolicyID r), rr_Name = r_Name r,
     rr_Priority = r_Priority r, rr_Direction = r_Direction r, rr_Match = jsonOrNull (r_Match r), rr_State = r_State r,
     rr_Action = r_Action r, rr_Log = r_Log r, rr_Silent = r_Silent r\<rparr>"

definition toPolicyDetailResponse :: "Policy \<Rightarrow> Rule list \<Rightarrow> json_body" where
  "toPolicyDetailResponse p rules = PolicyDetailBody (toPolicyResponse p) (map toRuleResponse rules)"

definition snapshotPolicy :: "Policy \<Rightarrow> Rule list \<Rightarrow> policySnapshot" where
  "snapshotPolicy p rules = \<lparr>ps_Name = p_Name p, ps_Description = p_Description p, ps_Priority = p_Priority p,
     ps_Selector = jsonOrNull (p_Selector p),
     ps_Rules = map (\<lambda>r. \<lparr>crr_Name = r_Name r, crr_Priority = r_Priority r, crr_Direction = r_Direction r,
        crr_Match = jsonOrNull (r_Match r), crr_State = r_State r, crr_Action = r_Action r, crr_Log = r_Log r,
        crr_Silent = r_Silent r\<rparr>) rules\<rparr>"

text \<open>The parameters of \<open>CreateRule\<close>; its id is generated.\<close>

definition rule_params :: "bytes \<Rightarrow> createRuleRequest \<Rightarrow> Rule" where
  "rule_params pid q = \<lparr>r_ID = [], r_PolicyID = pid, r_Name = crr_Name q, r_Priority = crr_Priority q,
     r_Direction = crr_Direction q, r_Match = rawJSONOrEmpty (crr_Match q), r_State = crr_State q, r_Action = crr_Action q,
     r_Log = crr_Log q, r_Silent = crr_Silent q\<rparr>"

definition rule_defaults :: "createRuleRequest \<Rightarrow> createRuleRequest" where
  "rule_defaults q = q\<lparr>crr_Direction := (if crr_Direction q = '''' then ''ingress'' else crr_Direction q),
     crr_Action := (if crr_Action q = '''' then ''deny'' else crr_Action q)\<rparr>"

definition dispatchCascade :: "api \<Rightarrow> bytes \<Rightarrow> unit handler" where
  "dispatchCascade A pid = (case ap_cascade A of None \<Rightarrow> retH ()
     | Some _ \<Rightarrow> spawn (JobPolicy (pgUUIDToStr (ap_tenantID A)) (pgUUIDToStr pid)))"

definition dispatchCascadeWithOldSelector :: "api \<Rightarrow> bytes \<Rightarrow> bytes \<Rightarrow> unit handler" where
  "dispatchCascadeWithOldSelector A pid old = (case ap_cascade A of None \<Rightarrow> retH ()
     | Some _ \<Rightarrow> spawn (JobPolicyOld (pgUUIDToStr (ap_tenantID A)) (pgUUIDToStr pid) old))"

definition policies_list :: "api \<Rightarrow> http_Request \<Rightarrow> response handler" where
  "policies_list A rq =
     bindH (tenantFromRequest A rq) (\<lambda>tid.
     bindH (queryH 500 (Wrapf ''list policies'') (\<lambda>d. ListPolicies (ap_q A) d tid)) (\<lambda>ps.
       writeJSON 200 (PoliciesBody (map toPolicyResponse ps))))"

definition policies_create :: "api \<Rightarrow> http_Request \<Rightarrow> createPolicyRequest res \<Rightarrow> response handler" where
  "policies_create A rq body =
     bindH (tenantFromRequest A rq) (\<lambda>tid.
     bindH (decodeJSON body) (\<lambda>req.
       if cpr_Name req = '''' then apiError 400 (Errorf ''name required'')
       else bindH (stmtH 500 (Wrapf ''create policy'') (CreatePolicy (ap_q A) tid (cpr_Name req) (cpr_Description req) (cpr_Priority req)
                     (rawJSONOrEmpty (cpr_Selector req)))) (\<lambda>p.
            writeJSON 201 (PolicyBody (toPolicyResponse p)))))"

definition policies_get :: "api \<Rightarrow> http_Request \<Rightarrow> response handler" where
  "policies_get A rq =
     bindH (tenantFromRequest A rq) (\<lambda>tid.
     bindH (uuidParam A (rq_id rq)) (\<lambda>pid.
     bindH (queryH 404 (\<lambda>_. Errorf ''policy not found'') (\<lambda>d. GetPolicy (ap_q A) d pid tid)) (\<lambda>p.
     bindH (readH (\<lambda>d. dropErr (ListRulesByPolicy (ap_q A) d pid))) (\<lambda>rules.
       writeJSON 200 (toPolicyDetailResponse p rules)))))"

text \<open>
  \<open>update\<close> runs its statements in a transaction, here on the tables directly; when one
  fails or the commit does, the tables are those of before (the statement counter goes on).
  A failing \<open>ListRulesByPolicy\<close> aborts the transaction too, so that the next statement or
  the commit fails.
\<close>

definition rollback :: "db \<Rightarrow> db \<Rightarrow> db" where
  "rollback d0 d = d0\<lparr>t_seq := t_seq d\<rparr>"

definition replace_rules :: "api \<Rightarrow> bytes \<Rightarrow> createRuleRequest list \<Rightarrow> (db, unit) st" where
  "replace_rules A pid reqs =
     bindS (\<lambda>d. wrapS ''commit tx'' (liftS (ListRulesByPolicy (ap_q A) d pid)) d) (\<lambda>existing.
     bindS (forS (\<lambda>er. wrapS ''delete rule'' (DeleteRule (ap_q A) (r_ID er))) existing) (\<lambda>_.
       forS (\<lambda>rr. bindS (wrapS ''create rule'' (CreateRule (ap_q A) (rule_params pid (rule_defaults rr)))) (\<lambda>_. retS ())) reqs))"

definition update_tx :: "api \<Rightarrow> bytes \<Rightarrow> bytes \<Rightarrow> updatePolicyRequest \<Rightarrow> (db, Policy) st" where
  "update_tx A pid tid req d0 =
     (case bindS (wrapS ''begin tx'' (writeS (ap_q A) (retS ()))) (\<lambda>_.
           bindS (wrapS ''update policy'' (UpdatePolicy (ap_q A) pid tid (cpr_Name req) (cpr_Description req) (cpr_Priority req)
                    (rawJSONOrEmpty (cpr_Selector req)))) (\<lambda>p.
           bindS (replace_rules A pid (upr_Rules req)) (\<lambda>_.
           bindS (wrapS ''commit tx'' (writeS (ap_q A) (retS ()))) (\<lambda>_. retS p)))) d0 of
        (Inl e, d) \<Rightarrow> (Inl e, rollback d0 d)
      | (Inr p, d) \<Rightarrow> (Inr p, d))"

definition actor_of :: "http_Request \<Rightarrow> string" where
  "actor_of rq = (case rq_claims rq of None \<Rightarrow> '''' | Some c \<Rightarrow> cl_Email c)"

definition policies_update :: "api \<Rightarrow> http_Request \<Rightarrow> updatePolicyRequest res \<Rightarrow> response handler" where
  "policies_update A rq body =
     bindH (tenantFromRequest A rq) (\<lambda>tid.
     bindH (uuidParam A (rq_id rq)) (\<lambda>pid.
     bindH (decodeJSON body) (\<lambda>req.
       if cpr_Name req = '''' then apiError 400 (Errorf ''name required'')
       else
         bindH (readH (\<lambda>d. GetPolicy (ap_q A) d pid tid)) (\<lambda>curr.
         bindH (case curr of Inl _ \<Rightarrow> retH ()
                | Inr cur \<Rightarrow> bindH (readH (\<lambda>d. dropErr (ListRulesByPolicy (ap_q A) d pid))) (\<lambda>curRules.
                    SetAuditBefore (ap_json A (toPolicyDetailResponse cur curRules)))) (\<lambda>_.
         bindH (stmtH 500 (\<lambda>e. e) (update_tx A pid tid req)) (\<lambda>policy.
         bindH (readH (\<lambda>d. dropErr (ListRulesByPolicy (ap_q A) d pid))) (\<lambda>savedRules.
         bindH (spawn (JobVersion tid pid (ap_snapshot A (snapshotPolicy policy savedRules)) (actor_of rq))) (\<lambda>_.
         bindH (dispatchCascadeWithOldSelector A pid (case curr of Inl _ \<Rightarrow> [] | Inr cur \<Rightarrow> p_Selector cur)) (\<lambda>_.
           writeJSON 200 (toPolicyDetailResponse policy savedRules))))))))))"

definition policies_delete :: "api \<Rightarrow> http_Request \<Rightarrow> response handler" where
  "policies_delete A rq =
     bindH (tenantFromRequest A rq) (\<lambda>tid.
     bindH (uuidParam A (rq_id rq)) (\<lambda>pid.
     bindH (stmtH 500 (Wrapf ''delete policy'') (DeletePolicy (ap_q A) pid tid)) (\<lambda>_.
     bindH (dispatchCascade A pid) (\<lambda>_.
       writeJSON 204 NoBody))))"

definition resolvePolicy :: "api \<Rightarrow> http_Request \<Rightarrow> bytes handler" where
  "resolvePolicy A rq =
     bindH (tenantFromRequest A rq) (\<lambda>tid.
     bindH (uuidParam A (rq_id rq)) (\<lambda>pid.
     bindH (queryH 404 (\<lambda>_. Errorf ''policy not found'') (\<lambda>d. GetPolicy (ap_q A) d pid tid)) (\<lambda>_.
       retH pid)))"

definition policies_listRules :: "api \<Rightarrow> http_Request \<Rightarrow> response handler" where
  "policies_listRules A rq =
     bindH (resolvePolicy A rq) (\<lambda>pid.
     bindH (queryH 500 (Wrapf ''list rules'') (\<lambda>d. ListRulesByPolicy (ap_q A) d pid)) (\<lambda>rules.
       writeJSON 200 (RulesBody (map toRuleResponse rules))))"

definition related_error :: goerr where
  "related_error = Errorf ''state=related is not implemented in the BPF datapath; rules with this state will never match''"

definition policies_createRule :: "api \<Rightarrow> http_Request \<Rightarrow> createRuleRequest res \<Rightarrow> response handler" where
  "policies_createRule A rq body =
     bindH (resolvePolicy A rq) (\<lambda>pid.
     bindH (decodeJSON body) (\<lambda>req.
       if crr_Name req = '''' then apiError 400 (Errorf ''name required'')
       else if crr_State req = Some ''related'' then apiError 422 related_error
       else bindH (stmtH 500 (Wrapf ''create rule'') (CreateRule (ap_q A) (rule_params pid (rule_defaults req)))) (\<lambda>rule.
            bindH (dispatchCascade A pid) (\<lambda>_. writeJSON 201 (RuleBody (toRuleResponse rule))))))"

text \<open>The rule a path names, if it belongs to the policy the path names.\<close>

definition rule_of_policy :: "api \<Rightarrow> http_Request \<Rightarrow> bytes \<Rightarrow> Rule handler" where
  "rule_of_policy A rq pid =
     bindH (uuidParam A (rq_ruleID rq)) (\<lambda>rid.
       queryH 404 (\<lambda>_. Errorf ''rule not found'') (\<lambda>d. case GetRule (ap_q A) d rid of
         Inl e \<Rightarrow> Inl e | Inr r \<Rightarrow> if r_PolicyID r \<noteq> pid then Inl (Errorf ''other policy'') else Inr r))"

definition policies_getRule :: "api \<Rightarrow> http_Request \<Rightarrow> response handler" where
  "policies_getRule A rq =
     bindH (resolvePolicy A rq) (\<lambda>pid.
     bindH (rule_of_policy A rq pid) (\<lambda>r. writeJSON 200 (RuleBody (toRuleResponse r))))"

definition policies_updateRule :: "api \<Rightarrow> http_Request \<Rightarrow> createRuleRequest res \<Rightarrow> response handler" where
  "policies_updateRule A rq body =
     bindH (resolvePolicy A rq) (\<lambda>pid.
     bindH (rule_of_policy A rq pid) (\<lambda>old.
     bindH (decodeJSON body) (\<lambda>req.
       if crr_Name req = '''' then apiError 400 (Errorf ''name required'')
       else if crr_State req = Some ''related'' then apiError 422 related_error
       else bindH (stmtH 500 (Wrapf ''update rule'') (UpdateRule (ap_q A) ((rule_params pid req)\<lparr>r_ID := r_ID old\<rparr>))) (\<lambda>rule.
            bindH (dispatchCascade A pid) (\<lambda>_. writeJSON 200 (RuleBody (toRuleResponse rule)))))))"

definition policies_deleteRule :: "api \<Rightarrow> http_Request \<Rightarrow> response handler" where
  "policies_deleteRule A rq =
     bindH (resolvePolicy A rq) (\<lambda>pid.
     bindH (rule_of_policy A rq pid) (\<lambda>old.
     bindH (stmtH 500 (Wrapf ''delete rule'') (DeleteRule (ap_q A) (r_ID old))) (\<lambda>_.
     bindH (dispatchCascade A pid) (\<lambda>_. writeJSON 204 NoBody))))"

definition policies_listVersions :: "api \<Rightarrow> http_Request \<Rightarrow> response handler" where
  "policies_listVersions A rq =
     bindH (tenantFromRequest A rq) (\<lambda>tid.
     bindH (uuidParam A (rq_id rq)) (\<lambda>pid.
     bindH (queryH 404 (\<lambda>_. Errorf ''policy not found'') (\<lambda>d. GetPolicy (ap_q A) d pid tid)) (\<lambda>_.
     bindH (queryH 500 (Wrapf ''list versions'') (\<lambda>d. ListConfigVersions (ap_q A) d tid ''policy'' pid)) (\<lambda>vs.
       writeJSON 200 (VersionsBody (map (\<lambda>v. \<lparr>vr_Version = cv_Version v, vr_Content = cv_Content v, vr_CreatedBy = cv_CreatedBy v\<rparr>) vs))))))"

text \<open>A statement whose error is ignored, and \<open>strconv.Atoi\<close> for the version number.\<close>

definition ignoreH :: "(db, 'a) st \<Rightarrow> unit handler" where
  "ignoreH m w = (Inr (), w\<lparr>wb_cp := (wb_cp w)\<lparr>store := snd (m (wb_store w))\<rparr>\<rparr>)"

fun forH :: "('a \<Rightarrow> unit handler) \<Rightarrow> 'a list \<Rightarrow> unit handler" where
  "forH f [] w = (Inr (), w)"
| "forH f (x # xs) w = bindH (f x) (\<lambda>_. forH f xs) w"

definition policies_revertVersion :: "api \<Rightarrow> http_Request \<Rightarrow> int res \<Rightarrow> response handler" where
  "policies_revertVersion A rq vNum =
     bindH (tenantFromRequest A rq) (\<lambda>tid.
     bindH (uuidParam A (rq_id rq)) (\<lambda>pid.
       case vNum of Inl _ \<Rightarrow> apiError 400 (Errorf ''invalid version'')
       | Inr v \<Rightarrow> if v < 1 then apiError 400 (Errorf ''invalid version'') else
         bindH (queryH 404 (\<lambda>_. Errorf ''version not found'') (\<lambda>d. GetConfigVersion (ap_q A) d tid ''policy'' pid (of_int v))) (\<lambda>snap.
         bindH (queryH 500 (Wrapf ''corrupt snapshot'') (\<lambda>_. ap_unsnapshot A (cv_Content snap))) (\<lambda>snapshot.
         bindH (stmtH 500 (Wrapf ''revert policy'') (UpdatePolicy (ap_q A) pid tid (ps_Name snapshot) (ps_Description snapshot)
                  (ps_Priority snapshot) (rawJSONOrEmpty (ps_Selector snapshot)))) (\<lambda>policy.
         bindH (readH (\<lambda>d. dropErr (ListRulesByPolicy (ap_q A) d pid))) (\<lambda>existing.
         bindH (forH (\<lambda>er. ignoreH (DeleteRule (ap_q A) (r_ID er))) existing) (\<lambda>_.
         bindH (forH (\<lambda>sr. ignoreH (CreateRule (ap_q A) (rule_params pid sr))) (ps_Rules snapshot)) (\<lambda>_.
         bindH (ignoreH (InsertConfigVersion (ap_q A) tid ''policy'' pid (cv_Content snap) (actor_of rq))) (\<lambda>_.
           writeJSON 200 (PolicyBody (toPolicyResponse policy)))))))))))"

section \<open>objectgroups.go, defaultpolicy.go\<close>

definition toOGResponse :: "ObjectGroup \<Rightarrow> ObjectGroupResponse" where
  "toOGResponse g = \<lparr>ogr_ID = pgUUIDToStr (og_ID g), ogr_TenantID = pgUUIDToStr (og_TenantID g), ogr_Type = og_Type g,
     ogr_Name = og_Name g, ogr_Spec = jsonOrNull (og_Spec g)\<rparr>"

definition og_dispatchCascade :: "api \<Rightarrow> bytes \<Rightarrow> bytes \<Rightarrow> unit handler" where
  "og_dispatchCascade A tid oid = (case ap_cascade A of None \<Rightarrow> retH () | Some _ \<Rightarrow> spawn (JobGroup (pgUUIDToStr tid) (pgUUIDToStr oid)))"

definition groups_list :: "api \<Rightarrow> http_Request \<Rightarrow> response handler" where
  "groups_list A rq =
     bindH (tenantFromRequest A rq) (\<lambda>tid.
     bindH (queryH 500 (Wrapf ''list objectgroups'') (\<lambda>d.
              if rq_type rq \<noteq> '''' then ListObjectGroupsByType (ap_q A) d tid (rq_type rq) else ListObjectGroups (ap_q A) d tid)) (\<lambda>gs.
       writeJSON 200 (GroupsBody (map toOGResponse gs))))"

text \<open>The body of a create request is the type, the name and the spec; of an update the spec.\<close>

definition groups_create :: "api \<Rightarrow> http_Request \<Rightarrow> (string \<times> string \<times> bytes) res \<Rightarrow> response handler" where
  "groups_create A rq body =
     bindH (tenantFromRequest A rq) (\<lambda>tid.
     bindH (decodeJSON body) (\<lambda>(ty, name, spec).
       if name = '''' then apiError 400 (Errorf ''name required'')
       else if ty \<notin> {''ipset'', ''portset'', ''hostset''} then apiError 400 (Errorf ''type must be ipset, portset, or hostset'')
       else bindH (stmtH 500 (Wrapf ''create objectgroup'') (CreateObjectGroup (ap_q A) tid ty name (rawJSONOrEmpty spec))) (\<lambda>g.
            writeJSON 201 (GroupBody (toOGResponse g)))))"

definition groups_get :: "api \<Rightarrow> http_Request \<Rightarrow> response handler" where
  "groups_get A rq =
     bindH (tenantFromRequest A rq) (\<lambda>tid.
     bindH (uuidParam A (rq_id rq)) (\<lambda>oid.
     bindH (queryH 404 (\<lambda>_. Errorf ''objectgroup not found'') (\<lambda>d. GetObjectGroup (ap_q A) d oid tid)) (\<lambda>g.
       writeJSON 200 (GroupBody (toOGResponse g)))))"

definition groups_update :: "api \<Rightarrow> http_Request \<Rightarrow> bytes res \<Rightarrow> response handler" where
  "groups_update A rq body =
     bindH (tenantFromRequest A rq) (\<lambda>tid.
     bindH (uuidParam A (rq_id rq)) (\<lambda>oid.
     bindH (decodeJSON body) (\<lambda>spec.
     bindH (stmtH 500 (Wrapf ''update objectgroup'') (UpdateObjectGroup (ap_q A) oid tid (rawJSONOrEmpty spec))) (\<lambda>g.
     bindH (og_dispatchCascade A tid oid) (\<lambda>_.
       writeJSON 200 (GroupBody (toOGResponse g)))))))"

definition groups_delete :: "api \<Rightarrow> http_Request \<Rightarrow> response handler" where
  "groups_delete A rq =
     bindH (tenantFromRequest A rq) (\<lambda>tid.
     bindH (uuidParam A (rq_id rq)) (\<lambda>oid.
     bindH (stmtH 500 (Wrapf ''delete objectgroup'') (DeleteObjectGroup (ap_q A) oid tid)) (\<lambda>_.
     bindH (og_dispatchCascade A tid oid) (\<lambda>_.
       writeJSON 204 NoBody))))"

definition toDPResponse :: "DefaultPolicy \<Rightarrow> DefaultPolicyResponse" where
  "toDPResponse dp = \<lparr>dpr_TenantID = pgUUIDToStr (dp_TenantID dp), dpr_Ingress = dp_Ingress dp, dpr_Egress = dp_Egress dp\<rparr>"

definition defaultpolicy_get :: "api \<Rightarrow> http_Request \<Rightarrow> response handler" where
  "defaultpolicy_get A rq =
     bindH (tenantFromRequest A rq) (\<lambda>tid.
     bindH (queryH 404 (\<lambda>_. Errorf ''default policy not found'') (\<lambda>d. GetDefaultPolicy (ap_q A) d tid)) (\<lambda>dp.
       writeJSON 200 (DefaultPolicyBody (toDPResponse dp))))"

definition defaultpolicy_put :: "api \<Rightarrow> http_Request \<Rightarrow> (string \<times> string) res \<Rightarrow> response handler" where
  "defaultpolicy_put A rq body =
     bindH (tenantFromRequest A rq) (\<lambda>tid.
     bindH (decodeJSON body) (\<lambda>(ingress, egress).
     bindH (stmtH 500 (Wrapf ''upsert default policy'') (UpsertDefaultPolicy (ap_q A) tid
              (if ingress = '''' then ''deny'' else ingress) (if egress = '''' then ''deny'' else egress))) (\<lambda>dp.
     bindH (case ap_cascade A of None \<Rightarrow> retH () | Some _ \<Rightarrow> spawn (JobDefault (pgUUIDToStr tid))) (\<lambda>_.
       writeJSON 200 (DefaultPolicyBody (toDPResponse dp))))))"

section \<open>hosts.go\<close>

text \<open>A failing \<open>json.Unmarshal\<close> keeps the labels decoded so far.\<close>

definition toHostResponse :: "api \<Rightarrow> Host \<Rightarrow> HostResponse" where
  "toHostResponse A h = \<lparr>hr_ID = pgUUIDToStr (h_ID h), hr_TenantID = pgUUIDToStr (h_TenantID h), hr_Hostname = h_Hostname h,
     hr_Labels = (if h_Labels h = [] then Map.empty else fst (json_Labels (ap_q A) (h_Labels h))), hr_Status = h_Status h,
     hr_CurrentGeneration = h_CurrentGeneration h, hr_DesiredGeneration = h_DesiredGeneration h,
     hr_LastHeartbeatAt = h_LastHeartbeatAt h, hr_AgentVersion = h_AgentVersion h, hr_KernelVersion = h_KernelVersion h,
     hr_FlowEventsEnabled = h_FlowEventsEnabled h, hr_CreatedAt = h_CreatedAt h\<rparr>"

definition hosts_list :: "api \<Rightarrow> http_Request \<Rightarrow> response handler" where
  "hosts_list A rq =
     bindH (tenantFromRequest A rq) (\<lambda>tid.
     bindH (queryH 500 (Wrapf ''list hosts'') (\<lambda>d. ListHosts (ap_q A) d tid)) (\<lambda>hs.
       writeJSON 200 (HostsBody (map (toHostResponse A) hs))))"

definition hosts_create :: "api \<Rightarrow> http_Request \<Rightarrow> createHostRequest res \<Rightarrow> response handler" where
  "hosts_create A rq body =
     bindH (tenantFromRequest A rq) (\<lambda>tid.
     bindH (decodeJSON body) (\<lambda>req.
       if chr_Hostname req = '''' then apiError 400 (Errorf ''hostname required'')
       else bindH (stmtH 500 (Wrapf ''create host'') (CreateHost (ap_q A) tid (chr_Hostname req)
                     (json_MarshalLabels (ap_X A) (chr_Labels req)) (if chr_Status req = '''' then ''enrolling'' else chr_Status req))) (\<lambda>h.
            writeJSON 201 (HostBody (toHostResponse A h)))))"

definition hosts_get :: "api \<Rightarrow> http_Request \<Rightarrow> response handler" where
  "hosts_get A rq =
     bindH (tenantFromRequest A rq) (\<lambda>tid.
     bindH (uuidParam A (rq_id rq)) (\<lambda>hid.
     bindH (queryH 404 (\<lambda>_. Errorf ''host not found'') (\<lambda>d. GetHost (ap_q A) d hid tid)) (\<lambda>h.
       writeJSON 200 (HostBody (toHostResponse A h)))))"

text \<open>The three optional parts of a patch, each giving the host it read back last.\<close>

definition patch_labels :: "api \<Rightarrow> bytes \<Rightarrow> bytes \<Rightarrow> (string \<rightharpoonup> string) option \<Rightarrow> Host option handler" where
  "patch_labels A tid hid labels = (case labels of None \<Rightarrow> retH None | Some ls \<Rightarrow>
     bindH (stmtH 500 (Wrapf ''update labels'') (UpdateHostLabels (ap_q A) hid tid (json_MarshalLabels (ap_X A) ls))) (\<lambda>h.
     bindH (case ap_cascade A of None \<Rightarrow> retH () | Some _ \<Rightarrow> spawn (JobLabels (pgUUIDToStr tid) (pgUUIDToStr hid))) (\<lambda>_.
       retH (Some h))))"

definition patch_status :: "api \<Rightarrow> bytes \<Rightarrow> bytes \<Rightarrow> string option \<Rightarrow> Host option \<Rightarrow> Host option handler" where
  "patch_status A tid hid st h = (case st of None \<Rightarrow> retH h | Some st \<Rightarrow>
     bindH (stmtH 500 (Wrapf ''update status'') (UpdateHostStatus (ap_q A) hid tid st)) (\<lambda>h. retH (Some h)))"

definition patch_flow :: "api \<Rightarrow> bytes \<Rightarrow> bytes \<Rightarrow> bool option \<Rightarrow> Host option \<Rightarrow> Host option handler" where
  "patch_flow A tid hid v h = (case v of None \<Rightarrow> retH h | Some v \<Rightarrow>
     bindH (stmtH 500 (Wrapf ''update flow_events_enabled'') (UpdateHostFlowEnabled (ap_q A) hid tid v)) (\<lambda>_.
     bindH (if ap_disconnector A then spawn (JobDisconnect (pgUUIDToStr hid)) else retH ()) (\<lambda>_.
     bindH (queryH 500 (Wrapf ''get host'') (\<lambda>d. GetHost (ap_q A) d hid tid)) (\<lambda>h. retH (Some h)))))"

definition hosts_patch :: "api \<Rightarrow> http_Request \<Rightarrow> patchHostRequest res \<Rightarrow> response handler" where
  "hosts_patch A rq body =
     bindH (tenantFromRequest A rq) (\<lambda>tid.
     bindH (uuidParam A (rq_id rq)) (\<lambda>hid.
     bindH (decodeJSON body) (\<lambda>req.
     bindH (readH (\<lambda>d. GetHost (ap_q A) d hid tid)) (\<lambda>cur.
     bindH (case cur of Inl _ \<Rightarrow> retH () | Inr h \<Rightarrow> SetAuditBefore (ap_json A (HostBody (toHostResponse A h)))) (\<lambda>_.
     bindH (patch_labels A tid hid (phr_Labels req)) (\<lambda>h1.
     bindH (patch_status A tid hid (phr_Status req) h1) (\<lambda>h2.
     bindH (patch_flow A tid hid (phr_FlowEventsEnabled req) h2) (\<lambda>h3.
     bindH (case h3 of Some h \<Rightarrow> retH h
            | None \<Rightarrow> queryH 404 (\<lambda>_. Errorf ''host not found'') (\<lambda>d. GetHost (ap_q A) d hid tid)) (\<lambda>h.
       writeJSON 200 (HostBody (toHostResponse A h)))))))))))"

definition hosts_delete :: "api \<Rightarrow> http_Request \<Rightarrow> response handler" where
  "hosts_delete A rq =
     bindH (tenantFromRequest A rq) (\<lambda>tid.
     bindH (uuidParam A (rq_id rq)) (\<lambda>hid.
     bindH (stmtH 500 (Wrapf ''delete host'') (DeleteHost (ap_q A) hid tid)) (\<lambda>_.
       writeJSON 204 NoBody)))"

section \<open>tokens.go\<close>

definition tenantFromReq :: "http_Request \<Rightarrow> string" where
  "tenantFromReq rq = (case rq_claims rq of None \<Rightarrow> rq_tenant rq | Some c \<Rightarrow> if cl_TenantID c \<noteq> '''' then cl_TenantID c else rq_tenant rq)"

definition toTokenResponse :: "BootstrapToken \<Rightarrow> string \<Rightarrow> TokenResponse" where
  "toTokenResponse t plain = \<lparr>tr_ID = bt_ID t, tr_TenantID = bt_TenantID t, tr_Type = bt_Type t, tr_TargetHostID = bt_TargetHostID t,
     tr_LabelTemplate = bt_LabelTemplate t, tr_MaxUses = bt_MaxUses t, tr_UsesCount = bt_UsesCount t, tr_ExpiresAt = bt_ExpiresAt t,
     tr_PlainToken = plain\<rparr>"

definition tokens_list :: "api \<Rightarrow> http_Request \<Rightarrow> int \<Rightarrow> response handler" where
  "tokens_list A rq now =
     (let tenantID = tenantFromReq rq in
      if tenantID = '''' then apiError 400 (Errorf ''X-Tenant-ID header required'')
      else bindH (queryH 500 (Wrapf ''list tokens'') (\<lambda>d. ListTokens (ap_q A) now d tenantID)) (\<lambda>ts.
           writeJSON 200 (TokensBody (map (\<lambda>t. toTokenResponse t '''') ts))))"

text \<open>\<open>rnd\<close> and \<open>now\<close> are the random bytes and the clock; durations are nanoseconds in an int64.\<close>

definition tokens_create :: "api \<Rightarrow> http_Request \<Rightarrow> bytes res \<Rightarrow> int \<Rightarrow> createTokenRequest res \<Rightarrow> response handler" where
  "tokens_create A rq rnd now body =
     (let tenantID = tenantFromReq rq in
      if tenantID = '''' then apiError 400 (Errorf ''X-Tenant-ID header required'')
      else bindH (decodeJSON body) (\<lambda>req.
        let ttl = sint (word_of_int ((if ctr_TTLSeconds req \<le> 0 then 3600 else ctr_TTLSeconds req) * 1000000000) :: i64);
            uses = (if ctr_MaxUses req \<le> 0 then 1 else ctr_MaxUses req)
        in bindH (if ctr_Type req = ''single_host''
                  then (if ctr_TargetHostID req = '''' then apiError 400 (Errorf ''target_host_id required for single_host token'')
                        else stmtH 500 (Wrapf ''create token'') (CreateSingleHostToken (ap_q A) (ap_X A) rnd now tenantID (ctr_TargetHostID req) ttl uses))
                  else if ctr_Type req = ''bulk''
                  then stmtH 500 (Wrapf ''create token'') (CreateBulkToken (ap_q A) (ap_X A) rnd now tenantID (ctr_LabelTemplate req) ttl uses)
                  else apiError 400 (Errorf ''type must be single_host or bulk'')) (\<lambda>plain.
           bindH (readH (\<lambda>d. ListTokens (ap_q A) now d tenantID)) (\<lambda>tokens.
             case tokens of Inl _ \<Rightarrow> writeJSON 201 (PlainTokenBody plain)
             | Inr ts \<Rightarrow> if ts = [] then writeJSON 201 (PlainTokenBody plain)
                 else writeJSON 201 (TokenBody (toTokenResponse (last ts) plain))))))"

definition tokens_delete :: "api \<Rightarrow> http_Request \<Rightarrow> response handler" where
  "tokens_delete A rq =
     (if rq_id rq = '''' then apiError 400 (Errorf ''id required'')
      else bindH (stmtH 500 (Wrapf ''delete token'') (DeleteToken (ap_q A) (rq_id rq))) (\<lambda>_. writeJSON 204 NoBody))"

section \<open>The router\<close>

text \<open>
  The endpoints, with their decoded bodies. \<open>rq_claims\<close> of a request that reaches the router
  is \<open>None\<close>: the claims are put into the context by the authentication middleware, which
  is given as \<open>auth\<close>, the result of checking the cookie or the bearer token.
\<close>

datatype endpoint =
    PoliciesList
  | PoliciesCreate "createPolicyRequest res"
  | PoliciesGet
  | PoliciesUpdate "updatePolicyRequest res"
  | PoliciesDelete
  | RulesList
  | RulesCreate "createRuleRequest res"
  | RulesGet
  | RulesUpdate "createRuleRequest res"
  | RulesDelete
  | VersionsList
  | VersionsRevert "int res"
  | GroupsList
  | GroupsCreate "(string \<times> string \<times> bytes) res"
  | GroupsGet
  | GroupsUpdate "bytes res"
  | GroupsDelete
  | DefaultPolicyGet
  | DefaultPolicyPut "(string \<times> string) res"
  | HostsList
  | HostsCreate "createHostRequest res"
  | HostsGet
  | HostsPatch "patchHostRequest res"
  | HostsDelete
  | TokensList int
  | TokensCreate "bytes res" int "createTokenRequest res"
  | TokensDelete

abbreviation rw :: "http_Request \<Rightarrow> response handler \<Rightarrow> response handler" where
  "rw rq h \<equiv> bindH (RequireRole [''admin'', ''editor''] rq) (\<lambda>_. h)"

abbreviation radmin :: "http_Request \<Rightarrow> response handler \<Rightarrow> response handler" where
  "radmin rq h \<equiv> bindH (RequireRole [''admin''] rq) (\<lambda>_. h)"

fun route :: "api \<Rightarrow> http_Request \<Rightarrow> endpoint \<Rightarrow> response handler" where
  "route A rq PoliciesList = policies_list A rq"
| "route A rq (PoliciesCreate b) = rw rq (policies_create A rq b)"
| "route A rq PoliciesGet = policies_get A rq"
| "route A rq (PoliciesUpdate b) = rw rq (policies_update A rq b)"
| "route A rq PoliciesDelete = rw rq (policies_delete A rq)"
| "route A rq RulesList = policies_listRules A rq"
| "route A rq (RulesCreate b) = rw rq (policies_createRule A rq b)"
| "route A rq RulesGet = policies_getRule A rq"
| "route A rq (RulesUpdate b) = rw rq (policies_updateRule A rq b)"
| "route A rq RulesDelete = rw rq (policies_deleteRule A rq)"
| "route A rq VersionsList = policies_listVersions A rq"
| "route A rq (VersionsRevert v) = rw rq (policies_revertVersion A rq v)"
| "route A rq GroupsList = groups_list A rq"
| "route A rq (GroupsCreate b) = rw rq (groups_create A rq b)"
| "route A rq GroupsGet = groups_get A rq"
| "route A rq (GroupsUpdate b) = rw rq (groups_update A rq b)"
| "route A rq GroupsDelete = rw rq (groups_delete A rq)"
| "route A rq DefaultPolicyGet = defaultpolicy_get A rq"
| "route A rq (DefaultPolicyPut b) = rw rq (defaultpolicy_put A rq b)"
| "route A rq HostsList = hosts_list A rq"
| "route A rq (HostsCreate b) = hosts_create A rq b"
| "route A rq HostsGet = hosts_get A rq"
| "route A rq (HostsPatch b) = hosts_patch A rq b"
| "route A rq HostsDelete = hosts_delete A rq"
| "route A rq (TokensList now) = tokens_list A rq now"
| "route A rq (TokensCreate rnd now b) = radmin rq (tokens_create A rq rnd now b)"
| "route A rq TokensDelete = radmin rq (tokens_delete A rq)"

section \<open>What handlers preserve\<close>

definition keepsH :: "(db \<Rightarrow> bool) \<Rightarrow> 'a handler \<Rightarrow> bool" where
  "keepsH P h \<longleftrightarrow> (\<forall>w. P (wb_store w) \<longrightarrow> P (wb_store (snd (h w))))"

named_theorems keepsH_intros \<open>rules for keepsH\<close>

lemma keepsHD: "keepsH P h \<Longrightarrow> P (wb_store w) \<Longrightarrow> P (wb_store (snd (h w)))"
  by (simp add: keepsH_def)

lemma keepsH_answers [keepsH_intros]:
  "keepsH P (retH x)" "keepsH P (apiError c e)" "keepsH P (writeJSON c v)" "keepsH P (readH g)" "keepsH P (spawn j)" "keepsH P (SetAuditBefore b)"
  by (simp_all add: keepsH_def retH_def apiError_def writeJSON_def readH_def spawn_def SetAuditBefore_def)

lemma keepsH_bindH [keepsH_intros]: "keepsH P m \<Longrightarrow> (\<And>x. keepsH P (f x)) \<Longrightarrow> keepsH P (bindH m f)"
  by (auto simp: keepsH_def bindH_def split: prod.splits sum.splits)

lemma keepsH_queryH [keepsH_intros]: "keepsH P (queryH c msg f)"
  by (auto simp: keepsH_def queryH_def apiError_def split: sum.splits)

lemma keepsH_stmtH [keepsH_intros]: "keeps P m \<Longrightarrow> keepsH P (stmtH c msg m)"
  by (auto simp: keeps_def keepsH_def stmtH_def apiError_def Let_def split: sum.splits prod.splits)

lemma keepsH_ignoreH [keepsH_intros]: "keeps P m \<Longrightarrow> keepsH P (ignoreH m)"
  by (simp add: keepsH_def ignoreH_def keepsD)

lemma keepsH_forH [keepsH_intros]: "(\<And>x. keepsH P (f x)) \<Longrightarrow> keepsH P (forH f xs)"
proof (induction xs)
  case (Cons x xs)
  then have "keepsH P (bindH (f x) (\<lambda>_. forH f xs))" by (intro keepsH_bindH) simp_all
  then show ?case by (simp add: keepsH_def)
qed (simp add: keepsH_def)

lemma keepsH_params [keepsH_intros]:
  "keepsH P (decodeJSON body)" "keepsH P (tenantFromRequest A rq)" "keepsH P (uuidParam A raw)" "keepsH P (RequireRole roles rq)"
  unfolding decodeJSON_def tenantFromRequest_def uuidParam_def RequireRole_def Let_def
  by (auto intro!: keepsH_intros split: sum.splits option.splits)

lemma keepsH_cascades [keepsH_intros]:
  "keepsH P (dispatchCascade A pid)" "keepsH P (dispatchCascadeWithOldSelector A pid old)" "keepsH P (og_dispatchCascade A tid oid)"
  unfolding dispatchCascade_def dispatchCascadeWithOldSelector_def og_dispatchCascade_def
  by (auto intro!: keepsH_intros split: option.splits)

lemma keepsH_resolve [keepsH_intros]: "keepsH P (resolvePolicy A rq)" "keepsH P (rule_of_policy A rq pid)"
  unfolding resolvePolicy_def rule_of_policy_def by (intro keepsH_intros)+

lemma keepsH_splits:
  "keepsH P (if b then m else m') \<longleftrightarrow> (b \<longrightarrow> keepsH P m) \<and> (\<not> b \<longrightarrow> keepsH P m')"
  "keepsH P (case r of Inl e \<Rightarrow> f e | Inr x \<Rightarrow> g x) \<longleftrightarrow> (\<forall>e. r = Inl e \<longrightarrow> keepsH P (f e)) \<and> (\<forall>x. r = Inr x \<longrightarrow> keepsH P (g x))"
  "keepsH P (case v of None \<Rightarrow> m | Some y \<Rightarrow> h y) \<longleftrightarrow> (v = None \<longrightarrow> keepsH P m) \<and> (\<forall>y. v = Some y \<longrightarrow> keepsH P (h y))"
  "keepsH P (case z of (a, b) \<Rightarrow> k a b) \<longleftrightarrow> (\<forall>a b. z = (a, b) \<longrightarrow> keepsH P (k a b))"
  by (auto split: sum.split option.split prod.split)

text \<open>A transaction leaves the tables as they were when it fails.\<close>

lemma keeps_update_tx:
  assumes "keeps P (writeS (ap_q A) (retS () :: (db, unit) st))" and "\<And>n d. P (d\<lparr>t_seq := n\<rparr>) = P d"
    and "keeps P (UpdatePolicy (ap_q A) pid tid (cpr_Name req) (cpr_Description req) (cpr_Priority req) (rawJSONOrEmpty (cpr_Selector req)))"
    and "\<And>i. keeps P (DeleteRule (ap_q A) i)" and "\<And>r. keeps P (CreateRule (ap_q A) r)"
  shows "keeps P (update_tx A pid tid req)"
proof -
  have "keeps P (\<lambda>d. wrapS m (liftS (ListRulesByPolicy (ap_q A) d pid)) d)" for m by (simp add: keeps_def wrapS_def)
  then have r: "keeps P (replace_rules A pid rs)" for rs
    unfolding replace_rules_def by (intro keeps_intros assms)
  let ?m = "bindS (wrapS ''begin tx'' (writeS (ap_q A) (retS ()))) (\<lambda>_.
           bindS (wrapS ''update policy'' (UpdatePolicy (ap_q A) pid tid (cpr_Name req) (cpr_Description req) (cpr_Priority req)
                    (rawJSONOrEmpty (cpr_Selector req)))) (\<lambda>p.
           bindS (replace_rules A pid (upr_Rules req)) (\<lambda>_.
           bindS (wrapS ''commit tx'' (writeS (ap_q A) (retS ()))) (\<lambda>_. retS p))))"
  have "keeps P ?m" by (intro keeps_intros r assms)
  then show ?thesis unfolding keeps_def update_tx_def rollback_def
    by (auto simp: assms(2) split: prod.splits sum.splits)
qed

section \<open>Requests keep every invariant of the store\<close>

text \<open>The reading endpoints keep everything.\<close>

lemma keepsH_reads [keepsH_intros]:
  "keepsH P (policies_list A rq)" "keepsH P (policies_get A rq)" "keepsH P (policies_listRules A rq)" "keepsH P (policies_getRule A rq)"
  "keepsH P (policies_listVersions A rq)" "keepsH P (groups_list A rq)" "keepsH P (groups_get A rq)" "keepsH P (defaultpolicy_get A rq)"
  "keepsH P (hosts_list A rq)" "keepsH P (hosts_get A rq)" "keepsH P (tokens_list A rq now)"
  unfolding policies_list_def policies_get_def policies_listRules_def policies_getRule_def policies_listVersions_def groups_list_def
    groups_get_def defaultpolicy_get_def hosts_list_def hosts_get_def tokens_list_def Let_def
  by (auto simp: keepsH_splits intro!: keepsH_intros)

context store_invariant
begin

lemma inv_writeS_ret: "keeps P (writeS Q (retS x))"
  by (rule keeps_writeS [OF seq keeps_ret(1)])

lemma inv_update_tx: "ok (ap_q A) \<Longrightarrow> keeps P (update_tx A pid tid req)"
  by (rule keeps_update_tx) (simp_all add: inv_writeS_ret seq stmts)

lemma inv_patch:
  assumes "ok (ap_q A)"
  shows "keepsH P (patch_labels A tid hid ls)" "keepsH P (patch_status A tid hid st h)" "keepsH P (patch_flow A tid hid v h)"
  unfolding patch_labels_def patch_status_def patch_flow_def
  by (auto simp: keepsH_splits intro!: keepsH_intros stmts assms)

lemma inv_policies:
  assumes "ok (ap_q A)"
  shows "keepsH P (policies_create A rq b)" "keepsH P (policies_update A rq bu)" "keepsH P (policies_delete A rq)"
    "keepsH P (policies_createRule A rq br)" "keepsH P (policies_updateRule A rq br)" "keepsH P (policies_deleteRule A rq)"
    "keepsH P (policies_revertVersion A rq v)"
  unfolding policies_create_def policies_update_def policies_delete_def policies_createRule_def policies_updateRule_def
    policies_deleteRule_def policies_revertVersion_def
  by (auto simp: keepsH_splits intro!: keepsH_intros stmts inv_update_tx assms)

lemma inv_groups:
  assumes "ok (ap_q A)"
  shows "keepsH P (groups_create A rq b)" "keepsH P (groups_update A rq bs)" "keepsH P (groups_delete A rq)"
    "keepsH P (defaultpolicy_put A rq bd)"
  unfolding groups_create_def groups_update_def groups_delete_def defaultpolicy_put_def
  by (auto simp: keepsH_splits intro!: keepsH_intros stmts assms)

lemma inv_hosts:
  assumes "ok (ap_q A)"
  shows "keepsH P (hosts_create A rq b)" "keepsH P (hosts_patch A rq bp)" "keepsH P (hosts_delete A rq)"
  unfolding hosts_create_def hosts_patch_def hosts_delete_def
  by (auto simp: keepsH_splits intro!: keepsH_intros stmts inv_patch assms)

lemma inv_tokens:
  assumes "ok (ap_q A)"
  shows "keepsH P (tokens_create A rq rnd now b)" "keepsH P (tokens_delete A rq)"
  unfolding tokens_create_def tokens_delete_def Let_def
  by (auto simp: keepsH_splits intro!: keepsH_intros stmts inv_CreateSingleHostToken inv_CreateBulkToken assms)

lemma inv_route: "ok (ap_q A) \<Longrightarrow> keepsH P (route A rq e)"
  by (cases e) (auto intro!: keepsH_intros inv_policies inv_groups inv_hosts inv_tokens)

end

section \<open>Who may change policies\<close>

definition policy_tables :: "db \<Rightarrow> Policy list \<times> Rule list \<times> ObjectGroup list \<times> DefaultPolicy list \<times> (bytes \<times> bytes) list \<times> ConfigVersion list" where
  "policy_tables d = (t_policies d, t_rules d, t_object_groups d, t_default_policies d, t_refs d, t_versions d)"

definition may_edit :: "http_Request \<Rightarrow> bool" where
  "may_edit rq \<longleftrightarrow> (case rq_claims rq of None \<Rightarrow> False | Some c \<Rightarrow> cl_Role c \<in> {''admin'', ''editor''})"

lemma policy_tables_seq [simp]: "policy_tables (d\<lparr>t_seq := n\<rparr>) = policy_tables d"
  by (simp add: policy_tables_def)

lemma frame_host_statements:
  "keeps (\<lambda>d. policy_tables d = T) (CreateHost Q tid name labels st)" "keeps (\<lambda>d. policy_tables d = T) (UpdateHostLabels Q hid tid labels)"
  "keeps (\<lambda>d. policy_tables d = T) (UpdateHostStatus Q hid tid st)" "keeps (\<lambda>d. policy_tables d = T) (UpdateHostFlowEnabled Q hid tid v)"
  "keeps (\<lambda>d. policy_tables d = T) (DeleteHost Q hid tid)"
  unfolding CreateHost_def UpdateHostLabels_def UpdateHostStatus_def UpdateHostFlowEnabled_def DeleteHost_def
  by (rule keeps_writeS; auto simp: keeps_def policy_tables_def update_host_def exec_hosts_def Let_def split: sum.splits list.splits)+

lemma frame_hosts:
  "keepsH (\<lambda>d. policy_tables d = T) (hosts_create A rq b)" "keepsH (\<lambda>d. policy_tables d = T) (hosts_patch A rq bp)"
  "keepsH (\<lambda>d. policy_tables d = T) (hosts_delete A rq)"
  unfolding hosts_create_def hosts_patch_def hosts_delete_def patch_labels_def patch_status_def patch_flow_def
  by (auto simp: keepsH_splits intro!: keepsH_intros frame_host_statements)

lemma refused:
  assumes "\<not> may_edit rq" and "set roles \<subseteq> {''admin'', ''editor''}"
  shows "keepsH P (bindH (RequireRole roles rq) (\<lambda>_. h))"
proof -
  have "\<exists>c e. RequireRole roles rq = apiError c e"
  proof (cases "rq_claims rq")
    case (Some c)
    then have "cl_Role c \<notin> set roles" using assms by (auto simp: may_edit_def)
    then show ?thesis using Some by (auto simp: RequireRole_def)
  qed (auto simp: RequireRole_def)
  then obtain c e where "RequireRole roles rq = apiError c e" by blast
  then show ?thesis by (simp add: keepsH_def bindH_def apiError_def)
qed

lemma route_frame: "\<not> may_edit rq \<Longrightarrow> keepsH (\<lambda>d. policy_tables d = T) (route A rq e)"
  by (cases e) (auto intro!: frame_hosts refused keepsH_reads)

end
