(* ===== verification/Qf_Auth.thy ===== *)
theory Qf_Auth
  imports Qf_Api
begin

text \<open>
  Authentication (cp/internal/auth): sessions with JWTs, API tokens, users and their roles,
  the middlewares, and the server as requests see it: the audit middleware around the
  authentication middleware around the handlers of \<open>Qf_Api\<close> and of this theory.
  Times are in nanoseconds, those inside tokens in seconds.
\<close>

section \<open>jwt.go\<close>

definition accessTokenTTL :: int where "accessTokenTTL = 30 * 60 * 1000000000"

definition refreshTokenTTL :: int where "refreshTokenTTL = 7 * 24 * 3600 * 1000000000"

definition NewNumericDate :: "int \<Rightarrow> int" where "NewNumericDate t = t div 1000000000"

definition IssueAccessToken :: "api \<Rightarrow> int \<Rightarrow> string \<Rightarrow> string \<Rightarrow> string \<Rightarrow> string \<Rightarrow> string \<Rightarrow> string res" where
  "IssueAccessToken A now userID tenantID username email role = ap_jwt_Sign A (ap_secret A)
     \<lparr>jp_uid = userID, jp_tid = tenantID, jp_username = username, jp_email = email, jp_role = role, jp_tv = 0, jp_sub = '''',
      jp_iat = NewNumericDate now, jp_exp = NewNumericDate (now + accessTokenTTL)\<rparr>"

definition IssueRefreshToken :: "api \<Rightarrow> int \<Rightarrow> string \<Rightarrow> i32 \<Rightarrow> string res" where
  "IssueRefreshToken A now userID tokenVersion = ap_jwt_Sign A (ap_secret A)
     \<lparr>jp_uid = '''', jp_tid = '''', jp_username = '''', jp_email = '''', jp_role = '''', jp_tv = tokenVersion, jp_sub = userID,
      jp_iat = NewNumericDate now, jp_exp = NewNumericDate (now + refreshTokenTTL)\<rparr>"

definition ParseAccessToken :: "api \<Rightarrow> int \<Rightarrow> string \<Rightarrow> Claims res" where
  "ParseAccessToken A now tok = bindR (ap_jwt_Parse A (ap_secret A) now tok) (\<lambda>p.
     Inr \<lparr>cl_UserID = jp_uid p, cl_TenantID = jp_tid p, cl_Username = jp_username p, cl_Email = jp_email p, cl_Role = jp_role p\<rparr>)"

definition ParseRefreshToken :: "api \<Rightarrow> int \<Rightarrow> string \<Rightarrow> (string \<times> i32) res" where
  "ParseRefreshToken A now tok = bindR (ap_jwt_Parse A (ap_secret A) now tok) (\<lambda>p. Inr (jp_sub p, jp_tv p))"

section \<open>middleware.go, apitoken.go and authAny of router.go\<close>

definition unauthorized :: "'a handler" where
  "unauthorized = apiError 401 (Errorf ''unauthorized'')"

definition is_bearer :: "string \<Rightarrow> bool" where
  "is_bearer h \<longleftrightarrow> take 7 h = ''Bearer ''"

definition bearer_of :: "http_Request \<Rightarrow> string" where
  "bearer_of rq = (case rq_cookie rq of
     Some c \<Rightarrow> c
   | None \<Rightarrow> if is_bearer (rq_authz rq) then drop 7 (rq_authz rq) else '''')"

definition with_claims :: "http_Request \<Rightarrow> Claims \<Rightarrow> http_Request" where
  "with_claims rq c = rq\<lparr>rq_claims := Some c\<rparr>"

definition JWTMiddleware :: "api \<Rightarrow> int \<Rightarrow> (http_Request \<Rightarrow> response handler) \<Rightarrow> http_Request \<Rightarrow> response handler" where
  "JWTMiddleware A now nxt rq =
     (let tokenStr = bearer_of rq in
      if tokenStr = '''' then unauthorized
      else case ParseAccessToken A now tokenStr of
             Inl _ \<Rightarrow> unauthorized
           | Inr claims \<Rightarrow> nxt (with_claims rq claims))"

definition sha256Hex :: "api \<Rightarrow> string \<Rightarrow> string" where
  "sha256Hex A s = hexEncode (sha256_Sum (ap_X A) (map of_char s))"

text \<open>\<open>uuidStr\<close> of a UUID that may be null: its bytes are zero then.\<close>

definition uuidStr :: "bytes option \<Rightarrow> string" where
  "uuidStr u = pgUUIDToStr (case u of None \<Rightarrow> replicate 16 0 | Some b \<Rightarrow> b)"

definition APITokenMiddleware :: "api \<Rightarrow> int \<Rightarrow> (http_Request \<Rightarrow> response handler) \<Rightarrow> http_Request \<Rightarrow> response handler" where
  "APITokenMiddleware A now nxt rq =
     (if \<not> is_bearer (rq_authz rq) then unauthorized
      else bindH (queryH 401 (\<lambda>_. Errorf ''unauthorized'') (\<lambda>d. GetAPITokenByHash (ap_q A) d (sha256Hex A (drop 7 (rq_authz rq))))) (\<lambda>tok.
        if at_TenantID tok \<noteq> ap_tenantID A then unauthorized
        else if (case at_ExpiresAt tok of Some t \<Rightarrow> t < now | None \<Rightarrow> False) then apiError 401 (Errorf ''token expired'')
        else bindH (spawn (JobTokenUsed (at_ID tok))) (\<lambda>_.
          nxt (with_claims rq \<lparr>cl_UserID = uuidStr (at_CreatedBy tok), cl_TenantID = uuidStr (Some (ap_tenantID A)),
                               cl_Username = '''', cl_Email = '''', cl_Role = at_Role tok\<rparr>))))"

definition looks_like_jwt :: "string \<Rightarrow> bool" where
  "looks_like_jwt tok \<longleftrightarrow> length (filter (\<lambda>ch. ch = CHR ''.'') tok) = 2"

definition authAny :: "api \<Rightarrow> int \<Rightarrow> (http_Request \<Rightarrow> response handler) \<Rightarrow> http_Request \<Rightarrow> response handler" where
  "authAny A now nxt rq =
     (case rq_cookie rq of
        Some _ \<Rightarrow> JWTMiddleware A now nxt rq
      | None \<Rightarrow>
          if 7 < length (rq_authz rq) \<and> is_bearer (rq_authz rq) then
            (if looks_like_jwt (drop 7 (rq_authz rq)) then JWTMiddleware A now nxt rq
             else APITokenMiddleware A now nxt rq)
          else unauthorized)"

section \<open>handlers.go\<close>

definition scan_opt :: "api \<Rightarrow> string \<Rightarrow> bytes option" where
  "scan_opt A s = (case uuid_Scan (ap_q A) s of Inl _ \<Rightarrow> None | Inr u \<Rightarrow> Some u)"

definition logAuditAfter :: "api \<Rightarrow> string \<Rightarrow> string \<Rightarrow> string \<Rightarrow> string \<Rightarrow> string \<Rightarrow> bytes option \<Rightarrow> unit handler" where
  "logAuditAfter A actorType actorID action objectType objectID after =
     spawn (JobAudit (ap_tenantID A) actorType (scan_opt A actorID) action objectType (scan_opt A objectID) None after)"

definition logAudit :: "api \<Rightarrow> string \<Rightarrow> string \<Rightarrow> string \<Rightarrow> string \<Rightarrow> string \<Rightarrow> unit handler" where
  "logAudit A actorType actorID action objectType objectID = logAuditAfter A actorType actorID action objectType objectID None"

definition invalid_credentials :: "'a handler" where
  "invalid_credentials = apiError 401 (Errorf ''invalid credentials'')"

definition internal_error :: "goerr \<Rightarrow> goerr" where
  "internal_error e = Errorf ''internal error''"

definition liftH :: "nat \<Rightarrow> (goerr \<Rightarrow> goerr) \<Rightarrow> 'a res \<Rightarrow> 'a handler" where
  "liftH code msg r = (case r of Inl e \<Rightarrow> apiError code (msg e) | Inr x \<Rightarrow> retH x)"

definition meOf :: "api \<Rightarrow> User \<Rightarrow> string \<Rightarrow> string \<Rightarrow> meResponse" where
  "meOf A u uid role = \<lparr>me_ID = uid, me_Username = u_Username u, me_Email = u_Email u, me_Role = role,
     me_TenantID = uuidStr (Some (ap_tenantID A))\<rparr>"

text \<open>The last part of \<open>Login\<close> and of the OIDC callback: issuing both tokens.\<close>

definition startSession :: "api \<Rightarrow> int \<Rightarrow> User \<Rightarrow> string \<Rightarrow> (string \<times> string) handler" where
  "startSession A now user role = (let uid = uuidStr (Some (u_ID user)) in
     bindH (liftH 500 internal_error (IssueAccessToken A now uid (uuidStr (Some (ap_tenantID A))) (u_Username user) (u_Email user) role)) (\<lambda>access.
     bindH (liftH 500 internal_error (IssueRefreshToken A now uid (u_TokenVersion user))) (\<lambda>refresh.
     bindH (ignoreH (UpdateUserLastLogin (ap_q A) (u_ID user))) (\<lambda>_.
       retH (access, refresh)))))"

definition auth_Login :: "api \<Rightarrow> int \<Rightarrow> (string \<times> string) res \<Rightarrow> response handler" where
  "auth_Login A now body =
     bindH (liftH 400 (\<lambda>_. Errorf ''bad request'') body) (\<lambda>(username, password).
     bindH (readH (\<lambda>d. GetUserByUsername (ap_q A) d (ap_tenantID A) username)) (\<lambda>found.
       let no_user = bindH (logAuditAfter A ''user'' '''' ''auth.login_failed'' ''user'' ''''
             (Some (map of_char (''{'' @ [CHR 0x22] @ ''attempted_username'' @ [CHR 0x22] @ '':'' @ [CHR 0x22] @ username @ [CHR 0x22] @ ''}'')))) (\<lambda>_.
             invalid_credentials)
       in case found of
         Inl _ \<Rightarrow> no_user
       | Inr user \<Rightarrow>
           if u_Status user \<noteq> ''active'' then no_user
           else case u_PasswordHash user of
             None \<Rightarrow> invalid_credentials
           | Some hash \<Rightarrow>
               let uid = uuidStr (Some (u_ID user)) in
               if \<not> ap_bcrypt_Compare A hash password
               then bindH (logAudit A ''user'' uid ''auth.login_failed'' ''user'' uid) (\<lambda>_. invalid_credentials)
               else
                 bindH (queryH 401 (\<lambda>_. Errorf ''invalid credentials'') (\<lambda>d. GetUserRole (ap_q A) d (u_ID user) (ap_tenantID A))) (\<lambda>ur.
                 bindH (startSession A now user (ur_Role ur)) (\<lambda>(access, refresh).
                 bindH (logAudit A ''user'' uid ''auth.login'' ''user'' uid) (\<lambda>_.
                   writeJSON 200 (SessionBody (meOf A user uid (ur_Role ur)) access (Some refresh)))))))"

definition auth_Refresh :: "api \<Rightarrow> int \<Rightarrow> http_Request \<Rightarrow> response handler" where
  "auth_Refresh A now rq =
     (case rq_refresh rq of
        None \<Rightarrow> unauthorized
      | Some tok \<Rightarrow>
          bindH (liftH 401 (\<lambda>_. Errorf ''unauthorized'') (ParseRefreshToken A now tok)) (\<lambda>(userID, claimTV).
          bindH (liftH 401 (\<lambda>_. Errorf ''unauthorized'') (uuid_Scan (ap_q A) userID)) (\<lambda>uid.
          bindH (queryH 401 (\<lambda>_. Errorf ''unauthorized'') (\<lambda>d. GetUser (ap_q A) d uid (ap_tenantID A))) (\<lambda>user.
            if u_Status user \<noteq> ''active'' then unauthorized
            else if claimTV \<noteq> u_TokenVersion user then unauthorized
            else
              bindH (queryH 401 (\<lambda>_. Errorf ''unauthorized'') (\<lambda>d. GetUserRole (ap_q A) d (u_ID user) (ap_tenantID A))) (\<lambda>ur.
              bindH (liftH 500 internal_error (IssueAccessToken A now userID (uuidStr (Some (ap_tenantID A))) (u_Username user) (u_Email user) (ur_Role ur))) (\<lambda>access.
                writeJSON 200 (SessionBody (meOf A user userID (ur_Role ur)) access None)))))))"

definition auth_Logout :: "api \<Rightarrow> http_Request \<Rightarrow> response handler" where
  "auth_Logout A rq =
     bindH (case rq_claims rq of
              None \<Rightarrow> retH ()
            | Some c \<Rightarrow> bindH (logAudit A ''user'' (cl_UserID c) ''auth.logout'' ''user'' (cl_UserID c)) (\<lambda>_.
                case uuid_Scan (ap_q A) (cl_UserID c) of
                  Inl _ \<Rightarrow> retH ()
                | Inr uid \<Rightarrow> ignoreH (BumpUserTokenVersion (ap_q A) uid))) (\<lambda>_.
       writeJSON 204 ClearedBody)"

definition auth_Me :: "http_Request \<Rightarrow> response handler" where
  "auth_Me rq = (case rq_claims rq of
     None \<Rightarrow> unauthorized
   | Some c \<Rightarrow> writeJSON 200 (MeBody \<lparr>me_ID = cl_UserID c, me_Username = cl_Username c, me_Email = cl_Email c, me_Role = cl_Role c,
       me_TenantID = cl_TenantID c\<rparr>))"

definition auth_ChangePassword :: "api \<Rightarrow> http_Request \<Rightarrow> (string \<times> string) res \<Rightarrow> response handler" where
  "auth_ChangePassword A rq body =
     (case rq_claims rq of
        None \<Rightarrow> unauthorized
      | Some c \<Rightarrow>
          bindH (liftH 400 (\<lambda>_. Errorf ''bad request'') body) (\<lambda>(currentPassword, newPassword).
            if length newPassword < 8 then apiError 400 (Errorf ''new password must be at least 8 characters'')
            else if 72 < length newPassword then apiError 400 (Errorf ''new password must not exceed 72 characters (bcrypt limit)'')
            else
              bindH (liftH 500 internal_error (uuid_Scan (ap_q A) (cl_UserID c))) (\<lambda>uid.
              bindH (queryH 500 internal_error (\<lambda>d. GetUser (ap_q A) d uid (ap_tenantID A))) (\<lambda>user.
                case u_PasswordHash user of
                  None \<Rightarrow> apiError 400 (Errorf ''password change not supported for OIDC accounts'')
                | Some hash \<Rightarrow>
                    if \<not> ap_bcrypt_Compare A hash currentPassword then apiError 401 (Errorf ''current password incorrect'')
                    else
                      bindH (liftH 500 internal_error (ap_bcrypt_Generate A newPassword)) (\<lambda>newHash.
                      bindH (stmtH 500 internal_error (UpdateUserPassword (ap_q A) uid (ap_tenantID A) (Some newHash))) (\<lambda>_.
                        writeJSON 204 NoBody))))))"

section \<open>users.go\<close>

definition userToResponse :: "User \<Rightarrow> string \<Rightarrow> userResponse" where
  "userToResponse u role = \<lparr>usr_ID = uuidStr (Some (u_ID u)), usr_Username = u_Username u, usr_Email = u_Email u, usr_Status = u_Status u,
     usr_Role = role, usr_IsOIDC = (u_OidcSubject u \<noteq> None), usr_LastLoginAt = u_LastLoginAt u, usr_CreatedAt = u_CreatedAt u\<rparr>"

text \<open>The role a dropped error of \<open>GetUserRole\<close> leaves is the empty string.\<close>

definition roleOf :: "api \<Rightarrow> db \<Rightarrow> bytes \<Rightarrow> string" where
  "roleOf A d uid = (case GetUserRole (ap_q A) d uid (ap_tenantID A) of Inl _ \<Rightarrow> '''' | Inr ur \<Rightarrow> ur_Role ur)"

definition validRole :: "string \<Rightarrow> bool" where
  "validRole r \<longleftrightarrow> r \<in> {''admin'', ''editor'', ''operator'', ''auditor''}"

definition badId :: "api \<Rightarrow> string \<Rightarrow> bytes handler" where
  "badId A s = liftH 400 (\<lambda>_. Errorf ''bad id'') (uuid_Scan (ap_q A) s)"

definition users_list :: "api \<Rightarrow> response handler" where
  "users_list A =
     bindH (queryH 500 internal_error (\<lambda>d. ListUsers (ap_q A) d (ap_tenantID A))) (\<lambda>us.
     bindH (readH (\<lambda>d. map (\<lambda>u. userToResponse u (roleOf A d (u_ID u))) us)) (\<lambda>out.
       writeJSON 200 (UsersBody out)))"

definition users_get :: "api \<Rightarrow> http_Request \<Rightarrow> response handler" where
  "users_get A rq =
     bindH (badId A (rq_id rq)) (\<lambda>uid.
     bindH (queryH 404 (\<lambda>_. Errorf ''not found'') (\<lambda>d. GetUser (ap_q A) d uid (ap_tenantID A))) (\<lambda>u.
     bindH (readH (\<lambda>d. roleOf A d (u_ID u))) (\<lambda>role.
       writeJSON 200 (UserBody (userToResponse u role)))))"

record createUserRequest =
  cur_Username :: string
  cur_Email :: string
  cur_Password :: string
  cur_Role :: string

definition users_create :: "api \<Rightarrow> createUserRequest res \<Rightarrow> response handler" where
  "users_create A body =
     bindH (liftH 400 (\<lambda>_. Errorf ''bad request'') body) (\<lambda>req.
       if cur_Username req = '''' \<or> cur_Email req = '''' \<or> cur_Password req = '''' then apiError 400 (Errorf ''bad request'')
       else if \<not> validRole (cur_Role req) then apiError 400 (Errorf ''invalid role'')
       else
         bindH (liftH 500 internal_error (ap_bcrypt_Generate A (cur_Password req))) (\<lambda>hash.
         bindH (stmtH 409 (\<lambda>_. Errorf ''conflict or internal error'')
                  (CreateUser (ap_q A) (ap_tenantID A) (cur_Email req) (cur_Username req) (Some hash) None)) (\<lambda>u.
         bindH (stmtH 500 internal_error (UpsertUserRole (ap_q A) (u_ID u) (ap_tenantID A) (cur_Role req))) (\<lambda>_.
           writeJSON 201 (UserBody (userToResponse u (cur_Role req)))))))"

definition zero_User :: User where
  "zero_User = \<lparr>u_ID = replicate 16 0, u_TenantID = replicate 16 0, u_Email = '''', u_PasswordHash = None, u_OidcSubject = None,
     u_Status = '''', u_LastLoginAt = None, u_CreatedAt = 0, u_Username = '''', u_TokenVersion = 0\<rparr>"

definition patch_password :: "api \<Rightarrow> bytes \<Rightarrow> string option \<Rightarrow> User option handler" where
  "patch_password A uid pw = (case pw of None \<Rightarrow> retH None | Some p \<Rightarrow>
     bindH (liftH 500 internal_error (ap_bcrypt_Generate A p)) (\<lambda>hash.
     bindH (stmtH 404 (\<lambda>_. Errorf ''not found'') (UpdateUserPassword (ap_q A) uid (ap_tenantID A) (Some hash))) (\<lambda>u. retH (Some u))))"

definition patch_user_status :: "api \<Rightarrow> bytes \<Rightarrow> string option \<Rightarrow> User option \<Rightarrow> User option handler" where
  "patch_user_status A uid st u0 = (case st of None \<Rightarrow> retH u0 | Some v \<Rightarrow>
     bindH (stmtH 404 (\<lambda>_. Errorf ''not found'') (UpdateUserStatus (ap_q A) uid (ap_tenantID A) v)) (\<lambda>u. retH (Some u)))"

text \<open>
  A patch without changes answers with the user, or, when there is none, with a zero one,
  whose null id has no role.
\<close>

definition users_patch :: "api \<Rightarrow> http_Request \<Rightarrow> (string option \<times> string option) res \<Rightarrow> response handler" where
  "users_patch A rq body =
     bindH (badId A (rq_id rq)) (\<lambda>uid.
     bindH (liftH 400 (\<lambda>_. Errorf ''bad request'') body) (\<lambda>(password, status).
     bindH (patch_password A uid password) (\<lambda>u1.
     bindH (patch_user_status A uid status u1) (\<lambda>u2.
     bindH (case u2 of Some u \<Rightarrow> retH (Some u)
            | None \<Rightarrow> readH (\<lambda>d. case GetUser (ap_q A) d uid (ap_tenantID A) of Inl _ \<Rightarrow> None | Inr u \<Rightarrow> Some u)) (\<lambda>u3.
       case u3 of
         None \<Rightarrow> writeJSON 200 (UserBody (userToResponse zero_User ''''))
       | Some u \<Rightarrow> bindH (readH (\<lambda>d. roleOf A d (u_ID u))) (\<lambda>role. writeJSON 200 (UserBody (userToResponse u role))))))))"

definition users_delete :: "api \<Rightarrow> http_Request \<Rightarrow> response handler" where
  "users_delete A rq =
     bindH (badId A (rq_id rq)) (\<lambda>uid.
     bindH (stmtH 404 (\<lambda>_. Errorf ''not found'') (DeleteUser (ap_q A) uid (ap_tenantID A))) (\<lambda>_.
       writeJSON 204 NoBody))"

definition users_getRole :: "api \<Rightarrow> http_Request \<Rightarrow> response handler" where
  "users_getRole A rq =
     bindH (badId A (rq_id rq)) (\<lambda>uid.
     bindH (queryH 404 (\<lambda>_. Errorf ''not found'') (\<lambda>d. GetUserRole (ap_q A) d uid (ap_tenantID A))) (\<lambda>ur.
       writeJSON 200 (RoleBody (rq_id rq) (ur_Role ur))))"

definition users_putRole :: "api \<Rightarrow> http_Request \<Rightarrow> string res \<Rightarrow> response handler" where
  "users_putRole A rq body =
     bindH (badId A (rq_id rq)) (\<lambda>uid.
     bindH (liftH 400 (\<lambda>_. Errorf ''bad request'') body) (\<lambda>role.
       if \<not> validRole role then apiError 400 (Errorf ''bad request'')
       else bindH (stmtH 500 internal_error (UpsertUserRole (ap_q A) uid (ap_tenantID A) role)) (\<lambda>_.
            writeJSON 200 (RoleBody (rq_id rq) role))))"

section \<open>apitokens_handler.go\<close>

definition tokenToResponse :: "ApiToken \<Rightarrow> string \<Rightarrow> apiTokenResponse" where
  "tokenToResponse t plain = \<lparr>atr_ID = uuidStr (Some (at_ID t)), atr_Name = at_Name t, atr_Role = at_Role t,
     atr_CreatedBy = uuidStr (at_CreatedBy t), atr_ExpiresAt = at_ExpiresAt t, atr_LastUsedAt = at_LastUsedAt t,
     atr_CreatedAt = at_CreatedAt t, atr_PlainToken = plain\<rparr>"

definition apiTokens_list :: "api \<Rightarrow> response handler" where
  "apiTokens_list A =
     bindH (queryH 500 internal_error (\<lambda>d. ListAPITokens (ap_q A) d (ap_tenantID A))) (\<lambda>ts.
       writeJSON 200 (ApiTokensBody (map (\<lambda>t. tokenToResponse t '''') ts)))"

text \<open>The body is the name, the role and the expiry; \<open>rnd\<close> the 32 bytes of \<open>rand.Read\<close>.\<close>

definition apiTokens_create :: "api \<Rightarrow> http_Request \<Rightarrow> bytes res \<Rightarrow> (string \<times> string \<times> int option) res \<Rightarrow> response handler" where
  "apiTokens_create A rq rnd body =
     bindH (liftH 400 (\<lambda>_. Errorf ''bad request'') body) (\<lambda>(name, role, expiresAt).
       if name = '''' then apiError 400 (Errorf ''bad request'')
       else if \<not> validRole role then apiError 400 (Errorf ''invalid role'')
       else
         bindH (liftH 500 internal_error rnd) (\<lambda>rawBytes.
           let plain = hexEncode rawBytes;
               createdBy = (case rq_claims rq of None \<Rightarrow> None | Some c \<Rightarrow> scan_opt A (cl_UserID c))
           in bindH (stmtH 500 internal_error (CreateAPIToken (ap_q A) (ap_tenantID A) name (sha256Hex A plain) role createdBy expiresAt)) (\<lambda>tok.
              writeJSON 201 (ApiTokenBody (tokenToResponse tok plain)))))"

definition apiTokens_delete :: "api \<Rightarrow> http_Request \<Rightarrow> response handler" where
  "apiTokens_delete A rq =
     bindH (badId A (rq_id rq)) (\<lambda>i.
     bindH (stmtH 404 (\<lambda>_. Errorf ''not found'') (DeleteAPIToken (ap_q A) i (ap_tenantID A))) (\<lambda>_.
       writeJSON 204 NoBody))"

section \<open>bootstrap.go\<close>

definition EnsureAdminUser :: "api \<Rightarrow> string \<Rightarrow> string \<Rightarrow> string \<Rightarrow> (db, unit) st" where
  "EnsureAdminUser A email password username d =
     (if email = '''' \<or> password = '''' \<or> username = '''' then (Inr (), d)
      else case GetUserByUsername (ap_q A) d (ap_tenantID A) username of
        Inr _ \<Rightarrow> (Inr (), d)
      | Inl _ \<Rightarrow>
          bindS (wrapS ''bcrypt'' (liftS (ap_bcrypt_Generate A password))) (\<lambda>hash.
          bindS (wrapS ''create admin user'' (CreateUser (ap_q A) (ap_tenantID A) email username (Some hash) None)) (\<lambda>user.
            wrapS ''set admin role'' (UpsertUserRole (ap_q A) (u_ID user) (ap_tenantID A) ''admin''))) d)"

section \<open>oidc.go\<close>

text \<open>The part of an address before the first \<open>@\<close> that is not its first character.\<close>

fun before_at :: "bool \<Rightarrow> string \<Rightarrow> string option" where
  "before_at started [] = None"
| "before_at started (c # cs) = (if c = CHR ''@'' \<and> started then Some []
     else map_option ((#) c) (before_at True cs))"

definition splitEmailLocal :: "string \<Rightarrow> string" where
  "splitEmailLocal email = (if email = '''' then ''user'' else case before_at False email of None \<Rightarrow> email | Some l \<Rightarrow> l)"

text \<open>The loop over \<open>n = 1, ..., 99\<close>.\<close>

fun try_usernames :: "api \<Rightarrow> db \<Rightarrow> string \<Rightarrow> string \<Rightarrow> nat list \<Rightarrow> string" where
  "try_usernames A d name candidate [] = candidate"
| "try_usernames A d name candidate (n # ns) =
     (case GetUserByUsername (ap_q A) d (ap_tenantID A) candidate of
        Inl _ \<Rightarrow> candidate
      | Inr _ \<Rightarrow> try_usernames A d name (name @ ''-'' @ dec n) ns)"

definition uniqueUsername :: "api \<Rightarrow> db \<Rightarrow> string \<Rightarrow> string" where
  "uniqueUsername A d name = try_usernames A d name name [1..<100]"

definition findOrCreateOIDCUser :: "api \<Rightarrow> string \<Rightarrow> string \<Rightarrow> string \<Rightarrow> (db, User \<times> string) st" where
  "findOrCreateOIDCUser A email username subject d =
     (case GetUserByEmail (ap_q A) d (ap_tenantID A) email of
        Inr user \<Rightarrow>
          if u_Status user \<noteq> ''active'' then (Inl (Errorf ''user disabled''), d)
          else (case (if u_OidcSubject user = None then UpdateUserOIDCSubject (ap_q A) (u_ID user) (ap_tenantID A) (Some subject) d
                      else (Inl (Errorf ''linked''), d)) of
                  (r, d1) \<Rightarrow> (Inr ((if is_ok r then user\<lparr>u_OidcSubject := Some subject\<rparr> else user), roleOf A d1 (u_ID user)), d1))
      | Inl _ \<Rightarrow>
          bindS (wrapS ''create oidc user'' (CreateUser (ap_q A) (ap_tenantID A) email (uniqueUsername A d username) None (Some subject))) (\<lambda>user.
          bindS (wrapS ''set oidc user role'' (UpsertUserRole (ap_q A) (u_ID user) (ap_tenantID A) ''auditor'')) (\<lambda>_.
            retS (user, ''auditor''))) d)"

text \<open>
  The callback: \<open>state\<close> is the query parameter, \<open>cookie\<close> the state cookie, \<open>verified\<close> what
  exchanging the code and verifying the ID token give, the address, the subject and the
  preferred user name, or the status code of the failure.
\<close>

definition oidc_Callback ::
  "api \<Rightarrow> int \<Rightarrow> string option \<Rightarrow> string \<Rightarrow> (nat \<times> goerr) + (string \<times> string \<times> string) \<Rightarrow> response handler" where
  "oidc_Callback A now cookie state verified =
     (if cookie \<noteq> Some state then apiError 400 (Errorf ''invalid state'')
      else case verified of
        Inl (code, e) \<Rightarrow> apiError code e
      | Inr (email, subject, preferred) \<Rightarrow>
          if email = '''' then apiError 400 (Errorf ''missing email claim'')
          else
            bindH (stmtH 500 internal_error (findOrCreateOIDCUser A email (if preferred = '''' then splitEmailLocal email else preferred) subject)) (\<lambda>(user, role).
            bindH (startSession A now user role) (\<lambda>(access, refresh).
              writeJSON 302 (RedirectBody access refresh))))"

section \<open>What these handlers preserve\<close>

lemma keepsH_liftH [keepsH_intros]: "keepsH P (liftH c msg r)"
  by (simp add: liftH_def keepsH_answers split: sum.split)

lemma keepsH_auth_answers [keepsH_intros]:
  "keepsH P unauthorized" "keepsH P invalid_credentials" "keepsH P (logAuditAfter A a b c d e f)" "keepsH P (logAudit A a b c d e)" "keepsH P (badId A s)"
  by (simp_all add: unauthorized_def invalid_credentials_def logAuditAfter_def logAudit_def badId_def keepsH_answers keepsH_liftH)

lemma keepsH_JWTMiddleware: "(\<And>rq. keepsH P (nxt rq)) \<Longrightarrow> keepsH P (JWTMiddleware A now nxt rq)"
  by (auto simp: JWTMiddleware_def Let_def intro!: keepsH_intros split: sum.split)

lemma keepsH_APITokenMiddleware: "(\<And>rq. keepsH P (nxt rq)) \<Longrightarrow> keepsH P (APITokenMiddleware A now nxt rq)"
  by (auto simp: APITokenMiddleware_def intro!: keepsH_intros)

lemma keepsH_authAny: "(\<And>rq. keepsH P (nxt rq)) \<Longrightarrow> keepsH P (authAny A now nxt rq)"
  by (auto simp: authAny_def keepsH_JWTMiddleware keepsH_APITokenMiddleware keepsH_auth_answers split: option.split)

lemma keepsH_auth_reads [keepsH_intros]:
  "keepsH P (auth_Refresh A now rq)" "keepsH P (auth_Me rq)" "keepsH P (users_list A)" "keepsH P (users_get A rq)" "keepsH P (users_getRole A rq)"
  "keepsH P (apiTokens_list A)"
  unfolding auth_Refresh_def auth_Me_def users_list_def users_get_def users_getRole_def apiTokens_list_def
  by (auto simp: keepsH_splits intro!: keepsH_intros split: option.splits)

context store_invariant
begin

lemma inv_startSession: "ok (ap_q A) \<Longrightarrow> keepsH P (startSession A now user role)"
  unfolding startSession_def Let_def by (intro keepsH_intros stmts)

lemma inv_sessions:
  assumes "ok (ap_q A)"
  shows "keepsH P (auth_Login A now b)" "keepsH P (auth_Logout A rq)" "keepsH P (auth_ChangePassword A rq b)"
  unfolding auth_Login_def auth_Logout_def auth_ChangePassword_def Let_def
  by (auto simp: keepsH_splits intro!: keepsH_intros stmts inv_startSession assms)

lemma inv_users:
  assumes "ok (ap_q A)"
  shows "keepsH P (users_create A b)" "keepsH P (users_patch A rq bp)" "keepsH P (users_delete A rq)" "keepsH P (users_putRole A rq br)"
  unfolding users_create_def users_patch_def users_delete_def users_putRole_def patch_password_def patch_user_status_def
  by (auto simp: keepsH_splits intro!: keepsH_intros stmts assms)

lemma inv_apiTokens:
  assumes "ok (ap_q A)"
  shows "keepsH P (apiTokens_create A rq rnd b)" "keepsH P (apiTokens_delete A rq)"
  unfolding apiTokens_create_def apiTokens_delete_def Let_def
  by (auto simp: keepsH_splits intro!: keepsH_intros stmts assms)

lemma inv_findOrCreateOIDCUser:
  assumes "ok (ap_q A)"
  shows "keeps P (findOrCreateOIDCUser A email username subject)"
proof -
  have c: "keeps P (bindS (wrapS m1 (CreateUser (ap_q A) tid email name None (Some subject))) (\<lambda>user.
      bindS (wrapS m2 (UpsertUserRole (ap_q A) (u_ID user) tid ''auditor'')) (\<lambda>_. retS (user, ''auditor''))))" for m1 m2 tid name
    by (intro keeps_intros stmts assms)
  have u: "P d1" if "UpdateUserOIDCSubject (ap_q A) uid tid v d = (r, d1)" "P d" for uid tid v d r d1
    using keepsD' [OF st_UpdateUserOIDCSubject [OF assms] that] .
  show ?thesis using keepsD [OF c] u
    by (auto simp: keeps_def findOrCreateOIDCUser_def split: sum.splits prod.splits if_splits)
qed

lemma inv_oidc_Callback: "ok (ap_q A) \<Longrightarrow> keepsH P (oidc_Callback A now cookie st v)"
  unfolding oidc_Callback_def by (auto simp: keepsH_splits intro!: keepsH_intros inv_findOrCreateOIDCUser inv_startSession)

lemma inv_EnsureAdminUser:
  assumes "ok (ap_q A)"
  shows "keeps P (EnsureAdminUser A email password username)"
proof -
  have "keeps P (bindS (wrapS m1 (liftS h)) (\<lambda>hash. bindS (wrapS m2 (CreateUser (ap_q A) tid email username (Some hash) None)) (\<lambda>user.
      wrapS m3 (UpsertUserRole (ap_q A) (u_ID user) tid ''admin''))))" for m1 m2 m3 h tid
    by (intro keeps_intros stmts assms)
  then show ?thesis by (auto simp: keeps_def EnsureAdminUser_def split: sum.splits)
qed

end

end
