(* ===== verification/Qf_DiskBuffer.thy ===== *)
theory Qf_DiskBuffer
  imports Qf_Agent "HOL-Library.Sublist"
begin

text \<open>
  The agent's event buffer on disk (agent/internal/grpcclient/diskbuffer.go): messages that
  could not be sent are kept as files named by the time of writing, replayed in this order
  after a reconnect, and dropped oldest first when the buffer exceeds its cap.
\<close>

section \<open>The directory\<close>

text \<open>
  The entries in the order in which \<open>os.ReadDir\<close> lists them; \<open>None\<close> is a subdirectory. A
  missing directory is one without entries. Each call may fail; a failing write leaves the
  file as long as \<open>short\<close> says, or no file.
\<close>

record bufdir =
  db_entries :: "(string \<times> bytes option) list"
  db_ops :: nat

text \<open>The protobuf codec of agent messages.\<close>

record msg_codec =
  am_Marshal :: "agent_msg \<Rightarrow> bytes res"
  am_Unmarshal :: "bytes \<Rightarrow> agent_msg res"


definition dirS :: "(nat \<Rightarrow> bool) \<Rightarrow> (bufdir, 'a) st \<Rightarrow> (bufdir, 'a) st \<Rightarrow> (bufdir, 'a) st" where
  "dirS flt fail op = (\<lambda>d. let d' = d\<lparr>db_ops := Suc (db_ops d)\<rparr> in if flt (db_ops d) then fail d' else op d')"

definition put_entry :: "string \<Rightarrow> bytes \<Rightarrow> (string \<times> bytes option) list \<Rightarrow> (string \<times> bytes option) list" where
  "put_entry f data es = (if f \<in> fst ` set es then map (\<lambda>(n, c). if n = f then (n, Some data) else (n, c)) es else es @ [(f, Some data)])"

definition os_WriteFile :: "(nat \<Rightarrow> bool) \<Rightarrow> nat option \<Rightarrow> string \<Rightarrow> bytes \<Rightarrow> (bufdir, unit) st" where
  "os_WriteFile flt short f data = dirS flt
     (\<lambda>d. (Inl (Errorf ''i/o error''), case short of None \<Rightarrow> d | Some n \<Rightarrow> d\<lparr>db_entries := put_entry f (take n data) (db_entries d)\<rparr>))
     (\<lambda>d. (Inr (), d\<lparr>db_entries := put_entry f data (db_entries d)\<rparr>))"

definition os_ReadFile :: "(nat \<Rightarrow> bool) \<Rightarrow> string \<Rightarrow> (bufdir, bytes) st" where
  "os_ReadFile flt f = dirS flt io_err (\<lambda>d. case map_of (db_entries d) f of
     Some (Some data) \<Rightarrow> (Inr data, d) | _ \<Rightarrow> (Inl (Sentinel ''os.ErrNotExist''), d))"

definition removeFile :: "(nat \<Rightarrow> bool) \<Rightarrow> string \<Rightarrow> bufdir \<Rightarrow> bufdir" where
  "removeFile flt f d = snd (dirS flt io_err (\<lambda>d. (Inr (), d\<lparr>db_entries := filter (\<lambda>e. fst e \<noteq> f) (db_entries d)\<rparr>)) d)"

section \<open>File names\<close>

text \<open>\<open>strconv.ParseInt(s, 10, 64)\<close> with its error ignored: 0 for a syntax error, the nearest value for an overflow.\<close>

fun parseU64_loop :: "string \<Rightarrow> nat \<Rightarrow> nat res" where
  "parseU64_loop [] n = Inr n"
| "parseU64_loop (c # cs) n =
     (if \<not> is_digit c then Inl (Errorf ''invalid syntax'')
      else let n' = n * 10 + digit_val c in
        if 2 ^ 64 \<le> n' then Inl (Sentinel ''strconv.ErrRange'') else parseU64_loop cs n')"

definition parseInt64 :: "string \<Rightarrow> int" where
  "parseInt64 s =
     (let neg = (s \<noteq> [] \<and> hd s = CHR ''-''); t = (if s \<noteq> [] \<and> (hd s = CHR ''-'' \<or> hd s = CHR ''+'') then tl s else s) in
      if t = [] then 0
      else case parseU64_loop t 0 of
        Inl e \<Rightarrow> if \<not> errors_Is e ''strconv.ErrRange'' then 0 else if neg then - (2 ^ 63) else 2 ^ 63 - 1
      | Inr n \<Rightarrow> if neg then (if 2 ^ 63 < n then - (2 ^ 63) else - int n) else if 2 ^ 63 \<le> n then 2 ^ 63 - 1 else int n)"

definition has_pb :: "string \<Rightarrow> bool" where
  "has_pb name \<longleftrightarrow> 3 \<le> length name \<and> drop (length name - 3) name = ''.pb''"

definition pbNameToNs :: "string \<Rightarrow> int" where
  "pbNameToNs name = parseInt64 (if has_pb name then take (length name - 3) name else name)"

definition pb_name :: "nat \<Rightarrow> string" where
  "pb_name ns = dec ns @ ''.pb''"

section \<open>Write, evict, Replay\<close>

definition diskBufMaxBytes :: nat where "diskBufMaxBytes = 100 * 1024 * 1024"

definition sorted_names :: "bufdir \<Rightarrow> string list" where
  "sorted_names d = sort_key pbNameToNs (map fst (filter (\<lambda>(n, c). c \<noteq> None \<and> has_pb n) (db_entries d)))"

definition sortedFiles :: "(nat \<Rightarrow> bool) \<Rightarrow> (bufdir, string list) st" where
  "sortedFiles flt = dirS flt io_err (\<lambda>d. (Inr (sorted_names d), d))"

definition file_size :: "bufdir \<Rightarrow> string \<Rightarrow> nat" where
  "file_size d f = (case map_of (db_entries d) f of Some (Some data) \<Rightarrow> length data | _ \<Rightarrow> 0)"

text \<open>The first loop of \<open>evict\<close>: the sizes, 0 where \<open>os.Stat\<close> fails.\<close>

fun stat_sizes :: "(nat \<Rightarrow> bool) \<Rightarrow> string list \<Rightarrow> bufdir \<Rightarrow> nat list \<times> bufdir" where
  "stat_sizes flt [] d = ([], d)"
| "stat_sizes flt (f # fs) d =
     (case dirS flt io_err (\<lambda>d. (Inr (file_size d f), d)) d of
        (r, d1) \<Rightarrow> (case stat_sizes flt fs d1 of (szs, d2) \<Rightarrow> ((case r of Inl _ \<Rightarrow> 0 | Inr n \<Rightarrow> n) # szs, d2)))"

fun evict_loop :: "(nat \<Rightarrow> bool) \<Rightarrow> (string \<times> nat) list \<Rightarrow> int \<Rightarrow> bufdir \<Rightarrow> bufdir" where
  "evict_loop flt [] tot d = d"
| "evict_loop flt ((f, sz) # fs) tot d =
     (if tot \<le> int diskBufMaxBytes then d else evict_loop flt fs (tot - int sz) (removeFile flt f d))"

definition evict :: "(nat \<Rightarrow> bool) \<Rightarrow> bufdir \<Rightarrow> bufdir" where
  "evict flt d =
     (case sortedFiles flt d of
        (Inl _, d1) \<Rightarrow> d1
      | (Inr fs, d1) \<Rightarrow> (case stat_sizes flt fs d1 of (szs, d2) \<Rightarrow> evict_loop flt (zip fs szs) (int (sum_list szs)) d2))"

definition DiskBuffer_Write :: "msg_codec \<Rightarrow> (nat \<Rightarrow> bool) \<Rightarrow> nat option \<Rightarrow> nat \<Rightarrow> agent_msg \<Rightarrow> (bufdir, unit) st" where
  "DiskBuffer_Write M flt short now msg =
     bindS (wrapS ''diskbuffer mkdir'' (dirS flt io_err (\<lambda>d. (Inr (), d)))) (\<lambda>_.
     bindS (wrapS ''diskbuffer marshal'' (liftS (am_Marshal M msg))) (\<lambda>data.
     bindS (wrapS ''diskbuffer write'' (os_WriteFile flt short (pb_name now) data)) (\<lambda>_ d.
       (Inr (), evict flt d))))"

text \<open>
  The loop of \<open>Replay\<close> on the directory and on the state of \<open>sendFn\<close>; \<open>ctx i\<close> tells whether
  the context is cancelled when the file number \<open>i\<close> is reached.
\<close>

fun replay_loop ::
  "msg_codec \<Rightarrow> (nat \<Rightarrow> bool) \<Rightarrow> (nat \<Rightarrow> bool) \<Rightarrow> (agent_msg \<Rightarrow> ('s, unit) st) \<Rightarrow> string list \<Rightarrow> nat \<Rightarrow> (bufdir \<times> 's, unit) st" where
  "replay_loop M flt ctx sendFn [] i dz = (Inr (), dz)"
| "replay_loop M flt ctx sendFn (f # fs) i dz =
     (if ctx i then (Inl (Sentinel ''context.Canceled''), dz)
      else case os_ReadFile flt f (fst dz) of
        (Inl _, d1) \<Rightarrow> replay_loop M flt ctx sendFn fs (Suc i) (d1, snd dz)
      | (Inr data, d1) \<Rightarrow>
          (case am_Unmarshal M data of
             Inl _ \<Rightarrow> replay_loop M flt ctx sendFn fs (Suc i) (removeFile flt f d1, snd dz)
           | Inr msg \<Rightarrow>
               (case sendFn msg (snd dz) of
                  (Inl e, z1) \<Rightarrow> (Inl e, (d1, z1))
                | (Inr _, z1) \<Rightarrow> replay_loop M flt ctx sendFn fs (Suc i) (removeFile flt f d1, z1))))"

definition Replay ::
  "msg_codec \<Rightarrow> (nat \<Rightarrow> bool) \<Rightarrow> (nat \<Rightarrow> bool) \<Rightarrow> (agent_msg \<Rightarrow> ('s, unit) st) \<Rightarrow> (bufdir \<times> 's, unit) st" where
  "Replay M flt ctx sendFn dz =
     (case sortedFiles flt (fst dz) of
        (Inl _, d1) \<Rightarrow> (Inr (), (d1, snd dz))
      | (Inr fs, d1) \<Rightarrow> replay_loop M flt ctx sendFn fs 0 (d1, snd dz))"

section \<open>Facts about names and entries\<close>

lemma parseU64_loop_dec: "n < 2 ^ 64 \<Longrightarrow> parseU64_loop (dec n @ cs) 0 = parseU64_loop cs n"
proof (induction n arbitrary: cs rule: dec.induct)
  case (1 n)
  show ?case
  proof (cases "n < 10")
    case True
    then show ?thesis by (simp add: dec_small)
  next
    case False
    then have "dec n = dec (n div 10) @ [digit_char (n mod 10)]" by (subst dec.simps) simp
    then show ?thesis using False 1 by simp
  qed
qed

lemma hd_dec_digit: "is_digit (hd (dec n))"
  using dec_digits [of "hd (dec n)" n] by simp

lemma pbNameToNs_pb_name: "n < 2 ^ 63 \<Longrightarrow> pbNameToNs (pb_name n) = int n"
proof -
  assume n: "n < 2 ^ 63"
  have "hd (dec n) \<noteq> CHR ''-''" "hd (dec n) \<noteq> CHR ''+''"
    using hd_dec_digit [of n] by (auto simp: is_digit_def)
  moreover have "parseU64_loop (dec n) 0 = Inr n" using parseU64_loop_dec [of n "[]"] n by simp
  ultimately show ?thesis using n by (simp add: pbNameToNs_def has_pb_def pb_name_def parseInt64_def)
qed

lemma has_pb_pb_name [simp]: "has_pb (pb_name n)"
  by (simp add: has_pb_def pb_name_def)

text \<open>The messages a directory holds, oldest first; files that do not decode hold none.\<close>

definition decoded :: "msg_codec \<Rightarrow> bytes option \<Rightarrow> agent_msg list" where
  "decoded M c = (case c of None \<Rightarrow> [] | Some data \<Rightarrow> (case am_Unmarshal M data of Inl _ \<Rightarrow> [] | Inr m \<Rightarrow> [m]))"

definition held :: "msg_codec \<Rightarrow> bufdir \<Rightarrow> string \<Rightarrow> agent_msg list" where
  "held M d f = (case map_of (db_entries d) f of None \<Rightarrow> [] | Some c \<Rightarrow> decoded M c)"

definition buffered :: "msg_codec \<Rightarrow> bufdir \<Rightarrow> agent_msg list" where
  "buffered M d = concat (map (held M d) (sorted_names d))"

lemma removeFile_entries:
  "db_entries (removeFile flt f d) = (if flt (db_ops d) then db_entries d else filter (\<lambda>e. fst e \<noteq> f) (db_entries d))"
  by (simp add: removeFile_def dirS_def io_err_def failS_def Let_def)

lemma os_ReadFile_Inr:
  assumes "os_ReadFile flt f d = (Inr data, d')"
  shows "map_of (db_entries d) f = Some (Some data) \<and> db_entries d' = db_entries d"
  using assms by (auto simp: os_ReadFile_def dirS_def io_err_def failS_def Let_def split: if_splits option.splits)

lemma os_ReadFile_entries: "db_entries (snd (os_ReadFile flt f d)) = db_entries d"
  by (auto simp: os_ReadFile_def dirS_def io_err_def failS_def Let_def split: if_splits option.splits)

lemma map_of_filter_other: "g \<noteq> f \<Longrightarrow> map_of (filter (\<lambda>e. fst e \<noteq> f) es) g = map_of es g"
  by (induction es) auto

lemma held_removeFile: "g \<noteq> f \<Longrightarrow> held M (removeFile flt f d) g = held M d g"
  by (simp add: held_def removeFile_entries map_of_filter_other)

lemma held_cong: "db_entries d' = db_entries d \<Longrightarrow> held M d' = held M d"
  by (simp add: held_def fun_eq_iff)

section \<open>Replay\<close>

text \<open>What one pass over the files does, whatever fails.\<close>

lemma replay_loop_safe:
  assumes "replay_loop M flt ctx (stream_Send sflt) fs i (d, z) = (r, (d', z'))" and "distinct fs"
  shows "\<exists>ms. sent z' = sent z @ ms \<and> subseq ms (concat (map (held M d) fs))
    \<and> set (db_entries d') \<subseteq> set (db_entries d)
    \<and> (\<forall>e \<in> set (db_entries d). e \<in> set (db_entries d') \<or> (fst e \<in> set fs \<and> set (held M d (fst e)) \<subseteq> set ms))"
  using assms
proof (induction fs arbitrary: i d z)
  case Nil
  then show ?case by (intro exI [of _ "[]"]) auto
next
  case (Cons f fs)
  obtain q d1 where rd: "os_ReadFile flt f d = (q, d1)" by fastforce
  then have e1: "db_entries d1 = db_entries d" using os_ReadFile_entries [of flt f d] by simp
  note hc = held_cong [OF e1]
  define d2 where "d2 = removeFile flt f d1"
  have e2: "set (db_entries d2) \<subseteq> set (db_entries d)" "\<And>e. e \<in> set (db_entries d) \<Longrightarrow> fst e \<noteq> f \<Longrightarrow> e \<in> set (db_entries d2)"
    by (auto simp: d2_def removeFile_entries e1)
  have h2: "map (held M d2) fs = map (held M d) fs"
    using Cons.prems(2) by (simp add: d2_def) (metis held_removeFile hc)
  show ?case
  proof (cases "ctx i")
    case True
    then show ?thesis using Cons.prems by (intro exI [of _ "[]"]) auto
  next
    case False
    have go: "(case q of Inl _ \<Rightarrow> replay_loop M flt ctx (stream_Send sflt) fs (Suc i) (d1, z)
       | Inr data \<Rightarrow> (case am_Unmarshal M data of Inl _ \<Rightarrow> replay_loop M flt ctx (stream_Send sflt) fs (Suc i) (d2, z)
         | Inr m \<Rightarrow> (case stream_Send sflt m z of (Inl e, z1) \<Rightarrow> (Inl e, (d1, z1))
             | (Inr _, z1) \<Rightarrow> replay_loop M flt ctx (stream_Send sflt) fs (Suc i) (d2, z1)))) = (r, (d', z'))"
      using Cons.prems(1) [unfolded replay_loop.simps fst_conv snd_conv] False rd unfolding d2_def by (cases q) simp_all
    have skip: ?thesis if s: "replay_loop M flt ctx (stream_Send sflt) fs (Suc i) (d0, z) = (r, (d', z'))"
        "set (db_entries d0) \<subseteq> set (db_entries d)" "map (held M d0) fs = map (held M d) fs"
        "\<And>e. e \<in> set (db_entries d) \<Longrightarrow> e \<in> set (db_entries d0) \<or> fst e = f \<and> held M d f = []" for d0
    proof -
      from Cons.IH [OF s(1)] Cons.prems(2) obtain ms where ms: "sent z' = sent z @ ms" "subseq ms (concat (map (held M d) fs))"
        "set (db_entries d') \<subseteq> set (db_entries d0)"
        "\<And>e. e \<in> set (db_entries d0) \<Longrightarrow> e \<in> set (db_entries d') \<or> (fst e \<in> set fs \<and> set (held M d0 (fst e)) \<subseteq> set ms)"
        unfolding s(3) by auto
      have "held M d0 g = held M d g" if "g \<in> set fs" for g using that s(3) by auto
      then show ?thesis using ms s(2,4) by (intro exI [of _ ms]) (fastforce intro: subseq_drop_many)
    qed
    show ?thesis
    proof (cases q)
      case (Inl e)
      then show ?thesis using skip [of d1] go e1 hc by simp
    next
      case (Inr data)
      then have md: "map_of (db_entries d) f = Some (Some data)" using os_ReadFile_Inr rd by blast
      show ?thesis
      proof (cases "am_Unmarshal M data")
        case (Inl e)
        then have "held M d f = []" using md by (simp add: held_def decoded_def)
        then show ?thesis using skip [of d2] go \<open>q = Inr data\<close> Inl e2 h2 by auto
      next
        case (Inr m)
        then have hf: "held M d f = [m]" using md by (simp add: held_def decoded_def)
        show ?thesis
        proof (cases "sflt (nsend z)")
          case True
          then show ?thesis using go \<open>q = Inr data\<close> Inr e1 by (intro exI [of _ "[]"]) (auto simp: stream_Send_cases)
        next
          case False
          let ?z = "z\<lparr>nsend := Suc (nsend z), sent := sent z @ [m]\<rparr>"
          have "replay_loop M flt ctx (stream_Send sflt) fs (Suc i) (d2, ?z) = (r, (d', z'))"
            using go \<open>q = Inr data\<close> Inr False by (simp add: stream_Send_cases)
          from Cons.IH [OF this] Cons.prems(2) obtain ms where ms: "sent z' = sent z @ m # ms" "subseq ms (concat (map (held M d) fs))"
            "set (db_entries d') \<subseteq> set (db_entries d2)"
            "\<And>e. e \<in> set (db_entries d2) \<Longrightarrow> e \<in> set (db_entries d') \<or> (fst e \<in> set fs \<and> set (held M d2 (fst e)) \<subseteq> set ms)"
            unfolding h2 by auto
          have "held M d2 g = held M d g" if "g \<in> set fs" for g using that h2 by auto
          then show ?thesis using ms e2 hf by (intro exI [of _ "m # ms"]) fastforce
        qed
      qed
    qed
  qed
qed

lemma sorted_names_distinct: "distinct (map fst (db_entries d)) \<Longrightarrow> distinct (sorted_names d)"
  by (simp add: sorted_names_def distinct_map_filter)

text \<open>
  C28. Replay loses nothing. Whatever reads, removals and sends fail, and wherever the context
  is cancelled: the messages sent are buffered ones in chronological order, no file is
  created, and a file that is gone afterwards was a buffer file whose message, if it holds
  one, was sent on this stream.
\<close>

theorem Replay_no_loss:
  assumes "Replay M flt ctx (stream_Send sflt) (d, z) = (r, (d', z'))" and "distinct (map fst (db_entries d))"
  shows "\<exists>ms. sent z' = sent z @ ms \<and> subseq ms (buffered M d)
    \<and> set (db_entries d') \<subseteq> set (db_entries d)
    \<and> (\<forall>e \<in> set (db_entries d). e \<in> set (db_entries d') \<or> (has_pb (fst e) \<and> set (decoded M (snd e)) \<subseteq> set ms))"
proof (cases "flt (db_ops d)")
  case True
  then have "Replay M flt ctx (stream_Send sflt) (d, z) = (Inr (), (d\<lparr>db_ops := Suc (db_ops d)\<rparr>, z))"
    by (simp add: Replay_def sortedFiles_def dirS_def io_err_def failS_def Let_def)
  then have "d' = d\<lparr>db_ops := Suc (db_ops d)\<rparr>" "z' = z" using assms(1) by (simp_all only: prod.inject)
  then have "db_entries d' = db_entries d" "z' = z" by simp_all
  then show ?thesis by (intro exI [of _ "[]"]) simp
next
  case False
  let ?d = "d\<lparr>db_ops := Suc (db_ops d)\<rparr>"
  have n: "sorted_names ?d = sorted_names d" "held M ?d = held M d" by (simp add: sorted_names_def) (rule held_cong, simp)
  have "replay_loop M flt ctx (stream_Send sflt) (sorted_names d) 0 (?d, z) = (r, (d', z'))"
    using assms(1) False by (simp add: Replay_def sortedFiles_def dirS_def n Let_def)
  from replay_loop_safe [OF this sorted_names_distinct [OF assms(2)]] obtain ms where
    ms: "sent z' = sent z @ ms" "subseq ms (buffered M d)" "set (db_entries d') \<subseteq> set (db_entries d)"
      "\<And>e. e \<in> set (db_entries d) \<Longrightarrow> e \<in> set (db_entries d') \<or> (fst e \<in> set (sorted_names d) \<and> set (held M d (fst e)) \<subseteq> set ms)"
    unfolding n buffered_def by auto
  have "held M d (fst e) = decoded M (snd e)" if "e \<in> set (db_entries d)" for e
    using map_of_is_SomeI [OF assms(2), of "fst e" "snd e"] that by (simp add: held_def)
  moreover have "has_pb f" if "f \<in> set (sorted_names d)" for f using that by (auto simp: sorted_names_def)
  ultimately have "e \<in> set (db_entries d') \<or> (has_pb (fst e) \<and> set (decoded M (snd e)) \<subseteq> set ms)" if "e \<in> set (db_entries d)" for e
    using ms(4) [OF that] that by metis
  then show ?thesis using ms(1,2,3) by blast
qed

section \<open>The cap\<close>

text \<open>Without faults \<open>evict\<close> drops the shortest prefix of the files that brings the rest under the cap.\<close>

lemma stat_sizes_ok:
  "\<exists>n. stat_sizes (\<lambda>_. False) fs d = (map (file_size d) fs, d\<lparr>db_ops := n\<rparr>)"
proof (induction fs arbitrary: d)
  case Nil
  show ?case by (intro exI [of _ "db_ops d"]) simp
next
  case (Cons f fs)
  have "file_size (d\<lparr>db_ops := m\<rparr>) = file_size d" for m by (simp add: file_size_def fun_eq_iff)
  then show ?case using Cons [of "d\<lparr>db_ops := Suc (db_ops d)\<rparr>"] by (auto simp: dirS_def Let_def)
qed

lemma evict_loop_ok:
  assumes "length szs = length fs"
  shows "\<exists>k \<le> length fs. db_entries (evict_loop (\<lambda>_. False) (zip fs szs) (int (sum_list szs)) d) =
      filter (\<lambda>e. fst e \<notin> set (take k fs)) (db_entries d)
    \<and> sum_list (drop k szs) \<le> diskBufMaxBytes \<and> (\<forall>j < k. diskBufMaxBytes < sum_list (drop j szs))"
  using assms
proof (induction fs szs arbitrary: d rule: list_induct2')
  case (4 f fs sz szs)
  show ?case
  proof (cases "sz + sum_list szs \<le> diskBufMaxBytes")
    case True
    then show ?thesis by (intro exI [of _ 0]) simp
  next
    case False
    have "length szs = length fs" using 4(2) by simp
    from 4(1) [OF this, of "removeFile (\<lambda>_. False) f d"]
    obtain k where k: "k \<le> length fs" "sum_list (drop k szs) \<le> diskBufMaxBytes" "\<forall>j < k. diskBufMaxBytes < sum_list (drop j szs)"
      "db_entries (evict_loop (\<lambda>_. False) (zip fs szs) (int (sum_list szs)) (removeFile (\<lambda>_. False) f d)) =
        filter (\<lambda>e. fst e \<notin> set (take k fs)) (filter (\<lambda>e. fst e \<noteq> f) (db_entries d))"
      unfolding removeFile_entries if_False by blast
    have "diskBufMaxBytes < sum_list (drop j (sz # szs))" if "j < Suc k" for j
      using that k(3) False by (cases j) auto
    moreover have "filter (\<lambda>e. fst e \<notin> set (take k fs)) (filter (\<lambda>e. fst e \<noteq> f) (db_entries d)) =
        filter (\<lambda>e. fst e \<notin> set (take (Suc k) (f # fs))) (db_entries d)"
      by (simp add: conj_commute)
    ultimately show ?thesis using k False by (intro exI [of _ "Suc k"]) simp
  qed
qed auto

lemma filter_not_take: "distinct xs \<Longrightarrow> filter (\<lambda>x. x \<notin> set (take k xs)) xs = drop k xs"
proof -
  assume "distinct xs"
  then have "set (take k xs) \<inter> set (drop k xs) = {}" by (metis append_take_drop_id distinct_append)
  then have "filter (\<lambda>x. x \<notin> set (take k xs)) (take k xs) = []" "filter (\<lambda>x. x \<notin> set (take k xs)) (drop k xs) = drop k xs"
    by (auto simp: filter_empty_conv intro!: filter_True)
  then show ?thesis by (metis append_Nil append_take_drop_id filter_append)
qed

lemma evict_ok:
  assumes "distinct (map fst (db_entries d))"
  obtains k where "db_entries (evict (\<lambda>_. False) d) = filter (\<lambda>e. fst e \<notin> set (take k (sorted_names d))) (db_entries d)"
    "sorted_names (evict (\<lambda>_. False) d) = drop k (sorted_names d)"
    "sum_list (map (file_size d) (drop k (sorted_names d))) \<le> diskBufMaxBytes"
    "\<And>j. j < k \<Longrightarrow> diskBufMaxBytes < sum_list (map (file_size d) (drop j (sorted_names d)))"
proof -
  let ?d = "d\<lparr>db_ops := Suc (db_ops d)\<rparr>" and ?fs = "sorted_names d"
  have n: "sorted_names ?d = ?fs" "file_size ?d = file_size d" by (simp_all add: sorted_names_def file_size_def fun_eq_iff)
  obtain m where st: "stat_sizes (\<lambda>_. False) ?fs ?d = (map (file_size d) ?fs, ?d\<lparr>db_ops := m\<rparr>)"
    using stat_sizes_ok [of ?fs ?d] unfolding n by blast
  obtain k where k: "db_entries (evict_loop (\<lambda>_. False) (zip ?fs (map (file_size d) ?fs)) (int (sum_list (map (file_size d) ?fs))) (?d\<lparr>db_ops := m\<rparr>)) =
        filter (\<lambda>e. fst e \<notin> set (take k ?fs)) (db_entries d)"
      "sum_list (drop k (map (file_size d) ?fs)) \<le> diskBufMaxBytes" "\<forall>j < k. diskBufMaxBytes < sum_list (drop j (map (file_size d) ?fs))"
    using evict_loop_ok [of "map (file_size d) ?fs" ?fs "?d\<lparr>db_ops := m\<rparr>"] by auto
  have e: "db_entries (evict (\<lambda>_. False) d) = filter (\<lambda>e. fst e \<notin> set (take k ?fs)) (db_entries d)"
    using k(1) st by (simp add: evict_def sortedFiles_def dirS_def n Let_def)
  have "sorted_names (evict (\<lambda>_. False) d) = filter (\<lambda>f. f \<notin> set (take k ?fs)) ?fs"
    unfolding sorted_names_def [of "evict _ _"] e unfolding sorted_names_def
    by (simp add: filter_sort filter_map comp_def conj_commute case_prod_beta)
  then have "sorted_names (evict (\<lambda>_. False) d) = drop k ?fs"
    using filter_not_take [OF sorted_names_distinct [OF assms]] by simp
  then show ?thesis using that e k(2,3) by (simp add: drop_map)
qed

lemma put_entry_names: "map fst (put_entry f data es) = (if f \<in> set (map fst es) then map fst es else map fst es @ [f])"
  by (auto simp: put_entry_def case_prod_beta)

lemma put_entry_distinct: "distinct (map fst es) \<Longrightarrow> distinct (map fst (put_entry f data es))"
  unfolding put_entry_names by simp

lemma DiskBuffer_Write_ok:
  "am_Marshal M msg = Inr data \<Longrightarrow> \<exists>n. DiskBuffer_Write M (\<lambda>_. False) short now msg d =
     (Inr (), evict (\<lambda>_. False) (d\<lparr>db_ops := n, db_entries := put_entry (pb_name now) data (db_entries d)\<rparr>))"
  by (simp add: DiskBuffer_Write_def bindS_def wrapS_def os_WriteFile_def dirS_def Let_def) blast

text \<open>
  The buffer stays under its cap by dropping the oldest messages only. When the calls
  on the directory succeed, a write ends with at most 100 MB in buffer files, and what
  is left of the files, in chronological order, is a suffix of what was there with the new file;
  one file more would have exceeded the cap.
\<close>

lemma DiskBuffer_Write_capped:
  assumes "distinct (map fst (db_entries d))" and "am_Marshal M msg = Inr data"
    and "DiskBuffer_Write M (\<lambda>_. False) short now msg d = (r, d')"
  shows "r = Inr () \<and> (\<exists>k d1. db_entries d1 = put_entry (pb_name now) data (db_entries d)
      \<and> sorted_names d' = drop k (sorted_names d1)
      \<and> sum_list (map (file_size d1) (sorted_names d')) \<le> diskBufMaxBytes
      \<and> (\<forall>f \<in> set (sorted_names d'). file_size d' f = file_size d1 f)
      \<and> (\<forall>j < k. diskBufMaxBytes < sum_list (map (file_size d1) (drop j (sorted_names d1)))))"
proof -
  obtain n where w: "DiskBuffer_Write M (\<lambda>_. False) short now msg d =
     (Inr (), evict (\<lambda>_. False) (d\<lparr>db_ops := n, db_entries := put_entry (pb_name now) data (db_entries d)\<rparr>))"
    using DiskBuffer_Write_ok [OF assms(2)] by blast
  define d1 where "d1 = d\<lparr>db_ops := n, db_entries := put_entry (pb_name now) data (db_entries d)\<rparr>"
  have d': "r = Inr ()" "d' = evict (\<lambda>_. False) d1" using w assms(3) by (simp_all add: d1_def)
  have e1: "db_entries d1 = put_entry (pb_name now) data (db_entries d)" by (simp add: d1_def)
  then have "distinct (map fst (db_entries d1))" using put_entry_distinct [OF assms(1)] by simp
  then obtain k where k: "db_entries d' = filter (\<lambda>e. fst e \<notin> set (take k (sorted_names d1))) (db_entries d1)"
    "sorted_names d' = drop k (sorted_names d1)"
    "sum_list (map (file_size d1) (drop k (sorted_names d1))) \<le> diskBufMaxBytes"
    "\<And>j. j < k \<Longrightarrow> diskBufMaxBytes < sum_list (map (file_size d1) (drop j (sorted_names d1)))"
    using evict_ok [of d1] unfolding d'(2) by metis
  have "file_size d' f = file_size d1 f" if "f \<in> set (sorted_names d')" for f
  proof -
    have "distinct (sorted_names d1)" using \<open>distinct (map fst (db_entries d1))\<close> by (rule sorted_names_distinct)
    then have "f \<notin> set (take k (sorted_names d1))"
      using that k(2) by (metis IntI append_take_drop_id distinct_append empty_iff)
    then have "map_of (filter (\<lambda>e. fst e \<notin> set (take k (sorted_names d1))) es) f = map_of es f" for es :: "(string \<times> bytes option) list"
      by (induction es) auto
    then show ?thesis by (simp add: file_size_def k(1))
  qed
  then show ?thesis using d'(1) e1 k by (intro conjI exI [of _ k] exI [of _ d1]) auto
qed

section \<open>Write and Replay\<close>



lemma pb_name_inj: "a < 2 ^ 63 \<Longrightarrow> b < 2 ^ 63 \<Longrightarrow> pb_name a = pb_name b \<longleftrightarrow> a = b"
  using pbNameToNs_pb_name by (metis of_nat_eq_iff)








text \<open>A codec that encodes heartbeats, for the witnesses.\<close>

definition ex_codec_am :: msg_codec where
  "ex_codec_am = \<lparr>am_Marshal = (\<lambda>m. if m = CertRenewalRequestMsg ''a'' then Inr [1] else if m = CertRenewalRequestMsg ''b'' then Inr [2, 2] else Inl (Errorf ''marshal'')),
     am_Unmarshal = (\<lambda>bs. if bs = [1] then Inr (CertRenewalRequestMsg ''a'') else if bs = [2, 2] then Inr (CertRenewalRequestMsg ''b'') else Inl (Errorf ''unmarshal''))\<rparr>"


definition ex_bufdir :: bufdir where
  "ex_bufdir = \<lparr>db_entries = [(pb_name 7, Some [2, 2]), (pb_name 3, Some [1]), (pb_name 5, Some [9])], db_ops = 0\<rparr>"

definition ex_stream :: "unit session" where
  "ex_stream = \<lparr>sent = [], nsend = 0, peer = ()\<rparr>"


lemma ex_bufdir_names: "distinct (map fst (db_entries ex_bufdir))" "sorted_names ex_bufdir = [pb_name 3, pb_name 5, pb_name 7]"
proof -
  have ne: "pb_name 7 \<noteq> pb_name 3" "pb_name 7 \<noteq> pb_name 5" "pb_name 3 \<noteq> pb_name 5" by (simp_all add: pb_name_inj)
  then show "distinct (map fst (db_entries ex_bufdir))" by (simp add: ex_bufdir_def)
  have "pbNameToNs (pb_name 7) = 7" "pbNameToNs (pb_name 3) = 3" "pbNameToNs (pb_name 5) = 5" by (simp_all add: pbNameToNs_pb_name)
  then show "sorted_names ex_bufdir = [pb_name 3, pb_name 5, pb_name 7]" by (simp add: sorted_names_def ex_bufdir_def)
qed

theorem Replay_no_loss_witness:
  "\<exists>d' z' ms. Replay ex_codec_am (\<lambda>_. False) (\<lambda>_. False) (stream_Send (\<lambda>n. n = 1)) (ex_bufdir, ex_stream) = (Inl (Errorf ''stream send''), (d', z'))
     \<and> sent z' = [CertRenewalRequestMsg ''a''] \<and> sent z' = sent ex_stream @ ms \<and> subseq ms (buffered ex_codec_am ex_bufdir)"
proof -
  have ne: "pb_name 7 \<noteq> pb_name 3" "pb_name 7 \<noteq> pb_name 5" "pb_name 3 \<noteq> pb_name 5" by (simp_all add: pb_name_inj)
  have n: "sorted_names \<lparr>db_entries = [(pb_name 7, Some [2, 2]), (pb_name 3, Some [1]), (pb_name 5, Some [9])], db_ops = m\<rparr> =
      [pb_name 3, pb_name 5, pb_name 7]" for m
    using ex_bufdir_names(2) by (simp add: sorted_names_def ex_bufdir_def)
  obtain d' z' where r: "Replay ex_codec_am (\<lambda>_. False) (\<lambda>_. False) (stream_Send (\<lambda>n. n = 1)) (ex_bufdir, ex_stream) = (Inl (Errorf ''stream send''), (d', z'))"
    and s: "sent z' = [CertRenewalRequestMsg ''a'']"
    using ne by (simp add: Replay_def sortedFiles_def dirS_def n Let_def os_ReadFile_def ex_bufdir_def ex_codec_am_def stream_Send_cases
        ex_stream_def removeFile_entries)
  from Replay_no_loss [OF r ex_bufdir_names(1)] show ?thesis using r s by blast
qed

end
