(* ===== verification/Qf_Session.thy ===== *)
theory Qf_Session
  imports Qf_DiskBuffer
begin

text \<open>
  A session of the agent with the control plane (agent/internal/grpcclient and \<open>runSession\<close>
  in agent/internal/agent/agent.go): conversion and batching of events, counter reports,
  flow events, heartbeats, configuration updates, the receive loop. The goroutines of a
  session are the steps of one relation, taken in any order; they share the loader, the
  handler and the stream.
\<close>

section \<open>Conversions (eventbatcher.go)\<close>

definition uuidBytesToString :: "bytes \<Rightarrow> string" where
  "uuidBytesToString b = (if b = replicate 16 0 then ''''
     else hexEncode (take 4 b) @ ''-'' @ hexEncode (take 2 (drop 4 b)) @ ''-'' @ hexEncode (take 2 (drop 6 b)) @ ''-''
          @ hexEncode (take 2 (drop 8 b)) @ ''-'' @ hexEncode (drop 10 b))"

definition ipToBytes :: "netIP \<Rightarrow> bytes" where
  "ipToBytes ip = (case To4 ip of Some v4 \<Rightarrow> v4 | None \<Rightarrow> ip)"

definition bpfDirToProto :: "u8 \<Rightarrow> i32" where
  "bpfDirToProto d = (if d = 1 then 1 else if d = 2 then 2 else 0)"

definition bpfActionToProto :: "u8 \<Rightarrow> i32" where
  "bpfActionToProto a = (if a = 1 then 1 else if a = 2 then 2 else if a = 3 then 3 else 0)"

definition bpfProtoToProto :: "u8 \<Rightarrow> i32" where
  "bpfProtoToProto p = (if p = 1 then 1 else if p = 2 then 2 else if p = 3 then 3 else if p = 4 then 4 else if p = 5 then 5 else 0)"

definition bpfCtStateToProto :: "u8 \<Rightarrow> i32" where
  "bpfCtStateToProto s = (if s = 1 then 1 else if s = 2 then 2 else if s = 3 then 3 else if s = 4 then 4 else if s = 5 then 5 else 0)"

definition loaderEventToProto :: "int \<Rightarrow> LogEvent \<Rightarrow> qfv1_LogEvent" where
  "loaderEventToProto now ev =
     \<lparr>le_ts = Some now, le_rule_id = uuidBytesToString (RuleID ev), le_policy_id = '''',
      le_direction = bpfDirToProto (EDirection ev), le_action = bpfActionToProto (EAction ev),
      le_protocol = bpfProtoToProto (EProto ev),
      le_src_ip = ipToBytes (ESrcIP ev), le_src_port = ucast (ESrcPort ev),
      le_dst_ip = ipToBytes (EDstIP ev), le_dst_port = ucast (EDstPort ev),
      le_packet_size = ucast (PktSize ev), le_tcp_flags = ucast (TCPFlags ev),
      le_conntrack_state = bpfCtStateToProto (ECTState ev)\<rparr>"

section \<open>The live components of a session\<close>

record HeartbeatSender =
  hs_intervalMs :: u32

definition defaultHeartbeatMs :: u32 where "defaultHeartbeatMs = 30000"

definition NewHeartbeatSender :: "u32 \<Rightarrow> HeartbeatSender" where
  "NewHeartbeatSender ms = \<lparr>hs_intervalMs = (if ms = 0 then defaultHeartbeatMs else ms)\<rparr>"

definition HeartbeatSender_SetIntervalMs :: "u32 \<Rightarrow> HeartbeatSender \<Rightarrow> HeartbeatSender" where
  "HeartbeatSender_SetIntervalMs ms h = (if ms = 0 then h else h\<lparr>hs_intervalMs := ms\<rparr>)"

record EventBatcher =
  eb_batchSize :: u32
  eb_maxAgeMs :: u32
  eb_batch :: "qfv1_LogEvent list"
  eb_diskBuf :: bool

definition NewEventBatcher :: "u32 \<Rightarrow> u32 \<Rightarrow> EventBatcher" where
  "NewEventBatcher n ms = \<lparr>eb_batchSize = (if n = 0 then 100 else n), eb_maxAgeMs = (if ms = 0 then 5000 else ms),
     eb_batch = [], eb_diskBuf = False\<rparr>"

definition SetBatchSize :: "u32 \<Rightarrow> EventBatcher \<Rightarrow> EventBatcher" where
  "SetBatchSize n b = (if n = 0 then b else b\<lparr>eb_batchSize := n\<rparr>)"

definition SetMaxAgeMs :: "u32 \<Rightarrow> EventBatcher \<Rightarrow> EventBatcher" where
  "SetMaxAgeMs ms b = (if ms = 0 then b else b\<lparr>eb_maxAgeMs := ms\<rparr>)"

record CounterPoller =
  cp_intervalMs :: u32

definition NewCounterPoller :: "u32 \<Rightarrow> CounterPoller" where
  "NewCounterPoller ms = \<lparr>cp_intervalMs = (if ms = 0 then 60000 else ms)\<rparr>"

definition CounterPoller_SetIntervalMs :: "u32 \<Rightarrow> CounterPoller \<Rightarrow> CounterPoller" where
  "CounterPoller_SetIntervalMs ms c = (if ms = 0 then c else c\<lparr>cp_intervalMs := ms\<rparr>)"

text \<open>The Go map \<open>tracked\<close> is an association list with distinct keys, in the order of iteration.\<close>

record flowKey =
  fk_srcIP :: bytes
  fk_dstIP :: bytes
  fk_srcPort :: u16
  fk_dstPort :: u16
  fk_proto :: u8

record flowState =
  firstSeen :: int
  fentry :: ConntrackEntry

record FlowEventCollector =
  fc_enabled :: bool
  fc_intervalMs :: u32
  fc_tracked :: "(flowKey \<times> flowState) list"

definition NewFlowEventCollector :: "u32 \<Rightarrow> FlowEventCollector" where
  "NewFlowEventCollector ms = \<lparr>fc_enabled = False, fc_intervalMs = (if ms = 0 then 10000 else ms), fc_tracked = []\<rparr>"

text \<open>
  The agent while a session runs: the policy handler, whose applier state is the loader,
  the components, the pending response of the certificate rotator, and the event buffer.
\<close>

record live =
  lv_policy :: "bpf PolicyHandler"
  lv_hb :: HeartbeatSender
  lv_eb :: EventBatcher
  lv_cp :: CounterPoller
  lv_fc :: FlowEventCollector
  lv_renewal :: "qfv1_CertRenewalResponse option"
  lv_buf :: bufdir

text \<open>What a session is given: keys and codecs, which calls fail, iteration orders, the clock of \<open>Apply\<close>.\<close>

record senv =
  en_crypto :: crypto
  en_pub :: bytes
  en_codec :: msg_codec
  en_sflt :: "nat \<Rightarrow> bool"
  en_flt :: faults
  en_dflt :: "nat \<Rightarrow> bool"
  en_iter :: "(u32 \<times> CIDR4 list) list \<Rightarrow> (u32 \<times> CIDR4 list) list"
  en_clk :: clock3
  en_ord :: ct_order

abbreviation ldr :: "live session \<Rightarrow> bpf" where
  "ldr z \<equiv> applier (lv_policy (peer z))"

definition onLdr :: "(bpf, 'a) st \<Rightarrow> (live session, 'a) st" where
  "onLdr m z = (case m (ldr z) of (r, s) \<Rightarrow> (r, z\<lparr>peer := (peer z)\<lparr>lv_policy := (lv_policy (peer z))\<lparr>applier := s\<rparr>\<rparr>\<rparr>))"

definition onBuf :: "(bufdir, 'a) st \<Rightarrow> (live session, 'a) st" where
  "onBuf m z = (case m (lv_buf (peer z)) of (r, d) \<Rightarrow> (r, z\<lparr>peer := (peer z)\<lparr>lv_buf := d\<rparr>\<rparr>))"

section \<open>Heartbeats, counters\<close>

definition heartbeat_send :: "senv \<Rightarrow> int \<Rightarrow> (live session, unit) st" where
  "heartbeat_send V now z = wrapS ''heartbeat'' (stream_Send (en_sflt V)
     (HeartbeatMsg \<lparr>hb_current_generation = currentGen (lv_policy (peer z)), hb_ts = Some now\<rparr>)) z"

definition rule_counters :: "RuleSpec list \<Rightarrow> RuleCounters list \<Rightarrow> qfv1_RuleCounter list" where
  "rule_counters rules counters = map (\<lambda>(i, c).
     \<lparr>rc_rule_id = (if i < length rules then uuidBytesToString (ID (rules ! i)) else ''''),
      rc_packets = Packets c, rc_bytes = Bytes c\<rparr>) (enumerate 0 counters)"

definition poll :: "senv \<Rightarrow> int \<Rightarrow> (live session, unit) st" where
  "poll V now z =
     (case onLdr (ReadCounters (en_flt V)) z of
        (Inl _, z1) \<Rightarrow> (Inr (), z1)
      | (Inr counters, z1) \<Rightarrow>
          let rules = (case current (lv_policy (peer z1)) of None \<Rightarrow> [] | Some ar \<Rightarrow> ar_Rules ar)
          in stream_Send (en_sflt V) (CounterUpdateMsg \<lparr>cu_ts = Some now, cu_counters = rule_counters rules counters\<rparr>) z1)"

section \<open>Batching of log events\<close>

text \<open>\<open>flush\<close>; \<open>now\<close> names the file in the buffer. A failing \<open>ReadSuppressedCount\<close> returns 0.\<close>

definition flush :: "senv \<Rightarrow> nat \<Rightarrow> (live session, unit) st" where
  "flush V now z =
     (let batch = eb_batch (lv_eb (peer z)) in
      if batch = [] then (Inr (), z)
      else
        let (r, z1) = onLdr (ReadSuppressedCount (en_flt V)) z;
            suppressed = (case r of Inl _ \<Rightarrow> 0 | Inr n \<Rightarrow> n);
            z2 = snd (onLdr (ResetSuppressedCount (en_flt V)) z1);
            msg = LogEventsMsg \<lparr>les_events = batch, les_suppressed_count = suppressed\<rparr>;
            (e, z3) = stream_Send (en_sflt V) msg z2;
            z4 = (if \<not> is_ok e \<and> eb_diskBuf (lv_eb (peer z3)) then snd (onBuf (DiskBuffer_Write (en_codec V) (en_dflt V) None now msg) z3) else z3)
        in (e, z4\<lparr>peer := (peer z4)\<lparr>lv_eb := (lv_eb (peer z4))\<lparr>eb_batch := []\<rparr>\<rparr>\<rparr>))"

text \<open>
  The cases of the select statement of \<open>EventBatcher.Run\<close>: an event read from the ring
  buffer (or the error of the read), the timer, the end of the context. The result is
  \<open>None\<close> while the loop goes on, and the value \<open>Run\<close> returns otherwise.
\<close>

datatype batch_ev = BatchRead "LogEvent res" | BatchTimer | BatchDone

definition read_end :: "goerr \<Rightarrow> unit res" where
  "read_end e = (if errors_Is e ''os.ErrDeadlineExceeded'' \<or> errors_Is e ''os.ErrClosed'' \<or> errors_Is e ''io.EOF'' then Inr ()
     else Inl (Wrapf ''event batcher read'' e))"

fun batch_step :: "senv \<Rightarrow> nat \<Rightarrow> batch_ev \<Rightarrow> live session \<Rightarrow> unit res option \<times> live session" where
  "batch_step V now (BatchRead (Inl e)) z = (Some (read_end e), snd (flush V now z))"
| "batch_step V now (BatchRead (Inr ev)) z =
     (let b = lv_eb (peer z); batch = eb_batch b @ [loaderEventToProto (int now) ev];
          z1 = z\<lparr>peer := (peer z)\<lparr>lv_eb := b\<lparr>eb_batch := batch\<rparr>\<rparr>\<rparr>
      in if eb_batchSize b \<le> of_nat (length batch)
         then (case wrapS ''event batcher send'' (flush V now) z1 of (Inl e, z2) \<Rightarrow> (Some (Inl e), z2) | (Inr _, z2) \<Rightarrow> (None, z2))
         else (None, z1))"
| "batch_step V now BatchTimer z =
     (case wrapS ''event batcher send'' (flush V now) z of (Inl e, z2) \<Rightarrow> (Some (Inl e), z2) | (Inr _, z2) \<Rightarrow> (None, z2))"
| "batch_step V now BatchDone z = (Some (Inr ()), snd (flush V now z))"

section \<open>Flow events (flowcollector.go)\<close>

text \<open>\<open>copy\<close> into the 4-byte arrays of the key.\<close>

definition entryKey :: "ConntrackEntry \<Rightarrow> flowKey" where
  "entryKey e = \<lparr>fk_srcIP = (case To4 (SrcIP (Key e)) of Some v4 \<Rightarrow> v4 | None \<Rightarrow> replicate 4 0),
     fk_dstIP = (case To4 (DstIP (Key e)) of Some v4 \<Rightarrow> v4 | None \<Rightarrow> replicate 4 0),
     fk_srcPort = SrcPort (Key e), fk_dstPort = DstPort (Key e), fk_proto = KProtocol (Key e)\<rparr>"

definition makeFlowEvent :: "int \<Rightarrow> int \<Rightarrow> ConntrackEntry \<Rightarrow> qfv1_FlowEvent" where
  "makeFlowEvent start fin e =
     \<lparr>fe_ts_start = Some start, fe_ts_end = Some fin, fe_protocol = bpfProtoToProto (KProtocol (Key e)),
      fe_src_ip = ipToBytes (SrcIP (Key e)), fe_src_port = ucast (SrcPort (Key e)),
      fe_dst_ip = ipToBytes (DstIP (Key e)), fe_dst_port = ucast (DstPort (Key e)),
      fe_bytes_orig = BytesFwd e, fe_bytes_reply = BytesRev e, fe_packets_orig = PacketsFwd e, fe_packets_reply = PacketsRev e,
      fe_final_state = (if TCPState e = TCPCSClosed then ''TCP_CLOSED'' else '''')\<rparr>"

text \<open>The loop over \<open>tracked\<close>: the events, and the flows that stay tracked.\<close>

fun tracked_loop ::
  "int \<Rightarrow> (flowKey \<rightharpoonup> ConntrackEntry) \<Rightarrow> (flowKey \<times> flowState) list \<Rightarrow> qfv1_FlowEvent list \<times> (flowKey \<times> flowState) list" where
  "tracked_loop now cur [] = ([], [])"
| "tracked_loop now cur ((k, st) # rest) =
     (case tracked_loop now cur rest of (evs, tr) \<Rightarrow>
      case cur k of
        Some e \<Rightarrow> if TCPState e = TCPCSClosed then (makeFlowEvent (firstSeen st) now e # evs, tr)
                  else (evs, (k, st\<lparr>fentry := e\<rparr>) # tr)
      | None \<Rightarrow> (makeFlowEvent (firstSeen st) now (fentry st) # evs, tr))"

text \<open>The loop over \<open>current\<close>; \<open>keys\<close> are its keys, each once.\<close>

definition register_new :: "int \<Rightarrow> (flowKey \<rightharpoonup> ConntrackEntry) \<Rightarrow> flowKey list \<Rightarrow> (flowKey \<times> flowState) list \<Rightarrow> (flowKey \<times> flowState) list" where
  "register_new now cur keys tr = tr @ map (\<lambda>k. (k, \<lparr>firstSeen = now, fentry = the (cur k)\<rparr>)) (filter (\<lambda>k. k \<notin> fst ` set tr) keys)"

definition scan :: "senv \<Rightarrow> int \<Rightarrow> (live session, unit) st" where
  "scan V now z =
     (case onLdr (ConntrackDump (en_flt V) (en_ord V)) z of
        (Inl _, z1) \<Rightarrow> (Inr (), z1)
      | (Inr entries, z1) \<Rightarrow>
          let cur = foldl (\<lambda>m e. m(entryKey e \<mapsto> e)) Map.empty entries;
              (events, tr) = tracked_loop now cur (fc_tracked (lv_fc (peer z1)));
              tr' = register_new now cur (remdups (map entryKey entries)) tr;
              z2 = z1\<lparr>peer := (peer z1)\<lparr>lv_fc := (lv_fc (peer z1))\<lparr>fc_tracked := tr'\<rparr>\<rparr>\<rparr>
          in if events = [] then (Inr (), z2) else stream_Send (en_sflt V) (FlowEventsMsg events) z2)"

definition SetEnabled :: "senv \<Rightarrow> bool \<Rightarrow> live session \<Rightarrow> live session" where
  "SetEnabled V v z =
     (let z1 = z\<lparr>peer := (peer z)\<lparr>lv_fc := (lv_fc (peer z))\<lparr>fc_enabled := v\<rparr>\<rparr>\<rparr> in
      if \<not> v then z1
      else case onLdr (GetConfig (en_flt V)) z1 of
        (Inl _, z2) \<Rightarrow> z2
      | (Inr cfg, z2) \<Rightarrow> snd (onLdr (SetConfig (en_flt V) (cfg\<lparr>ConntrackEnabled := True\<rparr>)) z2))"

section \<open>Configuration updates, certificate responses\<close>

definition ApplyConfigUpdate :: "senv \<Rightarrow> qfv1_ConfigUpdate option \<Rightarrow> live session \<Rightarrow> live session" where
  "ApplyConfigUpdate V c z = (case c of None \<Rightarrow> z | Some cfg \<Rightarrow>
     let p = peer z;
         hb = HeartbeatSender_SetIntervalMs (cfg_heartbeat_interval_ms cfg) (lv_hb p);
         eb = SetMaxAgeMs (cfg_event_batch_max_age_ms cfg) (SetBatchSize (cfg_event_batch_size cfg) (lv_eb p));
         cp = CounterPoller_SetIntervalMs (cfg_counter_report_interval_ms cfg) (lv_cp p)
     in SetEnabled V (cfg_flow_events_enabled cfg) (z\<lparr>peer := p\<lparr>lv_hb := hb, lv_eb := eb, lv_cp := cp\<rparr>\<rparr>))"

definition DeliverResponse :: "qfv1_CertRenewalResponse \<Rightarrow> live session \<Rightarrow> live session" where
  "DeliverResponse resp z = (case lv_renewal (peer z) of
     None \<Rightarrow> z\<lparr>peer := (peer z)\<lparr>lv_renewal := Some resp\<rparr>\<rparr> | Some _ \<Rightarrow> z)"

definition SendSystemEvent :: "senv \<Rightarrow> int \<Rightarrow> string \<Rightarrow> i32 \<Rightarrow> string \<Rightarrow> (string \<times> string) list \<Rightarrow> (live session, unit) st" where
  "SendSystemEvent V now evType severity detail attrs = stream_Send (en_sflt V)
     (SystemEventMsg \<lparr>se_ts = Some now, se_type = evType, se_severity = severity, se_detail = detail, se_attributes = attrs\<rparr>)"

section \<open>runSession\<close>

definition handleBundle :: "senv \<Rightarrow> qfv1_PolicyBundle \<Rightarrow> (live session, unit) st" where
  "handleBundle V b = HandleBundle (en_crypto V) (en_sflt V) b (en_pub V)
     (\<lambda>b p. case applyFn (loader_applier (en_flt V)) (en_iter V) (en_clk V) b (lv_policy p) of (r, h) \<Rightarrow> (r, p\<lparr>lv_policy := h\<rparr>))"

definition replayBuf :: "senv \<Rightarrow> (nat \<Rightarrow> bool) \<Rightarrow> (live session, unit) st" where
  "replayBuf V ctx z = (case Replay (en_codec V) (en_dflt V) ctx (stream_Send (en_sflt V)) (lv_buf (peer z), z) of
     (r, (d, z1)) \<Rightarrow> (r, z1\<lparr>peer := (peer z1)\<lparr>lv_buf := d\<rparr>\<rparr>))"

text \<open>
  What \<open>runSession\<close> is given besides: the parts of \<open>Hello\<close> that do not depend on the policy,
  whether there is a buffer, where the context is cancelled during the replay and whether
  it is afterwards, and whether the event reader opens.
\<close>

record open_args =
  oa_hello :: qfv1_Hello
  oa_diskbuf :: bool
  oa_ctx :: "nat \<Rightarrow> bool"
  oa_cancelled :: bool
  oa_reader :: bool
  oa_now :: int

definition new_components :: "bool \<Rightarrow> live \<Rightarrow> live" where
  "new_components buf p = p\<lparr>lv_hb := NewHeartbeatSender 0, lv_eb := (NewEventBatcher 0 0)\<lparr>eb_diskBuf := buf\<rparr>,
     lv_cp := NewCounterPoller 0, lv_fc := NewFlowEventCollector 0, lv_renewal := None\<rparr>"

text \<open>
  From the opened stream to the start of the goroutines; \<open>None\<close> is the return after a
  cancelled replay, otherwise the messages left for the receive loop.
\<close>

definition session_start ::
  "senv \<Rightarrow> open_args \<Rightarrow> i64 \<Rightarrow> qfv1_Welcome \<Rightarrow> server_msg list \<Rightarrow> (live session, server_msg list option) st" where
  "session_start V oa gen w rest z1 =
     (let (rr, z2) = (if oa_diskbuf oa then replayBuf V (oa_ctx oa) z1 else (Inr (), z1)) in
      if \<not> is_ok rr \<and> oa_cancelled oa then (Inr None, z2)
      else
        let z3 = snd (SendSystemEvent V (oa_now oa) ''cp_connected'' 1 '''' [] z2);
            z4 = (if gen = 0 then snd (SendSystemEvent V (oa_now oa) ''agent_started'' 1 (hl_agent_version (oa_hello oa)) [] z3) else z3)
        in if \<not> oa_reader oa then (Inl (Wrapf ''event reader'' (Errorf ''ringbuf'')), z4)
           else (Inr (Some rest), ApplyConfigUpdate V (wl_config w) (z4\<lparr>peer := new_components (oa_diskbuf oa) (peer z4)\<rparr>)))"

definition session_open :: "senv \<Rightarrow> open_args \<Rightarrow> server_msg list \<Rightarrow> (live session, server_msg list option) st" where
  "session_open V oa inbox z =
     (let gen = currentGen (lv_policy (peer z)) in
      bindS (Handshake (en_sflt V) ((oa_hello oa)\<lparr>hl_current_generation := gen\<rparr>) inbox) (\<lambda>(w, bo, rest).
      bindS (case bo of None \<Rightarrow> retS () | Some b \<Rightarrow> handleBundle V b) (\<lambda>_. session_start V oa gen w rest)) z)"

text \<open>One message in the receive loop; \<open>Some r\<close> is a return from \<open>runSession\<close>.\<close>

fun session_recv :: "senv \<Rightarrow> int \<Rightarrow> server_msg \<Rightarrow> live session \<Rightarrow> unit res option \<times> live session" where
  "session_recv V now (PolicyBundleMsg b) z =
     (case handleBundle V b z of (Inl e, z1) \<Rightarrow> (Some (Inl e), z1) | (Inr _, z1) \<Rightarrow> (None, z1))"
| "session_recv V now (ConfigUpdateMsg c) z = (None, ApplyConfigUpdate V (Some c) z)"
| "session_recv V now (DisconnectRequestMsg d) z =
     (Some (Inr ()), snd (SendSystemEvent V now ''cp_disconnected'' 1 (dr_reason d) [] z))"
| "session_recv V now (CertRenewalResponseMsg r) z = (None, DeliverResponse r z)"
| "session_recv V now (WelcomeMsg w) z = (None, z)"

text \<open>
  The steps of the agent. A session is opened, its goroutines act, the loader collects
  expired connections, packets pass through the datapath.
\<close>

datatype agent_ev =
    EvOpen open_args "server_msg list"
  | EvRecv int server_msg
  | EvHeartbeat int
  | EvPoll int
  | EvBatch nat batch_ev
  | EvScan int
  | EvSweep clocks u64 u64
  | EvPacket pkt_env "pkt_ctx option"
  | EvNewStream

fun agent_step :: "senv \<Rightarrow> agent_ev \<Rightarrow> live session \<Rightarrow> live session" where
  "agent_step V (EvOpen oa inbox) z = snd (session_open V oa inbox z)"
| "agent_step V (EvRecv now m) z = snd (session_recv V now m z)"
| "agent_step V (EvHeartbeat now) z = snd (heartbeat_send V now z)"
| "agent_step V (EvPoll now) z = snd (poll V now z)"
| "agent_step V (EvBatch now e) z = snd (batch_step V now e z)"
| "agent_step V (EvScan now) z = (if fc_enabled (lv_fc (peer z)) then snd (scan V now z) else z)"
| "agent_step V (EvSweep c udp icmp) z = snd (onLdr (\<lambda>s. (Inr (), sweepConntrack (en_flt V) (en_ord V) c udp icmp s)) z)"
| "agent_step V (EvPacket env pk) z = snd (onLdr (\<lambda>s. (Inr (), snd (run_datapath env pk s))) z)"
| "agent_step V EvNewStream z = z\<lparr>sent := [], nsend := 0\<rparr>"

section \<open>What changes the policy in force\<close>

text \<open>The rules and sets in the BPF maps, and the recorded result of the last successful \<open>Apply\<close>.\<close>

definition policy_tab :: "bpf \<Rightarrow> (u32 \<Rightarrow> rule_entry) \<times> u32 \<times> lpm_key list" where
  "policy_tab s = (qf_rules s, qf_rule_count s, qf_ipsets s)"

definition in_force :: "live session \<Rightarrow> ((u32 \<Rightarrow> rule_entry) \<times> u32 \<times> lpm_key list) \<times> ApplyResult option" where
  "in_force z = (policy_tab (ldr z), current (lv_policy (peer z)))"

lemma mapS_invariant:
  assumes "\<And>x u. x \<in> set xs \<Longrightarrow> P u \<Longrightarrow> P (snd (f x u))" and "P s"
  shows "P (snd (mapS f xs s))"
  using assms
proof (induction xs arbitrary: s)
  case (Cons x xs)
  have a: "P (snd (f x u))" if "P u" for u using Cons.prems(1) that by simp
  have b: "P (snd (mapS f xs u))" if "P u" for u using that by (intro Cons.IH Cons.prems(1)) simp_all
  have "P (snd (bindS (f x) (\<lambda>y. bindS (mapS f xs) (\<lambda>ys. retS (y # ys))) s))"
    by (intro bindS_invariant [where P = P]) (simp_all add: a b Cons.prems(2) retS_def)
  then show ?case by (simp only: mapS.simps)
qed simp

lemma policy_tab_reads:
  "policy_tab (snd (qf_rule_counters_Lookup flt i s)) = policy_tab s" "policy_tab (snd (qf_rule_count_Lookup flt s)) = policy_tab s"
  "policy_tab (snd (qf_suppressed_Lookup flt s)) = policy_tab s" "policy_tab (snd (qf_suppressed_Put flt vs s)) = policy_tab s"
  "policy_tab (snd (qf_conntrack_Iterate flt ord s)) = policy_tab s" "policy_tab (snd (qf_conntrack_Delete flt k s)) = policy_tab s"
  "policy_tab (snd (qf_config_Lookup flt j s)) = policy_tab s" "policy_tab (snd (qf_config_Put flt j v s)) = policy_tab s"
  by (auto simp: policy_tab_def qf_rule_counters_Lookup_def qf_rule_count_Lookup_def qf_suppressed_Lookup_def qf_suppressed_Put_def
      qf_conntrack_Iterate_def qf_conntrack_Delete_def qf_config_Lookup_def qf_config_Put_def sysS_def Let_def split: option.splits)

lemma policy_tab_ReadCounter: "policy_tab (snd (ReadCounter flt i s)) = policy_tab s"
  unfolding ReadCounter_def
  by (intro bindS_invariant [where P = "\<lambda>u. policy_tab u = policy_tab s"]) (auto simp: policy_tab_reads)

lemma policy_tab_ops:
  "policy_tab (snd (ReadCounters flt s)) = policy_tab s" "policy_tab (snd (ReadSuppressedCount flt s)) = policy_tab s"
  "policy_tab (snd (ResetSuppressedCount flt s)) = policy_tab s" "policy_tab (snd (ConntrackDump flt ord s)) = policy_tab s"
  "policy_tab (snd (GetConfig flt s)) = policy_tab s" "policy_tab (snd (SetConfig flt cfg s)) = policy_tab s"
  unfolding ReadCounters_def ReadSuppressedCount_def ResetSuppressedCount_def ConntrackDump_def GetConfig_def SetConfig_def Let_def
  by (intro bindS_invariant [where P = "\<lambda>u. policy_tab u = policy_tab s"]
        mapS_invariant [where P = "\<lambda>u. policy_tab u = policy_tab s"];
      simp add: policy_tab_reads policy_tab_ReadCounter)+

lemma policy_tab_sweep_loop: "policy_tab (snd (sweep_loop flt now udp icmp es n s)) = policy_tab s"
proof (induction es arbitrary: n s)
  case (Cons e es)
  have "policy_tab u = policy_tab s" if "qf_conntrack_Delete flt (canonicalCtKey (Key e)) s = (r, u)" for r u
    using policy_tab_reads(6) [of flt "canonicalCtKey (Key e)" s] that by simp
  then show ?case using Cons by (auto split: prod.splits sum.splits)
qed simp

lemma policy_tab_sweep: "policy_tab (sweepConntrack flt ord c udp icmp s) = policy_tab s"
  using policy_tab_ops(4) [of flt ord s] by (auto simp: sweepConntrack_def policy_tab_sweep_loop split: prod.splits sum.splits)

lemma policy_tab_packet: "policy_tab (snd (run_datapath env pk s)) = policy_tab s"
  using policy_part_run [of env pk s] by (simp add: policy_tab_def policy_part_def)

lemma in_force_peer: "peer z' = peer z \<Longrightarrow> in_force z' = in_force z"
  by (simp add: in_force_def)

lemma peer_stream_Send [simp]: "peer (snd (stream_Send f m z)) = peer z"
  by (simp add: stream_Send_cases)

lemma in_force_onLdr: "(\<And>s. policy_tab (snd (m s)) = policy_tab s) \<Longrightarrow> in_force (snd (onLdr m z)) = in_force z"
  by (auto simp: in_force_def onLdr_def split: prod.splits) (metis snd_conv)

lemma peer_replay_loop: "peer (snd (snd (replay_loop M flt ctx (stream_Send sflt) fs i dz))) = peer (snd dz)"
proof (induction fs arbitrary: i dz)
  case (Cons f fs)
  have "peer z' = peer (snd dz)" if "stream_Send sflt m (snd dz) = (r, z')" for m r z'
    using peer_stream_Send [of sflt m "snd dz"] that by simp
  then show ?case using Cons by (auto split: prod.splits sum.splits)
qed simp

lemma peer_Replay: "peer (snd (snd (Replay M flt ctx (stream_Send sflt) dz))) = peer (snd dz)"
  by (auto simp: Replay_def peer_replay_loop split: prod.splits sum.splits)

lemma HandleBundle_unverified:
  "VerifyBundle C b pub \<noteq> Inr () \<Longrightarrow> peer (snd (HandleBundle C sflt b pub f z)) = peer z"
  by (cases "VerifyBundle C b pub") (auto simp: HandleBundle_def stream_Send_cases Let_def)

lemma in_force_upd [simp]:
  "in_force (z\<lparr>sent := x\<rparr>) = in_force z" "in_force (z\<lparr>nsend := n\<rparr>) = in_force z"
  "in_force (z\<lparr>peer := (peer z)\<lparr>lv_eb := e\<rparr>\<rparr>) = in_force z" "in_force (z\<lparr>peer := (peer z)\<lparr>lv_fc := c\<rparr>\<rparr>) = in_force z"
  "in_force (z\<lparr>peer := (peer z)\<lparr>lv_buf := d\<rparr>\<rparr>) = in_force z" "in_force (z\<lparr>peer := (peer z)\<lparr>lv_renewal := r\<rparr>\<rparr>) = in_force z"
  "in_force (z\<lparr>peer := (peer z)\<lparr>lv_hb := h, lv_eb := e, lv_cp := p\<rparr>\<rparr>) = in_force z"
  "in_force (z\<lparr>peer := new_components buf (peer z)\<rparr>) = in_force z"
  by (simp_all add: in_force_def new_components_def)

lemma in_force_Send [simp]: "in_force (snd (stream_Send f m z)) = in_force z"
  by (rule in_force_peer) simp

lemma in_force_SendD: "stream_Send f m z = (r, z') \<Longrightarrow> in_force z' = in_force z"
  using in_force_Send [of f m z] by simp

lemma in_force_ldr [simp]:
  "in_force (snd (onLdr (ReadCounters flt) z)) = in_force z" "in_force (snd (onLdr (ReadSuppressedCount flt) z)) = in_force z"
  "in_force (snd (onLdr (ResetSuppressedCount flt) z)) = in_force z" "in_force (snd (onLdr (ConntrackDump flt ord) z)) = in_force z"
  "in_force (snd (onLdr (GetConfig flt) z)) = in_force z" "in_force (snd (onLdr (SetConfig flt cfg) z)) = in_force z"
  by (simp_all add: in_force_onLdr policy_tab_ops)

lemma in_force_onBuf [simp]: "in_force (snd (onBuf m z)) = in_force z"
  by (simp add: onBuf_def split: prod.splits)

lemma in_force_flush: "in_force (snd (flush V now z)) = in_force z"
proof (cases "eb_batch (lv_eb (peer z)) = []")
  case False
  obtain r z1 where 1: "onLdr (ReadSuppressedCount (en_flt V)) z = (r, z1)" by fastforce
  then have f1: "in_force z1 = in_force z" using in_force_ldr(2) [of "en_flt V" z] by simp
  define m where "m = LogEventsMsg \<lparr>les_events = eb_batch (lv_eb (peer z)), les_suppressed_count = (case r of Inl _ \<Rightarrow> 0 | Inr n \<Rightarrow> n)\<rparr>"
  obtain e z3 where 3: "stream_Send (en_sflt V) m (snd (onLdr (ResetSuppressedCount (en_flt V)) z1)) = (e, z3)" by fastforce
  then have "in_force z3 = in_force z" using in_force_Send [of "en_sflt V" m "snd (onLdr (ResetSuppressedCount (en_flt V)) z1)"] f1 by simp
  then show ?thesis using False 1 3 by (simp add: flush_def m_def [symmetric] Let_def)
qed (simp add: flush_def)

lemma in_force_batch: "in_force (snd (batch_step V now ev z)) = in_force z"
proof -
  have "in_force z2 = in_force u" if "flush V now u = (r, z2)" for r z2 u using in_force_flush [of V now u] that by simp
  then show ?thesis by (cases "(V, now, ev, z)" rule: batch_step.cases) (auto simp: wrapS_def in_force_flush Let_def split: prod.splits sum.splits)
qed

lemma in_force_poll: "in_force (snd (poll V now z)) = in_force z"
proof -
  obtain r z1 where "onLdr (ReadCounters (en_flt V)) z = (r, z1)" by fastforce
  then show ?thesis using in_force_ldr(1) [of "en_flt V" z] by (cases r) (simp_all add: poll_def Let_def)
qed

lemma in_force_scan: "in_force (snd (scan V now z)) = in_force z"
proof -
  obtain r z1 where "onLdr (ConntrackDump (en_flt V) (en_ord V)) z = (r, z1)" by fastforce
  then show ?thesis using in_force_ldr(4) [of "en_flt V" "en_ord V" z]
    by (cases r) (auto simp: scan_def Let_def split: prod.splits)
qed

lemma in_force_SetEnabled: "in_force (SetEnabled V v z) = in_force z"
proof -
  let ?z = "z\<lparr>peer := (peer z)\<lparr>lv_fc := (lv_fc (peer z))\<lparr>fc_enabled := v\<rparr>\<rparr>\<rparr>"
  obtain r z2 where g: "onLdr (GetConfig (en_flt V)) ?z = (r, z2)" by fastforce
  then have "in_force z2 = in_force z" using in_force_ldr(5) [of "en_flt V" ?z] by simp
  then show ?thesis using g by (cases r; cases v) (simp_all add: SetEnabled_def Let_def)
qed

lemma in_force_ApplyConfigUpdate: "in_force (ApplyConfigUpdate V c z) = in_force z"
  by (simp add: ApplyConfigUpdate_def in_force_SetEnabled Let_def split: option.splits)

lemma in_force_handleBundle:
  "VerifyBundle (en_crypto V) b (en_pub V) \<noteq> Inr () \<Longrightarrow> in_force (snd (handleBundle V b z)) = in_force z"
  unfolding handleBundle_def by (intro in_force_peer HandleBundle_unverified)

lemma in_force_replayBuf: "in_force (snd (replayBuf V ctx z)) = in_force z"
  using peer_Replay [of "en_codec V" "en_dflt V" ctx "en_sflt V" "(lv_buf (peer z), z)"]
  by (auto simp: replayBuf_def in_force_def split: prod.splits)

lemma recv_welcome_bundle: "recv_welcome h inbox = Inr (w, Some b, rest) \<Longrightarrow> PolicyBundleMsg b \<in> set inbox"
  by (auto simp: recv_welcome_def split: list.splits server_msg.splits if_splits)

text \<open>The bundles a step hands to \<open>HandleBundle\<close>.\<close>

definition delivers :: "agent_ev \<Rightarrow> qfv1_PolicyBundle \<Rightarrow> bool" where
  "delivers a b \<longleftrightarrow> (\<exists>now. a = EvRecv now (PolicyBundleMsg b)) \<or> (\<exists>oa inbox. a = EvOpen oa inbox \<and> PolicyBundleMsg b \<in> set inbox)"

lemma in_force_session_open:
  assumes "\<And>b. PolicyBundleMsg b \<in> set inbox \<Longrightarrow> VerifyBundle (en_crypto V) b (en_pub V) \<noteq> Inr ()"
  shows "in_force (snd (session_open V oa inbox z)) = in_force z"
proof -
  let ?h = "(oa_hello oa)\<lparr>hl_current_generation := currentGen (lv_policy (peer z))\<rparr>"
  have hs: "in_force z1 = in_force z" if "Handshake (en_sflt V) ?h inbox z = (r, z1)" for r z1
    using that by (auto simp: Handshake_def bindS_def wrapS_def liftS_def dest: in_force_SendD split: prod.splits sum.splits)
  have hb: "in_force z1 = in_force u" if "PolicyBundleMsg b \<in> set inbox" "handleBundle V b u = (r, z1)" for b u r z1
    using in_force_handleBundle [OF assms [OF that(1)], of u] that(2) by simp
  have rp: "in_force z1 = in_force u" if "replayBuf V ctx u = (r, z1)" for ctx u r z1
    using in_force_replayBuf [of V ctx u] that by simp
  have bo: "PolicyBundleMsg b \<in> set inbox" if "Handshake (en_sflt V) ?h inbox z = (Inr (w, Some b, rest), z1)" for w b rest z1
    using that by (auto simp: Handshake_def bindS_Inr liftS_def intro: recv_welcome_bundle)
  have rest: "in_force (snd (session_start V oa g w rest z1)) = in_force z1" for g w rest z1
    by (auto simp: session_start_def SendSystemEvent_def in_force_ApplyConfigUpdate Let_def rp split: prod.splits)
  obtain r z1 where h: "Handshake (en_sflt V) ?h inbox z = (r, z1)" by fastforce
  show ?thesis
  proof (cases r)
    case (Inl e)
    then show ?thesis using h hs by (simp add: session_open_def bindS_def Let_def)
  next
    case (Inr x)
    obtain w bo rs where x: "x = (w, bo, rs)" by (cases x)
    define m where "m = (case bo of None \<Rightarrow> retS () | Some b \<Rightarrow> handleBundle V b)"
    have "in_force (snd (m z1)) = in_force z1"
      using hb bo h Inr x by (cases bo) (auto simp: m_def retS_def, metis prod.collapse)
    moreover obtain q z2 where "m z1 = (q, z2)" by fastforce
    moreover have "snd (session_open V oa inbox z) = snd (bindS m (\<lambda>_. session_start V oa (currentGen (lv_policy (peer z))) w rs) z1)"
      using h Inr x by (simp add: session_open_def bindS_apply [of "Handshake _ _ _"] m_def Let_def)
    ultimately show ?thesis using hs [OF h] rest by (cases q) (simp_all add: bindS_apply)
  qed
qed

lemma agent_step_unsigned:
  assumes "\<And>b. delivers a b \<Longrightarrow> VerifyBundle (en_crypto V) b (en_pub V) \<noteq> Inr ()"
  shows "in_force (agent_step V a z) = in_force z"
proof (cases a)
  case (EvOpen oa inbox)
  have "in_force (snd (session_open V oa inbox z)) = in_force z"
    by (rule in_force_session_open) (rule assms, simp add: delivers_def EvOpen)
  then show ?thesis by (simp add: EvOpen)
next
  case (EvRecv now m)
  show ?thesis
  proof (cases m)
    case (PolicyBundleMsg b)
    then have "in_force (snd (handleBundle V b z)) = in_force z"
      by (intro in_force_handleBundle assms) (simp add: delivers_def EvRecv)
    then show ?thesis by (auto simp: EvRecv PolicyBundleMsg split: prod.splits sum.splits)
  qed (simp_all add: EvRecv in_force_ApplyConfigUpdate DeliverResponse_def SendSystemEvent_def split: option.splits)
qed (simp_all add: heartbeat_send_def in_force_poll in_force_batch in_force_scan in_force_onLdr policy_tab_sweep policy_tab_packet)

text \<open>
  C9. Only a signed bundle changes the policy in force. Whatever the control plane or
  someone in its place sends, and whatever happens in the agent, a step after which the
  rules or sets in the BPF maps or the recorded policy differ has handled a bundle that
  verified under the configured key.
\<close>

theorem only_signed_bundles_change_policy:
  assumes "in_force (agent_step V a z) \<noteq> in_force z"
  shows "\<exists>b. delivers a b \<and> VerifyBundle (en_crypto V) b (en_pub V) = Inr ()"
  using agent_step_unsigned [of a V z] assms by blast

section \<open>The recorded policy\<close>

inductive agent_reach :: "crypto \<Rightarrow> bytes \<Rightarrow> live session \<Rightarrow> bool" for C pub where
  start: "lv_policy (peer z) = NewPolicyHandler s \<Longrightarrow> agent_reach C pub z"
| step: "agent_reach C pub z \<Longrightarrow> en_crypto V = C \<Longrightarrow> en_pub V = pub \<Longrightarrow> agent_reach C pub (agent_step V a z)"

text \<open>A result of applying a bundle that verified.\<close>

definition signed_result :: "crypto \<Rightarrow> bytes \<Rightarrow> ApplyResult \<Rightarrow> bool" where
  "signed_result C pub ar \<longleftrightarrow> (\<exists>b res. VerifyBundle C b pub = Inr () \<and> CompileBundle (Some b) = Inr res
     \<and> ar_Rules ar = Rules res \<and> ar_Generation ar = pb_generation b)"

definition policy_signed :: "crypto \<Rightarrow> bytes \<Rightarrow> live session \<Rightarrow> bool" where
  "policy_signed C pub z \<longleftrightarrow> (case current (lv_policy (peer z)) of None \<Rightarrow> True | Some ar \<Rightarrow> signed_result C pub ar)"

lemma policy_signed_cong: "in_force z' = in_force z \<Longrightarrow> policy_signed C pub z' = policy_signed C pub z"
  by (simp add: in_force_def policy_signed_def)

lemma applyFn_current_signed:
  assumes "VerifyBundle C b pub = Inr ()" and "applyFn A iter clk b h = (r, h')"
  shows "current h' = current h \<or> (\<exists>ar. current h' = Some ar \<and> signed_result C pub ar)"
proof -
  obtain q h1 where q: "Apply A iter clk (Some b) h = (q, h1)" by fastforce
  show ?thesis
  proof (cases q)
    case (Inl e)
    then have "current h1 = current h" using q by (auto simp: Apply_def Let_def split: sum.splits prod.splits)
    then show ?thesis using assms(2) q Inl by (simp add: applyFn_def)
  next
    case (Inr ar)
    from q [unfolded Inr] have "current h1 = Some ar \<and> signed_result C pub ar"
      using assms(1) by (auto elim!: Apply_Inr simp: signed_result_def)
    then show ?thesis using assms(2) q Inr by (simp add: applyFn_def)
  qed
qed

lemma policy_signed_handleBundle:
  assumes "policy_signed (en_crypto V) (en_pub V) z"
  shows "policy_signed (en_crypto V) (en_pub V) (snd (handleBundle V b z))"
proof (cases "VerifyBundle (en_crypto V) b (en_pub V) = Inr ()")
  case False
  then show ?thesis using policy_signed_cong [OF in_force_handleBundle] assms by blast
next
  case True
  obtain r h where a: "applyFn (loader_applier (en_flt V)) (en_iter V) (en_clk V) b (lv_policy (peer z)) = (r, h)" by fastforce
  have "peer (snd (handleBundle V b z)) = peer z \<or> lv_policy (peer (snd (handleBundle V b z))) = h"
    using True a by (cases r) (auto simp: handleBundle_def HandleBundle_def stream_Send_cases onPeer_def wrapS_def Let_def split: if_splits)
  then show ?thesis using applyFn_current_signed [OF True a] assms by (auto simp: policy_signed_def)
qed

lemma policy_signed_open:
  assumes "policy_signed (en_crypto V) (en_pub V) z"
  shows "policy_signed (en_crypto V) (en_pub V) (snd (session_open V oa inbox z))"
proof -
  let ?h = "(oa_hello oa)\<lparr>hl_current_generation := currentGen (lv_policy (peer z))\<rparr>" and ?P = "policy_signed (en_crypto V) (en_pub V)"
  have start: "?P (snd (session_start V oa g w rest z1))" if "?P z1" for g w rest z1
  proof -
    have rp: "in_force u = in_force z1" if "replayBuf V ctx z1 = (r, u)" for ctx r u
      using in_force_replayBuf [of V ctx z1] that by simp
    have "in_force (snd (session_start V oa g w rest z1)) = in_force z1"
      by (auto simp: session_start_def SendSystemEvent_def in_force_ApplyConfigUpdate Let_def rp split: prod.splits)
    then show ?thesis using policy_signed_cong that by blast
  qed
  have hs: "?P (snd (Handshake (en_sflt V) ?h inbox u))" if "?P u" for u
  proof -
    have "in_force (snd (Handshake (en_sflt V) ?h inbox u)) = in_force u"
      by (auto simp: Handshake_def bindS_def wrapS_def liftS_def dest: in_force_SendD split: prod.splits sum.splits)
    then show ?thesis using policy_signed_cong that by blast
  qed
  have "?P (snd (bindS (Handshake (en_sflt V) ?h inbox) (\<lambda>(w, bo, rest). bindS (case bo of None \<Rightarrow> retS () | Some b \<Rightarrow> handleBundle V b)
      (\<lambda>_. session_start V oa (currentGen (lv_policy (peer z))) w rest)) z))"
    by (intro bindS_invariant [where P = ?P] assms)
      (auto intro!: bindS_invariant [where P = ?P] start hs policy_signed_handleBundle simp: retS_def split: prod.splits option.splits)
  then show ?thesis by (simp only: session_open_def Let_def)
qed

lemma policy_signed_step:
  assumes "policy_signed (en_crypto V) (en_pub V) z"
  shows "policy_signed (en_crypto V) (en_pub V) (agent_step V a z)"
proof (cases "\<exists>b. delivers a b")
  case False
  then show ?thesis using policy_signed_cong [OF agent_step_unsigned] assms by blast
next
  case True
  then consider now b where "a = EvRecv now (PolicyBundleMsg b)" | oa inbox where "a = EvOpen oa inbox" by (auto simp: delivers_def)
  then show ?thesis
  proof cases
    case 1
    then show ?thesis using policy_signed_handleBundle [OF assms, of b] by (auto split: prod.splits sum.splits)
  next
    case 2
    then show ?thesis using policy_signed_open [OF assms] by simp
  qed
qed

lemma agent_reach_signed: "agent_reach C pub z \<Longrightarrow> policy_signed C pub z"
proof (induction rule: agent_reach.induct)
  case (start z s)
  then show ?case by (simp add: policy_signed_def NewPolicyHandler_def)
next
  case (step z V a)
  then show ?case using policy_signed_step [of V z a] by simp
qed

text \<open>
  C10. In every state the agent can reach, over any number of sessions and with any
  interleaving of its goroutines and of traffic, the recorded policy (its generation, which
  heartbeats and handshakes report, and its rules) comes from a bundle that verified under the
  configured key.
\<close>

theorem recorded_policy_signed:
  assumes "agent_reach C pub z" and "current (lv_policy (peer z)) = Some ar"
  shows "\<exists>b res. VerifyBundle C b pub = Inr () \<and> CompileBundle (Some b) = Inr res
     \<and> ar_Rules ar = Rules res \<and> ar_Generation ar = pb_generation b \<and> currentGen (lv_policy (peer z)) = pb_generation b"
proof -
  have "policy_signed C pub z" using assms(1) by (rule agent_reach_signed)
  then show ?thesis using assms(2) by (auto simp: policy_signed_def signed_result_def currentGen_def)
qed

definition ex_V :: senv where
  "ex_V = \<lparr>en_crypto = ex_crypto, en_pub = ex_key, en_codec = ex_codec_am, en_sflt = (\<lambda>_. False), en_flt = (\<lambda>_. False),
     en_dflt = (\<lambda>_. False), en_iter = id, en_clk = ex_clock0, en_ord = (\<lambda>_. [])\<rparr>"

definition ex_live :: "live session" where
  "ex_live = \<lparr>sent = [], nsend = 0, peer = \<lparr>lv_policy = ex_handler0, lv_hb = NewHeartbeatSender 0, lv_eb = NewEventBatcher 0 0,
     lv_cp = NewCounterPoller 0, lv_fc = NewFlowEventCollector 0, lv_renewal = None, lv_buf = \<lparr>db_entries = [], db_ops = 0\<rparr>\<rparr>\<rparr>"

lemma ex_recv:
  "\<exists>ar. current (lv_policy (peer (agent_step ex_V (EvRecv 0 (PolicyBundleMsg ex_signed)) ex_live))) = Some ar"
proof -
  have V: "en_crypto ex_V = ex_crypto" "en_pub ex_V = ex_key" "en_sflt ex_V = (\<lambda>_. False)" "en_flt ex_V = (\<lambda>_. False)"
    "en_iter ex_V = id" "en_clk ex_V = ex_clock0" "lv_policy (peer ex_live) = ex_handler0"
    by (simp_all add: ex_V_def ex_live_def)
  obtain ar h where a: "Apply (loader_applier (\<lambda>_. False)) id ex_clock0 (Some ex_signed) ex_handler0 = (Inr ar, h)"
    using ex_signed_applies by (auto simp: is_ok_iff) (metis prod.collapse)
  have c: "current h = Some ar" using a by (rule Apply_Inr)
  have "applyFn (loader_applier (\<lambda>_. False)) id ex_clock0 ex_signed ex_handler0 = (Inr (ar_DurationMs ar), h)"
    by (simp add: applyFn_def a)
  then have "lv_policy (peer (snd (handleBundle ex_V ex_signed ex_live))) = h"
    by (simp add: handleBundle_def HandleBundle_def V ex_verifies stream_Send_cases onPeer_def wrapS_def Let_def)
  then show ?thesis using c by (auto split: prod.splits sum.splits)
qed

theorem only_signed_bundles_change_policy_witness:
  "\<exists>b. delivers (EvRecv 0 (PolicyBundleMsg ex_signed)) b \<and> VerifyBundle ex_crypto b ex_key = Inr ()"
proof -
  have "current (lv_policy (peer ex_live)) = None" by (simp add: ex_live_def ex_handler0_def NewPolicyHandler_def)
  then have "in_force (agent_step ex_V (EvRecv 0 (PolicyBundleMsg ex_signed)) ex_live) \<noteq> in_force ex_live"
    using ex_recv by (auto simp: in_force_def)
  from only_signed_bundles_change_policy [OF this] show ?thesis by (simp add: ex_V_def)
qed

theorem recorded_policy_signed_witness:
  "\<exists>ar b. current (lv_policy (peer (agent_step ex_V (EvRecv 0 (PolicyBundleMsg ex_signed)) ex_live))) = Some ar
     \<and> VerifyBundle ex_crypto b ex_key = Inr () \<and> ar_Generation ar = pb_generation b"
proof -
  obtain ar where ar: "current (lv_policy (peer (agent_step ex_V (EvRecv 0 (PolicyBundleMsg ex_signed)) ex_live))) = Some ar"
    using ex_recv by blast
  have "agent_reach ex_crypto ex_key (agent_step ex_V (EvRecv 0 (PolicyBundleMsg ex_signed)) ex_live)"
    by (intro agent_reach.step agent_reach.start [where s = "init_bpf 64 1"])
      (simp_all add: ex_V_def ex_live_def ex_handler0_def)
  from recorded_policy_signed [OF this ar] show ?thesis using ar by blast
qed

section \<open>Counters are attributed to the rule that counted them\<close>




lemma ReadCounters_ok:
  assumes "unat (qf_rule_count s) \<le> MaxRules"
  shows "is_ok (fst (ReadCounters (\<lambda>_. False) s))"
proof -
  have "\<not> (of_nat MaxRules :: u32) < qf_rule_count s" using assms by (simp add: word_less_nat_alt MaxRules_def)
  moreover have "is_ok (fst (ReadCounter (\<lambda>_. False) (of_nat i) u))" if "i < MaxRules" for i and u :: bpf
    using that by (simp add: ReadCounter_def qf_rule_counters_Lookup_def bindS_def wrapS_def retS_def sysS_def Let_def unat_of_nat MaxRules_def)
  then have "is_ok (fst (mapS (\<lambda>i. ReadCounter (\<lambda>_. False) (of_nat i)) is u))" if "\<forall>i \<in> set is. i < MaxRules" for "is" and u :: bpf
    using that
  proof (induction "is" arbitrary: u)
    case (Cons i "is")
    obtain c v where c: "ReadCounter (\<lambda>_. False) (of_nat i) u = (Inr c, v)"
      using Cons.prems by (metis is_ok_iff list.set_intros(1) prod.collapse)
    have "is_ok (fst (mapS (\<lambda>i. ReadCounter (\<lambda>_. False) (of_nat i)) is v))" using Cons by simp
    then obtain cs w where "mapS (\<lambda>i. ReadCounter (\<lambda>_. False) (of_nat i)) is v = (Inr cs, w)" by (metis is_ok_iff prod.collapse)
    then show ?case by (simp add: bindS_def c retS_def)
  qed simp
  ultimately show ?thesis
    using assms by (simp add: ReadCounters_def bindS_def wrapS_def qf_rule_count_Lookup_def sysS_def Let_def)
qed



section \<open>The batcher keeps order and loses nothing while sends succeed\<close>

fun batch_run :: "senv \<Rightarrow> (nat \<times> batch_ev) list \<Rightarrow> live session \<Rightarrow> unit res option \<times> live session" where
  "batch_run V [] z = (None, z)"
| "batch_run V ((now, e) # es) z = (case batch_step V now e z of (None, z1) \<Rightarrow> batch_run V es z1 | (Some r, z1) \<Rightarrow> (Some r, z1))"

text \<open>The events in the \<open>LogEvents\<close> messages of a stream, and the events the loop has read.\<close>

fun log_events :: "agent_msg list \<Rightarrow> qfv1_LogEvent list" where
  "log_events [] = []"
| "log_events (LogEventsMsg l # ms) = les_events l @ log_events ms"
| "log_events (_ # ms) = log_events ms"

fun events_read :: "(nat \<times> batch_ev) list \<Rightarrow> qfv1_LogEvent list" where
  "events_read [] = []"
| "events_read ((now, BatchRead (Inr ev)) # es) = loaderEventToProto (int now) ev # events_read es"
| "events_read ((now, BatchTimer) # es) = events_read es"
| "events_read ((now, _) # es) = []"

definition batch_sizes_ok :: "nat \<Rightarrow> agent_msg list \<Rightarrow> bool" where
  "batch_sizes_ok n ms \<longleftrightarrow> (\<forall>l. LogEventsMsg l \<in> set ms \<longrightarrow> length (les_events l) \<le> n)"

lemma log_events_append: "log_events (xs @ ys) = log_events xs @ log_events ys"
  by (induction xs rule: log_events.induct) simp_all

lemma onLdr_frame: "sent (snd (onLdr m z)) = sent z \<and> nsend (snd (onLdr m z)) = nsend z \<and> lv_eb (peer (snd (onLdr m z))) = lv_eb (peer z)"
  by (simp add: onLdr_def split: prod.splits)

lemma flush_sends:
  assumes "\<And>n. \<not> en_sflt V n"
  obtains z' ms where "flush V now z = (Inr (), z')" "sent z' = sent z @ ms" "log_events ms = eb_batch (lv_eb (peer z))"
    "batch_sizes_ok (length (eb_batch (lv_eb (peer z)))) ms" "lv_eb (peer z') = (lv_eb (peer z))\<lparr>eb_batch := []\<rparr>"
proof (cases "eb_batch (lv_eb (peer z)) = []")
  case True
  then have "flush V now z = (Inr (), z)" by (simp add: flush_def)
  then show ?thesis using that [of z "[]"] True by (simp add: batch_sizes_ok_def)
next
  case False
  obtain r z1 where 1: "onLdr (ReadSuppressedCount (en_flt V)) z = (r, z1)" by fastforce
  define z2 where "z2 = snd (onLdr (ResetSuppressedCount (en_flt V)) z1)"
  have f: "sent z2 = sent z" "nsend z2 = nsend z" "lv_eb (peer z2) = lv_eb (peer z)"
    using onLdr_frame [of "ReadSuppressedCount (en_flt V)" z] onLdr_frame [of "ResetSuppressedCount (en_flt V)" z1] 1 by (simp_all add: z2_def)
  define l where "l = \<lparr>les_events = eb_batch (lv_eb (peer z)), les_suppressed_count = (case r of Inl _ \<Rightarrow> 0 | Inr n \<Rightarrow> n)\<rparr>"
  have "flush V now z = (Inr (), z2\<lparr>nsend := Suc (nsend z2), sent := sent z2 @ [LogEventsMsg l], peer := (peer z2)\<lparr>lv_eb := (lv_eb (peer z2))\<lparr>eb_batch := []\<rparr>\<rparr>\<rparr>)"
    using False 1 assms by (simp add: flush_def z2_def [symmetric] l_def [symmetric] stream_Send_cases Let_def)
  then show ?thesis using f that [of _ "[LogEventsMsg l]"] by (simp add: l_def batch_sizes_ok_def)
qed

lemma batch_step_sends:
  assumes "\<And>n. \<not> en_sflt V n" and "length (eb_batch (lv_eb (peer z))) < unat (eb_batchSize (lv_eb (peer z)))"
    and "batch_step V now e z = (r, z')"
  obtains ms where "sent z' = sent z @ ms" "log_events ms @ eb_batch (lv_eb (peer z')) = eb_batch (lv_eb (peer z)) @ events_read [(now, e)]"
    "batch_sizes_ok (unat (eb_batchSize (lv_eb (peer z)))) ms" "eb_batchSize (lv_eb (peer z')) = eb_batchSize (lv_eb (peer z))"
    "length (eb_batch (lv_eb (peer z'))) < unat (eb_batchSize (lv_eb (peer z)))"
    "r \<noteq> None \<longrightarrow> eb_batch (lv_eb (peer z')) = []" "events_read ((now, e) # es) = events_read [(now, e)] @ (if r = None then events_read es else [])"
proof -
  have mono: "batch_sizes_ok m ms" if "batch_sizes_ok n ms" "n \<le> m" for n m ms using that by (force simp: batch_sizes_ok_def)
  consider err where "e = BatchRead (Inl err)" | ev where "e = BatchRead (Inr ev)" | "e = BatchTimer" | "e = BatchDone"
    by (cases e; metis sum.exhaust)
  then show ?thesis
  proof cases
    case (2 ev)
    let ?b = "lv_eb (peer z)" and ?batch = "eb_batch (lv_eb (peer z)) @ [loaderEventToProto (int now) ev]"
    let ?z1 = "z\<lparr>peer := (peer z)\<lparr>lv_eb := ?b\<lparr>eb_batch := ?batch\<rparr>\<rparr>\<rparr>"
    have "Suc (length (eb_batch ?b)) < 2 ^ 32" using assms(2) unsigned_less [of "eb_batchSize ?b", where ?'a = nat] by simp
    then have n: "unat (of_nat (length ?batch) :: u32) = length ?batch" by (simp add: unat_of_nat del: of_nat_Suc)
    show ?thesis
    proof (cases "eb_batchSize ?b \<le> of_nat (length ?batch)")
      case True
      then have "unat (eb_batchSize ?b) = length ?batch" using assms(2) n by (simp add: word_le_nat_alt)
      moreover obtain z2 ms where "flush V now ?z1 = (Inr (), z2)" "sent z2 = sent z @ ms" "log_events ms = ?batch"
        "batch_sizes_ok (length ?batch) ms" "lv_eb (peer z2) = ?b\<lparr>eb_batch := []\<rparr>"
        using flush_sends [OF assms(1), of now ?z1] by auto
      ultimately show ?thesis using that [of ms] True assms(2,3) 2 by (auto simp: wrapS_def Let_def)
    next
      case False
      then have "length ?batch < unat (eb_batchSize ?b)" using n by (simp add: word_le_nat_alt)
      then show ?thesis using that [of "[]"] False assms(3) 2 by (auto simp: batch_sizes_ok_def Let_def)
    qed
  next
    case 3
    obtain z2 ms where "flush V now z = (Inr (), z2)" "sent z2 = sent z @ ms" "log_events ms = eb_batch (lv_eb (peer z))"
      "batch_sizes_ok (length (eb_batch (lv_eb (peer z)))) ms" "lv_eb (peer z2) = (lv_eb (peer z))\<lparr>eb_batch := []\<rparr>"
      using flush_sends [OF assms(1)] .
    then show ?thesis using that [of ms] mono assms(2,3) 3 by (auto simp: wrapS_def)
  next
    case (1 err)
    obtain z2 ms where "flush V now z = (Inr (), z2)" "sent z2 = sent z @ ms" "log_events ms = eb_batch (lv_eb (peer z))"
      "batch_sizes_ok (length (eb_batch (lv_eb (peer z)))) ms" "lv_eb (peer z2) = (lv_eb (peer z))\<lparr>eb_batch := []\<rparr>"
      using flush_sends [OF assms(1)] .
    then show ?thesis using that [of ms] mono assms(2,3) 1 by auto
  next
    case 4
    obtain z2 ms where "flush V now z = (Inr (), z2)" "sent z2 = sent z @ ms" "log_events ms = eb_batch (lv_eb (peer z))"
      "batch_sizes_ok (length (eb_batch (lv_eb (peer z)))) ms" "lv_eb (peer z2) = (lv_eb (peer z))\<lparr>eb_batch := []\<rparr>"
      using flush_sends [OF assms(1)] .
    then show ?thesis using that [of ms] mono assms(2,3) 4 by auto
  qed
qed

text \<open>
  The event batcher delivers every event once and in order. While sends succeed, the
  events in the messages it sent, followed by the pending batch, are the events read from
  the ring buffer in their order; no message has more events than the batch size; and
  when the loop ends, by an error of the reader or by the context, nothing is pending.
\<close>

lemma batcher_delivers_in_order:
  assumes "\<And>n. \<not> en_sflt V n" and "eb_batch (lv_eb (peer z)) = []" and "0 < eb_batchSize (lv_eb (peer z))"
    and "batch_run V es z = (r, z')"
  shows "\<exists>ms. sent z' = sent z @ ms \<and> log_events ms @ eb_batch (lv_eb (peer z')) = events_read es
    \<and> batch_sizes_ok (unat (eb_batchSize (lv_eb (peer z)))) ms \<and> (r \<noteq> None \<longrightarrow> eb_batch (lv_eb (peer z')) = [])"
proof -
  have "\<exists>ms. sent z' = sent z @ ms \<and> log_events ms @ eb_batch (lv_eb (peer z')) = eb_batch (lv_eb (peer z)) @ events_read es
    \<and> batch_sizes_ok (unat (eb_batchSize (lv_eb (peer z)))) ms \<and> (r \<noteq> None \<longrightarrow> eb_batch (lv_eb (peer z')) = [])"
    if "batch_run V es z = (r, z')" "length (eb_batch (lv_eb (peer z))) < unat (eb_batchSize (lv_eb (peer z)))" for z
    using that
  proof (induction es arbitrary: z)
    case Nil
    then show ?case by (simp add: batch_sizes_ok_def)
  next
    case (Cons x es)
    obtain now e where x: "x = (now, e)" by fastforce
    obtain q z1 where st: "batch_step V now e z = (q, z1)" by fastforce
    from batch_step_sends [OF assms(1) Cons.prems(2) st, of es] obtain ms where ms: "sent z1 = sent z @ ms"
      "log_events ms @ eb_batch (lv_eb (peer z1)) = eb_batch (lv_eb (peer z)) @ events_read [(now, e)]"
      "batch_sizes_ok (unat (eb_batchSize (lv_eb (peer z)))) ms" "eb_batchSize (lv_eb (peer z1)) = eb_batchSize (lv_eb (peer z))"
      "length (eb_batch (lv_eb (peer z1))) < unat (eb_batchSize (lv_eb (peer z)))"
      "q \<noteq> None \<longrightarrow> eb_batch (lv_eb (peer z1)) = []" "events_read ((now, e) # es) = events_read [(now, e)] @ (if q = None then events_read es else [])" .
    show ?case
    proof (cases q)
      case (Some y)
      then show ?thesis using ms st Some Cons.prems(1) x by (intro exI [of _ ms]) auto
    next
      case None
      then have "batch_run V es z1 = (r, z')" using Cons.prems(1) st x by simp
      from Cons.IH [OF this] ms(4,5) obtain ms2 where "sent z' = sent z1 @ ms2"
        "log_events ms2 @ eb_batch (lv_eb (peer z')) = eb_batch (lv_eb (peer z1)) @ events_read es"
        "batch_sizes_ok (unat (eb_batchSize (lv_eb (peer z)))) ms2" "r \<noteq> None \<longrightarrow> eb_batch (lv_eb (peer z')) = []" by auto
      then show ?thesis using ms None x
        by (intro exI [of _ "ms @ ms2"]) (auto simp: log_events_append batch_sizes_ok_def)
    qed
  qed
  from this [OF assms(4)] show ?thesis using assms(2,3) by (simp add: word_less_nat_alt)
qed

section \<open>Closed connections are reported at every scan\<close>

lemma tracked_loop_closed:
  "(k, st) \<in> set tr \<Longrightarrow> cur k = Some e \<Longrightarrow> TCPState e = TCPCSClosed \<Longrightarrow> distinct (map fst tr) \<Longrightarrow>
   makeFlowEvent (firstSeen st) now e \<in> set (fst (tracked_loop now cur tr)) \<and> k \<notin> fst ` set (snd (tracked_loop now cur tr))"
proof (induction tr)
  case (Cons x tr)
  obtain k' st' where x: "x = (k', st')" by fastforce
  obtain evs tr' where tl: "tracked_loop now cur tr = (evs, tr')" by fastforce
  have sub: "(j, u) \<in> set (snd (tracked_loop now cur ts)) \<Longrightarrow> j \<in> fst ` set ts" for ts j u
    by (induction ts) (auto split: prod.splits option.splits if_splits)
  show ?case
  proof (cases "k' = k")
    case True
    then have "k \<notin> fst ` set tr" "st = st'" using Cons.prems x by (auto simp: rev_image_eqI)
    moreover have "k \<notin> fst ` set tr'" using sub [of k _ tr] tl calculation(1) by auto
    ultimately show ?thesis using Cons.prems(2,3) True x tl by simp
  next
    case False
    then show ?thesis using Cons x tl by (auto split: option.splits)
  qed
qed simp

text \<open>
  A closed TCP connection that stays in the connection table is reported at every scan:
  the scan emits its event and, since the entry is still in the table, tracks it again as a new
  flow that begins now.
\<close>

lemma closed_flow_reported_again:
  assumes "ConntrackDump (en_flt V) (en_ord V) (ldr z) = (Inr entries, s)" and "\<And>n. \<not> en_sflt V n"
    and "e \<in> set entries" and "\<And>e'. e' \<in> set entries \<Longrightarrow> entryKey e' = entryKey e \<Longrightarrow> e' = e"
    and "TCPState e = TCPCSClosed" and "(entryKey e, st) \<in> set (fc_tracked (lv_fc (peer z)))" and "distinct (map fst (fc_tracked (lv_fc (peer z))))"
    and "scan V now z = (r, z')"
  shows "\<exists>evs. sent z' = sent z @ [FlowEventsMsg evs] \<and> makeFlowEvent (firstSeen st) now e \<in> set evs
    \<and> (entryKey e, \<lparr>firstSeen = now, fentry = e\<rparr>) \<in> set (fc_tracked (lv_fc (peer z')))"
proof -
  let ?cur = "foldl (\<lambda>m e. m(entryKey e \<mapsto> e)) Map.empty entries"
  have fold: "foldl (\<lambda>m e. m(entryKey e \<mapsto> e)) m es (entryKey e) = Some e"
    if "\<And>e'. e' \<in> set es \<Longrightarrow> entryKey e' = entryKey e \<Longrightarrow> e' = e" "e \<in> set es \<or> m (entryKey e) = Some e" for m es
    using that
  proof (induction es arbitrary: m)
    case (Cons a es)
    have "e \<in> set es \<or> (m(entryKey a \<mapsto> a)) (entryKey e) = Some e"
      using Cons.prems(1) [of a] Cons.prems(2) by auto
    then show ?case using Cons.IH [of "m(entryKey a \<mapsto> a)"] Cons.prems(1) by simp
  qed simp
  have cur: "?cur (entryKey e) = Some e" by (rule fold) (use assms(3,4) in auto)
  obtain evs tr where tl: "tracked_loop now ?cur (fc_tracked (lv_fc (peer z))) = (evs, tr)" by fastforce
  have ev: "makeFlowEvent (firstSeen st) now e \<in> set evs" "entryKey e \<notin> fst ` set tr"
    using tracked_loop_closed [where cur = ?cur, OF assms(6) cur assms(5,7), of now] tl by simp_all
  have new: "(entryKey e, \<lparr>firstSeen = now, fentry = e\<rparr>) \<in> set (register_new now ?cur (remdups (map entryKey entries)) tr)"
    using ev(2) assms(3) by (auto simp: register_new_def image_iff cur)
  have "onLdr (ConntrackDump (en_flt V) (en_ord V)) z = (Inr entries, z\<lparr>peer := (peer z)\<lparr>lv_policy := (lv_policy (peer z))\<lparr>applier := s\<rparr>\<rparr>\<rparr>)"
    by (simp add: onLdr_def assms(1))
  moreover have "evs \<noteq> []" using ev(1) by auto
  ultimately show ?thesis using assms(2,8) ev(1) new tl by (auto simp: scan_def stream_Send_cases Let_def)
qed

end
