(* ===== verification/Qf_Addr.thy ===== *)
theory Qf_Addr
  imports Qf_Net
begin

text \<open>
  Printing of addresses: \<open>String\<close> of \<open>netip.Addr\<close> and of \<open>net.IP\<close>. An IPv6 address is printed in
  groups without leading zeros, its first longest run of two or more zero groups as two
  colons.
\<close>

fun groups16 :: "bytes \<Rightarrow> nat list" where
  "groups16 (a # b # bs) = (unat a * 256 + unat b) # groups16 bs"
| "groups16 bs = []"

fun hexNat :: "nat \<Rightarrow> string" where
  "hexNat n = (if n < 16 then [hex_digit n] else hexNat (n div 16) @ [hex_digit (n mod 16)])"

declare hexNat.simps [simp del]

definition zeros_at :: "nat list \<Rightarrow> nat \<Rightarrow> nat" where
  "zeros_at gs i = length (takeWhile (\<lambda>g. g = 0) (drop i gs))"

definition zero_run :: "nat list \<Rightarrow> nat \<times> nat" where
  "zero_run gs = foldl (\<lambda>(s, e) i. let l = zeros_at gs i in if 2 \<le> l \<and> e - s < l then (i, i + l) else (s, e)) (255, 255) [0..<8]"

fun join_colon :: "string list \<Rightarrow> string" where
  "join_colon [] = []"
| "join_colon [s] = s"
| "join_colon (s # ss) = s @ '':'' @ join_colon ss"

definition ip6String :: "bytes \<Rightarrow> string" where
  "ip6String b =
     (let gs = groups16 b; (s, e) = zero_run gs
      in if s = 255 then join_colon (map hexNat gs)
         else join_colon (map hexNat (take s gs)) @ ''::'' @ join_colon (map hexNat (drop e gs)))"

definition netip_String :: "bytes \<Rightarrow> string" where
  "netip_String b =
     (if length b = 4 then ip4String b
      else if length b = 16 then (if take 12 b = v4InV6Prefix then ''::ffff:'' @ ip4String (drop 12 b) else ip6String b)
      else ''invalid IP'')"

definition IP_String :: "netIP \<Rightarrow> string" where
  "IP_String ip =
     (if ip = [] then ''<nil>''
      else if length ip \<noteq> 4 \<and> length ip \<noteq> 16 then ''?'' @ hexEncode ip
      else case To4 ip of Some v4 \<Rightarrow> ip4String v4 | None \<Rightarrow> ip6String ip)"

text \<open>Some printed addresses.\<close>

lemma ip6String_examples:
  "ip6String (replicate 15 0 @ [1]) = ''::1''" "ip6String (replicate 16 0) = ''::''"
  "ip6String [0,1, 0,0, 0,0, 0,2, 0,0, 0,0, 0,0, 0,0x1f] = ''1:0:0:2::1f''"
  by code_simp+

end
