(* ===== verification/Qf_Ingest.thy ===== *)
theory Qf_Ingest
  imports Qf_Store Qf_Session Qf_Addr
begin

text \<open>
  Telemetry on the control plane (cp/internal/ingest): conversion of the agents' messages to
  rows, the bounded channels, and the workers that insert rows in batches. The three batch
  workers have the same code for different rows; what they need of the bulk insertion is the
  locale \<open>bulk_insert\<close>, which the three \<open>COPY\<close> statements implement. Printing of addresses
  (\<open>netip.Addr.String\<close>), the forwarder's and the hub's reactions are outside.
\<close>

section \<open>convert.go\<close>

definition bytesToAddr :: "bytes \<Rightarrow> bytes option" where
  "bytesToAddr b = (if length b = 4 \<or> length b = 16 then Some b else None)"

text \<open>A string that is not a UUID becomes a null column.\<close>

definition parseUUID_null :: "Queries \<Rightarrow> string \<Rightarrow> bytes option" where
  "parseUUID_null Q s = (case uuid_Scan Q s of Inl _ \<Rightarrow> None | Inr u \<Rightarrow> Some u)"

definition protoTsToTimestamptz :: "int \<Rightarrow> int option \<Rightarrow> int" where
  "protoTsToTimestamptz now ts = (case ts of None \<Rightarrow> now | Some t \<Rightarrow> t)"

definition protoDirectionStr :: "i32 \<Rightarrow> string" where
  "protoDirectionStr d = (if d = DIRECTION_INGRESS then ''ingress'' else if d = DIRECTION_EGRESS then ''egress'' else ''ingress'')"

definition protoActionStr :: "i32 \<Rightarrow> string" where
  "protoActionStr a = (if a = ACTION_ALLOW then ''allow'' else if a = ACTION_DENY then ''deny''
     else if a = ACTION_LOG then ''log'' else ''allow'')"

definition protoConntrackStateStr :: "i32 \<Rightarrow> string" where
  "protoConntrackStateStr s = (if s = CONNTRACK_STATE_NEW then ''new'' else if s = CONNTRACK_STATE_ESTABLISHED then ''established''
     else if s = CONNTRACK_STATE_RELATED then ''related'' else if s = CONNTRACK_STATE_INVALID then ''invalid'' else '''')"

text \<open>The severities are 1 (info), 2 (warning) and 3 (error).\<close>

definition protoSeverityStr :: "i32 \<Rightarrow> string" where
  "protoSeverityStr s = (if s = 2 then ''warning'' else if s = 3 then ''error'' else ''info'')"

definition ReplaceAll :: "char \<Rightarrow> string \<Rightarrow> string \<Rightarrow> string" where
  "ReplaceAll c new s = concat (map (\<lambda>x. if x = c then new else [x]) s)"

definition jsonEscapeSimple :: "string \<Rightarrow> string" where
  "jsonEscapeSimple s = ReplaceAll (CHR 0x09) [CHR 0x5C, CHR ''t''] (ReplaceAll (CHR 0x0D) [CHR 0x5C, CHR ''r'']
     (ReplaceAll (CHR 0x0A) [CHR 0x5C, CHR ''n''] (ReplaceAll (CHR 0x22) [CHR 0x5C, CHR 0x22] (ReplaceAll (CHR 0x5C) [CHR 0x5C, CHR 0x5C] s))))"

record logRow =
  lr_TenantID :: bytes
  lr_HostID :: bytes
  lr_RuleID :: "bytes option"
  lr_PolicyID :: "bytes option"
  lr_Direction :: string
  lr_Action :: string
  lr_Protocol :: "16 word"
  lr_SrcIp :: "bytes option"
  lr_SrcPort :: "i32 option"
  lr_DstIp :: "bytes option"
  lr_DstPort :: "i32 option"
  lr_PacketSize :: "i32 option"
  lr_TcpFlags :: "i32 option"
  lr_CtState :: "string option"
  lr_CreatedAt :: int

record flowRow =
  fr_TenantID :: bytes
  fr_HostID :: bytes
  fr_Protocol :: "16 word"
  fr_SrcIp :: "bytes option"
  fr_SrcPort :: "i32 option"
  fr_DstIp :: "bytes option"
  fr_DstPort :: "i32 option"
  fr_BytesOrig :: i64
  fr_BytesReply :: i64
  fr_PacketsOrig :: i64
  fr_PacketsReply :: i64
  fr_FinalState :: "string option"
  fr_StartedAt :: "int option"
  fr_EndedAt :: "int option"
  fr_CreatedAt :: int

record counterRow =
  kr_TenantID :: bytes
  kr_HostID :: bytes
  kr_RuleID :: "bytes option"
  kr_PolicyID :: "bytes option"
  kr_Packets :: i64
  kr_Bytes :: i64
  kr_Ts :: int

record systemRow =
  sr_TenantID :: bytes
  sr_HostID :: bytes
  sr_Type :: string
  sr_Severity :: string
  sr_Detail :: string
  sr_Attributes :: string

text \<open>A number that is stored only when it is positive.\<close>

definition pos_opt :: "u32 \<Rightarrow> i32 option" where
  "pos_opt v = (if 0 < v then Some v else None)"

definition protoLogEventToParams :: "Queries \<Rightarrow> int \<Rightarrow> bytes \<Rightarrow> bytes \<Rightarrow> qfv1_LogEvent \<Rightarrow> logRow" where
  "protoLogEventToParams Q now tid hid ev =
     \<lparr>lr_TenantID = tid, lr_HostID = hid, lr_RuleID = parseUUID_null Q (le_rule_id ev), lr_PolicyID = parseUUID_null Q (le_policy_id ev),
      lr_Direction = protoDirectionStr (le_direction ev), lr_Action = protoActionStr (le_action ev), lr_Protocol = ucast (le_protocol ev),
      lr_SrcIp = bytesToAddr (le_src_ip ev), lr_SrcPort = pos_opt (le_src_port ev),
      lr_DstIp = bytesToAddr (le_dst_ip ev), lr_DstPort = pos_opt (le_dst_port ev),
      lr_PacketSize = pos_opt (le_packet_size ev), lr_TcpFlags = pos_opt (le_tcp_flags ev),
      lr_CtState = (let s = protoConntrackStateStr (le_conntrack_state ev) in if s = '''' then None else Some s),
      lr_CreatedAt = protoTsToTimestamptz now (le_ts ev)\<rparr>"

definition protoFlowEventToParams :: "int \<Rightarrow> bytes \<Rightarrow> bytes \<Rightarrow> qfv1_FlowEvent \<Rightarrow> flowRow" where
  "protoFlowEventToParams now tid hid fv =
     \<lparr>fr_TenantID = tid, fr_HostID = hid, fr_Protocol = ucast (fe_protocol fv), fr_SrcIp = bytesToAddr (fe_src_ip fv),
      fr_SrcPort = pos_opt (fe_src_port fv), fr_DstIp = bytesToAddr (fe_dst_ip fv), fr_DstPort = pos_opt (fe_dst_port fv),
      fr_BytesOrig = fe_bytes_orig fv, fr_BytesReply = fe_bytes_reply fv, fr_PacketsOrig = fe_packets_orig fv,
      fr_PacketsReply = fe_packets_reply fv, fr_FinalState = (if fe_final_state fv = '''' then None else Some (fe_final_state fv)),
      fr_StartedAt = fe_ts_start fv, fr_EndedAt = fe_ts_end fv, fr_CreatedAt = now\<rparr>"

fun json_entries :: "bool \<Rightarrow> (string \<times> string) list \<Rightarrow> string" where
  "json_entries isFirst [] = []"
| "json_entries isFirst ((k, v) # kvs) = (if isFirst then [] else '','') @ [CHR 0x22] @ jsonEscapeSimple k @ [CHR 0x22, CHR '':'', CHR 0x22]
     @ jsonEscapeSimple v @ [CHR 0x22] @ json_entries False kvs"

definition protoSystemEventToParams :: "bytes \<Rightarrow> bytes \<Rightarrow> qfv1_SystemEvent \<Rightarrow> systemRow" where
  "protoSystemEventToParams tid hid ev =
     \<lparr>sr_TenantID = tid, sr_HostID = hid, sr_Type = se_type ev, sr_Severity = protoSeverityStr (se_severity ev), sr_Detail = se_detail ev,
      sr_Attributes = (if se_attributes ev = [] then ''{}'' else ''{'' @ json_entries True (se_attributes ev) @ ''}'')\<rparr>"

definition counterToParams :: "Queries \<Rightarrow> bytes \<Rightarrow> bytes \<Rightarrow> int \<Rightarrow> qfv1_RuleCounter \<Rightarrow> counterRow" where
  "counterToParams Q tid hid ts rc = \<lparr>kr_TenantID = tid, kr_HostID = hid, kr_RuleID = parseUUID_null Q (rc_rule_id rc), kr_PolicyID = None,
     kr_Packets = rc_packets rc, kr_Bytes = rc_bytes rc, kr_Ts = ts\<rparr>"

definition uuidToString :: "bytes option \<Rightarrow> string" where
  "uuidToString u = (case u of None \<Rightarrow> '''' | Some b \<Rightarrow> pgUUIDToStr b)"

record forwarder_LogEvent =
  fl_TenantID :: string
  fl_HostID :: string
  fl_RuleID :: string
  fl_PolicyID :: string
  fl_Direction :: string
  fl_Action :: string
  fl_Protocol :: "16 word"
  fl_SrcPort :: i32
  fl_DstPort :: i32
  fl_Ts :: int
  fl_CtState :: string
  fl_SrcIP :: string
  fl_DstIP :: string

definition addrStr :: "bytes \<Rightarrow> string" where
  "addrStr b = (case bytesToAddr b of None \<Rightarrow> '''' | Some a \<Rightarrow> netip_String a)"

definition protoToForwarderEvent :: "int \<Rightarrow> bytes \<Rightarrow> bytes \<Rightarrow> qfv1_LogEvent \<Rightarrow> forwarder_LogEvent" where
  "protoToForwarderEvent now tid hid ev =
     \<lparr>fl_TenantID = uuidToString (Some tid), fl_HostID = uuidToString (Some hid), fl_RuleID = le_rule_id ev, fl_PolicyID = le_policy_id ev,
      fl_Direction = protoDirectionStr (le_direction ev), fl_Action = protoActionStr (le_action ev), fl_Protocol = ucast (le_protocol ev),
      fl_SrcPort = le_src_port ev, fl_DstPort = le_dst_port ev, fl_Ts = protoTsToTimestamptz now (le_ts ev),
      fl_CtState = protoConntrackStateStr (le_conntrack_state ev), fl_SrcIP = addrStr (le_src_ip ev), fl_DstIP = addrStr (le_dst_ip ev)\<rparr>"

section \<open>Channels and batches\<close>

definition maxBatch :: nat where "maxBatch = 2000"
definition chanBuf :: nat where "chanBuf = 10000"
definition chanBufSmall :: nat where "chanBufSmall = 1000"

text \<open>One kind of events: its channel, the worker's batch, the table, and the two metrics.\<close>

record 'r worker =
  wk_ch :: "'r list"
  wk_batch :: "'r list"
  wk_rows :: "'r list"
  wk_dropped :: nat
  wk_ingested :: nat

definition new_worker :: "'r worker" where
  "new_worker = \<lparr>wk_ch = [], wk_batch = [], wk_rows = [], wk_dropped = 0, wk_ingested = 0\<rparr>"

text \<open>A send that does not block.\<close>

definition offer :: "nat \<Rightarrow> 'r \<Rightarrow> 'r worker \<Rightarrow> 'r worker" where
  "offer cap p w = (if length (wk_ch w) < cap then w\<lparr>wk_ch := wk_ch w @ [p]\<rparr> else w\<lparr>wk_dropped := wk_dropped w + 1\<rparr>)"

text \<open>\<open>flush\<close> of the workers: \<open>ins\<close> inserts a batch into the table.\<close>

definition flushW :: "('r list \<Rightarrow> 'r list \<Rightarrow> nat res \<times> 'r list) \<Rightarrow> 'r worker \<Rightarrow> 'r worker" where
  "flushW ins w =
     (if wk_batch w = [] then w
      else case ins (wk_batch w) (wk_rows w) of
             (Inl _, t) \<Rightarrow> w\<lparr>wk_batch := [], wk_rows := t\<rparr>
           | (Inr n, t) \<Rightarrow> w\<lparr>wk_batch := [], wk_rows := t, wk_ingested := wk_ingested w + n\<rparr>)"

text \<open>The cases of the worker's \<open>select\<close>; receiving waits on an empty channel.\<close>

definition recvW :: "('r list \<Rightarrow> 'r list \<Rightarrow> nat res \<times> 'r list) \<Rightarrow> 'r worker \<Rightarrow> 'r worker" where
  "recvW ins w =
     (case wk_ch w of
        [] \<Rightarrow> w
      | p # ch \<Rightarrow>
          let w1 = w\<lparr>wk_ch := ch, wk_batch := wk_batch w @ [p]\<rparr>
          in if maxBatch \<le> length (wk_batch w1) then flushW ins w1 else w1)"

text \<open>
  The \<open>COPY\<close> statements: all rows or none. \<open>err\<close> is an error of the connection, or of the
  context, which is cancelled when a worker flushes for the last time.
\<close>

definition copyfrom :: "('r \<Rightarrow> bool) \<Rightarrow> goerr option \<Rightarrow> 'r list \<Rightarrow> 'r list \<Rightarrow> nat res \<times> 'r list" where
  "copyfrom ok err rows t =
     (case err of Some e \<Rightarrow> (Inl e, t)
      | None \<Rightarrow> if list_all ok rows then (Inr (length rows), t @ rows) else (Inl (Errorf ''violates constraint''), t))"

text \<open>The tables are partitioned by time; a counter needs its rule.\<close>

definition InsertLogEventsBatch :: "(int \<Rightarrow> bool) \<Rightarrow> goerr option \<Rightarrow> logRow list \<Rightarrow> logRow list \<Rightarrow> nat res \<times> logRow list" where
  "InsertLogEventsBatch part = copyfrom (\<lambda>r. part (lr_CreatedAt r))"

definition InsertFlowEventsBatch :: "(int \<Rightarrow> bool) \<Rightarrow> goerr option \<Rightarrow> flowRow list \<Rightarrow> flowRow list \<Rightarrow> nat res \<times> flowRow list" where
  "InsertFlowEventsBatch part = copyfrom (\<lambda>r. part (fr_CreatedAt r))"

definition InsertCounterSnapshotsBatch :: "(int \<Rightarrow> bool) \<Rightarrow> goerr option \<Rightarrow> counterRow list \<Rightarrow> counterRow list \<Rightarrow> nat res \<times> counterRow list" where
  "InsertCounterSnapshotsBatch part = copyfrom (\<lambda>r. kr_RuleID r \<noteq> None \<and> part (kr_Ts r))"

definition ctx_done :: "goerr option" where
  "ctx_done = Some (Sentinel ''context canceled'')"

text \<open>One turn of a worker's loop. \<open>err\<close> is the error the insertion would meet.\<close>

datatype worker_ev = WRecv "goerr option" | WTick "goerr option" | WDone

fun worker_turn :: "(goerr option \<Rightarrow> 'r list \<Rightarrow> 'r list \<Rightarrow> nat res \<times> 'r list) \<Rightarrow> worker_ev \<Rightarrow> 'r worker \<Rightarrow> 'r worker" where
  "worker_turn ins (WRecv err) w = recvW (ins err) w"
| "worker_turn ins (WTick err) w = flushW (ins err) w"
| "worker_turn ins WDone w = flushW (ins ctx_done) w"

definition logWorker :: "(int \<Rightarrow> bool) \<Rightarrow> worker_ev \<Rightarrow> logRow worker \<Rightarrow> logRow worker" where
  "logWorker part = worker_turn (InsertLogEventsBatch part)"

definition flowWorker :: "(int \<Rightarrow> bool) \<Rightarrow> worker_ev \<Rightarrow> flowRow worker \<Rightarrow> flowRow worker" where
  "flowWorker part = worker_turn (InsertFlowEventsBatch part)"

definition counterWorker :: "(int \<Rightarrow> bool) \<Rightarrow> worker_ev \<Rightarrow> counterRow worker \<Rightarrow> counterRow worker" where
  "counterWorker part = worker_turn (InsertCounterSnapshotsBatch part)"

text \<open>System events are inserted one by one; \<open>hosts\<close> are the ids the foreign key allows.\<close>

definition systemWorker :: "bytes list \<Rightarrow> worker_ev \<Rightarrow> systemRow worker \<Rightarrow> systemRow worker" where
  "systemWorker hosts ev w =
     (case ev of
        WRecv err \<Rightarrow> (case wk_ch w of
            [] \<Rightarrow> w
          | p # ch \<Rightarrow> let w1 = w\<lparr>wk_ch := ch\<rparr> in
              if err = None \<and> sr_HostID p \<in> set hosts then w1\<lparr>wk_rows := wk_rows w @ [p], wk_ingested := wk_ingested w + 1\<rparr> else w1)
      | WTick _ \<Rightarrow> w
      | WDone \<Rightarrow> w)"

section \<open>ingester.go\<close>

text \<open>
  \<open>ig_fwd\<close> is what was handed to the forwarder, if one is configured, \<open>ig_hub\<close> the events
  published for the subscribers of a host, if there is a hub.
\<close>

record Ingester =
  ig_fwd :: "forwarder_LogEvent list list option"
  ig_hub :: "(string \<times> qfv1_LogEvent) list option"
  ig_log :: "logRow worker"
  ig_flow :: "flowRow worker"
  ig_counter :: "counterRow worker"
  ig_system :: "systemRow worker"

definition NewIngester :: "bool \<Rightarrow> Ingester" where
  "NewIngester hub = \<lparr>ig_fwd = None, ig_hub = (if hub then Some [] else None), ig_log = new_worker, ig_flow = new_worker,
     ig_counter = new_worker, ig_system = new_worker\<rparr>"

definition NewWithForwarder :: "bool \<Rightarrow> Ingester" where
  "NewWithForwarder hub = (NewIngester hub)\<lparr>ig_fwd := Some []\<rparr>"

definition publishToHub :: "string \<Rightarrow> qfv1_LogEvents \<Rightarrow> Ingester \<Rightarrow> Ingester" where
  "publishToHub hostID msg ing = ing\<lparr>ig_hub := map_option (\<lambda>ps. ps @ map (Pair hostID) (les_events msg)) (ig_hub ing)\<rparr>"

definition IngestLogEvents :: "Queries \<Rightarrow> int \<Rightarrow> bytes \<Rightarrow> bytes \<Rightarrow> qfv1_LogEvents \<Rightarrow> Ingester \<Rightarrow> Ingester" where
  "IngestLogEvents Q now tid hid msg ing =
     (case ig_fwd ing of
        Some calls \<Rightarrow> publishToHub (pgUUIDToStr hid) msg
          (ing\<lparr>ig_fwd := Some (calls @ [map (protoToForwarderEvent now tid hid) (les_events msg)])\<rparr>)
      | None \<Rightarrow> publishToHub (pgUUIDToStr hid) msg
          (ing\<lparr>ig_log := fold (\<lambda>ev. offer chanBuf (protoLogEventToParams Q now tid hid ev)) (les_events msg) (ig_log ing)\<rparr>))"

definition IngestFlowEvents :: "int \<Rightarrow> bytes \<Rightarrow> bytes \<Rightarrow> qfv1_FlowEvent list \<Rightarrow> Ingester \<Rightarrow> Ingester" where
  "IngestFlowEvents now tid hid fvs ing =
     ing\<lparr>ig_flow := fold (\<lambda>fv. offer chanBuf (protoFlowEventToParams now tid hid fv)) fvs (ig_flow ing)\<rparr>"

definition IngestCounterUpdate :: "Queries \<Rightarrow> int \<Rightarrow> bytes \<Rightarrow> bytes \<Rightarrow> qfv1_CounterUpdate \<Rightarrow> Ingester \<Rightarrow> Ingester" where
  "IngestCounterUpdate Q now tid hid msg ing =
     ing\<lparr>ig_counter := fold (\<lambda>rc. offer chanBuf (counterToParams Q tid hid (protoTsToTimestamptz now (cu_ts msg)) rc)) (cu_counters msg) (ig_counter ing)\<rparr>"

definition IngestSystemEvent :: "bytes \<Rightarrow> bytes \<Rightarrow> qfv1_SystemEvent \<Rightarrow> Ingester \<Rightarrow> Ingester" where
  "IngestSystemEvent tid hid ev ing = ing\<lparr>ig_system := offer chanBufSmall (protoSystemEventToParams tid hid ev) (ig_system ing)\<rparr>"

section \<open>Exactly once, in order\<close>

text \<open>
  What a worker may be given, and what happened: the batches it tried to insert, each with
  whether it was inserted, the rows its channel accepted, and the state in the end. A worker
  that has seen the end of the context has returned: it takes no further turn, while its
  channel may still accept rows.
\<close>

datatype 'r wact = Offer 'r | Turn worker_ev

definition flushed :: "('r list \<Rightarrow> 'r list \<Rightarrow> nat res \<times> 'r list) \<Rightarrow> 'r list \<Rightarrow> 'r list \<Rightarrow> ('r list \<times> bool) list" where
  "flushed ins b t = (if b = [] then [] else [(b, is_ok (fst (ins b t)))])"

fun turn_flush :: "(goerr option \<Rightarrow> 'r list \<Rightarrow> 'r list \<Rightarrow> nat res \<times> 'r list) \<Rightarrow> worker_ev \<Rightarrow> 'r worker \<Rightarrow> ('r list \<times> bool) list" where
  "turn_flush ins (WRecv err) w = (case wk_ch w of [] \<Rightarrow> [] | p # _ \<Rightarrow>
     if maxBatch \<le> Suc (length (wk_batch w)) then flushed (ins err) (wk_batch w @ [p]) (wk_rows w) else [])"
| "turn_flush ins (WTick err) w = flushed (ins err) (wk_batch w) (wk_rows w)"
| "turn_flush ins WDone w = flushed (ins ctx_done) (wk_batch w) (wk_rows w)"

fun worker_run :: "nat \<Rightarrow> (goerr option \<Rightarrow> 'r list \<Rightarrow> 'r list \<Rightarrow> nat res \<times> 'r list) \<Rightarrow> bool \<Rightarrow> 'r wact list \<Rightarrow> 'r worker \<Rightarrow>
    ('r list \<times> bool) list \<times> 'r list \<times> 'r worker" where
  "worker_run cap ins running [] w = ([], [], w)"
| "worker_run cap ins running (Offer p # acts) w =
     (case worker_run cap ins running acts (offer cap p w) of
        (fl, acc, w') \<Rightarrow> (fl, (if length (wk_ch w) < cap then p # acc else acc), w'))"
| "worker_run cap ins running (Turn ev # acts) w =
     (if \<not> running then worker_run cap ins running acts w
      else case worker_run cap ins (ev \<noteq> WDone) acts (worker_turn ins ev w) of
             (fl, acc, w') \<Rightarrow> (turn_flush ins ev w @ fl, acc, w'))"

text \<open>Once a worker has returned no batch is inserted any more.\<close>

lemma ended_flushes: "fst (worker_run cap ins False acts w) = []"
proof (induction acts arbitrary: w)
  case (Cons a acts)
  then show ?case by (cases a) (simp_all add: case_prod_unfold)
qed simp

lemma ended_for_good:
  "Turn WDone \<in> set acts \<Longrightarrow> fst (worker_run cap ins running (acts @ rest) w) = fst (worker_run cap ins running acts w)"
proof (induction acts arbitrary: running w)
  case (Cons a acts)
  show ?case
  proof (cases "Turn WDone \<in> set acts")
    case True
    then show ?thesis using Cons.IH by (cases a) (simp_all add: case_prod_unfold)
  next
    case False
    then have "a = Turn WDone" using Cons.prems by simp
    then show ?thesis by (simp add: case_prod_unfold ended_flushes)
  qed
qed simp

definition stored :: "('r list \<times> bool) list \<Rightarrow> 'r list" where
  "stored fl = concat (map fst (filter snd fl))"

definition worker_ok :: "nat \<Rightarrow> 'r worker \<Rightarrow> bool" where
  "worker_ok cap w \<longleftrightarrow> length (wk_ch w) \<le> cap \<and> length (wk_batch w) < maxBatch"

text \<open>What the workers rely on: a batch is inserted as a whole or not at all.\<close>

locale bulk_insert =
  fixes ins :: "goerr option \<Rightarrow> 'r list \<Rightarrow> 'r list \<Rightarrow> nat res \<times> 'r list"
  assumes ins_ok: "ins err b t = (Inr n, t') \<Longrightarrow> n = length b \<and> t' = t @ b"
    and ins_fail: "ins err b t = (Inl e, t') \<Longrightarrow> t' = t"
    and ins_done: "\<not> is_ok (fst (ins ctx_done b t))"
begin

lemma flushW_spec:
  "flushW (ins err) w = w\<lparr>wk_batch := [], wk_rows := wk_rows w @ stored (flushed (ins err) (wk_batch w) (wk_rows w)),
     wk_ingested := wk_ingested w + length (stored (flushed (ins err) (wk_batch w) (wk_rows w)))\<rparr>"
proof (cases "wk_batch w = []")
  case False
  obtain r t where i: "ins err (wk_batch w) (wk_rows w) = (r, t)" by fastforce
  then show ?thesis using False ins_ok [of err "wk_batch w" "wk_rows w"] ins_fail [of err "wk_batch w" "wk_rows w"]
    by (cases r) (simp_all add: flushW_def flushed_def stored_def is_ok_def)
qed (simp add: flushW_def flushed_def stored_def)

lemma turn_spec:
  fixes w :: "'r worker"
  assumes "worker_ok cap w"
  shows "worker_ok cap (worker_turn ins ev w)
    \<and> concat (map fst (turn_flush ins ev w)) @ wk_batch (worker_turn ins ev w) @ wk_ch (worker_turn ins ev w) = wk_batch w @ wk_ch w
    \<and> wk_rows (worker_turn ins ev w) = wk_rows w @ stored (turn_flush ins ev w)
    \<and> wk_ingested (worker_turn ins ev w) = wk_ingested w + length (stored (turn_flush ins ev w))
    \<and> wk_dropped (worker_turn ins ev w) = wk_dropped w
    \<and> (\<forall>(b, _) \<in> set (turn_flush ins ev w). b \<noteq> [] \<and> length b \<le> maxBatch)"
proof (cases ev)
  case (WRecv err)
  show ?thesis
  proof (cases "wk_ch w")
    case (Cons p ch)
    then show ?thesis using assms WRecv
      by (auto simp: worker_ok_def recvW_def flushW_spec flushed_def stored_def Let_def maxBatch_def)
  qed (use assms WRecv in \<open>simp add: worker_ok_def recvW_def stored_def\<close>)
next
  case (WTick err)
  then show ?thesis using assms by (auto simp: worker_ok_def flushW_spec flushed_def stored_def maxBatch_def)
next
  case WDone
  then show ?thesis using assms by (auto simp: worker_ok_def flushW_spec flushed_def stored_def maxBatch_def)
qed

lemma stored_append: "stored (xs @ ys) = stored xs @ stored ys"
  by (simp add: stored_def)

lemma run_spec:
  fixes w :: "'r worker"
  assumes "worker_run cap ins running acts w = (fl, acc, w')" and "worker_ok cap w"
  shows "worker_ok cap w' \<and> concat (map fst fl) @ wk_batch w' @ wk_ch w' = wk_batch w @ wk_ch w @ acc
    \<and> wk_rows w' = wk_rows w @ stored fl \<and> wk_ingested w' = wk_ingested w + length (stored fl)
    \<and> wk_dropped w' + length acc = wk_dropped w + length (filter (\<lambda>a. case a of Offer _ \<Rightarrow> True | Turn _ \<Rightarrow> False) acts)
    \<and> (\<forall>(b, _) \<in> set fl. b \<noteq> [] \<and> length b \<le> maxBatch)"
  using assms
proof (induction acts arbitrary: running w fl acc w')
  case (Cons a acts)
  show ?case
  proof (cases a)
    case (Offer p)
    obtain fl' acc' v where r: "worker_run cap ins running acts (offer cap p w) = (fl', acc', v)" by (metis prod_cases3)
    have "worker_ok cap (offer cap p w)" using Cons.prems(2) by (simp add: worker_ok_def offer_def)
    note IH = Cons.IH [OF r this]
    then show ?thesis using Cons.prems(1) r Offer by (auto simp: offer_def split: if_splits)
  next
    case (Turn ev)
    show ?thesis
    proof (cases running)
      case False
      then show ?thesis using Cons.IH [of running w fl acc w'] Cons.prems Turn by simp
    next
      case True
      obtain fl' acc' v where r: "worker_run cap ins (ev \<noteq> WDone) acts (worker_turn ins ev w) = (fl', acc', v)" by (metis prod_cases3)
      note T = turn_spec [OF Cons.prems(2), of ev]
      have IH: "worker_ok cap v \<and> concat (map fst fl') @ wk_batch v @ wk_ch v = wk_batch (worker_turn ins ev w) @ wk_ch (worker_turn ins ev w) @ acc'
          \<and> wk_rows v = wk_rows (worker_turn ins ev w) @ stored fl' \<and> wk_ingested v = wk_ingested (worker_turn ins ev w) + length (stored fl')
          \<and> wk_dropped v + length acc' = wk_dropped (worker_turn ins ev w) + length (filter (\<lambda>a. case a of Offer _ \<Rightarrow> True | Turn _ \<Rightarrow> False) acts)
          \<and> (\<forall>(b, _) \<in> set fl'. b \<noteq> [] \<and> length b \<le> maxBatch)"
        using Cons.IH [OF r] T by blast
      have e: "fl = turn_flush ins ev w @ fl'" "acc = acc'" "w' = v" using Cons.prems(1) r Turn True by auto
      have "concat (map fst (turn_flush ins ev w)) @ concat (map fst fl') @ wk_batch v @ wk_ch v = wk_batch w @ wk_ch w @ acc'"
        using IH T by (metis append.assoc)
      then show ?thesis using IH T Turn by (auto simp: e stored_append)
    qed
  qed
qed (simp add: stored_def)

lemma done_loses: "wk_rows (worker_turn ins WDone w) = wk_rows w \<and> wk_batch (worker_turn ins WDone w) = []"
  using ins_done [of "wk_batch w" "wk_rows w"] by (simp add: flushW_spec flushed_def stored_def)

end

lemma copyfrom_bulk: "bulk_insert (copyfrom ok)"
  by unfold_locales (auto simp: copyfrom_def ctx_done_def is_ok_def split: option.splits if_splits)

interpretation lw: bulk_insert "InsertLogEventsBatch part" for part
  unfolding InsertLogEventsBatch_def by (rule copyfrom_bulk)

interpretation fw: bulk_insert "InsertFlowEventsBatch part" for part
  unfolding InsertFlowEventsBatch_def by (rule copyfrom_bulk)

interpretation kw: bulk_insert "InsertCounterSnapshotsBatch part" for part
  unfolding InsertCounterSnapshotsBatch_def by (rule copyfrom_bulk)

text \<open>
  C16. Telemetry is stored at most once and in order: whatever the agents send and however
  inserting fails, the rows the log channel accepted are, in order, those of the batches the
  worker tried to insert, of its current batch and of the channel; the table holds exactly
  the batches whose insertion succeeded, and the metric of ingested events counts these rows;
  every offered row is accepted or counted in the metric of dropped events; and batches and
  channel stay within their bounds. The other rows are lost without a count: those of a batch
  whose insertion failed, which is tried once, and, once the context has ended, those of the
  last batch and of the channel, since no batch is tried after that.
\<close>

theorem log_rows_exactly_once:
  "case worker_run chanBuf (InsertLogEventsBatch part) True acts new_worker of (fl, acc, w) \<Rightarrow>
     concat (map fst fl) @ wk_batch w @ wk_ch w = acc \<and> wk_rows w = stored fl \<and> wk_ingested w = length (wk_rows w)
     \<and> wk_dropped w + length acc = length (filter (\<lambda>a. case a of Offer _ \<Rightarrow> True | Turn _ \<Rightarrow> False) acts)
     \<and> length acc = wk_ingested w + length (concat (map fst (filter (\<lambda>(_, ok). \<not> ok) fl))) + length (wk_batch w) + length (wk_ch w)
     \<and> length (wk_ch w) \<le> 10000 \<and> list_all (\<lambda>(b, _). b \<noteq> [] \<and> length b \<le> 2000) fl
     \<and> fst (worker_run chanBuf (InsertLogEventsBatch part) True (acts @ Turn WDone # rest) new_worker) =
         fst (worker_run chanBuf (InsertLogEventsBatch part) True (acts @ [Turn WDone]) new_worker)"
proof -
  obtain fl acc w where r: "worker_run chanBuf (InsertLogEventsBatch part) True acts new_worker = (fl, acc, w)" by (metis prod_cases3)
  have "worker_ok chanBuf new_worker" by (simp add: worker_ok_def new_worker_def maxBatch_def)
  note run = lw.run_spec [OF r this]
  have split: "length (concat (map fst fl)) = length (stored fl) + length (concat (map fst (filter (\<lambda>(_, ok). \<not> ok) fl)))"
    by (induction fl) (auto simp: stored_def)
  have "concat (map fst fl) @ wk_batch w @ wk_ch w = acc" "wk_ingested w = length (stored fl)"
    using run by (simp_all add: new_worker_def)
  then have "length acc = wk_ingested w + length (concat (map fst (filter (\<lambda>(_, ok). \<not> ok) fl))) + length (wk_batch w) + length (wk_ch w)"
    using split by (metis add.assoc length_append)
  moreover have "fst (worker_run chanBuf (InsertLogEventsBatch part) True (acts @ Turn WDone # rest) new_worker) =
      fst (worker_run chanBuf (InsertLogEventsBatch part) True (acts @ [Turn WDone]) new_worker)"
    using ended_for_good [of "acts @ [Turn WDone]" chanBuf "InsertLogEventsBatch part" True rest new_worker] by simp
  ultimately show ?thesis unfolding r prod.case using run
    by (simp add: new_worker_def worker_ok_def chanBuf_def maxBatch_def list_all_iff)
qed

end
