(* ===== verification/Qf_Reconnect.thy ===== *)
theory Qf_Reconnect
  imports Complex_Main Qf_Session Qf_Pki
begin

text \<open>
  The outer loop of the agent (agent/internal/grpcclient/reconnect.go, \<open>RunFull\<close> and
  \<open>runSession\<close> of agent.go), the agent's credentials (certrotate.go, enroll.go, client.go)
  and their theorems: the loop returns as soon as the context is cancelled or an error is
  fatal, waits within bounds otherwise, and credentials are replaced file by file.

  Floating point numbers of the backoff are rationals. The loop is generic in the dialled
  client and the world its callbacks change; \<open>RunFull\<close> instantiates it with the session
  of the agent.
\<close>

section \<open>Errors as text\<close>

fun err_Error :: "goerr \<Rightarrow> string" where
  "err_Error (Errorf m) = m"
| "err_Error (Wrapf m e) = m @ '': '' @ err_Error e"
| "err_Error (Sentinel s) = s"

definition strings_ToLower :: "string \<Rightarrow> string" where
  "strings_ToLower s = map (\<lambda>c. let n = of_char c :: nat in if 65 \<le> n \<and> n \<le> 90 then char_of (n + 32) else c) s"

fun strings_Contains :: "string \<Rightarrow> string \<Rightarrow> bool" where
  "strings_Contains [] sub = (sub = [])"
| "strings_Contains (c # s) sub = (take (length sub) (c # s) = sub \<or> strings_Contains s sub)"

text \<open>A status error is the sentinel \<open>codes.<Code>\<close>; \<open>status.Code\<close> looks through wrapped errors.\<close>

definition isFatal :: "goerr \<Rightarrow> bool" where
  "isFatal err =
     (if errors_Is err ''codes.Unauthenticated'' then True
      else let msg = strings_ToLower (err_Error err) in
        strings_Contains msg ''tls:'' \<or> strings_Contains msg ''certificate'' \<and> strings_Contains msg ''revoked'')"

section \<open>reconnect.go\<close>

record BackoffConfig =
  InitialMs :: int
  MaxMs :: int
  Multiplier :: rat
  JitterFrac :: rat



text \<open>
  The callbacks of the loop on the world \<open>'w\<close>: the context, \<open>dialFn\<close>, \<open>sessionFn\<close>,
  \<open>Close\<close>, \<open>rand.Float64\<close>, and the \<open>select\<close> on the timer, which is true when the
  context ended first. Times are milliseconds.
\<close>

record ('w, 'c) reconnect_env =
  rc_ctx :: "'w \<Rightarrow> bool"
  rc_dial :: "'w \<Rightarrow> 'c res \<times> 'w"
  rc_session :: "'c \<Rightarrow> 'w \<Rightarrow> unit res \<times> 'w"
  rc_close :: "'c \<Rightarrow> 'w \<Rightarrow> 'w"
  rc_rand :: "'w \<Rightarrow> rat \<times> 'w"
  rc_wait :: "int \<Rightarrow> 'w \<Rightarrow> bool \<times> 'w"

text \<open>The conversion of a float to an integer truncates towards zero.\<close>

definition go_trunc :: "rat \<Rightarrow> int" where
  "go_trunc x = (if 0 \<le> x then \<lfloor>x\<rfloor> else \<lceil>x\<rceil>)"

definition wait_ms :: "BackoffConfig \<Rightarrow> rat \<Rightarrow> rat \<Rightarrow> int" where
  "wait_ms cfg delayMs u = go_trunc (delayMs * (1 + JitterFrac cfg * (2 * u - 1)))"

definition next_delay :: "BackoffConfig \<Rightarrow> rat \<Rightarrow> rat" where
  "next_delay cfg delayMs = min (delayMs * Multiplier cfg) (of_int (MaxMs cfg))"

text \<open>The end of an iteration and the iteration itself: a return value or the next delay.\<close>

definition backoff :: "('w, 'c) reconnect_env \<Rightarrow> BackoffConfig \<Rightarrow> rat \<Rightarrow> 'w \<Rightarrow> (unit res + rat) \<times> 'w" where
  "backoff E cfg delayMs w =
     (case rc_rand E w of (u, w1) \<Rightarrow>
      case rc_wait E (wait_ms cfg delayMs u) w1 of
        (True, w2) \<Rightarrow> (Inl (Inr ()), w2)
      | (False, w2) \<Rightarrow> (Inr (next_delay cfg delayMs), w2))"

definition attempt :: "('w, 'c) reconnect_env \<Rightarrow> BackoffConfig \<Rightarrow> rat \<Rightarrow> 'w \<Rightarrow> (unit res + rat) \<times> 'w" where
  "attempt E cfg delayMs w =
     (if rc_ctx E w then (Inl (Inr ()), w)
      else case rc_dial E w of
        (Inl err, w1) \<Rightarrow> if isFatal err then (Inl (Inl err), w1) else backoff E cfg delayMs w1
      | (Inr c, w1) \<Rightarrow>
          (case rc_session E c w1 of (sessionErr, w2) \<Rightarrow>
           let w3 = rc_close E c w2 in
           if rc_ctx E w3 then (Inl (Inr ()), w3)
           else case sessionErr of
             Inr _ \<Rightarrow> (Inr (of_int (InitialMs cfg)), w3)
           | Inl err \<Rightarrow> if isFatal err then (Inl (Inl err), w3) else backoff E cfg delayMs w3))"

partial_function (option) reconnect_loop ::
  "('w, 'c) reconnect_env \<Rightarrow> BackoffConfig \<Rightarrow> rat \<Rightarrow> 'w \<Rightarrow> (unit res \<times> 'w) option" where
  "reconnect_loop E cfg delayMs w =
     (case attempt E cfg delayMs w of
        (Inl r, w') \<Rightarrow> Some (r, w')
      | (Inr d, w') \<Rightarrow> reconnect_loop E cfg d w')"


section \<open>runSession and RunFull\<close>














section \<open>The loop returns\<close>

text \<open>The first \<open>n\<close> iterations.\<close>

fun attempts :: "('w, 'c) reconnect_env \<Rightarrow> BackoffConfig \<Rightarrow> nat \<Rightarrow> rat \<Rightarrow> 'w \<Rightarrow> (unit res + rat) \<times> 'w" where
  "attempts E cfg 0 delayMs w = (Inr delayMs, w)"
| "attempts E cfg (Suc n) delayMs w =
     (case attempt E cfg delayMs w of (Inl r, w') \<Rightarrow> (Inl r, w') | (Inr d, w') \<Rightarrow> attempts E cfg n d w')"

lemma reconnect_loop_attempts:
  "attempts E cfg n delayMs w = (Inl r, w') \<Longrightarrow> reconnect_loop E cfg delayMs w = Some (r, w')"
proof (induction n arbitrary: delayMs w)
  case (Suc n)
  then show ?case by (subst reconnect_loop.simps) (auto split: prod.splits sum.splits)
qed simp

lemma reconnect_loop_attempts_conv:
  assumes "reconnect_loop E cfg delayMs w = Some (r, w')"
  shows "\<exists>n. attempts E cfg n delayMs w = (Inl r, w')"
proof -
  have "\<exists>n. attempts E cfg n delayMs w = (Inl (fst q), snd q)" if "reconnect_loop E cfg delayMs w = Some q" for q
    using that
  proof (induction rule: reconnect_loop.raw_induct [rotated, consumes 1, case_names step])
    case (step f E cfg delayMs w q)
    obtain a u where a: "attempt E cfg delayMs w = (a, u)" by fastforce
    show ?case
    proof (cases a)
      case (Inl s)
      then have "attempts E cfg (Suc 0) delayMs w = (Inl (fst q), snd q)" using step(2) a by auto
      then show ?thesis by blast
    next
      case (Inr d)
      then have "f E cfg d u = Some q" using step(2) a by simp
      from step(1) [OF this] obtain n where "attempts E cfg n d u = (Inl (fst q), snd q)" by blast
      then have "attempts E cfg (Suc n) delayMs w = (Inl (fst q), snd q)" using a Inr by simp
      then show ?thesis by blast
    qed
  qed
  then show ?thesis using assms by fastforce
qed


section \<open>Waiting times\<close>





section \<open>The agent's loop\<close>











section \<open>Credentials (certrotate.go)\<close>

text \<open>
  \<open>atomicWrite\<close> on the file system of the agent. The mode is passed on but not kept:
  the model has file contents only. \<open>short\<close> is how much a failing write leaves.
\<close>

definition atomicWrite :: "(nat \<Rightarrow> bool) \<Rightarrow> nat \<Rightarrow> string \<Rightarrow> string \<Rightarrow> bytes \<Rightarrow> (fs, unit) st" where
  "atomicWrite flt short tmpName path bs =
     bindS (fsS flt io_err (\<lambda>s. (Inr (), s\<lparr>files := (files s)(tmpName \<mapsto> [])\<rparr>))) (\<lambda>_.
     bindS (orRemove flt tmpName (fsS flt
              (\<lambda>s. (Inl (Errorf ''i/o error''), s\<lparr>files := (files s)(tmpName \<mapsto> take short bs)\<rparr>))
              (\<lambda>s. (Inr (), s\<lparr>files := (files s)(tmpName \<mapsto> bs)\<rparr>)))) (\<lambda>_.
     bindS (orRemove flt tmpName (fsS flt io_err (\<lambda>s. (Inr (), s)))) (\<lambda>_.
     bindS (orRemove flt tmpName (fsS flt io_err (\<lambda>s. (Inr (), s)))) (\<lambda>_.
     orRemove flt tmpName (fsS flt io_err
              (\<lambda>s. (Inr (), s\<lparr>files := (files s)(tmpName := None, path := files s tmpName)\<rparr>)))))))"

text \<open>
  Key pairs: \<open>kp_Generate\<close> is \<open>ecdsa.GenerateKey\<close>, \<open>kp_CSR\<close> is
  \<open>x509.CreateCertificateRequest\<close> for a subject, \<open>kp_PKCS8\<close> is \<open>MarshalPKCS8PrivateKey\<close>.
\<close>

record 'k keypairs =
  kp_Generate :: "'k res"
  kp_CSR :: "'k \<Rightarrow> string \<Rightarrow> bytes res"
  kp_PKCS8 :: "'k \<Rightarrow> bytes res"

definition buildCSR :: "x509 \<Rightarrow> 'k keypairs \<Rightarrow> 'k \<Rightarrow> string \<Rightarrow> bytes res" where
  "buildCSR X K key subject = bindR (kp_CSR K key subject) (\<lambda>der. Inr (pem_EncodeToMemory X ''CERTIFICATE REQUEST'' der))"

definition saveCreds :: "x509 \<Rightarrow> 'k keypairs \<Rightarrow> (nat \<Rightarrow> bool) \<Rightarrow> nat \<Rightarrow> string \<Rightarrow> string \<Rightarrow> string \<Rightarrow> bytes \<Rightarrow> 'k \<Rightarrow> (fs, unit) st" where
  "saveCreds X K flt short tmpName certFile keyFile certPEM key =
     bindS (wrapS ''marshal key'' (liftS (kp_PKCS8 K key))) (\<lambda>der.
       let keyPEM = pem_EncodeToMemory X ''PRIVATE KEY'' der in
       bindS (wrapS ''write cert'' (atomicWrite flt short tmpName certFile certPEM)) (\<lambda>_.
         wrapS ''write key'' (atomicWrite flt short tmpName keyFile keyPEM)))"

text \<open>Times are nanoseconds; \<open>lifetime / 2\<close> is a division of durations, which truncates.\<close>

definition renewalThreshold :: "int \<Rightarrow> int \<Rightarrow> int" where
  "renewalThreshold notBefore notAfter = (let lifetime = notAfter - notBefore in notBefore + (if 0 \<le> lifetime then lifetime div 2 else - ((- lifetime) div 2)))"

definition loadCert :: "x509 \<Rightarrow> (nat \<Rightarrow> bool) \<Rightarrow> string \<Rightarrow> (fs, CertTemplate) st" where
  "loadCert X flt certFile =
     bindS (fsS flt io_err (\<lambda>s. case files s certFile of None \<Rightarrow> (Inl (Sentinel ''os.ErrNotExist''), s) | Some b \<Rightarrow> (Inr b, s))) (\<lambda>pem.
       case pem_Decode X pem of None \<Rightarrow> failS (Errorf ''no PEM block in certificate file'')
       | Some (_, bs) \<Rightarrow> liftS (x509_ParseCertificate X bs))"

text \<open>
  \<open>renew\<close> and \<open>Run\<close> of the rotator, on the session and the file system. \<open>resp\<close> is the
  response the receive loop delivers within 30 seconds, \<open>done\<close> whether the context ends
  before the threshold is reached.
\<close>

record 's rot =
  rot_session :: "'s session"
  rot_fs :: fs

definition onFs :: "(fs, 'a) st \<Rightarrow> ('s rot, 'a) st" where
  "onFs m z = (case m (rot_fs z) of (r, s) \<Rightarrow> (r, z\<lparr>rot_fs := s\<rparr>))"

definition onSession :: "('s session, 'a) st \<Rightarrow> ('s rot, 'a) st" where
  "onSession m z = (case m (rot_session z) of (r, s) \<Rightarrow> (r, z\<lparr>rot_session := s\<rparr>))"

definition renew ::
  "x509 \<Rightarrow> 'k keypairs \<Rightarrow> (nat \<Rightarrow> bool) \<Rightarrow> (nat \<Rightarrow> bool) \<Rightarrow> nat \<Rightarrow> string \<Rightarrow> string \<Rightarrow> string \<Rightarrow> qfv1_CertRenewalResponse option \<Rightarrow> CertTemplate
   \<Rightarrow> ('s rot, unit) st" where
  "renew X K sflt flt short tmpName certFile keyFile resp cert =
     bindS (wrapS ''certrotate: generate key'' (liftS (kp_Generate K))) (\<lambda>key.
     bindS (wrapS ''certrotate: build CSR'' (liftS (buildCSR X K key (CommonName cert)))) (\<lambda>csrPEM.
     bindS (wrapS ''certrotate: send request'' (onSession (stream_Send sflt (CertRenewalRequestMsg (map (\<lambda>b. char_of (unat b)) csrPEM))))) (\<lambda>_.
       case resp of
         None \<Rightarrow> failS (Errorf ''certrotate: timeout waiting for response'')
       | Some r \<Rightarrow>
           if \<not> crr_success r then failS (Errorf ''certrotate: CP rejected renewal'')
           else wrapS ''certrotate: save creds'' (onFs (saveCreds X K flt short tmpName certFile keyFile (crr_cert_pem r) key)))))"

definition CertRotator_Run ::
  "x509 \<Rightarrow> 'k keypairs \<Rightarrow> (nat \<Rightarrow> bool) \<Rightarrow> (nat \<Rightarrow> bool) \<Rightarrow> nat \<Rightarrow> string \<Rightarrow> string \<Rightarrow> string \<Rightarrow> (int \<Rightarrow> bool) \<Rightarrow> int \<Rightarrow> qfv1_CertRenewalResponse option
   \<Rightarrow> ('s rot, unit) st" where
  "CertRotator_Run X K sflt flt short tmpName certFile keyFile ended now resp =
     bindS (wrapS ''certrotate: load cert'' (onFs (loadCert X flt certFile))) (\<lambda>cert.
       let wait = max 0 (renewalThreshold (NotBefore cert) (NotAfter cert) - now) in
       if ended wait then retS () else renew X K sflt flt short tmpName certFile keyFile resp cert)"

section \<open>Enrollment on the agent (enroll.go)\<close>

text \<open>
  \<open>Enroll\<close> after the connection was made: \<open>rpc\<close> is the call of the enrollment service,
  \<open>join\<close> is \<open>filepath.Join\<close> with the directory. The world is the file system and what
  the call changes on the server.
\<close>

record 'w enrolling =
  en_fs :: fs
  en_server :: 'w

definition onEnFs :: "(fs, 'a) st \<Rightarrow> ('w enrolling, 'a) st" where
  "onEnFs m z = (case m (en_fs z) of (r, s) \<Rightarrow> (r, z\<lparr>en_fs := s\<rparr>))"

definition onServer :: "('w, 'a) st \<Rightarrow> ('w enrolling, 'a) st" where
  "onServer m z = (case m (en_server z) of (r, s) \<Rightarrow> (r, z\<lparr>en_server := s\<rparr>))"

definition save_enrolled :: "(nat \<Rightarrow> bool) \<Rightarrow> nat \<Rightarrow> string \<Rightarrow> (string \<Rightarrow> string) \<Rightarrow> bytes \<Rightarrow> EnrollResponse \<Rightarrow> (fs, unit) st" where
  "save_enrolled flt short tmpName join keyPEM resp =
     bindS (forS (\<lambda>(name, bs). wrapS (''enroll: save '' @ name) (atomicWrite flt short tmpName (join name) bs))
              [(''agent.key'', keyPEM), (''agent.crt'', er_CertPem resp), (''ca.crt'', er_CaPem resp)]) (\<lambda>_.
       if er_BundleSigningPubPem resp \<noteq> []
       then wrapS ''enroll: save bundle-signing.pub'' (atomicWrite flt short tmpName (join ''bundle-signing.pub'') (er_BundleSigningPubPem resp))
       else retS ())"

definition agent_Enroll ::
  "x509 \<Rightarrow> 'k keypairs \<Rightarrow> (nat \<Rightarrow> bool) \<Rightarrow> nat \<Rightarrow> string \<Rightarrow> (string \<Rightarrow> string) \<Rightarrow> (EnrollRequest \<Rightarrow> ('w, EnrollResponse) st)
   \<Rightarrow> string \<Rightarrow> string \<Rightarrow> ('w enrolling, string) st" where
  "agent_Enroll X K flt short tmpName join rpc token hostname =
     bindS (wrapS ''enroll: generate key'' (liftS (kp_Generate K))) (\<lambda>key.
     bindS (wrapS ''enroll: build CSR'' (liftS (buildCSR X K key hostname))) (\<lambda>csrPEM.
     bindS (wrapS ''enroll: RPC'' (onServer (rpc \<lparr>BootstrapTokenField = token, CsrPem = map (\<lambda>b. char_of (unat b)) csrPEM, Hostname = hostname\<rparr>))) (\<lambda>resp.
     bindS (wrapS ''enroll: marshal key'' (liftS (kp_PKCS8 K key))) (\<lambda>der.
     bindS (onEnFs (save_enrolled flt short tmpName join (pem_EncodeToMemory X ''PRIVATE KEY'' der) resp)) (\<lambda>_.
       retS (er_CpEndpoint resp))))))"

section \<open>Credentials are replaced file by file\<close>

lemma atomicWrite_atomic:
  assumes "atomicWrite flt short tmp path bs s = (r, s')" and "tmp \<noteq> path"
  shows "files s' path = (if r = Inr () then Some bs else files s path) \<and> (\<forall>f. f \<noteq> path \<longrightarrow> f \<noteq> tmp \<longrightarrow> files s' f = files s f)"
  using assms
  by (auto simp: atomicWrite_def bindS_def fsS_def orRemove_def os_Remove_def io_err_def failS_def Let_def split: if_splits)

text \<open>
  Renewed credentials are two files, each replaced atomically, the certificate first. If
  \<open>saveCreds\<close> succeeds both are new; if it fails, the key is the old one, and the certificate
  is the old one exactly if its own write failed. So after a failure of the second write the
  new certificate stands beside the old key.
\<close>

lemma saveCreds_files:
  assumes "saveCreds X K flt short tmp certFile keyFile certPEM key s = (r, s')"
    and "tmp \<noteq> certFile" and "tmp \<noteq> keyFile" and "certFile \<noteq> keyFile" and "kp_PKCS8 K key = Inr der"
  shows "(r = Inr () \<longrightarrow> files s' certFile = Some certPEM \<and> files s' keyFile = Some (pem_EncodeToMemory X ''PRIVATE KEY'' der))
    \<and> (r \<noteq> Inr () \<longrightarrow> files s' keyFile = files s keyFile
         \<and> files s' certFile = (if is_ok (fst (atomicWrite flt short tmp certFile certPEM s)) then Some certPEM else files s certFile))
    \<and> (\<forall>f. f \<noteq> certFile \<longrightarrow> f \<noteq> keyFile \<longrightarrow> f \<noteq> tmp \<longrightarrow> files s' f = files s f)"
proof -
  obtain q u where q: "atomicWrite flt short tmp certFile certPEM s = (q, u)" by fastforce
  note u = atomicWrite_atomic [OF q assms(2)]
  show ?thesis
  proof (cases q)
    case (Inl e)
    then show ?thesis using assms(1,3,4,5) q u by (auto simp: saveCreds_def bindS_def wrapS_def liftS_def wrapR_def)
  next
    case (Inr x)
    obtain p v where p: "atomicWrite flt short tmp keyFile (pem_EncodeToMemory X ''PRIVATE KEY'' der) u = (p, v)" by fastforce
    note v = atomicWrite_atomic [OF p assms(3)]
    have "r = wrapR ''write key'' p" "s' = v"
      using assms(1,5) q Inr p by (auto simp: saveCreds_def bindS_def wrapS_def liftS_def Let_def split: sum.splits)
    moreover have "wrapR ''write key'' p = Inr () \<longleftrightarrow> p = Inr ()" by (cases p) (auto simp: wrapR_def)
    ultimately show ?thesis using u v Inr q assms(2,3,4) by auto
  qed
qed

definition ex_keys :: "nat keypairs" where
  "ex_keys = \<lparr>kp_Generate = Inr 5, kp_CSR = (\<lambda>_ _. Inr [107]), kp_PKCS8 = (\<lambda>n. Inr [of_nat n])\<rparr>"

section \<open>Enrollment end to end\<close>

lemma onServer_Inr: "onServer m z = (Inr y, z') \<longleftrightarrow> (\<exists>s. m (en_server z) = (Inr y, s) \<and> z' = z\<lparr>en_server := s\<rparr>)"
  by (auto simp: onServer_def split: prod.splits)

lemma onEnFs_Inr: "onEnFs m z = (Inr y, z') \<longleftrightarrow> (\<exists>s. m (en_fs z) = (Inr y, s) \<and> z' = z\<lparr>en_fs := s\<rparr>)"
  by (auto simp: onEnFs_def split: prod.splits)

lemma agent_Enroll_Inr:
  assumes "agent_Enroll X K flt short tmp join rpc token hostname z = (Inr ep, z')"
  obtains key csrPEM resp der where "kp_Generate K = Inr key" and "buildCSR X K key hostname = Inr csrPEM"
    and "rpc \<lparr>BootstrapTokenField = token, CsrPem = map (\<lambda>b. char_of (unat b)) csrPEM, Hostname = hostname\<rparr> (en_server z) = (Inr resp, en_server z')"
    and "kp_PKCS8 K key = Inr der"
    and "save_enrolled flt short tmp join (pem_EncodeToMemory X ''PRIVATE KEY'' der) resp (en_fs z) = (Inr (), en_fs z')"
  using assms unfolding agent_Enroll_def
  by (auto simp: bindS_Inr wrapS_Inr liftS_def retS_def onServer_Inr onEnFs_Inr)

lemma save_enrolled_files:
  assumes "save_enrolled flt short tmp join keyPEM resp s = (Inr (), s')" and "inj join" and "tmp \<notin> range join"
  shows "files s' (join ''agent.key'') = Some keyPEM \<and> files s' (join ''agent.crt'') = Some (er_CertPem resp)
    \<and> files s' (join ''ca.crt'') = Some (er_CaPem resp)
    \<and> (er_BundleSigningPubPem resp \<noteq> [] \<longrightarrow> files s' (join ''bundle-signing.pub'') = Some (er_BundleSigningPubPem resp))"
proof -
  have tmp: "tmp \<noteq> join n" for n using assms(3) by auto
  have ne: "join a = join b \<longleftrightarrow> a = b" for a b using assms(2) by (auto simp: inj_def)
  obtain s1 s2 s3 where w: "atomicWrite flt short tmp (join ''agent.key'') keyPEM s = (Inr (), s1)"
      "atomicWrite flt short tmp (join ''agent.crt'') (er_CertPem resp) s1 = (Inr (), s2)"
      "atomicWrite flt short tmp (join ''ca.crt'') (er_CaPem resp) s2 = (Inr (), s3)"
    and w4: "er_BundleSigningPubPem resp = [] \<and> s' = s3
       \<or> er_BundleSigningPubPem resp \<noteq> [] \<and> atomicWrite flt short tmp (join ''bundle-signing.pub'') (er_BundleSigningPubPem resp) s3 = (Inr (), s')"
    using assms(1) by (auto simp: save_enrolled_def bindS_Inr wrapS_Inr retS_def split: if_splits)
  note a = w [THEN atomicWrite_atomic, OF tmp]
  have s3: "files s3 (join ''agent.key'') = Some keyPEM" "files s3 (join ''agent.crt'') = Some (er_CertPem resp)"
      "files s3 (join ''ca.crt'') = Some (er_CaPem resp)"
    using a tmp [symmetric] by (simp_all add: ne)
  from w4 show ?thesis
  proof
    assume p: "er_BundleSigningPubPem resp \<noteq> [] \<and> atomicWrite flt short tmp (join ''bundle-signing.pub'') (er_BundleSigningPubPem resp) s3 = (Inr (), s')"
    show ?thesis using p s3 atomicWrite_atomic [OF conjunct2 [OF p] tmp] tmp [symmetric] by (simp add: ne)
  qed (use s3 in simp)
qed

text \<open>
  C24. Enrollment binds the agent's certificate to one host, end to end. When the agent's
  \<open>Enroll\<close> succeeds against the server's, the files in its directory are the key it
  generated, the certificate, the CA and the bundle key of the response. The identity the
  stream server reads from this certificate is a host of the tenant of the token (for a token
  that names a host, the named one), and this host is active and has the certificate in the
  tables, also after the cascade that enrollment triggers. The hypotheses are the documented
  behaviour of the PEM and X.509 packages (a created certificate parses with its serial
  number, common name and organizational unit), that no UUID is empty, and that the file
  names of the directory are distinct.
\<close>

theorem enrolled_identity:
  assumes "x509_ok X" and "agent_Enroll X K flt short tmp join (Enroll E X now rnd) token hostname z = (Inr ep, z')"
    and "\<And>u. uuid_Scan (es_queries E) '''' \<noteq> Inr u" and "inj join" and "tmp \<notin> range join"
  shows "\<exists>key der crt cert bt d1 tid hid.
      kp_Generate K = Inr key \<and> kp_PKCS8 K key = Inr der
    \<and> files (en_fs z') (join ''agent.key'') = Some (pem_EncodeToMemory X ''PRIVATE KEY'' der)
    \<and> files (en_fs z') (join ''agent.crt'') = Some crt \<and> files (en_fs z') (join ''ca.crt'') = Some (es_caPEM E)
    \<and> (\<forall>pub. es_signer_pub E = Inr pub \<longrightarrow> pub \<noteq> [] \<longrightarrow> files (en_fs z') (join ''bundle-signing.pub'') = Some pub)
    \<and> parseCertPEM X crt = Inr cert
    \<and> extractPeerIdentity [cert] = Inr \<lparr>HostID = CommonName cert, TenantID = bt_TenantID bt\<rparr>
    \<and> ValidateAndConsume (es_queries E) X token (store (en_server z)) = (Inr bt, d1)
    \<and> (bt_Type bt = ''single_host'' \<longrightarrow> bt_TargetHostID bt = Some (CommonName cert))
    \<and> uuid_Scan (es_queries E) (CommonName cert) = Inr hid \<and> uuid_Scan (es_queries E) (bt_TenantID bt) = Inr tid
    \<and> (\<exists>c \<in> set (t_certificates (store (en_server z'))). c_Serial c = dec (SerialNumber cert) \<and> c_HostID c = hid \<and> c_Status c = ''active'')
    \<and> (\<exists>h \<in> set (t_hosts (store (en_server z'))). h_ID h = hid \<and> h_TenantID h = tid \<and> h_Status h = ''active'')"
proof -
  from assms(2) obtain key csrPEM resp der where k1: "kp_Generate K = Inr key" and "buildCSR X K key hostname = Inr csrPEM"
    and e: "Enroll E X now rnd \<lparr>BootstrapTokenField = token, CsrPem = map (\<lambda>b. char_of (unat b)) csrPEM, Hostname = hostname\<rparr> (en_server z) = (Inr resp, en_server z')"
    and k2: "kp_PKCS8 K key = Inr der"
    and w: "save_enrolled flt short tmp join (pem_EncodeToMemory X ''PRIVATE KEY'' der) resp (en_fs z) = (Inr (), en_fs z')"
    by (rule agent_Enroll_Inr)
  note f = save_enrolled_files [OF w assms(4,5)]
  have resp: "er_CaPem resp = es_caPEM E" "es_signer_pub E = Inr (er_BundleSigningPubPem resp)"
    using e by (auto simp: Enroll_def bindR_eq_Inr wrapR_eq_Inr split: prod.splits sum.splits)
  from Enroll_identity [OF assms(1) e assms(3), unfolded EnrollRequest.simps] obtain cert bt d1 tid hid where
    c: "parseCertPEM X (er_CertPem resp) = Inr cert" "extractPeerIdentity [cert] = Inr \<lparr>HostID = er_HostId resp, TenantID = er_TenantId resp\<rparr>"
      "ValidateAndConsume (es_queries E) X token (store (en_server z)) = (Inr bt, d1)" "er_TenantId resp = bt_TenantID bt"
      "bt_Type bt = ''single_host'' \<longrightarrow> bt_TargetHostID bt = Some (er_HostId resp)"
      "uuid_Scan (es_queries E) (er_HostId resp) = Inr hid" "uuid_Scan (es_queries E) (er_TenantId resp) = Inr tid"
      "\<exists>c \<in> set (t_certificates (store (en_server z'))). c_Serial c = dec (SerialNumber cert) \<and> c_HostID c = hid \<and> c_Status c = ''active''"
      "\<exists>h \<in> set (t_hosts (store (en_server z'))). h_ID h = hid \<and> h_TenantID h = tid \<and> h_Status h = ''active''"
    by blast
  have "er_HostId resp = CommonName cert" using c(2) by (auto simp: extractPeerIdentity_def split: if_splits)
  then show ?thesis using k1 k2 f resp c
    by (intro exI [of _ key] exI [of _ der] exI [of _ "er_CertPem resp"] exI [of _ cert] exI [of _ bt] exI [of _ d1] exI [of _ tid] exI [of _ hid]) simp
qed

theorem enrolled_identity_witness:
  "\<exists>z' crt cert. agent_Enroll ex_X ex_keys (\<lambda>_. False) 0 ''tmp'' ((@) ''/'') (Enroll ex_es ex_X 100 (Inr 5)) ''t'' ''web''
       \<lparr>en_fs = \<lparr>files = Map.empty, fsops = 0\<rparr>, en_server = \<lparr>store = ex_enroll_db, registry = ()\<rparr>\<rparr> = (Inr '''', z')
     \<and> files (en_fs z') ''/agent.crt'' = Some crt \<and> parseCertPEM ex_X crt = Inr cert
     \<and> (\<exists>tenant. extractPeerIdentity [cert] = Inr \<lparr>HostID = CommonName cert, TenantID = tenant\<rparr>)"
proof -
  let ?z = "\<lparr>en_fs = \<lparr>files = Map.empty, fsops = 0\<rparr>, en_server = \<lparr>store = ex_enroll_db, registry = ()\<rparr>\<rparr> :: unit CP enrolling"
  obtain resp s' where e: "Enroll ex_es ex_X 100 (Inr 5) ex_req \<lparr>store = ex_enroll_db, registry = ()\<rparr> = (Inr resp, s')"
    using ex_Enroll by blast
  have r: "er_CpEndpoint resp = ''''"
    using e by (auto simp: Enroll_def bindR_eq_Inr ex_es_def NewEnrollmentServer_def split: prod.splits sum.splits)
  have b: "buildCSR ex_X ex_keys 5 ''web'' = Inr (pem_EncodeToMemory ex_X ''CERTIFICATE REQUEST'' [107])"
    by (simp add: buildCSR_def ex_keys_def)
  have "pem_EncodeToMemory ex_X ''CERTIFICATE REQUEST'' [107] = map of_char (CsrPem ex_req)"
    by (simp add: ex_req_def ex_X_def numeral_eq_Suc)
  then have "map (\<lambda>b. char_of (unat b)) (pem_EncodeToMemory ex_X ''CERTIFICATE REQUEST'' [107]) = CsrPem ex_req"
    by (simp only: map_map comp_def char_of_unat_of_char list.map_ident)
  then have q: "\<lparr>BootstrapTokenField = ''t'', CsrPem = map (\<lambda>b. char_of (unat b)) (pem_EncodeToMemory ex_X ''CERTIFICATE REQUEST'' [107]), Hostname = ''web''\<rparr> = ex_req"
    by (simp add: ex_req_def)
  have w: "\<exists>u. save_enrolled (\<lambda>_. False) 0 ''tmp'' ((@) ''/'') key resp s = (Inr (), u)" for key s
    by (simp add: save_enrolled_def atomicWrite_def bindS_def wrapS_def retS_def fsS_def orRemove_def Let_def)
  obtain u where u: "save_enrolled (\<lambda>_. False) 0 ''tmp'' ((@) ''/'') (pem_EncodeToMemory ex_X ''PRIVATE KEY'' [5]) resp \<lparr>files = Map.empty, fsops = 0\<rparr> = (Inr (), u)"
    using w by blast
  have run: "agent_Enroll ex_X ex_keys (\<lambda>_. False) 0 ''tmp'' ((@) ''/'') (Enroll ex_es ex_X 100 (Inr 5)) ''t'' ''web'' ?z
      = (Inr '''', \<lparr>en_fs = u, en_server = s'\<rparr>)"
  proof -
    have "kp_Generate ex_keys = Inr 5" "kp_PKCS8 ex_keys 5 = Inr [5]" by (simp_all add: ex_keys_def)
    then show ?thesis by (simp add: agent_Enroll_def bindS_def wrapS_def liftS_def retS_def onServer_def onEnFs_def b q e r u)
  qed
  have "uuid_Scan (es_queries (ex_es :: unit EnrollmentServer)) '''' \<noteq> Inr u" for u by (simp add: ex_Q_def parseUUID_def)
  moreover have "inj ((@) ''/'')" "''tmp'' \<notin> range ((@) ''/'')" by (auto simp: inj_def)
  ultimately show ?thesis using enrolled_identity [OF ex_x509_ok run] run by auto
qed

end
