(* ===== verification/Qf_AgentSrv.thy ===== *)
theory Qf_AgentSrv
  imports Qf_Registry Qf_Accounts Qf_Ingest Qf_Reconnect
begin

text \<open>
  The server side of the agents' streams (cp/internal/agentsrv: session.go, handlers.go,
  server.go). A stream is known by its number in the registry of \<open>Qf_Registry\<close> and by the
  identity of its certificate. What happens on it are separate steps, between which
  cascades may dispatch bundles: opening it, one message received, a disconnect signal, its
  end.
\<close>

section \<open>server.go\<close>

text \<open>
  \<open>srv_bundles\<close> is the bundle provider, \<open>srv_ca\<close> whether the CA is there to sign with is part of
  the \<open>x509\<close> argument; \<open>srv_send\<close> is the fate of each send of a stream.
\<close>

record AgentServer =
  srv_queries :: Queries
  srv_bundles :: "BundleBuilder option"
  srv_X :: x509
  srv_version :: string
  srv_send :: "nat \<Rightarrow> nat \<Rightarrow> bool"

text \<open>The state: tables and registry, the revoked serials, and the ingester.\<close>

record asrv =
  as_cp :: "StreamRegistry CP"
  as_revoked :: "string list option"
  as_ing :: "Ingester option"

definition onCP :: "(StreamRegistry CP, 'a) st \<Rightarrow> (asrv, 'a) st" where
  "onCP m s = (case m (as_cp s) of (r, c) \<Rightarrow> (r, s\<lparr>as_cp := c\<rparr>))"

definition onStore :: "(db, 'a) st \<Rightarrow> (asrv, 'a) st" where
  "onStore m s = (case m (store (as_cp s)) of (r, d) \<Rightarrow> (r, s\<lparr>as_cp := (as_cp s)\<lparr>store := d\<rparr>\<rparr>))"

definition onRegistry :: "(StreamRegistry, 'a) st \<Rightarrow> (asrv, 'a) st" where
  "onRegistry m s = (case m (registry (as_cp s)) of (r, g) \<Rightarrow> (r, s\<lparr>as_cp := (as_cp s)\<lparr>registry := g\<rparr>\<rparr>))"

definition readDB :: "(db \<Rightarrow> 'a res) \<Rightarrow> (asrv, 'a) st" where
  "readDB f s = (f (store (as_cp s)), s)"

text \<open>An operation whose error is only logged.\<close>

definition tryS :: "('s, 'a) st \<Rightarrow> ('s, unit) st" where
  "tryS m s = (Inr (), snd (m s))"

definition stream_send :: "AgentServer \<Rightarrow> nat \<Rightarrow> server_msg \<Rightarrow> (asrv, unit) st" where
  "stream_send S i m = onRegistry (srv_Send (srv_send S) i m)"

section \<open>handlers.go\<close>

definition parseUUIDs :: "Queries \<Rightarrow> PeerIdentity \<Rightarrow> (bytes \<times> bytes) res" where
  "parseUUIDs Q pid = bindR (uuid_Scan Q (HostID pid)) (\<lambda>h. bindR (uuid_Scan Q (TenantID pid)) (\<lambda>t. Inr (h, t)))"

text \<open>A generation is an int64 on the wire and an int32 in the table.\<close>

definition int32_of :: "i64 \<Rightarrow> i32" where
  "int32_of g = ucast g"

definition handleHeartbeat :: "AgentServer \<Rightarrow> PeerIdentity \<Rightarrow> qfv1_Heartbeat \<Rightarrow> (asrv, unit) st" where
  "handleHeartbeat S pid hb =
     bindS (liftS (wrapR ''codes.Internal: parse identity'' (parseUUIDs (srv_queries S) pid))) (\<lambda>(h, t).
       tryS (onStore (UpdateHostHeartbeat (srv_queries S) h t (int32_of (hb_current_generation hb)))))"

definition handleBundleAck :: "PeerIdentity \<Rightarrow> qfv1_BundleAck \<Rightarrow> (asrv, unit) st" where
  "handleBundleAck pid ack = retS ()"

definition handleBundleApplied :: "AgentServer \<Rightarrow> PeerIdentity \<Rightarrow> qfv1_BundleApplied \<Rightarrow> (asrv, unit) st" where
  "handleBundleApplied S pid ba =
     (if \<not> ba_success ba then retS ()
      else
        bindS (liftS (wrapR ''codes.Internal: parse identity'' (parseUUIDs (srv_queries S) pid))) (\<lambda>(h, t).
          wrapS ''codes.Internal: update generation'' (onStore (UpdateHostGeneration (srv_queries S) h t (int32_of (ba_generation ba))))))"

definition certRenewalTTL :: int where "certRenewalTTL = 365 * 24 * 3600 * 1000000000"

definition renewal_fail :: "AgentServer \<Rightarrow> nat \<Rightarrow> string \<Rightarrow> (asrv, unit) st" where
  "renewal_fail S i msg = stream_send S i (CertRenewalResponseMsg
     \<lparr>crr_success = False, crr_cert_pem = [], crr_error_message = msg, crr_not_after = None\<rparr>)"

text \<open>
  The steps of a renewal; \<open>Inl msg\<close> is the reason sent to the agent. \<open>SignHostCSR\<close> returns
  PEM, which the handler hands to \<open>x509.ParseCertificate\<close> as if it were DER.
\<close>

definition renewal_sign :: "AgentServer \<Rightarrow> PeerIdentity \<Rightarrow> int \<Rightarrow> nat res \<Rightarrow> string \<Rightarrow> asrv \<Rightarrow> string + (bytes \<times> bytes \<times> Certificate \<times> nat \<times> bytes \<times> CertTemplate)" where
  "renewal_sign S pid now rnd csr s =
     (case parseUUIDs (srv_queries S) pid of
        Inl _ \<Rightarrow> Inl ''parse identity''
      | Inr (h, t) \<Rightarrow>
     (case GetActiveCertificateForHost (srv_queries S) (store (as_cp s)) h of
        Inl _ \<Rightarrow> Inl ''no active cert found''
      | Inr oldCert \<Rightarrow>
          if (case as_revoked s of None \<Rightarrow> False | Some rv \<Rightarrow> IsRevoked rv (c_Serial oldCert)) then Inl ''current cert is revoked''
          else
     (case pem_Decode (srv_X S) (map of_char csr) of
        None \<Rightarrow> Inl ''invalid CSR PEM''
      | Some (ty, der) \<Rightarrow>
          if ty \<noteq> ''CERTIFICATE REQUEST'' then Inl ''invalid CSR PEM''
          else
     (case rnd of
        Inl _ \<Rightarrow> Inl ''serial generation failed''
      | Inr serial \<Rightarrow>
     (case SignHostCSR (srv_X S) now der (HostID pid) (TenantID pid) serial certRenewalTTL of
        Inl e \<Rightarrow> Inl (''sign CSR: '' @ err_Error e)
      | Inr newCertDER \<Rightarrow>
     (case x509_ParseCertificate (srv_X S) newCertDER of
        Inl _ \<Rightarrow> Inl ''parse signed cert''
      | Inr newCert \<Rightarrow> Inr (h, t, oldCert, serial, newCertDER, newCert)))))))"

definition handleCertRenewal :: "AgentServer \<Rightarrow> nat \<Rightarrow> PeerIdentity \<Rightarrow> int \<Rightarrow> nat res \<Rightarrow> string \<Rightarrow> (asrv, unit) st" where
  "handleCertRenewal S i pid now rnd csr s =
     (case renewal_sign S pid now rnd csr s of
        Inl msg \<Rightarrow> renewal_fail S i msg s
      | Inr (h, t, oldCert, serial, newCertDER, newCert) \<Rightarrow>
          (case onStore (InsertCertificate (srv_queries S) t h (dec serial) (NotBefore newCert) (NotAfter newCert)) s of
             (Inl e, s1) \<Rightarrow> renewal_fail S i (''save cert: '' @ err_Error e) s1
           | (Inr _, s1) \<Rightarrow>
               bindS (tryS (onStore (UpdateCertificateStatus (srv_queries S) (c_Serial oldCert) ''rotated''))) (\<lambda>_.
                 stream_send S i (CertRenewalResponseMsg \<lparr>crr_success = True, crr_cert_pem = pem_EncodeToMemory (srv_X S) ''CERTIFICATE'' newCertDER,
                   crr_error_message = '''', crr_not_after = Some (NotAfter newCert)\<rparr>)) s1))"

text \<open>Telemetry goes to the ingester, if there is one and the identity parses.\<close>

definition ingestS :: "AgentServer \<Rightarrow> PeerIdentity \<Rightarrow> (bytes \<Rightarrow> bytes \<Rightarrow> Ingester \<Rightarrow> Ingester) \<Rightarrow> (asrv, unit) st" where
  "ingestS S pid f s =
     (case (as_ing s, parseUUIDs (srv_queries S) pid) of
        (Some ing, Inr (h, t)) \<Rightarrow> (Inr (), s\<lparr>as_ing := Some (f t h ing)\<rparr>)
      | _ \<Rightarrow> (Inr (), s))"

definition handleLogEvents :: "AgentServer \<Rightarrow> int \<Rightarrow> PeerIdentity \<Rightarrow> qfv1_LogEvents \<Rightarrow> (asrv, unit) st" where
  "handleLogEvents S now pid msg = ingestS S pid (\<lambda>t h. IngestLogEvents (srv_queries S) now t h msg)"

definition handleFlowEvents :: "AgentServer \<Rightarrow> int \<Rightarrow> PeerIdentity \<Rightarrow> qfv1_FlowEvent list \<Rightarrow> (asrv, unit) st" where
  "handleFlowEvents S now pid fvs = ingestS S pid (\<lambda>t h. IngestFlowEvents now t h fvs)"

definition handleCounterUpdate :: "AgentServer \<Rightarrow> int \<Rightarrow> PeerIdentity \<Rightarrow> qfv1_CounterUpdate \<Rightarrow> (asrv, unit) st" where
  "handleCounterUpdate S now pid msg = ingestS S pid (\<lambda>t h. IngestCounterUpdate (srv_queries S) now t h msg)"

definition handleSystemEvent :: "AgentServer \<Rightarrow> PeerIdentity \<Rightarrow> qfv1_SystemEvent \<Rightarrow> (asrv, unit) st" where
  "handleSystemEvent S pid msg = ingestS S pid (\<lambda>t h. IngestSystemEvent t h msg)"

section \<open>session.go\<close>

text \<open>\<open>now\<close> and \<open>rnd\<close> are the clock and the random serial a handler uses.\<close>

fun handleMessage :: "AgentServer \<Rightarrow> nat \<Rightarrow> PeerIdentity \<Rightarrow> int \<Rightarrow> nat res \<Rightarrow> agent_msg \<Rightarrow> (asrv, unit) st" where
  "handleMessage S i pid now rnd (HeartbeatMsg hb) = handleHeartbeat S pid hb"
| "handleMessage S i pid now rnd (BundleAckMsg ack) = handleBundleAck pid ack"
| "handleMessage S i pid now rnd (BundleAppliedMsg ba) = handleBundleApplied S pid ba"
| "handleMessage S i pid now rnd (CertRenewalRequestMsg csr) = handleCertRenewal S i pid now rnd csr"
| "handleMessage S i pid now rnd (LogEventsMsg m) = handleLogEvents S now pid m"
| "handleMessage S i pid now rnd (FlowEventsMsg m) = handleFlowEvents S now pid m"
| "handleMessage S i pid now rnd (CounterUpdateMsg m) = handleCounterUpdate S now pid m"
| "handleMessage S i pid now rnd (SystemEventMsg m) = handleSystemEvent S pid m"
| "handleMessage S i pid now rnd (HelloMsg _) = retS ()"

definition defaultConfig :: qfv1_ConfigUpdate where
  "defaultConfig = \<lparr>cfg_heartbeat_interval_ms = 30000, cfg_counter_report_interval_ms = 60000, cfg_event_batch_size = 100,
     cfg_event_batch_max_age_ms = 5000, cfg_default_log_rate_limit_per_sec = 100, cfg_flow_events_enabled = False\<rparr>"

definition audit_agent :: "AgentServer \<Rightarrow> bytes \<Rightarrow> bytes \<Rightarrow> string \<Rightarrow> (asrv, unit) st" where
  "audit_agent S t h action =
     tryS (onStore (InsertAuditLog (srv_queries S) t ''agent'' None action ''host'' (Some h) None None))"

text \<open>The part of \<open>Stream\<close> up to the registration.\<close>

definition stream_hello :: "nat \<Rightarrow> PeerIdentity \<Rightarrow> agent_msg \<Rightarrow> (asrv, qfv1_Hello) st" where
  "stream_hello i pid m s =
     (case m of
        HelloMsg hello \<Rightarrow> (Inr hello, s\<lparr>as_cp := (as_cp s)\<lparr>registry := register (HostID pid) i (registry (as_cp s))\<rparr>\<rparr>)
      | _ \<Rightarrow> (Inl (Errorf ''codes.InvalidArgument: first message must be Hello''), s))"

text \<open>Then up to the receive loop: the host's row, the welcome, and the bundle an agent missed.\<close>

definition catch_up :: "AgentServer \<Rightarrow> nat \<Rightarrow> PeerIdentity \<Rightarrow> (asrv, unit) st" where
  "catch_up S i pid s =
     (case srv_bundles S of
        None \<Rightarrow> (Inr (), s)
      | Some B \<Rightarrow>
          (case getBundle (srv_queries S) B (store (as_cp s)) (TenantID pid) (HostID pid) of
             Inl _ \<Rightarrow> (Inr (), s)
           | Inr b \<Rightarrow> stream_send S i (PolicyBundleMsg b) s))"

definition stream_open :: "AgentServer \<Rightarrow> nat \<Rightarrow> PeerIdentity \<Rightarrow> qfv1_Hello \<Rightarrow> (asrv, bytes \<times> bytes) st" where
  "stream_open S i pid hello =
     bindS (liftS (wrapR ''codes.Internal: invalid host_id in cert'' (uuid_Scan (srv_queries S) (HostID pid)))) (\<lambda>h.
     bindS (liftS (wrapR ''codes.Internal: invalid tenant_id in cert'' (uuid_Scan (srv_queries S) (TenantID pid)))) (\<lambda>t.
     bindS (readDB (\<lambda>d. wrapR ''codes.NotFound: host not found'' (GetHost (srv_queries S) d h t))) (\<lambda>host.
     bindS (tryS (onStore (UpdateHostConnected (srv_queries S) h t (hl_agent_version hello) (hl_kernel_version hello)))) (\<lambda>_.
     bindS (audit_agent S t h ''agent.connected'') (\<lambda>_.
     bindS (stream_send S i (WelcomeMsg \<lparr>wl_accepted = True, wl_reject_reason = '''', wl_server_generation = scast (h_CurrentGeneration host),
              wl_server_version = srv_version S, wl_config = Some (defaultConfig\<lparr>cfg_flow_events_enabled := h_FlowEventsEnabled host\<rparr>)\<rparr>)) (\<lambda>_.
     bindS (if sint (hl_current_generation hello) < sint (h_DesiredGeneration host) then catch_up S i pid else retS ()) (\<lambda>_.
       retS (h, t))))))))"

text \<open>The deferred calls when a stream ends.\<close>

definition stream_close :: "AgentServer \<Rightarrow> PeerIdentity \<Rightarrow> (bytes \<times> bytes) option \<Rightarrow> asrv \<Rightarrow> asrv" where
  "stream_close S pid ids s =
     (let s1 = (case ids of None \<Rightarrow> s | Some (h, t) \<Rightarrow> snd (audit_agent S t h ''agent.disconnected'' s))
      in s1\<lparr>as_cp := (as_cp s1)\<lparr>registry := deregister (HostID pid) (registry (as_cp s1))\<rparr>\<rparr>)"

text \<open>The case of the disconnect channel.\<close>

definition stream_disconnect :: "AgentServer \<Rightarrow> nat \<Rightarrow> disconnectSignal \<Rightarrow> (asrv, unit) st" where
  "stream_disconnect S i sig = tryS (stream_send S i (DisconnectRequestMsg
     \<lparr>dr_reason = ds_reason sig, dr_reconnect_after_ms = ds_reconnectAfterMs sig\<rparr>))"

text \<open>The errors that end a stream without being reported; \<open>code\<close> is \<open>status.Code\<close>.\<close>

definition streamErr :: "(goerr \<Rightarrow> string) \<Rightarrow> goerr \<Rightarrow> goerr option" where
  "streamErr code e = (if errors_Is e ''io.EOF'' then None else if code e = ''Canceled'' then None else Some e)"

section \<open>Streams keep every invariant of the store\<close>

lemma keeps_onStore: "keeps P m \<Longrightarrow> keeps (\<lambda>s. P (store (as_cp s))) (onStore m)"
  by (auto simp: keeps_def onStore_def split: prod.splits)

lemma keeps_stream_send: "keeps (\<lambda>s. P (store (as_cp s))) (stream_send S i m)"
  by (auto simp: keeps_def stream_send_def onRegistry_def split: prod.splits)

lemma keeps_tryS: "keeps P m \<Longrightarrow> keeps P (tryS m)"
  by (simp add: keeps_def tryS_def)

lemma keeps_ingestS: "keeps (\<lambda>s. P (store (as_cp s))) (ingestS S pid f)"
  by (auto simp: keeps_def ingestS_def split: prod.splits option.splits sum.splits)

lemma keeps_readDB: "keeps P (readDB f)"
  by (simp add: keeps_def readDB_def)

lemmas keeps_asrv = keeps_onStore keeps_stream_send keeps_tryS keeps_ingestS keeps_readDB

context store_invariant
begin

lemma inv_handleCertRenewal:
  assumes "ok (srv_queries S)"
  shows "keeps (\<lambda>s. P (store (as_cp s))) (handleCertRenewal S i pid now rnd csr)"
proof -
  have f: "P (store (as_cp s)) \<Longrightarrow> P (store (as_cp (snd (renewal_fail S i msg s))))" for msg s
    unfolding renewal_fail_def by (rule keepsD [OF keeps_stream_send])
  have u: "keeps (\<lambda>s. P (store (as_cp s)))
      (bindS (tryS (onStore (UpdateCertificateStatus (srv_queries S) sr ''rotated''))) (\<lambda>_. stream_send S i m))" for sr m
    by (intro keeps_bindS keeps_asrv stmts assms)
  have c: "keeps (\<lambda>s. P (store (as_cp s))) (onStore (InsertCertificate (srv_queries S) t h sr nb na))" for t h sr nb na
    by (intro keeps_asrv stmts assms)
  show ?thesis unfolding keeps_def
  proof (intro allI impI)
    fix s :: asrv assume s: "P (store (as_cp s))"
    show "P (store (as_cp (snd (handleCertRenewal S i pid now rnd csr s))))"
    proof (cases "renewal_sign S pid now rnd csr s")
      case (Inr x)
      obtain h t oldCert serial der newCert where x: "x = (h, t, oldCert, serial, der, newCert)" by (metis prod_cases6)
      obtain r s1 where i: "onStore (InsertCertificate (srv_queries S) t h (dec serial) (NotBefore newCert) (NotAfter newCert)) s = (r, s1)" by fastforce
      then have "P (store (as_cp s1))" using keepsD' [OF c i s] by simp
      then show ?thesis using Inr x i f keepsD [OF u] by (cases r) (simp_all add: handleCertRenewal_def)
    qed (simp add: handleCertRenewal_def f s)
  qed
qed

lemma inv_handleMessage:
  assumes "ok (srv_queries S)"
  shows "keeps (\<lambda>s. P (store (as_cp s))) (handleMessage S i pid now rnd m)"
  by (cases m) (auto simp: handleHeartbeat_def handleBundleAck_def handleBundleApplied_def handleLogEvents_def handleFlowEvents_def
      handleCounterUpdate_def handleSystemEvent_def intro!: keeps_intros keeps_asrv stmts inv_handleCertRenewal assms)

lemma inv_stream_hello: "keeps (\<lambda>s. P (store (as_cp s))) (stream_hello i pid m)"
  by (auto simp: keeps_def stream_hello_def split: agent_msg.splits)

lemma inv_audit_agent: "ok (srv_queries S) \<Longrightarrow> keeps (\<lambda>s. P (store (as_cp s))) (audit_agent S t h ac)"
  unfolding audit_agent_def by (intro keeps_asrv stmts)

lemma inv_catch_up: "keeps (\<lambda>s. P (store (as_cp s))) (catch_up S i pid)"
  using keeps_stream_send [of P S i] by (auto simp: keeps_def catch_up_def split: option.splits sum.splits)

lemma inv_stream_open: "ok (srv_queries S) \<Longrightarrow> keeps (\<lambda>s. P (store (as_cp s))) (stream_open S i pid hello)"
  unfolding stream_open_def by (auto intro!: keeps_intros keeps_asrv stmts inv_audit_agent inv_catch_up)

lemma inv_stream_close: "ok (srv_queries S) \<Longrightarrow> P (store (as_cp s)) \<Longrightarrow> P (store (as_cp (stream_close S pid ids s)))"
  using keepsD [OF inv_audit_agent] by (auto simp: stream_close_def Let_def split: option.splits)

lemma inv_stream_disconnect: "keeps (\<lambda>s. P (store (as_cp s))) (stream_disconnect S i sig)"
  unfolding stream_disconnect_def by (intro keeps_asrv)

end

section \<open>Certificate renewal\<close>

text \<open>The DER parser does not accept the text of a PEM block.\<close>

definition der_rejects_pem :: "x509 \<Rightarrow> bool" where
  "der_rejects_pem X \<longleftrightarrow> (\<forall>ty b. \<not> is_ok (x509_ParseCertificate X (pem_EncodeToMemory X ty b)))"

lemma renewal_sign_fails:
  assumes "der_rejects_pem (srv_X S)"
  shows "\<exists>msg. renewal_sign S pid now rnd csr s = Inl msg"
proof -
  have "x509_ParseCertificate (srv_X S) pem \<noteq> Inr c" if sg: "SignHostCSR (srv_X S) now der h t serial ttl = Inr pem" for pem der h t serial ttl c
  proof -
    obtain d where "pem = pem_EncodeToMemory (srv_X S) ''CERTIFICATE'' d" using sg by (auto simp: SignHostCSR_def bindR_eq_Inr)
    then have "\<not> is_ok (x509_ParseCertificate (srv_X S) pem)" using assms by (simp add: der_rejects_pem_def)
    then show ?thesis by auto
  qed
  then show ?thesis
    by (auto simp: renewal_sign_def split: sum.splits prod.splits option.splits if_splits)
qed

text \<open>
  C35. Certificate renewal is always refused: since the DER parser does not accept PEM text
  and \<open>SignHostCSR\<close> returns PEM, every renewal request is answered with a failure, whatever the
  agent, the request and the tables are, and no certificate is stored or marked as rotated.
\<close>

theorem cert_renewal_always_refused:
  assumes "der_rejects_pem (srv_X S)"
  shows "\<exists>msg. handleMessage S i pid now rnd (CertRenewalRequestMsg csr) s =
      stream_send S i (CertRenewalResponseMsg \<lparr>crr_success = False, crr_cert_pem = [], crr_error_message = msg, crr_not_after = None\<rparr>) s
    \<and> store (as_cp (snd (handleMessage S i pid now rnd (CertRenewalRequestMsg csr) s))) = store (as_cp s)"
proof -
  obtain msg where "renewal_sign S pid now rnd csr s = Inl msg" using renewal_sign_fails [OF assms] by blast
  then have "handleCertRenewal S i pid now rnd csr s = renewal_fail S i msg s" by (simp add: handleCertRenewal_def)
  moreover have "store (as_cp (snd (stream_send S i m s))) = store (as_cp s)" for m
    by (simp add: stream_send_def onRegistry_def split: prod.splits)
  ultimately show ?thesis by (auto simp: renewal_fail_def)
qed

definition ex_S :: AgentServer where
  "ex_S = \<lparr>srv_queries = ex_Q, srv_bundles = Some \<lparr>bb_crypto = ex_crypto, bb_signer = None, bb_now = 0\<rparr>, srv_X = ex_X, srv_version = ''1'',
     srv_send = (\<lambda>_ _. False)\<rparr>"

definition ex_asrv :: asrv where
  "ex_asrv = \<lparr>as_cp = \<lparr>store = ex_db, registry = register (pgUUIDToStr (ex_id 1)) 0 NewStreamRegistry\<rparr>, as_revoked = None, as_ing = None\<rparr>"

definition ex_pid :: PeerIdentity where
  "ex_pid = \<lparr>HostID = pgUUIDToStr (ex_id 1), TenantID = pgUUIDToStr (ex_id 9)\<rparr>"

lemma ex_der_rejects_pem: "der_rejects_pem ex_X"
proof -
  have "pem_EncodeToMemory ex_X ty b \<noteq> [48]" for ty b by (cases ty) (simp_all add: ex_X_def)
  then show ?thesis by (simp add: der_rejects_pem_def ex_X_def is_ok_def)
qed

theorem cert_renewal_always_refused_witness:
  "\<exists>msg. handleMessage ex_S 0 ex_pid 100 (Inr 5) (CertRenewalRequestMsg ''k'') ex_asrv =
      stream_send ex_S 0 (CertRenewalResponseMsg \<lparr>crr_success = False, crr_cert_pem = [], crr_error_message = msg, crr_not_after = None\<rparr>) ex_asrv
    \<and> store (as_cp (snd (handleMessage ex_S 0 ex_pid 100 (Inr 5) (CertRenewalRequestMsg ''k'') ex_asrv))) = store (as_cp ex_asrv)"
  by (rule cert_renewal_always_refused) (simp add: ex_S_def ex_der_rejects_pem)

section \<open>An agent that missed a change gets it when it connects\<close>

lemma stream_send_ok:
  assumes "\<not> srv_send S i (rg_nsend (registry (as_cp s)) i)"
  shows "stream_send S i m s = (Inr (), s\<lparr>as_cp := (as_cp s)\<lparr>registry := (registry (as_cp s))
     \<lparr>rg_nsend := (rg_nsend (registry (as_cp s)))(i := Suc (rg_nsend (registry (as_cp s)) i)),
      rg_sent := (rg_sent (registry (as_cp s)))(i := rg_sent (registry (as_cp s)) i @ [m])\<rparr>\<rparr>\<rparr>)"
  using assms by (simp add: stream_send_def onRegistry_def srv_Send_def Let_def)

lemma onStore_apply: "onStore m s = (fst (m (store (as_cp s))), s\<lparr>as_cp := (as_cp s)\<lparr>store := snd (m (store (as_cp s)))\<rparr>\<rparr>)"
  by (simp add: onStore_def split: prod.split)

text \<open>The tables after the connection has been recorded.\<close>

definition connected_db :: "AgentServer \<Rightarrow> bytes \<Rightarrow> bytes \<Rightarrow> qfv1_Hello \<Rightarrow> db \<Rightarrow> db" where
  "connected_db S h t hello d = snd (InsertAuditLog (srv_queries S) t ''agent'' None ''agent.connected'' ''host'' (Some h) None None
     (snd (UpdateHostConnected (srv_queries S) h t (hl_agent_version hello) (hl_kernel_version hello) d)))"

text \<open>
  C15. Catching up: when a host whose generation is behind the desired one opens its stream
  and the sends succeed, it is sent a welcome that carries its settings and then the bundle
  that its tables compile to now.
\<close>

theorem stream_open_catches_up:
  assumes "uuid_Scan (srv_queries S) (HostID pid) = Inr h" and "uuid_Scan (srv_queries S) (TenantID pid) = Inr t"
    and "GetHost (srv_queries S) (store (as_cp s)) h t = Inr host"
    and "sint (hl_current_generation hello) < sint (h_DesiredGeneration host)"
    and "srv_bundles S = Some B" and "getBundle (srv_queries S) B (connected_db S h t hello (store (as_cp s))) (TenantID pid) (HostID pid) = Inr b"
    and "\<And>n. \<not> srv_send S i n"
  shows "\<exists>s' w. stream_open S i pid hello s = (Inr (h, t), s')
     \<and> store (as_cp s') = connected_db S h t hello (store (as_cp s))
     \<and> rg_sent (registry (as_cp s')) i = rg_sent (registry (as_cp s)) i @ [WelcomeMsg w, PolicyBundleMsg b]
     \<and> wl_accepted w \<and> sint (wl_server_generation w) = sint (h_CurrentGeneration host)
     \<and> wl_config w = Some (defaultConfig\<lparr>cfg_flow_events_enabled := h_FlowEventsEnabled host\<rparr>)"
proof -
  have "sint (scast (h_CurrentGeneration host) :: i64) = sint (h_CurrentGeneration host)" 
    using sint_lt [of "h_CurrentGeneration host"] sint_ge [of "h_CurrentGeneration host"]
    by (simp add: signed_scast_eq signed_take_bit_int_eq_self)
  then show ?thesis using assms
    by (simp add: stream_open_def bindS_def readDB_def tryS_def onStore_apply audit_agent_def stream_send_ok catch_up_def
        connected_db_def)
qed

text \<open>Recording the connection of an active host does not change what it compiles to.\<close>

lemma connected_db_same:
  assumes "\<And>x. x \<in> set (t_hosts d) \<Longrightarrow> host_is h t x \<Longrightarrow> h_Status x = ''active''"
  shows "bundle_same d (connected_db S h t hello d)"
proof -
  define f where "f n = (\<lambda>x :: Host. x\<lparr>h_AgentVersion := Some (hl_agent_version hello), h_KernelVersion := Some (hl_kernel_version hello),
    h_Status := ''active'', h_LastHeartbeatAt := Some n\<rparr>)" for n
  have u: "list_all2 host_same (t_hosts d) (update_rows (host_is h t) (f n) (t_hosts d))"
    "list_all2 (\<lambda>h h'. host_same h h' \<and> h_CurrentGeneration h = h_CurrentGeneration h') (t_hosts d) (update_rows (host_is h t) (f n) (t_hosts d))" for n
    using assms by (auto simp: update_rows_def list_all2_map2 host_same_def f_def intro!: list.rel_refl_strong)
  have r: "list_all2 host_same (t_hosts d) (t_hosts d)"
    "list_all2 (\<lambda>h h'. host_same h h' \<and> h_CurrentGeneration h = h_CurrentGeneration h') (t_hosts d) (t_hosts d)"
    by (simp_all add: list_all2_same)
  define d1 where "d1 = snd (UpdateHostConnected (srv_queries S) h t (hl_agent_version hello) (hl_kernel_version hello) d)"
  have "(\<exists>n k. d1 = d\<lparr>t_seq := k, t_hosts := update_rows (host_is h t) (f n) (t_hosts d)\<rparr>) \<or> (\<exists>k. d1 = d\<lparr>t_seq := k\<rparr>)"
    unfolding d1_def UpdateHostConnected_def writeS_def exec_hosts_def Let_def f_def
    by (cases "db_werr (srv_queries S) (t_seq d)") auto
  then have b: "bundle_same d d1" by (elim exE disjE) (auto simp: bundle_same_def compile_same_def hosts_same_def u r)
  have "\<exists>k a. connected_db S h t hello d = d1\<lparr>t_seq := k, t_audit := a\<rparr>"
    unfolding connected_db_def d1_def [symmetric] by (subst InsertAuditLog_store) blast
  then show ?thesis using b by (elim exE) (simp add: bundle_same_def compile_same_def hosts_same_def)
qed

lemma ex_getBundle: "getBundle ex_Q \<lparr>bb_crypto = ex_crypto, bb_signer = None, bb_now = 0\<rparr> ex_db (pgUUIDToStr (ex_id 9)) (pgUUIDToStr (ex_id 1)) =
    Inr (buildProtoBundle ex_rs 7)"
proof -
  have "scast (h_CurrentGeneration ex_host) + 1 = (7 :: i64)" by (simp add: ex_db_def scast_eq)
  then show ?thesis by (simp add: getBundle_def GetBundle_def ex_scan ex_store Build_def ex_Compile)
qed

definition ex_hello :: qfv1_Hello where
  "ex_hello = \<lparr>hl_agent_version = ''1'', hl_kernel_version = ''6.1'', hl_hostname = ''web'', hl_current_generation = 3, hl_interfaces = []\<rparr>"

theorem stream_open_catches_up_witness:
  "\<exists>s' w. stream_open ex_S 0 ex_pid ex_hello ex_asrv = (Inr (ex_id 1, ex_id 9), s')
     \<and> store (as_cp s') = connected_db ex_S (ex_id 1) (ex_id 9) ex_hello (store (as_cp ex_asrv))
     \<and> rg_sent (registry (as_cp s')) 0 = rg_sent (registry (as_cp ex_asrv)) 0 @ [WelcomeMsg w, PolicyBundleMsg (buildProtoBundle ex_rs 7)]
     \<and> wl_accepted w \<and> sint (wl_server_generation w) = sint (h_CurrentGeneration ex_host)
     \<and> wl_config w = Some (defaultConfig\<lparr>cfg_flow_events_enabled := h_FlowEventsEnabled ex_host\<rparr>)"
proof (rule stream_open_catches_up)
  have "bundle_same ex_db (connected_db ex_S (ex_id 1) (ex_id 9) ex_hello ex_db)"
    by (rule connected_db_same) (auto simp: ex_db_def)
  from trans [OF getBundle_same [OF this, symmetric] ex_getBundle]
  show "getBundle (srv_queries ex_S) \<lparr>bb_crypto = ex_crypto, bb_signer = None, bb_now = 0\<rparr>
      (connected_db ex_S (ex_id 1) (ex_id 9) ex_hello (store (as_cp ex_asrv))) (TenantID ex_pid) (HostID ex_pid) = Inr (buildProtoBundle ex_rs 7)"
    by (simp add: ex_S_def ex_asrv_def ex_pid_def)
  show "sint (hl_current_generation ex_hello) < sint (h_DesiredGeneration ex_host)" by (simp add: ex_hello_def ex_db_def)
qed (simp_all add: ex_S_def ex_pid_def ex_asrv_def ex_scan ex_store)

end
