(* ===== verification/Qf_Server.thy ===== *)
theory Qf_Server
  imports Qf_Auth Qf_AgentSrv
begin

text \<open>
  The control plane as a whole: the audit middleware (cp/internal/api/middleware_audit.go)
  around all requests, the goroutines the handlers start, and a step relation in which
  requests, goroutines, enrolments and the agents' streams interleave in any order, with
  invariants that hold in every state the server can reach.
\<close>

section \<open>middleware_audit.go\<close>

definition trim_slash :: "string \<Rightarrow> string" where
  "trim_slash s = rev (dropWhile (\<lambda>c. c = CHR ''/'') (rev (dropWhile (\<lambda>c. c = CHR ''/'') s)))"

fun split_slash :: "string \<Rightarrow> string \<Rightarrow> string list" where
  "split_slash acc [] = [rev acc]"
| "split_slash acc (c # cs) = (if c = CHR ''/'' then rev acc # split_slash [] cs else split_slash (c # acc) cs)"

definition typeMap :: "string \<rightharpoonup> string" where
  "typeMap = [''hosts'' \<mapsto> ''host'', ''policies'' \<mapsto> ''policy'', ''objectgroups'' \<mapsto> ''objectgroup'', ''tokens'' \<mapsto> ''token'',
     ''default-policy'' \<mapsto> ''defaultpolicy'', ''audit-log'' \<mapsto> ''audit_log'']"

text \<open>The regular expression \<open>uuidSegment\<close>: lower case hexadecimal digits in groups of 8, 4, 4, 4 and 12.\<close>

definition is_hex_lower :: "char \<Rightarrow> bool" where
  "is_hex_lower c \<longleftrightarrow> (let n = of_char c :: nat in 48 \<le> n \<and> n \<le> 57 \<or> 97 \<le> n \<and> n \<le> 102)"

definition uuidSegment :: "string \<Rightarrow> bool" where
  "uuidSegment s \<longleftrightarrow> length s = 36 \<and>
     list_all (\<lambda>(i, c). if i \<in> {8, 13, 18, 23} then c = CHR ''-'' else is_hex_lower c) (enumerate 0 s)"

text \<open>The loop from the last part down: the first part that is a UUID, with the one before it.\<close>

fun find_object :: "string list \<Rightarrow> (string \<times> string option) option" where
  "find_object [] = None"
| "find_object (p # ps) = (if uuidSegment p then Some (p, case ps of [] \<Rightarrow> None | q # _ \<Rightarrow> Some q) else find_object ps)"

definition extractObjectFromPath :: "api \<Rightarrow> string \<Rightarrow> string \<times> bytes option" where
  "extractObjectFromPath A path =
     (let parts = split_slash [] (trim_slash path);
          ty = (case typeMap (hd parts) of Some t \<Rightarrow> t | None \<Rightarrow> hd parts)
      in case find_object (rev parts) of
           None \<Rightarrow> (ty, None)
         | Some (u, before) \<Rightarrow> ((case before of None \<Rightarrow> ty | Some q \<Rightarrow> (case typeMap q of Some t \<Rightarrow> t | None \<Rightarrow> ty)), scan_opt A u))"

definition has_body :: "json_body \<Rightarrow> bool" where
  "has_body v \<longleftrightarrow> v \<noteq> NoBody \<and> v \<noteq> ClearedBody"

text \<open>The row for a request that succeeded; \<open>rq\<close> is the request as the middleware has it.\<close>

definition audit_request :: "api \<Rightarrow> string \<Rightarrow> http_Request \<Rightarrow> response \<Rightarrow> web \<Rightarrow> web" where
  "audit_request A meth rq resp w =
     (if fst resp < 200 \<or> 300 \<le> fst resp then w
      else case rq_claims rq of
        None \<Rightarrow> w
      | Some c \<Rightarrow>
          (case uuid_Scan (ap_q A) (cl_TenantID c) of
             Inl _ \<Rightarrow> w
           | Inr tid \<Rightarrow>
               let (ty, oid) = extractObjectFromPath A (rq_path rq) in
               snd (spawn (JobAudit tid (if cl_Email c \<noteq> '''' then ''user'' else ''api_token'') (scan_opt A (cl_UserID c))
                 (meth @ '' '' @ rq_path rq) ty oid (wb_before w)
                 (if has_body (snd resp) \<and> meth \<noteq> ''DELETE'' then Some (ap_json A (snd resp)) else None)) w)))"

definition answer :: "response + response \<Rightarrow> response" where
  "answer r = (case r of Inl x \<Rightarrow> x | Inr x \<Rightarrow> x)"

definition audit_wrap :: "api \<Rightarrow> string \<Rightarrow> (http_Request \<Rightarrow> response handler) \<Rightarrow> http_Request \<Rightarrow> response handler" where
  "audit_wrap A meth nxt rq w =
     (if meth \<in> {''GET'', ''HEAD'', ''OPTIONS''} then nxt rq w
      else case nxt rq (w\<lparr>wb_before := None\<rparr>) of (r, w1) \<Rightarrow> (r, audit_request A meth rq (answer r) w1))"

section \<open>router.go\<close>

text \<open>The routes, with the decoded bodies of their requests, and their methods.\<close>

datatype request =
    Login "(string \<times> string) res"
  | Logout
  | Refresh
  | OIDCCallback "string option" string "(nat \<times> goerr) + (string \<times> string \<times> string)"
  | Me
  | ChangePassword "(string \<times> string) res"
  | UsersList
  | UsersCreate "createUserRequest res"
  | UsersGet
  | UsersPatch "(string option \<times> string option) res"
  | UsersDelete
  | UsersGetRole
  | UsersPutRole "string res"
  | ApiTokensList
  | ApiTokensCreate "bytes res" "(string \<times> string \<times> int option) res"
  | ApiTokensDelete
  | Api endpoint

fun api_method :: "endpoint \<Rightarrow> string" where
  "api_method (PoliciesCreate _) = ''POST''" | "api_method (PoliciesUpdate _) = ''PUT''" | "api_method PoliciesDelete = ''DELETE''"
| "api_method (RulesCreate _) = ''POST''" | "api_method (RulesUpdate _) = ''PUT''" | "api_method RulesDelete = ''DELETE''"
| "api_method (VersionsRevert _) = ''POST''" | "api_method (GroupsCreate _) = ''POST''" | "api_method (GroupsUpdate _) = ''PUT''"
| "api_method GroupsDelete = ''DELETE''" | "api_method (DefaultPolicyPut _) = ''PUT''" | "api_method (HostsCreate _) = ''POST''"
| "api_method (HostsPatch _) = ''PATCH''" | "api_method HostsDelete = ''DELETE''" | "api_method (TokensCreate _ _ _) = ''POST''"
| "api_method TokensDelete = ''DELETE''" | "api_method _ = ''GET''"

fun method_of :: "request \<Rightarrow> string" where
  "method_of (Login _) = ''POST''" | "method_of Logout = ''POST''" | "method_of Refresh = ''POST''"
| "method_of (ChangePassword _) = ''POST''" | "method_of (UsersCreate _) = ''POST''" | "method_of (UsersPatch _) = ''PATCH''"
| "method_of UsersDelete = ''DELETE''" | "method_of (UsersPutRole _) = ''PUT''" | "method_of (ApiTokensCreate _ _) = ''POST''"
| "method_of ApiTokensDelete = ''DELETE''" | "method_of (Api e) = api_method e" | "method_of _ = ''GET''"

text \<open>The rate limiter around the login; \<open>rq_ip\<close> is the address \<open>clientIP\<close> finds.\<close>

definition loginRL :: "int \<Rightarrow> http_Request \<Rightarrow> unit handler" where
  "loginRL now rq w = (case Allow now (rq_ip rq) (wb_logins w) of
     (True, l) \<Rightarrow> (Inr (), w\<lparr>wb_logins := l\<rparr>)
   | (False, l) \<Rightarrow> apiError 429 (Errorf ''too many requests'') (w\<lparr>wb_logins := l\<rparr>))"

fun dispatch_request :: "api \<Rightarrow> int \<Rightarrow> request \<Rightarrow> http_Request \<Rightarrow> response handler" where
  "dispatch_request A now (Login b) rq = bindH (loginRL now rq) (\<lambda>_. auth_Login A now b)"
| "dispatch_request A now Logout rq = auth_Logout A rq"
| "dispatch_request A now Refresh rq = auth_Refresh A now rq"
| "dispatch_request A now (OIDCCallback c st v) rq = oidc_Callback A now c st v"
| "dispatch_request A now Me rq = JWTMiddleware A now auth_Me rq"
| "dispatch_request A now (ChangePassword b) rq = JWTMiddleware A now (\<lambda>rq. auth_ChangePassword A rq b) rq"
| "dispatch_request A now UsersList rq = authAny A now (\<lambda>rq. users_list A) rq"
| "dispatch_request A now (UsersCreate b) rq = authAny A now (\<lambda>rq. radmin rq (users_create A b)) rq"
| "dispatch_request A now UsersGet rq = authAny A now (users_get A) rq"
| "dispatch_request A now (UsersPatch b) rq = authAny A now (\<lambda>rq. radmin rq (users_patch A rq b)) rq"
| "dispatch_request A now UsersDelete rq = authAny A now (\<lambda>rq. radmin rq (users_delete A rq)) rq"
| "dispatch_request A now UsersGetRole rq = authAny A now (users_getRole A) rq"
| "dispatch_request A now (UsersPutRole b) rq = authAny A now (\<lambda>rq. radmin rq (users_putRole A rq b)) rq"
| "dispatch_request A now ApiTokensList rq = authAny A now (\<lambda>rq. apiTokens_list A) rq"
| "dispatch_request A now (ApiTokensCreate rnd b) rq = authAny A now (\<lambda>rq. apiTokens_create A rq rnd b) rq"
| "dispatch_request A now ApiTokensDelete rq = authAny A now (apiTokens_delete A) rq"
| "dispatch_request A now (Api e) rq = authAny A now (\<lambda>rq. route A rq e) rq"

text \<open>A request as it arrives has no claims in its context.\<close>

definition serve :: "api \<Rightarrow> int \<Rightarrow> http_Request \<Rightarrow> request \<Rightarrow> response handler" where
  "serve A now rq e = audit_wrap A (method_of e) (dispatch_request A now e) (rq\<lparr>rq_claims := None\<rparr>)"

section \<open>Goroutines\<close>

definition runCascade :: "api \<Rightarrow> (StreamRegistry CascadeRecompiler \<Rightarrow> (StreamRegistry CP, unit) st) \<Rightarrow> web \<Rightarrow> web" where
  "runCascade A f w = (case ap_cascade A of None \<Rightarrow> w | Some cr \<Rightarrow> w\<lparr>wb_cp := snd (f cr (wb_cp w))\<rparr>)"

definition runStmt :: "(db, 'a) st \<Rightarrow> web \<Rightarrow> web" where
  "runStmt m w = w\<lparr>wb_cp := (wb_cp w)\<lparr>store := snd (m (wb_store w))\<rparr>\<rparr>"

fun run_job :: "api \<Rightarrow> job \<Rightarrow> web \<Rightarrow> web" where
  "run_job A (JobPolicy t p) w = runCascade A (\<lambda>cr. OnPolicyChanged cr t p) w"
| "run_job A (JobPolicyOld t p old) w = runCascade A (\<lambda>cr. OnPolicyChangedWithOldSelector cr t p old) w"
| "run_job A (JobGroup t g) w = runCascade A (\<lambda>cr. OnObjectGroupChanged cr t g) w"
| "run_job A (JobDefault t) w = runCascade A (\<lambda>cr. OnDefaultPolicyChanged cr t) w"
| "run_job A (JobLabels t h) w = runCascade A (\<lambda>cr. OnHostLabelsChanged cr t h) w"
| "run_job A (JobDisconnect h) w = w\<lparr>wb_cp := (wb_cp w)\<lparr>registry := Disconnect h ''config-updated'' 1000 (registry (wb_cp w))\<rparr>\<rparr>"
| "run_job A (JobVersion t p content actor) w = runStmt (InsertConfigVersion (ap_q A) t ''policy'' p content actor) w"
| "run_job A (JobAudit t aty aid ac oty oid b a) w = runStmt (InsertAuditLog (ap_q A) t aty aid ac oty oid b a) w"
| "run_job A (JobTokenUsed i) w = runStmt (UpdateAPITokenLastUsed (ap_q A) i) w"

section \<open>The steps of the server\<close>

record server =
  sv_web :: web
  sv_revoked :: "string list option"
  sv_ing :: "Ingester option"

abbreviation sv_store :: "server \<Rightarrow> db" where
  "sv_store s \<equiv> wb_store (sv_web s)"

text \<open>What an operation of a stream does to the server.\<close>

definition onStream :: "(asrv \<Rightarrow> asrv) \<Rightarrow> server \<Rightarrow> server" where
  "onStream f s = (let a = f \<lparr>as_cp = wb_cp (sv_web s), as_revoked = sv_revoked s, as_ing = sv_ing s\<rparr>
     in s\<lparr>sv_web := (sv_web s)\<lparr>wb_cp := as_cp a\<rparr>, sv_revoked := as_revoked a, sv_ing := as_ing a\<rparr>)"

text \<open>
  Goroutines run in any order and at any time; the snapshot of a version is lost when the
  request's context ends before it runs. A stream ends at any time.
\<close>

inductive cp_step :: "api \<Rightarrow> AgentServer \<Rightarrow> StreamRegistry EnrollmentServer \<Rightarrow> server \<Rightarrow> server \<Rightarrow> bool"
  for A :: api and S :: AgentServer and E :: "StreamRegistry EnrollmentServer" where
  Request: "cp_step A S E s (s\<lparr>sv_web := snd (serve A now rq e (sv_web s))\<rparr>)"
| Job: "wb_jobs (sv_web s) = js @ j # js' \<Longrightarrow>
     cp_step A S E s (s\<lparr>sv_web := run_job A j ((sv_web s)\<lparr>wb_jobs := js @ js'\<rparr>)\<rparr>)"
| JobLost: "wb_jobs (sv_web s) = js @ JobVersion t p content actor # js' \<Longrightarrow>
     cp_step A S E s (s\<lparr>sv_web := (sv_web s)\<lparr>wb_jobs := js @ js'\<rparr>\<rparr>)"
| Enrol: "cp_step A S E s (s\<lparr>sv_web := (sv_web s)\<lparr>wb_cp := snd (Enroll E X now rnd req (wb_cp (sv_web s)))\<rparr>\<rparr>)"
| StreamHello: "cp_step A S E s (onStream (\<lambda>a. snd (stream_hello i pid m a)) s)"
| StreamOpen: "cp_step A S E s (onStream (\<lambda>a. snd (stream_open S i pid hello a)) s)"
| StreamMessage: "cp_step A S E s (onStream (\<lambda>a. snd (handleMessage S i pid now rnd m a)) s)"
| StreamDisconnect: "rg_disconnectCh (registry (wb_cp (sv_web s))) i = Some sig \<Longrightarrow>
     cp_step A S E s (onStream (\<lambda>a. snd (stream_disconnect S i sig a)) s)"
| StreamClose: "cp_step A S E s (onStream (stream_close S pid ids) s)"
| Stale: "cp_step A S E s (s\<lparr>sv_web := runStmt (MarkStaleHosts (ap_q A)) (sv_web s)\<rparr>)"
| Bootstrap: "cp_step A S E s (s\<lparr>sv_web := runStmt (EnsureAdminUser A email pw name) (sv_web s)\<rparr>)"

inductive cp_reach :: "api \<Rightarrow> AgentServer \<Rightarrow> StreamRegistry EnrollmentServer \<Rightarrow> server \<Rightarrow> server \<Rightarrow> bool"
  for A :: api and S :: AgentServer and E :: "StreamRegistry EnrollmentServer" where
  Refl: "cp_reach A S E s s"
| Step: "cp_reach A S E s s' \<Longrightarrow> cp_step A S E s' s'' \<Longrightarrow> cp_reach A S E s s''"

section \<open>Invariants of reachable states\<close>

lemma audit_request_store [simp]: "wb_store (audit_request A meth rq resp w) = wb_store w"
  by (auto simp: audit_request_def spawn_def split: option.splits sum.splits prod.splits)

lemma audit_wrap_store:
  "wb_store (snd (audit_wrap A meth nxt rq w)) =
     wb_store (snd (nxt rq (if meth \<in> {''GET'', ''HEAD'', ''OPTIONS''} then w else w\<lparr>wb_before := None\<rparr>)))"
  by (simp add: audit_wrap_def split: prod.split)

lemma keepsH_audit_wrap: "(\<And>rq. keepsH P (nxt rq)) \<Longrightarrow> keepsH P (audit_wrap A meth nxt rq)"
  unfolding keepsH_def audit_wrap_store by simp

text \<open>The stores the steps use.\<close>

definition cp_queries :: "api \<Rightarrow> AgentServer \<Rightarrow> 'r EnrollmentServer \<Rightarrow> Queries set" where
  "cp_queries A S E = {ap_q A, srv_queries S, es_queries E} \<union> cr_queries ` set_option (ap_cascade A) \<union> cr_queries ` set_option (es_cascade E)"

lemma keepsH_loginRL: "keepsH P (loginRL now rq)"
  by (auto simp: keepsH_def loginRL_def apiError_def split: prod.split bool.split)

context store_invariant
begin

lemma inv_serve: "ok (ap_q A) \<Longrightarrow> keepsH P (serve A now rq e)"
proof -
  assume o: "ok (ap_q A)"
  have "keepsH P (dispatch_request A now e rq)" for rq
    by (cases e) (auto intro!: keepsH_JWTMiddleware keepsH_authAny keepsH_intros keepsH_loginRL inv_route inv_sessions inv_users inv_apiTokens inv_oidc_Callback o)
  then show ?thesis unfolding serve_def by (intro keepsH_audit_wrap)
qed

lemma inv_runCascade:
  assumes "\<And>cr. ap_cascade A = Some cr \<Longrightarrow> keeps (\<lambda>s. P (store s)) (f cr)" and "P (wb_store w)"
  shows "P (wb_store (runCascade A f w))"
  using assms by (auto simp: runCascade_def keeps_def split: option.splits)

lemma inv_runStmt: "keeps P m \<Longrightarrow> P (wb_store w) \<Longrightarrow> P (wb_store (runStmt m w))"
  by (auto simp: runStmt_def keeps_def)

lemma inv_run_job:
  assumes "ok (ap_q A)" and "\<And>cr. ap_cascade A = Some cr \<Longrightarrow> ok (cr_queries cr)" and "P (wb_store w)"
  shows "P (wb_store (run_job A j w))"
  using assms by (cases j) (auto intro!: inv_runCascade inv_runStmt inv_cascades stmts)

lemma inv_onStream:
  assumes "\<And>a. P (store (as_cp a)) \<Longrightarrow> P (store (as_cp (f a)))" and "P (sv_store s)"
  shows "P (sv_store (onStream f s))"
  using assms(1) [of "\<lparr>as_cp = wb_cp (sv_web s), as_revoked = sv_revoked s, as_ing = sv_ing s\<rparr>"] assms(2)
  by (simp add: onStream_def Let_def)

lemma inv_cp_step:
  assumes "cp_step A S E s s'" and "\<And>Q. Q \<in> cp_queries A S E \<Longrightarrow> ok Q" and "P (sv_store s)"
  shows "P (sv_store s')"
proof -
  have o: "ok (ap_q A)" "ok (srv_queries S)" "ok (es_queries E)" and c: "\<And>cr. ap_cascade A = Some cr \<Longrightarrow> ok (cr_queries cr)"
    "\<And>cr. es_cascade E = Some cr \<Longrightarrow> ok (cr_queries cr)"
    using assms(2) by (auto simp: cp_queries_def)
  note streams = keepsD [OF inv_stream_hello] keepsD [OF inv_stream_open [OF o(2)]] keepsD [OF inv_handleMessage [OF o(2)]]
    keepsD [OF inv_stream_disconnect] inv_stream_close [OF o(2)]
  show ?thesis using assms(1,3)
  proof (induction rule: cp_step.induct)
    case (Request s now rq e)
    then show ?case using keepsHD [OF inv_serve [OF o(1)]] by simp
  next
    case (Enrol s X now rnd req)
    then show ?case using keepsD [OF inv_Enroll [OF o(3) c(2)]] by simp
  qed (simp_all add: inv_run_job [OF o(1) c(1)] inv_onStream streams inv_runStmt st_MarkStaleHosts inv_EnsureAdminUser o)
qed

lemma inv_reach:
  assumes "cp_reach A S E s s'" and "\<And>Q. Q \<in> cp_queries A S E \<Longrightarrow> ok Q" and "P (sv_store s)"
  shows "P (sv_store s')"
  using assms by (induction rule: cp_reach.induct) (auto intro: inv_cp_step)

end

text \<open>The bundle of a host says of each rule and default what the tables say.\<close>

lemma Compile_rows:
  assumes "Compile Q d tenantID hostID = Inr rs"
  shows "(\<forall>rr \<in> set (rs_Rules rs). \<exists>p \<in> set (t_policies d). \<exists>r \<in> set (t_rules d).
        uuid_Scan Q (pgUUIDToStr (p_ID p)) = Inr (r_PolicyID r) \<and> resolveRule Q d tenantID p r = Inr rr)
    \<and> (\<exists>dp \<in> set (t_default_policies d). rs_DefaultIngress rs = dp_Ingress dp \<and> rs_DefaultEgress rs = dp_Egress dp)"
proof -
  from assms obtain tid dp ps and h :: Host and res where dp: "GetDefaultPolicy Q d tid = Inr dp" and ps: "ListPolicies Q d tid = Inr ps"
    and c: "collectRules Q d tenantID (fst (parseLabels Q (h_Labels h))) (resolveRulesForPolicy Q d tenantID) ps = Inr res"
    and rs: "rs_Rules rs = sort_key rule_key res" "rs_DefaultIngress rs = dp_Ingress dp" "rs_DefaultEgress rs = dp_Egress dp"
    by (auto simp: Compile_def bindR_eq_Inr)
  have "\<exists>p \<in> set (t_policies d). \<exists>r \<in> set (t_rules d).
      uuid_Scan Q (pgUUIDToStr (p_ID p)) = Inr (r_PolicyID r) \<and> resolveRule Q d tenantID p r = Inr rr" if "rr \<in> set res" for rr
  proof -
    from that c obtain p zs where z: "p \<in> set ps" "resolveRulesForPolicy Q d tenantID p = Inr zs" "rr \<in> set zs"
      unfolding collectRules_def by (auto dest!: mapR_concat_Inr)
    then obtain pid rules where r: "uuid_Scan Q (pgUUIDToStr (p_ID p)) = Inr pid" "ListRulesByPolicy Q d pid = Inr rules"
        "mapR (resolveRule Q d tenantID p) rules = Inr zs"
      by (auto simp: resolveRulesForPolicy_def bindR_eq_Inr)
    from r(3) have "list_all2 (\<lambda>r rr. resolveRule Q d tenantID p r = Inr rr) rules zs" by (simp add: mapR_Inr)
    then have "\<exists>r \<in> set rules. resolveRule Q d tenantID p r = Inr rr"
      using z(3) by (induction rule: list_all2_induct) auto
    then obtain r0 where "r0 \<in> set rules" "resolveRule Q d tenantID p r0 = Inr rr" by blast
    moreover have "set rules \<subseteq> {r \<in> set (t_rules d). r_PolicyID r = pid}"
      using r(2) by (auto simp: ListRulesByPolicy_def query_def split: option.splits)
    moreover have "p \<in> set (t_policies d)" using z(1) ps by (auto simp: ListPolicies_def query_def split: option.splits)
    ultimately show ?thesis using r(1) by blast
  qed
  moreover have "dp \<in> set (t_default_policies d)"
    using dp by (auto simp: GetDefaultPolicy_def query_one_def query_def bindR_eq_Inr split: option.splits list.splits dest: filter_eq_ConsD)
  ultimately show ?thesis by (auto simp: rs)
qed

text \<open>
  What a rule of a bundle says of the rows of its rule and its policy: ids, names, priorities, direction, action
  and state are theirs, a rule logs when its row asks for it or it logs or denies aloud, and the match is the one of the row's JSON,
  the groups and inline lists of source and destination each resolved by \<open>resolveCIDRs\<close> and \<open>resolvePorts\<close>.
\<close>

definition match_faithful :: "Queries \<Rightarrow> db \<Rightarrow> string \<Rightarrow> Rule \<Rightarrow> qfv1_RuleMatch \<Rightarrow> bool" where
  "match_faithful Q d tenantID r m \<longleftrightarrow> (\<exists>ms.
     (if r_Match r = [] then ms = empty_RuleMatchSpec else json_RuleMatchSpec Q (r_Match r) = Inr ms)
     \<and> rm_protocol m = protoProtocol (ms_Protocol ms)
     \<and> resolveCIDRs Q d tenantID (ms_SrcIPSetID ms) (ms_SrcHostSetID ms) (ms_SrcCIDRs ms) = Inr (rm_src_cidrs m)
     \<and> resolveCIDRs Q d tenantID (ms_DstIPSetID ms) (ms_DstHostSetID ms) (ms_DstCIDRs ms) = Inr (rm_dst_cidrs m)
     \<and> resolvePorts Q d tenantID (ms_SrcPortSetID ms) (ms_SrcPorts ms) = Inr (rm_src_ports m)
     \<and> resolvePorts Q d tenantID (ms_DstPortSetID ms) (ms_DstPorts ms) = Inr (rm_dst_ports m)
     \<and> rm_tcp_flags_match m = ms_TCPFlagsMatch ms \<and> rm_tcp_flags_mask m = ms_TCPFlagsMask ms)"

definition rule_faithful :: "Queries \<Rightarrow> db \<Rightarrow> string \<Rightarrow> qfv1_EffectiveRule \<Rightarrow> bool" where
  "rule_faithful Q d tenantID er \<longleftrightarrow> (\<exists>p \<in> set (t_policies d). \<exists>r \<in> set (t_rules d).
     er_rule_id er = pgUUIDToStr (r_ID r) \<and> er_policy_id er = pgUUIDToStr (p_ID p)
     \<and> uuid_Scan Q (er_policy_id er) = Inr (r_PolicyID r)
     \<and> er_rule_name er = r_Name r \<and> er_policy_name er = p_Name p
     \<and> er_policy_priority er = p_Priority p \<and> er_rule_priority er = r_Priority r
     \<and> protoDirectionStr (er_direction er) = r_Direction r \<and> protoActionStr (er_action er) = r_Action r
     \<and> protoConntrackStateStr (er_state er) = nullableString (r_State r)
     \<and> (er_log_enabled er \<longleftrightarrow> r_Log r \<or> r_Action r = ''log'' \<or> r_Action r = ''deny'' \<and> \<not> r_Silent r)
     \<and> er_log_rate_limit_per_sec er = 0
     \<and> (\<exists>m. er_match er = Some m \<and> match_faithful Q d tenantID r m))"

lemma buildProtoRule_match:
  assumes "resolveRule Q d tenantID p r = Inr rr"
  shows "\<exists>m. er_match (buildProtoRule rr) = Some m \<and> match_faithful Q d tenantID r m"
  using assms
  by (auto simp: resolveRule_def bindR_eq_Inr wrapR_eq_Inr buildProtoRule_def match_faithful_def Let_def split: if_splits)

lemma buildProtoRule_enums:
  assumes "rule_row_ok (rr_Rule rr)"
  shows "protoDirectionStr (er_direction (buildProtoRule rr)) = r_Direction (rr_Rule rr)"
    and "protoActionStr (er_action (buildProtoRule rr)) = r_Action (rr_Rule rr)"
    and "protoConntrackStateStr (er_state (buildProtoRule rr)) = nullableString (r_State (rr_Rule rr))"
  using assms
  by (auto simp: rule_row_ok_def buildProtoRule_def Let_def protoDirectionStr_def protoDirection_def protoActionStr_def protoAction_def
      protoConntrackStateStr_def protoState_def nullableString_def enum_defs split: option.splits)

lemma buildProtoRule_logs:
  assumes "rule_row_ok (rr_Rule rr)"
  shows "er_log_enabled (buildProtoRule rr) \<longleftrightarrow>
    r_Log (rr_Rule rr) \<or> r_Action (rr_Rule rr) = ''log'' \<or> r_Action (rr_Rule rr) = ''deny'' \<and> \<not> r_Silent (rr_Rule rr)"
proof -
  have "r_Action (rr_Rule rr) \<in> {''allow'', ''deny'', ''log''}" using assms by (auto simp: rule_row_ok_def)
  then show ?thesis
    by (auto simp: buildProtoRule_def Let_def protoAction_def ACTION_ALLOW_def ACTION_DENY_def ACTION_LOG_def)
qed

lemma buildProtoRule_faithful:
  assumes "resolveRule Q d tenantID p r = Inr rr" and "p \<in> set (t_policies d)" "r \<in> set (t_rules d)" and "rule_row_ok r"
    and "uuid_Scan Q (pgUUIDToStr (p_ID p)) = Inr (r_PolicyID r)"
  shows "rule_faithful Q d tenantID (buildProtoRule rr)"
proof -
  have rr: "rr_Rule rr = r" "rr_Policy rr = p" using resolveRule_rule [OF assms(1)] by simp_all
  note row = buildProtoRule_enums [of rr, unfolded rr, OF assms(4)] buildProtoRule_logs [of rr, unfolded rr, OF assms(4)]
  have cols: "er_rule_id (buildProtoRule rr) = pgUUIDToStr (r_ID r)" "er_policy_id (buildProtoRule rr) = pgUUIDToStr (p_ID p)"
    "er_rule_name (buildProtoRule rr) = r_Name r" "er_policy_name (buildProtoRule rr) = p_Name p"
    "er_policy_priority (buildProtoRule rr) = p_Priority p" "er_rule_priority (buildProtoRule rr) = r_Priority r"
    "er_log_rate_limit_per_sec (buildProtoRule rr) = 0"
    by (simp_all add: buildProtoRule_def Let_def rr)
  show ?thesis unfolding rule_faithful_def
    using buildProtoRule_match [OF assms(1)] assms(2,3,5) row cols by auto
qed

lemma getBundle_faithful:
  assumes "db_typed d" and "getBundle Q B d tenantID hostID = Inr b"
  shows "list_all (pred_option (rule_faithful Q d tenantID)) (pb_rules b) \<and> pb_default_ingress_action b \<in> {ACTION_ALLOW, ACTION_DENY}
    \<and> pb_default_egress_action b \<in> {ACTION_ALLOW, ACTION_DENY}"
proof -
  from assms(2) obtain g where "Build Q (bb_crypto B) (bb_signer B) (bb_now B) d tenantID hostID g = Inr b"
    by (auto simp: getBundle_def GetBundle_def bindR_eq_Inr)
  then obtain rs where rs: "Compile Q d tenantID hostID = Inr rs" "pb_rules b = pb_rules (buildProtoBundle rs g)"
    "pb_default_ingress_action b = protoAction (rs_DefaultIngress rs)" "pb_default_egress_action b = protoAction (rs_DefaultEgress rs)"
    by (rule Build_Inr)
  note rows = Compile_rows [OF rs(1)]
  have "rule_faithful Q d tenantID (buildProtoRule rr)" if "rr \<in> set (rs_Rules rs)" for rr
  proof -
    from bspec [OF conjunct1 [OF rows] that] obtain p r0 where p: "p \<in> set (t_policies d)" and r0: "r0 \<in> set (t_rules d)"
        and s: "uuid_Scan Q (pgUUIDToStr (p_ID p)) = Inr (r_PolicyID r0)" and rr: "resolveRule Q d tenantID p r0 = Inr rr"
      by (elim bexE conjE)
    have "list_all (\<lambda>r. rule_row_ok r \<and> r_PolicyID r \<in> p_ID ` set (t_policies d)) (t_rules d)" using assms(1) by (simp add: db_typed_def policies_typed_def)
    then have "rule_row_ok r0" using r0 by (simp add: list_all_iff)
    then show ?thesis by (rule buildProtoRule_faithful [OF rr p r0 _ s])
  qed
  moreover from rows obtain dp where "dp \<in> set (t_default_policies d)" "rs_DefaultIngress rs = dp_Ingress dp" "rs_DefaultEgress rs = dp_Egress dp"
    by blast
  moreover from this assms(1) have "default_ok dp" by (auto simp: db_typed_def list_all_iff)
  ultimately show ?thesis
    by (auto simp: rs(2-4) buildProtoBundle_def list_all_iff default_ok_def protoAction_def)
qed

text \<open>
  C12. Every state the control plane can reach from well typed tables, by requests of any
  kind, goroutines in any order, enrolments and agents' streams, has well typed tables:
  enumerated columns hold their values, references point to rows, names, versions and token
  hashes are unique, counters are not negative. So in any such state each rule of the bundle
  compiled for any host comes from a row of a policy and a row of one of its rules: it has
  their ids, names and priorities, the direction, action and state of the rule row, logs when
  the row asks for it or the rule logs or denies aloud, and matches the protocol, TCP flags,
  source and destination prefixes and ports of the row's JSON, as \<open>resolveCIDRs\<close> and
  \<open>resolvePorts\<close> resolve them in that state. Its default actions are allow or deny.
\<close>

theorem server_reach_typed:
  assumes "cp_reach A S E s s'" and "db_typed (sv_store s)"
  shows "db_typed (sv_store s') \<and> (getBundle Q B (sv_store s') tenantID hostID = Inr b \<longrightarrow>
     list_all (pred_option (rule_faithful Q (sv_store s') tenantID)) (pb_rules b) \<and> pb_default_ingress_action b \<in> {ACTION_ALLOW, ACTION_DENY}
     \<and> pb_default_egress_action b \<in> {ACTION_ALLOW, ACTION_DENY})"
proof -
  have "db_typed (sv_store s')" by (rule typed.inv_reach [OF assms(1) _ assms(2)]) simp
  then show ?thesis using getBundle_faithful by blast
qed

end
