(* ===== verification/Qf_Sessions.thy ===== *)
theory Qf_Sessions
  imports Qf_Server
begin

text \<open>
  What sessions and roles guarantee in every state the server can reach, and what they do
  not: a password change ends all sessions of the user, policies change only at the request
  of an administrator or editor, and any session can make itself an administrator's token.
\<close>

section \<open>Token versions only grow\<close>

definition outdated :: "bytes \<Rightarrow> i32 \<Rightarrow> db \<Rightarrow> bool" where
  "outdated uid tv d \<longleftrightarrow> list_all (\<lambda>u. u_ID u = uid \<longrightarrow> sint tv < sint (u_TokenVersion u)) (t_users d)"

lemma outdated_users: "t_users d' = t_users d \<Longrightarrow> outdated uid tv d' = outdated uid tv d"
  by (simp add: outdated_def)

lemma keeps_outdated_frame: "(\<And>d. t_users (snd (m d)) = t_users d) \<Longrightarrow> keeps (outdated uid tv) m"
  by (auto simp: keeps_def outdated_def)

lemma users_policy_statements:
  "t_users (snd (CreatePolicy Q tid name desc prio sel d)) = t_users d" "t_users (snd (UpdatePolicy Q pid tid name desc prio sel d)) = t_users d"
  "t_users (snd (DeletePolicy Q pid tid d)) = t_users d" "t_users (snd (CreateRule Q par d)) = t_users d"
  "t_users (snd (UpdateRule Q par d)) = t_users d" "t_users (snd (DeleteRule Q rid d)) = t_users d"
  "t_users (snd (InsertConfigVersion Q tid ty eid content actor d)) = t_users d"
  "t_users (snd (CreateObjectGroup Q tid ty name sp d)) = t_users d" "t_users (snd (UpdateObjectGroup Q oid tid sp d)) = t_users d"
  "t_users (snd (DeleteObjectGroup Q oid tid d)) = t_users d" "t_users (snd (UpsertDefaultPolicy Q tid ing egr d)) = t_users d"
  by (simp_all add: CreatePolicy_def UpdatePolicy_def DeletePolicy_def CreateRule_def UpdateRule_def DeleteRule_def InsertConfigVersion_def
      CreateObjectGroup_def UpdateObjectGroup_def DeleteObjectGroup_def UpsertDefaultPolicy_def writeS_def Let_def
      split: option.split sum.split list.split)

lemma users_host_statements:
  "t_users (snd (CreateHost Q tid name labels st d)) = t_users d" "t_users (snd (UpsertBulkHost Q tid name labels st d)) = t_users d"
  "t_users (snd (UpdateHostLabels Q hid tid labels d)) = t_users d" "t_users (snd (UpdateHostStatus Q hid tid st d)) = t_users d"
  "t_users (snd (UpdateHostHeartbeat Q hid tid gen d)) = t_users d" "t_users (snd (UpdateHostConnected Q hid tid aver kver d)) = t_users d"
  "t_users (snd (UpdateHostGeneration Q hid tid gen d)) = t_users d" "t_users (snd (UpdateHostFlowEnabled Q hid tid v d)) = t_users d"
  "t_users (snd (IncrementHostDesiredGeneration Q hid tid d)) = t_users d" "t_users (snd (MarkStaleHosts Q d)) = t_users d"
  "t_users (snd (DeleteHost Q hid tid d)) = t_users d"
  by (simp_all add: CreateHost_def UpsertBulkHost_def UpdateHostLabels_def UpdateHostStatus_def UpdateHostHeartbeat_def UpdateHostConnected_def
      UpdateHostGeneration_def UpdateHostFlowEnabled_def IncrementHostDesiredGeneration_def MarkStaleHosts_def DeleteHost_def
      exec_hosts_def update_host_def writeS_def Let_def split: option.split sum.split list.split)

lemma users_other_statements:
  "t_users (snd (InsertAuditLog Q tid aty aid ac oty obj b a d)) = t_users d" "t_users (snd (insert_token Q row mx d)) = t_users d"
  "t_users (snd (consume_row Q hash d)) = t_users d" "t_users (snd (DeleteToken Q i d)) = t_users d"
  "t_users (snd (InsertCertificate Q tid hid serial nb na d)) = t_users d" "t_users (snd (UpdateCertificateStatus Q serial st d)) = t_users d"
  "t_users (snd (UpsertUserRole Q uid tid role d)) = t_users d" "t_users (snd (CreateAPIToken Q tid name hash role by until d)) = t_users d"
  "t_users (snd (DeleteAPIToken Q j tid d)) = t_users d" "t_users (snd (UpdateAPITokenLastUsed Q j d)) = t_users d"
  by (simp_all add: InsertAuditLog_def insert_token_def consume_row_def DeleteToken_def InsertCertificate_def UpdateCertificateStatus_def
      UpsertUserRole_def CreateAPIToken_def DeleteAPIToken_def UpdateAPITokenLastUsed_def writeS_def Let_def
      split: option.split sum.split list.split prod.split)

lemma outdated_seq: "outdated uid tv (d\<lparr>t_seq := n\<rparr>) = outdated uid tv d"
  by (simp add: outdated_def)

lemmas keeps_outdated_write = keeps_writeS [of "outdated uid tv" for uid tv, OF outdated_seq]

text \<open>A version below the maximum grows when it is incremented.\<close>

lemma sint_inc_int4: "w \<noteq> int4_max \<Longrightarrow> sint w < sint (w + 1)"
proof -
  assume ne: "w \<noteq> int4_max"
  have m: "sint int4_max = 2 ^ 31 - 1" by (simp add: int4_max_def)
  have "sint w \<le> 2 ^ 31 - 1" using sint_lt [of w] by simp
  moreover have "sint w \<noteq> 2 ^ 31 - 1" using ne m by (metis signed_word_eqI)
  ultimately have "w <s int4_max" using m by (simp add: word_sless_alt)
  then show ?thesis by (simp add: sint_inc)
qed

lemma outdated_update:
  assumes "outdated uid tv d" and "\<And>u. u_ID (f u) = u_ID u"
    and "\<And>u. u \<in> set (t_users d) \<Longrightarrow> R u \<Longrightarrow> sint (u_TokenVersion u) \<le> sint (u_TokenVersion (f u))"
  shows "outdated uid tv (d\<lparr>t_users := update_rows R f (t_users d)\<rparr>)"
  using assms by (fastforce simp: outdated_def update_rows_def list_all_iff)

lemma keeps_outdated_update_user:
  assumes "\<And>u. u_ID (f u) = u_ID u" and "\<And>u. u_TokenVersion (f u) = u_TokenVersion u + 1"
  shows "keeps (outdated uid tv) (update_user b i tid f)"
proof -
  have "outdated uid tv (d\<lparr>t_users := update_rows (user_is i tid) f (t_users d)\<rparr>)"
    if o: "outdated uid tv d" and fl: "filter (user_is i tid) (t_users d) = v # vs"
      and n: "\<not> list_ex (\<lambda>u. u_TokenVersion u = int4_max) (v # vs)" for d v vs
  proof (rule outdated_update [OF o assms(1)])
    fix u assume "u \<in> set (t_users d)" "user_is i tid u"
    then have "u \<in> set (v # vs)" unfolding fl [symmetric] by simp
    then have "u_TokenVersion u \<noteq> int4_max" using n by (auto simp: list_ex_iff)
    then show "sint (u_TokenVersion u) \<le> sint (u_TokenVersion (f u))" using sint_inc_int4 by (simp add: assms(2) less_imp_le)
  qed
  then show ?thesis unfolding keeps_def update_user_def
    by (auto split: list.split)
qed

interpretation versions: store_invariant "outdated uid tv" "\<lambda>Q. \<forall>n. db_uuid Q n \<noteq> uid" for uid tv
proof
  fix Q :: Queries assume fresh: "\<forall>n. db_uuid Q n \<noteq> uid"
  show "keeps (outdated uid tv) (CreateUser Q tid email username pw subj)" for tid email username pw subj
    unfolding CreateUser_def using fresh by (intro keeps_outdated_write) (auto simp: keeps_def outdated_def Let_def)
  show "keeps (outdated uid tv) (UpdateUserPassword Q i tid pw)" "keeps (outdated uid tv) (UpdateUserStatus Q i tid st)" for i tid pw st
    unfolding UpdateUserPassword_def UpdateUserStatus_def by (intro keeps_outdated_write keeps_outdated_update_user; simp)+
  show "keeps (outdated uid tv) (BumpUserTokenVersion Q i)" for i
    unfolding BumpUserTokenVersion_def
    by (intro keeps_outdated_write) (auto simp: keeps_def list_ex_iff intro!: outdated_update less_imp_le [OF sint_inc_int4])
  show "keeps (outdated uid tv) (UpdateUserLastLogin Q i)" "keeps (outdated uid tv) (UpdateUserOIDCSubject Q i tid subj)" for i tid subj
    unfolding UpdateUserLastLogin_def UpdateUserOIDCSubject_def
    by (intro keeps_outdated_write; auto simp: keeps_def intro!: outdated_update)+
  show "keeps (outdated uid tv) (DeleteUser Q i tid)" for i tid
    unfolding DeleteUser_def by (intro keeps_outdated_write) (auto simp: keeps_def outdated_def Let_def list_all_iff)
qed (simp_all add: outdated_seq keeps_outdated_frame users_policy_statements users_host_statements users_other_statements)

section \<open>A password change ends the sessions of the user\<close>

lemma bindH_Inl:
  "bindH m f w = (Inl r, w') \<longleftrightarrow> m w = (Inl r, w') \<or> (\<exists>x w1. m w = (Inr x, w1) \<and> f x w1 = (Inl r, w'))"
  by (auto simp: bindH_def split: prod.splits sum.splits)

text \<open>Errors are not the answer 204, and what does not answer goes on.\<close>

lemma no_content:
  "apiError c e w \<noteq> (Inl (k, NoBody), w')" "liftH c msg r w \<noteq> (Inl (k, NoBody), w')" "queryH c msg g w \<noteq> (Inl (k, NoBody), w')"
  "stmtH c msg m w \<noteq> (Inl (k, NoBody), w')" "unauthorized w \<noteq> (Inl (k, NoBody), w')"
  by (auto simp: apiError_def liftH_def queryH_def stmtH_def unauthorized_def retH_def Let_def split: sum.splits prod.splits)

lemma went_on:
  "liftH c msg r w = (Inr x, w1) \<longleftrightarrow> r = Inr x \<and> w1 = w" "queryH c msg g w = (Inr x, w1) \<longleftrightarrow> g (wb_store w) = Inr x \<and> w1 = w"
  "stmtH c msg m w = (Inr x, w1) \<longleftrightarrow> (\<exists>d. m (wb_store w) = (Inr x, d) \<and> w1 = w\<lparr>wb_cp := (wb_cp w)\<lparr>store := d\<rparr>\<rparr>)"
  by (auto simp: liftH_def queryH_def stmtH_def apiError_def retH_def Let_def split: sum.splits prod.splits)

lemma ChangePassword_done:
  assumes "auth_ChangePassword A rq body w = (Inl (204, NoBody), w')" and "rq_claims rq = Some c"
  shows "\<exists>uid h u. uuid_Scan (ap_q A) (cl_UserID c) = Inr uid
    \<and> UpdateUserPassword (ap_q A) uid (ap_tenantID A) h (wb_store w) = (Inr u, wb_store w')"
proof -
  from assms obtain cur new uid and user :: User where u: "uuid_Scan (ap_q A) (cl_UserID c) = Inr uid"
    and r: "((case u_PasswordHash user of None \<Rightarrow> apiError 400 (Errorf ''password change not supported for OIDC accounts'')
       | Some hash \<Rightarrow>
           if \<not> ap_bcrypt_Compare A hash cur then apiError 401 (Errorf ''current password incorrect'')
           else bindH (liftH 500 internal_error (ap_bcrypt_Generate A new)) (\<lambda>newHash.
                bindH (stmtH 500 internal_error (UpdateUserPassword (ap_q A) uid (ap_tenantID A) (Some newHash))) (\<lambda>_.
                  writeJSON 204 NoBody))) :: response handler) w = (Inl (204, NoBody), w')"
    by (auto simp: auth_ChangePassword_def bindH_Inl no_content went_on split: prod.splits if_splits)
  then show ?thesis
    by (cases "u_PasswordHash user") (auto simp: bindH_Inl no_content went_on writeJSON_def split: if_splits, blast)
qed

lemma UpdateUserPassword_outdates:
  assumes "UpdateUserPassword Q uid tid h d = (Inr u, d')" and "distinct (map u_ID (t_users d))"
    and "\<And>v. v \<in> set (t_users d) \<Longrightarrow> u_ID v = uid \<Longrightarrow> sint tv \<le> sint (u_TokenVersion v)"
  shows "outdated uid tv d'"
proof -
  let ?f = "\<lambda>u. u\<lparr>u_PasswordHash := h, u_TokenVersion := u_TokenVersion u + 1\<rparr>"
  from assms(1) obtain v vs where fl: "filter (user_is uid tid) (t_users d) = v # vs"
    and n: "\<not> list_ex (\<lambda>u. u_TokenVersion u = int4_max) (v # vs)" and d': "t_users d' = update_rows (user_is uid tid) ?f (t_users d)"
    by (auto simp: UpdateUserPassword_def writeS_def update_user_def Let_def split: option.splits list.splits if_splits)
  have v: "v \<in> set (t_users d)" "user_is uid tid v" using fl by (auto dest!: filter_eq_ConsD)
  have "user_is uid tid x" if "x \<in> set (t_users d)" "u_ID x = uid" for x
    using assms(2) v that by (auto simp: distinct_map user_is_def dest: inj_onD)
  moreover have "sint tv < sint (u_TokenVersion x + 1)" if "x \<in> set (t_users d)" "user_is uid tid x" for x
  proof -
    from that have "x \<in> set (v # vs)" unfolding fl [symmetric] by simp
    then have "u_TokenVersion x \<noteq> int4_max" using n by (auto simp: list_ex_iff)
    from sint_inc_int4 [OF this] show ?thesis using assms(3) [of x] that by (simp add: user_is_def)
  qed
  ultimately show ?thesis by (auto simp: outdated_def d' list_all_iff update_rows_def)
qed

lemma Refresh_outdated:
  assumes "outdated uid tv (wb_store w)" and "rq_refresh rq = Some tok" and "ParseRefreshToken A now tok = Inr (sub, tv)"
    and "uuid_Scan (ap_q A) sub = Inr uid"
  shows "\<exists>e. auth_Refresh A now rq w = (Inl (401, ErrorBody e), w)"
proof (cases "GetUser (ap_q A) (wb_store w) uid (ap_tenantID A)")
  case (Inl e)
  then show ?thesis using assms by (simp add: auth_Refresh_def bindH_def liftH_def retH_def queryH_def apiError_def)
next
  case (Inr user)
  then have "user \<in> set (t_users (wb_store w))" "u_ID user = uid"
    by (auto simp: GetUser_def query_one_def query_def bindR_eq_Inr user_is_def split: option.splits list.splits dest!: filter_eq_ConsD)
  then have "tv \<noteq> u_TokenVersion user" using assms(1) by (auto simp: outdated_def list_all_iff)
  then show ?thesis using assms Inr by (simp add: auth_Refresh_def bindH_def liftH_def retH_def queryH_def apiError_def unauthorized_def)
qed

lemma serve_ChangePassword:
  assumes "serve A now rq (ChangePassword b) w = (Inl (204, NoBody), w')"
  shows "\<exists>c w1 w2. ParseAccessToken A now (bearer_of rq) = Inr c \<and> wb_store w1 = wb_store w \<and> wb_store w2 = wb_store w'
    \<and> auth_ChangePassword A (with_claims (rq\<lparr>rq_claims := None\<rparr>) c) b w1 = (Inl (204, NoBody), w2)"
proof -
  define w1 where "w1 = w\<lparr>wb_before := None\<rparr>"
  obtain r w2 where n: "JWTMiddleware A now (\<lambda>rq. auth_ChangePassword A rq b) (rq\<lparr>rq_claims := None\<rparr>) w1 = (r, w2)" by fastforce
  then have r: "r = Inl (204, NoBody)" "wb_store w2 = wb_store w'"
    using assms by (auto simp: serve_def audit_wrap_def w1_def)
  have "bearer_of (rq\<lparr>rq_claims := None\<rparr>) = bearer_of rq"
    by (cases "rq_cookie rq") (simp_all add: bearer_of_def)
  then obtain c where "ParseAccessToken A now (bearer_of rq) = Inr c"
    "auth_ChangePassword A (with_claims (rq\<lparr>rq_claims := None\<rparr>) c) b w1 = (Inl (204, NoBody), w2)"
    using n unfolding r by (auto simp: JWTMiddleware_def Let_def no_content split: if_splits sum.splits)
  moreover have "wb_store w1 = wb_store w" by (simp add: w1_def)
  ultimately show ?thesis using r(2) by blast
qed

text \<open>
  C14. A password change ends every session of the user: after the request was answered with
  success, and in every state the server can reach from there, a refresh token that was
  issued before the change is refused, so no new access token is issued for it. The
  ids that \<open>gen_random_uuid\<close> makes are only assumed to be new.
\<close>

theorem password_change_ends_sessions:
  assumes "serve A now rq (ChangePassword b) (sv_web s) = (Inl (204, NoBody), w)"
    and "ParseAccessToken A now (bearer_of rq) = Inr c" and "uuid_Scan (ap_q A) (cl_UserID c) = Inr uid"
    and "distinct (map u_ID (t_users (sv_store s)))"
    and "cp_reach A S E (s\<lparr>sv_web := w\<rparr>) s'" and "\<And>Q n. Q \<in> cp_queries A S E \<Longrightarrow> db_uuid Q n \<noteq> uid"
    and "rq_refresh rq' = Some tok" and "ParseRefreshToken A now' tok = Inr (sub, tv)" and "uuid_Scan (ap_q A) sub = Inr uid"
    and "\<And>u. u \<in> set (t_users (sv_store s)) \<Longrightarrow> u_ID u = uid \<Longrightarrow> sint tv \<le> sint (u_TokenVersion u)"
  shows "\<exists>e. fst (serve A now' rq' Refresh (sv_web s')) = Inl (401, ErrorBody e)"
proof -
  from serve_ChangePassword [OF assms(1)] assms(2) obtain w1 w2 where w: "wb_store w1 = sv_store s" "wb_store w2 = wb_store w"
    "auth_ChangePassword A (with_claims (rq\<lparr>rq_claims := None\<rparr>) c) b w1 = (Inl (204, NoBody), w2)" by auto
  from ChangePassword_done [OF w(3)] assms(3) w(1,2) obtain h u where
    "UpdateUserPassword (ap_q A) uid (ap_tenantID A) h (sv_store s) = (Inr u, wb_store w)"
    by (auto simp: with_claims_def)
  from UpdateUserPassword_outdates [OF this assms(4,10)] have "outdated uid tv (sv_store (s\<lparr>sv_web := w\<rparr>))" by simp
  then have "outdated uid tv (sv_store s')" using versions.inv_reach [OF assms(5)] assms(6) by blast
  then have "outdated uid tv (wb_store ((sv_web s')\<lparr>wb_before := None\<rparr>))" by simp
  from Refresh_outdated [OF this _ assms(8,9), of "rq'\<lparr>rq_claims := None\<rparr>"] assms(7)
  show ?thesis by (auto simp: serve_def audit_wrap_def)
qed

section \<open>Who changes policies\<close>

text \<open>The claims of an API token's row.\<close>

definition token_claims :: "api \<Rightarrow> ApiToken \<Rightarrow> Claims" where
  "token_claims A t = \<lparr>cl_UserID = uuidStr (at_CreatedBy t), cl_TenantID = uuidStr (Some (ap_tenantID A)), cl_Username = '''', cl_Email = '''',
     cl_Role = at_Role t\<rparr>"

text \<open>
  The claims \<open>c\<close> a request can prove: with a JWT that verifies, or with an API token of the
  tenant that is in the table and has not expired.
\<close>

definition credential :: "api \<Rightarrow> int \<Rightarrow> db \<Rightarrow> http_Request \<Rightarrow> Claims \<Rightarrow> bool" where
  "credential A now d rq c \<longleftrightarrow> ParseAccessToken A now (bearer_of rq) = Inr c
     \<or> (\<exists>t \<in> set (t_api_tokens d). at_TokenHash t = sha256Hex A (drop 7 (rq_authz rq)) \<and> at_TenantID t = ap_tenantID A
          \<and> pred_option (\<lambda>e. now \<le> e) (at_ExpiresAt t) \<and> c = token_claims A t)"

lemma GetAPITokenByHash_Inr: "GetAPITokenByHash Q d h = Inr t \<Longrightarrow> t \<in> set (t_api_tokens d) \<and> at_TokenHash t = h"
  by (auto simp: GetAPITokenByHash_def query_one_def query_def bindR_eq_Inr split: option.splits list.splits dest: filter_eq_ConsD)

text \<open>The authentication middleware refuses, or goes on with claims the request has proved.\<close>

lemma JWTMiddleware_cases:
  "(\<exists>r. JWTMiddleware A now nxt rq w = (Inl r, w)) \<or>
   (\<exists>c. credential A now (wb_store w) rq c \<and> JWTMiddleware A now nxt rq w = nxt (with_claims rq c) w)"
  by (auto simp: JWTMiddleware_def Let_def unauthorized_def apiError_def credential_def split: sum.split)

lemma APITokenMiddleware_cases:
  "(\<exists>r. APITokenMiddleware A now nxt rq w = (Inl r, w)) \<or>
   (\<exists>c w1. credential A now (wb_store w) rq c \<and> wb_store w1 = wb_store w \<and> APITokenMiddleware A now nxt rq w = nxt (with_claims rq c) w1)"
proof (cases "GetAPITokenByHash (ap_q A) (wb_store w) (sha256Hex A (drop 7 (rq_authz rq)))")
  case (Inr t)
  note g = GetAPITokenByHash_Inr [OF Inr]
  show ?thesis
  proof (cases "is_bearer (rq_authz rq) \<and> at_TenantID t = ap_tenantID A \<and> pred_option (\<lambda>e. now \<le> e) (at_ExpiresAt t)")
    case True
    then have "APITokenMiddleware A now nxt rq w = nxt (with_claims rq (token_claims A t)) (w\<lparr>wb_jobs := wb_jobs w @ [JobTokenUsed (at_ID t)]\<rparr>)"
      using Inr by (auto simp: APITokenMiddleware_def bindH_def queryH_def spawn_def token_claims_def split: option.splits)
    moreover have "credential A now (wb_store w) rq (token_claims A t)" using True g unfolding credential_def by blast
    ultimately show ?thesis by (intro disjI2 exI conjI) auto
  next
    case False
    then show ?thesis using Inr
      by (cases "at_ExpiresAt t") (auto simp: APITokenMiddleware_def bindH_def queryH_def unauthorized_def apiError_def)
  qed
qed (simp add: APITokenMiddleware_def bindH_def queryH_def unauthorized_def apiError_def)

lemma authAny_cases:
  "(\<exists>r. authAny A now nxt rq w = (Inl r, w)) \<or>
   (\<exists>c w1. credential A now (wb_store w) rq c \<and> wb_store w1 = wb_store w \<and> authAny A now nxt rq w = nxt (with_claims rq c) w1)"
  using JWTMiddleware_cases [of A now nxt rq w] APITokenMiddleware_cases [of A now nxt rq w]
  by (auto simp: authAny_def unauthorized_def apiError_def split: option.splits)

lemma frame_account_statements:
  "keeps (\<lambda>d. policy_tables d = T) (CreateUser Q tid email username pw subj)" "keeps (\<lambda>d. policy_tables d = T) (UpdateUserPassword Q uid tid pw)"
  "keeps (\<lambda>d. policy_tables d = T) (UpdateUserStatus Q uid tid st)" "keeps (\<lambda>d. policy_tables d = T) (BumpUserTokenVersion Q uid)"
  "keeps (\<lambda>d. policy_tables d = T) (UpdateUserLastLogin Q uid)" "keeps (\<lambda>d. policy_tables d = T) (UpdateUserOIDCSubject Q uid tid subj)"
  "keeps (\<lambda>d. policy_tables d = T) (DeleteUser Q uid tid)" "keeps (\<lambda>d. policy_tables d = T) (UpsertUserRole Q uid tid role)"
  "keeps (\<lambda>d. policy_tables d = T) (CreateAPIToken Q tid name hash role by until)" "keeps (\<lambda>d. policy_tables d = T) (DeleteAPIToken Q i tid)"
  unfolding CreateUser_def UpdateUserPassword_def UpdateUserStatus_def BumpUserTokenVersion_def UpdateUserLastLogin_def
    UpdateUserOIDCSubject_def DeleteUser_def UpsertUserRole_def CreateAPIToken_def DeleteAPIToken_def
  by (rule keeps_writeS; auto simp: keeps_def policy_tables_def update_user_def Let_def split: list.splits)+

lemma frame_findOrCreateOIDCUser: "keeps (\<lambda>d. policy_tables d = T) (findOrCreateOIDCUser A email username subject)"
proof -
  have c: "keeps (\<lambda>d. policy_tables d = T) (bindS (wrapS m1 (CreateUser (ap_q A) tid email name None (Some subject))) (\<lambda>user.
      bindS (wrapS m2 (UpsertUserRole (ap_q A) (u_ID user) tid ''auditor'')) (\<lambda>_. retS (user, ''auditor''))))" for m1 m2 tid name
    by (intro keeps_intros frame_account_statements)
  have u: "policy_tables d1 = T" if "UpdateUserOIDCSubject (ap_q A) uid tid v d = (r, d1)" "policy_tables d = T" for uid tid v d r d1
    using keepsD' [OF frame_account_statements(6), OF that] .
  show ?thesis using keepsD [OF c] u
    by (auto simp: keeps_def findOrCreateOIDCUser_def split: sum.splits prod.splits if_splits)
qed

lemmas frame_intros = keepsH_intros frame_account_statements

lemma frame_startSession: "keepsH (\<lambda>d. policy_tables d = T) (startSession A now user role)"
  unfolding startSession_def Let_def by (intro frame_intros)

lemma frame_auth:
  "keepsH (\<lambda>d. policy_tables d = T) (auth_Login A now b)" "keepsH (\<lambda>d. policy_tables d = T) (auth_Logout A rq)"
  "keepsH (\<lambda>d. policy_tables d = T) (auth_ChangePassword A rq b)" "keepsH (\<lambda>d. policy_tables d = T) (oidc_Callback A now ck st v)"
  unfolding auth_Login_def auth_Logout_def auth_ChangePassword_def oidc_Callback_def Let_def
  by (auto simp: keepsH_splits intro!: frame_intros frame_startSession frame_findOrCreateOIDCUser)

lemma frame_users:
  "keepsH (\<lambda>d. policy_tables d = T) (users_create A bc)" "keepsH (\<lambda>d. policy_tables d = T) (users_patch A rq bp)"
  "keepsH (\<lambda>d. policy_tables d = T) (users_delete A rq)" "keepsH (\<lambda>d. policy_tables d = T) (users_putRole A rq br)"
  "keepsH (\<lambda>d. policy_tables d = T) (apiTokens_create A rq rnd bt)" "keepsH (\<lambda>d. policy_tables d = T) (apiTokens_delete A rq)"
  unfolding users_create_def users_patch_def users_delete_def users_putRole_def patch_password_def patch_user_status_def
    apiTokens_create_def apiTokens_delete_def Let_def
  by (auto simp: keepsH_splits intro!: frame_intros)

lemma dispatch_frame:
  assumes "\<And>c. credential A now (wb_store w) rq c \<Longrightarrow> cl_Role c \<notin> {''admin'', ''editor''}"
  shows "policy_tables (wb_store (snd (dispatch_request A now e rq w))) = policy_tables (wb_store w)"
proof (cases "\<exists>x. e = Api x")
  case True
  then obtain x where e: "e = Api x" by blast
  from authAny_cases [of A now "\<lambda>rq. route A rq x" rq w] show ?thesis
  proof (elim disjE exE conjE)
    fix c w1 assume c: "credential A now (wb_store w) rq c" "wb_store w1 = wb_store w"
      "authAny A now (\<lambda>rq. route A rq x) rq w = route A (with_claims rq c) x w1"
    then have "\<not> may_edit (with_claims rq c)" using assms [OF c(1)] by (simp add: may_edit_def with_claims_def)
    from keepsHD [OF route_frame [OF this], of w1] show ?thesis by (simp add: e c)
  qed (simp add: e)
next
  case False
  then have "keepsH (\<lambda>d. policy_tables d = policy_tables (wb_store w)) (dispatch_request A now e rq)"
    by (cases e) (auto intro!: keepsH_JWTMiddleware keepsH_authAny keepsH_intros keepsH_loginRL frame_auth frame_users)
  from keepsHD [OF this, of w] show ?thesis by simp
qed

text \<open>
  C13. No request changes policies, rules, object groups, default policies or versions unless
  it proves, with a JWT that verifies or with an unexpired API token of the tenant, that it
  has the role of an administrator or editor.
\<close>

theorem policies_need_editor:
  assumes "policy_tables (wb_store (snd (serve A now rq e w))) \<noteq> policy_tables (wb_store w)"
  shows "\<exists>c. credential A now (wb_store w) rq c \<and> cl_Role c \<in> {''admin'', ''editor''}"
proof (rule ccontr)
  assume n: "\<not> ?thesis"
  have c: "credential A now d (rq\<lparr>rq_claims := None\<rparr>) x = credential A now d rq x" for d x
    by (cases "rq_cookie rq") (simp_all add: credential_def bearer_of_def)
  have "policy_tables (wb_store (snd (dispatch_request A now e (rq\<lparr>rq_claims := None\<rparr>) v))) = policy_tables (wb_store v)"
    if "wb_store v = wb_store w" for v
    using n that c by (intro dispatch_frame) auto
  then show False using assms unfolding serve_def audit_wrap_store by simp
qed

section \<open>Any session can become an administrator\<close>

lemma hex_digit_not_dot: "n < 16 \<Longrightarrow> hex_digit n \<noteq> CHR ''.''"
proof
  assume n: "n < 16" and "hex_digit n = CHR ''.''"
  then have "of_char (hex_digit n) = (46 :: nat)" by simp
  then show False using n by (auto simp: hex_digit_def split: if_splits)
qed

lemma hexEncode_no_dot: "filter (\<lambda>c. c = CHR ''.'') (hexEncode bs) = []"
  using unat_u8_less by (induction bs) (auto simp: hexEncode_def hex_digit_not_dot less_mult_imp_div_less)

lemma CreateAPIToken_ok:
  assumes "\<And>n. db_werr Q n = None" and "role_ok role" and "hash \<notin> at_TokenHash ` set (t_api_tokens d)" and "u \<in> u_ID ` set (t_users d)"
  shows "\<exists>t d'. CreateAPIToken Q tid name hash role (Some u) until d = (Inr t, d') \<and> t_api_tokens d' = t_api_tokens d @ [t]
    \<and> at_TenantID t = tid \<and> at_TokenHash t = hash \<and> at_Role t = role \<and> at_ExpiresAt t = until"
  using assms by (simp add: CreateAPIToken_def writeS_def Let_def)

text \<open>
  C34. The role of a session does not limit the API tokens it can make: a session of any role
  that asks for a token with the role of an administrator gets one, and every request that
  presents it is handled with that role.
\<close>

theorem any_session_mints_admin:
  assumes "rq_cookie rq = Some ck" and "ck \<noteq> ''''" and "ParseAccessToken A now ck = Inr c"
    and "name \<noteq> ''''" and "bs \<noteq> []" and "\<And>n. db_werr (ap_q A) n = None" and "db_err (ap_q A) ''GetAPITokenByHash'' = None"
    and "uuid_Scan (ap_q A) (cl_UserID c) = Inr u" and "u \<in> u_ID ` set (t_users (wb_store w))"
    and "sha256Hex A (hexEncode bs) \<notin> at_TokenHash ` set (t_api_tokens (wb_store w))"
  shows "\<exists>t w'. serve A now rq (ApiTokensCreate (Inr bs) (Inr (name, ''admin'', None))) w = (Inl (201, ApiTokenBody t), w')
    \<and> (rq_cookie rq2 = None \<and> rq_authz rq2 = ''Bearer '' @ atr_PlainToken t \<longrightarrow>
       (\<exists>c2 w2. cl_Role c2 = ''admin'' \<and> wb_store w2 = wb_store w'
          \<and> dispatch_request A now2 (Api e) rq2 w' = route A (with_claims rq2 c2) e w2))"
proof -
  define v where "v = w\<lparr>wb_before := None\<rparr>"
  have "\<exists>t d'. CreateAPIToken (ap_q A) (ap_tenantID A) name (sha256Hex A (hexEncode bs)) ''admin'' (Some u) None (wb_store w) = (Inr t, d')
      \<and> t_api_tokens d' = t_api_tokens (wb_store w) @ [t] \<and> at_TenantID t = ap_tenantID A
      \<and> at_TokenHash t = sha256Hex A (hexEncode bs) \<and> at_Role t = ''admin'' \<and> at_ExpiresAt t = None"
    by (rule CreateAPIToken_ok) (use assms in \<open>simp_all add: role_ok_def\<close>)
  then obtain t d' where t: "CreateAPIToken (ap_q A) (ap_tenantID A) name (sha256Hex A (hexEncode bs)) ''admin'' (Some u) None (wb_store w) = (Inr t, d')"
    "t_api_tokens d' = t_api_tokens (wb_store w) @ [t]" "at_TenantID t = ap_tenantID A"
    "at_TokenHash t = sha256Hex A (hexEncode bs)" "at_Role t = ''admin''" "at_ExpiresAt t = None" by blast
  define w' where "w' = v\<lparr>wb_cp := (wb_cp v)\<lparr>store := d'\<rparr>\<rparr>"
  have r: "dispatch_request A now (ApiTokensCreate (Inr bs) (Inr (name, ''admin'', None))) (rq\<lparr>rq_claims := None\<rparr>) v =
      (Inl (201, ApiTokenBody (tokenToResponse t (hexEncode bs))), w')"
    using assms t(1) by (simp add: authAny_def JWTMiddleware_def bearer_of_def apiTokens_create_def bindH_def liftH_def retH_def validRole_def
        scan_opt_def with_claims_def stmtH_def writeJSON_def Let_def w'_def v_def)
  have g: "GetAPITokenByHash (ap_q A) d' (sha256Hex A (hexEncode bs)) = Inr t"
  proof -
    have "filter (\<lambda>x. at_TokenHash x = sha256Hex A (hexEncode bs)) (t_api_tokens (wb_store w)) = []"
      using assms(10) unfolding filter_empty_conv by (metis imageI)
    then show ?thesis by (simp add: GetAPITokenByHash_def query_one_def query_def assms(7) t(2,4))
  qed
  have "dispatch_request A now2 (Api e) rq2 w' = route A (with_claims rq2 (token_claims A t)) e (w'\<lparr>wb_jobs := wb_jobs w' @ [JobTokenUsed (at_ID t)]\<rparr>)"
    if "rq_cookie rq2 = None" "rq_authz rq2 = ''Bearer '' @ hexEncode bs"
  proof -
    have "0 < length (hexEncode bs)" using assms(5) by (cases bs) (simp_all add: hexEncode_def)
    then have "authAny A now2 (\<lambda>rq. route A rq e) rq2 = APITokenMiddleware A now2 (\<lambda>rq. route A rq e) rq2"
      using that by (simp add: authAny_def is_bearer_def looks_like_jwt_def hexEncode_no_dot)
    then show ?thesis using that g t
      by (simp add: APITokenMiddleware_def is_bearer_def bindH_def queryH_def spawn_def token_claims_def w'_def)
  qed
  moreover have "cl_Role (token_claims A t) = ''admin''" by (simp add: token_claims_def t(5))
  ultimately have "rq_cookie rq2 = None \<and> rq_authz rq2 = ''Bearer '' @ hexEncode bs \<longrightarrow>
      (\<exists>c2 w2. cl_Role c2 = ''admin'' \<and> wb_store w2 = wb_store w'
         \<and> dispatch_request A now2 (Api e) rq2 w' = route A (with_claims rq2 c2) e w2)"
    by (intro impI exI [of _ "token_claims A t"] exI [of _ "w'\<lparr>wb_jobs := wb_jobs w' @ [JobTokenUsed (at_ID t)]\<rparr>"]) simp
  moreover have "atr_PlainToken (tokenToResponse t (hexEncode bs)) = hexEncode bs" by (simp add: tokenToResponse_def)
  moreover have "serve A now rq (ApiTokensCreate (Inr bs) (Inr (name, ''admin'', None))) w =
      (Inl (201, ApiTokenBody (tokenToResponse t (hexEncode bs))), w')"
    using r by (simp add: serve_def audit_wrap_def v_def audit_request_def)
  ultimately show ?thesis by metis
qed


section \<open>Witnesses\<close>

text \<open>
  A server with one administrator: the token \<open>a.b.c\<close> verifies as their access token, \<open>r.r.r\<close> as
  their refresh token of version 0, and a password's hash is the password after a letter.
\<close>

definition ex_payload :: jwt_payload where
  "ex_payload = \<lparr>jp_uid = pgUUIDToStr (ex_id 7), jp_tid = pgUUIDToStr (ex_id 9), jp_username = ''root'', jp_email = ''root@qf'',
     jp_role = ''admin'', jp_tv = 0, jp_sub = '''', jp_iat = 0, jp_exp = 900\<rparr>"

definition ex_A :: api where
  "ex_A = \<lparr>ap_q = ex_Q, ap_X = ex_X, ap_cascade = None, ap_tenantID = ex_id 9, ap_disconnector = False, ap_json = (\<lambda>_. []),
     ap_snapshot = (\<lambda>_. []), ap_unsnapshot = (\<lambda>_. Inl (Errorf ''json'')), ap_secret = [1], ap_jwt_Sign = (\<lambda>_ _. Inr ''a.b.c''),
     ap_jwt_Parse = (\<lambda>_ _ tok. if tok = ''a.b.c'' then Inr ex_payload
        else if tok = ''r.r.r'' then Inr (ex_payload\<lparr>jp_uid := '''', jp_tid := '''', jp_username := '''', jp_email := '''', jp_role := '''',
               jp_sub := pgUUIDToStr (ex_id 7)\<rparr>)
        else Inl (Errorf ''token'')),
     ap_bcrypt_Compare = (\<lambda>h p. h = ''h'' @ p), ap_bcrypt_Generate = (\<lambda>p. Inr (''h'' @ p))\<rparr>"

definition ex_user :: User where
  "ex_user = \<lparr>u_ID = ex_id 7, u_TenantID = ex_id 9, u_Email = ''root@qf'', u_PasswordHash = Some ''hold'', u_OidcSubject = None,
     u_Status = ''active'', u_LastLoginAt = None, u_CreatedAt = 0, u_Username = ''root'', u_TokenVersion = 0\<rparr>"

definition ex_web :: web where
  "ex_web = \<lparr>wb_cp = \<lparr>store = ex_db\<lparr>t_users := [ex_user]\<rparr>, registry = NewStreamRegistry\<rparr>, wb_jobs = [], wb_before = None, wb_logins = Map.empty\<rparr>"

definition ex_server :: server where
  "ex_server = \<lparr>sv_web = ex_web, sv_revoked = None, sv_ing = None\<rparr>"

definition ex_rq :: http_Request where
  "ex_rq = \<lparr>rq_claims = None, rq_cookie = Some ''a.b.c'', rq_refresh = Some ''r.r.r'', rq_authz = '''', rq_ip = '''', rq_path = '''', rq_tenant = '''',
     rq_id = '''', rq_ruleID = '''', rq_v = '''', rq_type = ''''\<rparr>"

lemma ex_A [simp]: "ap_q ex_A = ex_Q" "ap_tenantID ex_A = ex_id 9" "ap_cascade ex_A = None"
  "ap_bcrypt_Compare ex_A h p \<longleftrightarrow> h = ''h'' @ p" "ap_bcrypt_Generate ex_A p = Inr (''h'' @ p)"
  by (simp_all add: ex_A_def)

lemma pgUUIDToStr_ne: "pgUUIDToStr b \<noteq> ''''"
  by (simp add: pgUUIDToStr_def)

lemma ex_claims: "ParseAccessToken ex_A now ''a.b.c'' = Inr \<lparr>cl_UserID = pgUUIDToStr (ex_id 7), cl_TenantID = pgUUIDToStr (ex_id 9),
    cl_Username = ''root'', cl_Email = ''root@qf'', cl_Role = ''admin''\<rparr>"
  by (simp add: ParseAccessToken_def ex_A_def ex_payload_def)

lemma ex_refresh: "ParseRefreshToken ex_A now ''r.r.r'' = Inr (pgUUIDToStr (ex_id 7), 0)"
  by (simp add: ParseRefreshToken_def ex_A_def ex_payload_def)

lemma ex_users: "t_users (wb_store ex_web) = [ex_user]" "t_api_tokens (wb_store ex_web) = []"
  by (simp_all add: ex_web_def ex_db_def empty_db_def)

lemma ex_uuid_fresh: "db_uuid ex_Q n \<noteq> ex_id m"
  by (simp add: ex_Q_def ex_id_def)

lemma ex_errs: "db_werr ex_Q n = None" "db_err ex_Q name = None"
  by (simp_all add: ex_Q_def)

theorem policies_need_editor_witness:
  "policy_tables (wb_store (snd (serve ex_A 0 ex_rq (Api (DefaultPolicyPut (Inr (''deny'', ''allow'')))) ex_web))) \<noteq> policy_tables (wb_store ex_web)
   \<and> (\<exists>c. credential ex_A 0 (wb_store ex_web) ex_rq c \<and> cl_Role c \<in> {''admin'', ''editor''})"
proof -
  have n: "policy_tables (wb_store (snd (serve ex_A 0 ex_rq (Api (DefaultPolicyPut (Inr (''deny'', ''allow'')))) ex_web))) \<noteq> policy_tables (wb_store ex_web)"
    unfolding serve_def audit_wrap_store
    by (simp add: authAny_def JWTMiddleware_def bearer_of_def ex_rq_def ex_claims Let_def with_claims_def pgUUIDToStr_ne
        defaultpolicy_put_def bindH_def retH_def RequireRole_def tenantFromRequest_def decodeJSON_def liftH_def stmtH_def ex_scan
        UpsertDefaultPolicy_def writeS_def ex_errs ex_web_def ex_db_def empty_db_def policy_tables_def writeJSON_def update_rows_def)
  from policies_need_editor [OF n] n show ?thesis by blast
qed

theorem any_session_mints_admin_witness:
  "\<exists>t w'. serve ex_A 0 ex_rq (ApiTokensCreate (Inr [5]) (Inr (''ci'', ''admin'', None))) ex_web = (Inl (201, ApiTokenBody t), w')
    \<and> (rq_cookie (ex_rq\<lparr>rq_cookie := None\<rparr>) = None \<and> rq_authz (ex_rq\<lparr>rq_cookie := None\<rparr>) = ''Bearer '' @ atr_PlainToken t \<longrightarrow>
       (\<exists>c2 w2. cl_Role c2 = ''admin'' \<and> wb_store w2 = wb_store w'
          \<and> dispatch_request ex_A 1 (Api HostsList) (ex_rq\<lparr>rq_cookie := None\<rparr>) w' = route ex_A (with_claims (ex_rq\<lparr>rq_cookie := None\<rparr>) c2) HostsList w2))"
  by (rule any_session_mints_admin [OF _ _ ex_claims, where u = "ex_id 7"])
     (simp_all add: ex_rq_def ex_errs ex_scan ex_users ex_user_def)

theorem password_change_ends_sessions_witness:
  "\<exists>w. serve ex_A 0 ex_rq (ChangePassword (Inr (''old'', ''longenough''))) ex_web = (Inl (204, NoBody), w)
     \<and> (\<exists>e. fst (serve ex_A 5 ex_rq Refresh w) = Inl (401, ErrorBody e))"
proof -
  obtain w where w: "serve ex_A 0 ex_rq (ChangePassword (Inr (''old'', ''longenough''))) (sv_web ex_server) = (Inl (204, NoBody), w)"
    by (simp add: serve_def audit_wrap_def JWTMiddleware_def bearer_of_def ex_rq_def ex_claims Let_def with_claims_def
        auth_ChangePassword_def bindH_def retH_def liftH_def queryH_def stmtH_def ex_scan GetUser_def query_one_def query_def ex_errs
        ex_server_def ex_users user_is_def UpdateUserPassword_def update_user_def writeS_def writeJSON_def ex_user_def int4_max_def)
  have "\<exists>e. fst (serve ex_A 5 ex_rq Refresh (sv_web (ex_server\<lparr>sv_web := w\<rparr>))) = Inl (401, ErrorBody e)"
    by (rule password_change_ends_sessions [OF w _ _ _ cp_reach.Refl [of ex_A ex_S ex_es], where c = "\<lparr>cl_UserID = pgUUIDToStr (ex_id 7),
          cl_TenantID = pgUUIDToStr (ex_id 9), cl_Username = ''root'', cl_Email = ''root@qf'', cl_Role = ''admin''\<rparr>"
          and uid = "ex_id 7" and tok = "''r.r.r''" and sub = "pgUUIDToStr (ex_id 7)" and tv = 0])
       (auto simp: bearer_of_def ex_rq_def ex_claims ex_refresh ex_scan ex_server_def ex_users ex_user_def cp_queries_def ex_S_def ex_es_def
          NewEnrollmentServer_def ex_cr_def ex_uuid_fresh)
  with w show ?thesis by (auto simp: ex_server_def)
qed

lemma ex_db_typed: "db_typed (wb_store ex_web)"
  by (simp add: db_typed_def ex_web_def ex_db_def empty_db_def hosts_typed_def policies_typed_def groups_typed_def versions_typed_def
      accounts_typed_def rule_row_ok_def host_status_ok_def default_ok_def user_ok_def ex_user_def)

theorem server_reach_typed_witness:
  "\<exists>s'. cp_reach ex_A ex_S ex_es ex_server s' \<and> s' \<noteq> ex_server \<and> db_typed (sv_store s')
     \<and> list_all (pred_option (rule_faithful ex_Q (sv_store s') (pgUUIDToStr (ex_id 9)))) (pb_rules (buildProtoBundle ex_rs 7))"
proof -
  let ?s = "ex_server\<lparr>sv_web := runStmt (MarkStaleHosts (ap_q ex_A)) (sv_web ex_server)\<rparr>"
  have r: "cp_reach ex_A ex_S ex_es ex_server ?s" by (rule cp_reach.Step [OF cp_reach.Refl cp_step.Stale])
  have st: "sv_store ?s = ex_db\<lparr>t_users := [ex_user], t_seq := 1\<rparr>"
    by (simp add: runStmt_def MarkStaleHosts_def writeS_def ex_errs ex_server_def ex_web_def ex_db_def empty_db_def update_rows_def)
  have "bundle_same ex_db (sv_store ?s)"
    unfolding st by (simp add: bundle_same_def compile_same_def hosts_same_def list_all2_same host_same_def)
  from trans [OF getBundle_same [OF this, symmetric] ex_getBundle]
  have b: "getBundle ex_Q \<lparr>bb_crypto = ex_crypto, bb_signer = None, bb_now = 0\<rparr> (sv_store ?s) (pgUUIDToStr (ex_id 9)) (pgUUIDToStr (ex_id 1)) =
    Inr (buildProtoBundle ex_rs 7)" .
  have "db_typed (sv_store ex_server)" using ex_db_typed by (simp add: ex_server_def)
  from server_reach_typed [OF r this, of ex_Q _ _ _ "buildProtoBundle ex_rs 7"] b
  have "db_typed (sv_store ?s) \<and> list_all (pred_option (rule_faithful ex_Q (sv_store ?s) (pgUUIDToStr (ex_id 9)))) (pb_rules (buildProtoBundle ex_rs 7))" by blast
  moreover have "?s \<noteq> ex_server"
  proof
    assume "?s = ex_server"
    then have "t_seq (sv_store ?s) = t_seq (sv_store ex_server)" by simp
    then show False unfolding st by (simp add: ex_server_def ex_web_def ex_db_def empty_db_def)
  qed
  ultimately show ?thesis using r by blast
qed

end
