(* ===== verification/Qf_Delivery.thy ===== *)
theory Qf_Delivery
  imports Qf_Sessions
begin

text \<open>
  From a changed policy to the agents: what the transaction of a policy update changes in the
  tables, and that the cascade it starts sends every connected host whose ruleset changed the
  bundle of the new one.
\<close>

section \<open>The transaction of an update\<close>

text \<open>The tables as they were, up to the rules of one policy.\<close>

definition rules_change :: "bytes \<Rightarrow> db \<Rightarrow> db \<Rightarrow> bool" where
  "rules_change pid d0 d \<longleftrightarrow> filter (\<lambda>r. r_PolicyID r \<noteq> pid) (t_rules d) = filter (\<lambda>r. r_PolicyID r \<noteq> pid) (t_rules d0)
     \<and> t_policies d = t_policies d0 \<and> t_object_groups d = t_object_groups d0
     \<and> t_default_policies d = t_default_policies d0 \<and> t_hosts d = t_hosts d0"

lemma rules_change_refl: "rules_change pid d d"
  by (simp add: rules_change_def)

lemma rules_change_seq [simp]: "rules_change pid d0 (d\<lparr>t_seq := n\<rparr>) = rules_change pid d0 d"
  by (simp add: rules_change_def)

lemma keeps_DeleteRule_change:
  assumes "\<And>r. r \<in> set (t_rules d0) \<Longrightarrow> r_ID r = rid \<Longrightarrow> r_PolicyID r = pid"
  shows "keeps (rules_change pid d0) (DeleteRule Q rid)"
proof -
  have "filter (\<lambda>r. r_PolicyID r \<noteq> pid) (filter (\<lambda>r. r_ID r \<noteq> rid) rs) = filter (\<lambda>r. r_PolicyID r \<noteq> pid) (t_rules d0)"
    if "filter (\<lambda>r. r_PolicyID r \<noteq> pid) rs = filter (\<lambda>r. r_PolicyID r \<noteq> pid) (t_rules d0)" for rs
  proof -
    have "filter (\<lambda>r. r_ID r \<noteq> rid) (filter (\<lambda>r. r_PolicyID r \<noteq> pid) (t_rules d0)) = filter (\<lambda>r. r_PolicyID r \<noteq> pid) (t_rules d0)"
      using assms by (intro filter_True) auto
    then show ?thesis unfolding that [symmetric] by (simp add: conj_commute)
  qed
  then show ?thesis unfolding DeleteRule_def by (intro keeps_writeS) (auto simp: keeps_def rules_change_def)
qed

lemma keeps_CreateRule_change: "r_PolicyID par = pid \<Longrightarrow> keeps (rules_change pid d0) (CreateRule Q par)"
  unfolding CreateRule_def by (intro keeps_writeS) (auto simp: keeps_def rules_change_def Let_def split: sum.split)

lemma ListRulesByPolicy_Inr: "ListRulesByPolicy Q d pid = Inr rs \<Longrightarrow> set rs = {r \<in> set (t_rules d). r_PolicyID r = pid}"
  by (auto simp: ListRulesByPolicy_def query_def split: option.splits)

lemma replace_rules_change:
  assumes "replace_rules A pid reqs d = (Inr (), d')" and "distinct (map r_ID (t_rules d))"
  shows "rules_change pid d d'"
proof -
  from assms(1) obtain ex d1 where ex: "ListRulesByPolicy (ap_q A) d pid = Inr ex"
    and del: "forS (\<lambda>er. wrapS ''delete rule'' (DeleteRule (ap_q A) (r_ID er))) ex d = (Inr (), d1)"
    and cre: "forS (\<lambda>rr. bindS (wrapS ''create rule'' (CreateRule (ap_q A) (rule_params pid (rule_defaults rr)))) (\<lambda>_. retS ())) reqs d1 = (Inr (), d')"
    by (auto simp: replace_rules_def st_Inr)
  have "rules_change pid d (snd (forS (\<lambda>er. wrapS ''delete rule'' (DeleteRule (ap_q A) (r_ID er))) ex d))"
  proof (rule forS_invariant)
    fix er u assume er: "er \<in> set ex" and u: "rules_change pid d u"
    have "r_PolicyID r = pid" if "r \<in> set (t_rules d)" "r_ID r = r_ID er" for r
      using that er assms(2) ListRulesByPolicy_Inr [OF ex] by (auto simp: distinct_map dest: inj_onD)
    from keepsD [OF keeps_DeleteRule_change [OF this] u] show "rules_change pid d (snd (wrapS ''delete rule'' (DeleteRule (ap_q A) (r_ID er)) u))"
      by simp
  qed (rule rules_change_refl)
  then have "rules_change pid d d1" by (simp add: del)
  moreover have k: "keeps (rules_change pid d) (forS (\<lambda>rr. bindS (wrapS ''create rule'' (CreateRule (ap_q A) (rule_params pid (rule_defaults rr)))) (\<lambda>_. retS ())) reqs)"
    by (intro keeps_intros keeps_CreateRule_change) (simp add: rule_params_def)
  ultimately show ?thesis using keepsD' [OF k cre] by blast
qed

lemma UpdatePolicy_change:
  assumes "UpdatePolicy Q pid tid name desc prio sel d = (Inr p, d')"
  shows "\<exists>f. t_policies d' = update_rows (policy_is pid tid) f (t_policies d) \<and> (\<forall>x. p_ID (f x) = p_ID x \<and> p_TenantID (f x) = p_TenantID x)
    \<and> t_rules d' = t_rules d \<and> t_object_groups d' = t_object_groups d \<and> t_default_policies d' = t_default_policies d \<and> t_hosts d' = t_hosts d
    \<and> p \<in> set (t_policies d') \<and> policy_is pid tid p \<and> (\<exists>q \<in> set (t_policies d). policy_is pid tid q)"
proof -
  from assms obtain js ps qs where ps: "ps = update_rows (policy_is pid tid) (\<lambda>p. p\<lparr>p_Name := name, p_Description := desc, p_Priority := prio,
      p_Selector := js, p_CurrentVersion := p_CurrentVersion p + 1\<rparr>) (t_policies d)"
    and fl: "filter (policy_is pid tid) ps = p # qs" and d': "d' = d\<lparr>t_seq := Suc (t_seq d), t_policies := ps\<rparr>"
    by (auto simp: UpdatePolicy_def writeS_def Let_def split: option.splits sum.splits if_splits list.splits)
  from fl have "p \<in> set ps" "policy_is pid tid p" by (auto dest: filter_eq_ConsD)
  moreover from this have "\<exists>q \<in> set (t_policies d). policy_is pid tid q" by (auto simp: ps update_rows_def policy_is_def split: if_splits)
  ultimately show ?thesis using ps d' by (intro exI [of _ "\<lambda>p. p\<lparr>p_Name := name, p_Description := desc, p_Priority := prio,
      p_Selector := js, p_CurrentVersion := p_CurrentVersion p + 1\<rparr>"]) simp
qed

lemma update_tx_change:
  assumes "update_tx A pid tid req d = (Inr p, d')" and "distinct (map r_ID (t_rules d))"
  shows "policy_change pid d d' \<and> map p_ID (t_policies d') = map p_ID (t_policies d) \<and> p \<in> set (t_policies d') \<and> policy_is pid tid p
    \<and> (\<exists>q \<in> set (t_policies d). policy_is pid tid q)"
proof -
  from assms(1) obtain d1 d2 d3 where
    b: "writeS (ap_q A) (retS ()) d = (Inr (), d1)" and
    u: "UpdatePolicy (ap_q A) pid tid (cpr_Name req) (cpr_Description req) (cpr_Priority req) (rawJSONOrEmpty (cpr_Selector req)) d1 = (Inr p, d2)" and
    r: "replace_rules A pid (upr_Rules req) d2 = (Inr (), d3)" and
    c: "writeS (ap_q A) (retS ()) d3 = (Inr (), d')"
    by (auto simp: update_tx_def st_Inr split: prod.splits sum.splits)
  have w: "d1 = d\<lparr>t_seq := Suc (t_seq d)\<rparr>" "d' = d3\<lparr>t_seq := Suc (t_seq d3)\<rparr>"
    using b c by (auto simp: writeS_def Let_def split: option.splits)
  have "t_policies d1 = t_policies d" "t_rules d1 = t_rules d" "t_object_groups d1 = t_object_groups d"
    "t_default_policies d1 = t_default_policies d" "t_hosts d1 = t_hosts d" by (simp_all add: w)
  note this [simp]
  from UpdatePolicy_change [OF u, simplified] obtain f where f: "t_policies d2 = update_rows (policy_is pid tid) f (t_policies d)"
    "\<And>x. p_ID (f x) = p_ID x" and d2: "t_rules d2 = t_rules d" "t_object_groups d2 = t_object_groups d"
    "t_default_policies d2 = t_default_policies d" "t_hosts d2 = t_hosts d" and p: "p \<in> set (t_policies d2)" "policy_is pid tid p" "\<exists>q \<in> set (t_policies d). policy_is pid tid q"
    by blast
  have ids: "map p_ID (update_rows (policy_is pid tid) f ps) = map p_ID ps" for ps by (rule map_update_rows) (rule f(2))
  have other: "filter (\<lambda>p. p_ID p \<noteq> pid) (update_rows (policy_is pid tid) f ps) = filter (\<lambda>p. p_ID p \<noteq> pid) ps" for ps
    by (induction ps) (auto simp: update_rows_def policy_is_def f(2))
  from replace_rules_change [OF r] assms(2) have "rules_change pid d2 d3" by (simp add: d2)
  then show ?thesis using p
    by (simp add: policy_change_def rules_change_def w f(1) other ids d2 hosts_same_def list_all2_same)
qed

section \<open>The cascade delivers\<close>

context dispatcher
begin

text \<open>A host named once gets its bundle whatever happens to the bundles of the others.\<close>

lemma recompile_delivers:
  assumes "cr_dispatcher cr = Some disp" and "recompileAndDispatch cr tenantID hostIDs s = (r, s')" and "distinct hostIDs"
    and "h \<in> set hostIDs" and "accepts (registry s) h" and "ok (registry s)"
    and "getBundle (cr_queries cr) (cr_builder cr) (store s) tenantID h = Inr b"
  shows "inbox (registry s') h = inbox (registry s) h @ [b]"
proof -
  obtain es where "recompile_hosts cr tenantID hostIDs s = (es, s')"
    using assms(2) by (auto simp: recompileAndDispatch_def split: prod.splits list.splits)
  from recompile_hosts_spec [OF assms(1) this assms(3,6), of h] show ?thesis using assms(4,5,7) by simp
qed

lemma OnPolicyChangedWithOldSelector_delivers:
  assumes "cr_dispatcher cr = Some disp" and iter: "\<And>xs. mset (cr_iter cr xs) = mset xs" and Q: "cr_queries cr = Q"
    and ch: "policy_change pid d (store s)" and sc: "scan_ok Q d" "scan_ok Q (store s)"
    and host: "uuid_Scan Q tenantID = Inr tid" "uuid_Scan Q (pgUUIDToStr hid) = Inr hid" "live_host Q (store s) tid hid h"
    and ne: "Compile Q d tenantID (pgUUIDToStr hid) \<noteq> Compile Q (store s) tenantID (pgUUIDToStr hid)"
    and old: "\<And>p. p \<in> set (t_policies d) \<Longrightarrow> p_ID p = pid \<Longrightarrow> p_Selector p = old"
    and new: "\<And>p. p \<in> set (t_policies (store s)) \<Longrightarrow> p_ID p = pid \<Longrightarrow> GetPolicy Q (store s) pid tid = Inr p"
    and pol: "uuid_Scan Q policyID = Inr pid" and ids: "new_policy_hosts Q (store s) tenantID tid pid = Inr ids"
    and acc: "accepts (registry s) (pgUUIDToStr hid)" "ok (registry s)"
    and b: "getBundle Q (cr_builder cr) (store s) tenantID (pgUUIDToStr hid) = Inr b"
  shows "inbox (registry (snd (OnPolicyChangedWithOldSelector cr tenantID policyID old s))) (pgUUIDToStr hid) =
    inbox (registry s) (pgUUIDToStr hid) @ [b]"
proof -
  let ?ids = "dropErr (ResolveHostIDs Q (store s) tenantID (fst (ParseSelector Q old))) @ ids"
  let ?it = "cr_iter cr (remdups ?ids)"
  have run: "OnPolicyChangedWithOldSelector cr tenantID policyID old s = recompileAndDispatch cr tenantID ?it s"
    by (simp add: OnPolicyChangedWithOldSelector_def Q host(1) pol ids Let_def)
  have "pgUUIDToStr hid \<in> set ?ids"
    by (rule policy_hosts_complete [OF ch sc host ne _ _ ids]) (fact old new)+
  then have "pgUUIDToStr hid \<in> set ?it" "distinct ?it"
    using iter [of "remdups ?ids"] by (metis mset_eq_setD set_remdups, metis distinct_remdups mset_eq_imp_distinct_iff)
  then show ?thesis
    using recompile_delivers [OF assms(1), of tenantID ?it s _ "snd (recompileAndDispatch cr tenantID ?it s)"] acc b
    unfolding run Q [symmetric] by (metis prod.collapse)
qed

end


section \<open>An update reaches the hosts it changes\<close>

lemma tenantFromRequest_Inr: "tenantFromRequest A rq w = (Inr tid, w1) \<Longrightarrow> w1 = w"
  by (auto simp: tenantFromRequest_def apiError_def retH_def Let_def split: option.splits if_splits sum.splits)

text \<open>Errors are not the answer 200.\<close>

lemma not_ok_answer:
  "tenantFromRequest A rq w \<noteq> (Inl (200, v), w')" "uuidParam A raw w \<noteq> (Inl (200, v), w')" "decodeJSON body w \<noteq> (Inl (200, v), w')"
  "c \<noteq> 200 \<Longrightarrow> apiError c e w \<noteq> (Inl (200, v), w')" "c \<noteq> 200 \<Longrightarrow> stmtH c msg m w \<noteq> (Inl (200, v), w')"
  by (auto simp: tenantFromRequest_def uuidParam_def decodeJSON_def apiError_def retH_def stmtH_def Let_def
      split: option.splits if_splits sum.splits prod.splits)

lemma request_accepted:
  assumes "bindH (tenantFromRequest A rq) (\<lambda>tid. bindH (uuidParam A raw) (\<lambda>pid. bindH (decodeJSON body) (\<lambda>req.
      if C req then apiError 400 (e req) else K tid pid req))) w = (Inl (200, resp), w1)"
  shows "\<exists>tid pid req. tenantFromRequest A rq w = (Inr tid, w) \<and> uuid_Scan (ap_q A) raw = Inr pid \<and> K tid pid req w = (Inl (200, resp), w1)"
proof -
  obtain r w0 where t: "tenantFromRequest A rq w = (r, w0)" by fastforce
  then have "tenantFromRequest A rq w = (Inr x, w)" if "r = Inr x" for x using that tenantFromRequest_Inr by blast
  moreover have "\<exists>x. r = Inr x" using assms t not_ok_answer(1) [of A rq w resp w0] by (cases r) (auto simp: bindH_def)
  ultimately obtain tid where tid: "tenantFromRequest A rq w = (Inr tid, w)" by blast
  show ?thesis using assms
    by (cases "uuid_Scan (ap_q A) raw"; cases body)
       (auto simp: bindH_def tid uuidParam_def decodeJSON_def retH_def apiError_def split: if_splits)
qed

lemma policies_update_done:
  assumes "policies_update A rq body w = (Inl (200, resp), w1)" and "ap_cascade A = Some cr"
  shows "\<exists>tid pid req p v. tenantFromRequest A rq w = (Inr tid, w) \<and> uuid_Scan (ap_q A) (rq_id rq) = Inr pid
    \<and> update_tx A pid tid req (wb_store w) = (Inr p, wb_store w1) \<and> registry (wb_cp w1) = registry (wb_cp w)
    \<and> wb_jobs w1 = wb_jobs w @ [v, JobPolicyOld (pgUUIDToStr (ap_tenantID A)) (pgUUIDToStr pid)
        (case GetPolicy (ap_q A) (wb_store w) pid tid of Inl _ \<Rightarrow> [] | Inr cur \<Rightarrow> p_Selector cur)]"
proof -
  define K :: "bytes \<Rightarrow> bytes \<Rightarrow> updatePolicyRequest \<Rightarrow> response handler" where "K tid pid req = bindH (readH (\<lambda>d. GetPolicy (ap_q A) d pid tid)) (\<lambda>curr.
         bindH (case curr of Inl _ \<Rightarrow> retH ()
                | Inr cur \<Rightarrow> bindH (readH (\<lambda>d. dropErr (ListRulesByPolicy (ap_q A) d pid))) (\<lambda>curRules.
                    SetAuditBefore (ap_json A (toPolicyDetailResponse cur curRules)))) (\<lambda>_.
         bindH (stmtH 500 (\<lambda>e. e) (update_tx A pid tid req)) (\<lambda>policy.
         bindH (readH (\<lambda>d. dropErr (ListRulesByPolicy (ap_q A) d pid))) (\<lambda>savedRules.
         bindH (spawn (JobVersion tid pid (ap_snapshot A (snapshotPolicy policy savedRules)) (actor_of rq))) (\<lambda>_.
         bindH (dispatchCascadeWithOldSelector A pid (case curr of Inl _ \<Rightarrow> [] | Inr cur \<Rightarrow> p_Selector cur)) (\<lambda>_.
           writeJSON 200 (toPolicyDetailResponse policy savedRules)))))))" for tid pid req
  have "policies_update A rq body = bindH (tenantFromRequest A rq) (\<lambda>tid. bindH (uuidParam A (rq_id rq)) (\<lambda>pid. bindH (decodeJSON body) (\<lambda>req.
      if cpr_Name req = '''' then apiError 400 (Errorf ''name required'') else K tid pid req)))"
    by (simp only: policies_update_def K_def)
  from request_accepted [OF assms(1) [unfolded this]] obtain tid pid req where
    t: "tenantFromRequest A rq w = (Inr tid, w)" and pid: "uuid_Scan (ap_q A) (rq_id rq) = Inr pid" and r: "K tid pid req w = (Inl (200, resp), w1)" by blast
  define v where "v = (case GetPolicy (ap_q A) (wb_store w) pid tid of Inl _ \<Rightarrow> w
    | Inr cur \<Rightarrow> w\<lparr>wb_before := Some (ap_json A (toPolicyDetailResponse cur (dropErr (ListRulesByPolicy (ap_q A) (wb_store w) pid))))\<rparr>)"
  have v: "wb_store v = wb_store w" "registry (wb_cp v) = registry (wb_cp w)" "wb_jobs v = wb_jobs w"
    by (simp_all add: v_def split: sum.split)
  let ?old = "case GetPolicy (ap_q A) (wb_store w) pid tid of Inl _ \<Rightarrow> [] | Inr cur \<Rightarrow> p_Selector cur"
  from r have r': "(bindH (stmtH 500 (\<lambda>e. e) (update_tx A pid tid req)) (\<lambda>policy.
         bindH (readH (\<lambda>d. dropErr (ListRulesByPolicy (ap_q A) d pid))) (\<lambda>savedRules.
         bindH (spawn (JobVersion tid pid (ap_snapshot A (snapshotPolicy policy savedRules)) (actor_of rq))) (\<lambda>_.
         bindH (dispatchCascadeWithOldSelector A pid ?old) (\<lambda>_.
           writeJSON 200 (toPolicyDetailResponse policy savedRules))))) :: response handler) v = (Inl (200, resp), w1)"
    by (cases "GetPolicy (ap_q A) (wb_store w) pid tid") (simp_all add: K_def bindH_def readH_def retH_def SetAuditBefore_def v_def)
  then obtain p d where u: "update_tx A pid tid req (wb_store w) = (Inr p, d)"
    by (cases "update_tx A pid tid req (wb_store w)") (auto simp: bindH_Inl not_ok_answer went_on v)
  with r' have "wb_store w1 = d \<and> registry (wb_cp w1) = registry (wb_cp w)
      \<and> (\<exists>j. wb_jobs w1 = wb_jobs w @ [j, JobPolicyOld (pgUUIDToStr (ap_tenantID A)) (pgUUIDToStr pid) ?old])"
    by (auto simp: bindH_def stmtH_def v readH_def spawn_def dispatchCascadeWithOldSelector_def assms(2) writeJSON_def)
  then show ?thesis using t pid u by blast
qed

lemma scan_ok_ids:
  assumes "map p_ID (t_policies d') = map p_ID (t_policies d)"
  shows "scan_ok Q d' = scan_ok Q d"
proof -
  have "scan_ok Q x \<longleftrightarrow> list_all (\<lambda>i. uuid_Scan Q (pgUUIDToStr i) = Inr i) (map p_ID (t_policies x))" for x
    by (simp add: scan_ok_def list_all_iff)
  then show ?thesis using assms by simp
qed

lemma GetPolicy_unique:
  assumes "db_err Q ''GetPolicy'' = None" and "distinct (map p_ID (t_policies d))" and "p \<in> set (t_policies d)" and "policy_is pid tid p"
  shows "GetPolicy Q d pid tid = Inr p"
proof -
  have "\<forall>q \<in> set (filter (\<lambda>p. p_ID p = pid \<and> p_TenantID p = tid) (t_policies d)). q = p"
    using assms(2-4) by (auto simp: distinct_map policy_is_def dest: inj_onD)
  moreover have "p \<in> set (filter (\<lambda>p. p_ID p = pid \<and> p_TenantID p = tid) (t_policies d))" using assms(3,4) by (simp add: policy_is_def)
  ultimately obtain qs where "filter (\<lambda>p. p_ID p = pid \<and> p_TenantID p = tid) (t_policies d) = p # qs"
    by (cases "filter (\<lambda>p. p_ID p = pid \<and> p_TenantID p = tid) (t_policies d)") auto
  then show ?thesis using assms(1) by (simp add: GetPolicy_def query_one_def query_def)
qed


text \<open>
  C17. A policy update reaches every host it changes. Let a \<open>PUT\<close> of a policy for the
  tenant the server is configured with be answered with success, let the selector it stored
  parse and no query fail. When the goroutine for the cascade runs on the tables the request
  left, every active host that is connected, accepts messages and whose compiled ruleset is
  not what it was before the request is sent the bundle compiled from the new tables, whether
  the old or the new selector selects it and whatever fails for other hosts. Policy and rule
  ids are keys, and the ids of tenant, policies and host read back from their text form.
  (The handler does not check the selector: when it does not parse, the request is answered
  with success all the same, and the cascade ends before any host is told.)
\<close>

theorem policy_update_reaches_hosts:
  assumes "ap_cascade A = Some cr" and "cr_queries cr = ap_q A" and "cr_dispatcher cr = Some (Dispatch flt)"
    and "\<And>xs. mset (cr_iter cr xs) = mset xs" and "\<And>n. db_err (ap_q A) n = None"
    and "uuid_Scan (ap_q A) (pgUUIDToStr (ap_tenantID A)) = Inr (ap_tenantID A)" and "scan_ok (ap_q A) (wb_store w)"
    and "distinct (map p_ID (t_policies (wb_store w)))" and "distinct (map r_ID (t_rules (wb_store w)))"
    and "tenantFromRequest A rq w = (Inr (ap_tenantID A), w)" and "route A rq (PoliciesUpdate body) w = (Inl (200, resp), w1)"
    and "\<And>p. p \<in> set (t_policies (wb_store w1)) \<Longrightarrow> uuid_Scan (ap_q A) (rq_id rq) = Inr (p_ID p) \<Longrightarrow>
        snd (ParseSelector (ap_q A) (p_Selector p)) = None"
    and "live_host (ap_q A) (wb_store w1) (ap_tenantID A) hid h" and "uuid_Scan (ap_q A) (pgUUIDToStr hid) = Inr hid"
    and "Compile (ap_q A) (wb_store w) (pgUUIDToStr (ap_tenantID A)) (pgUUIDToStr hid) \<noteq>
         Compile (ap_q A) (wb_store w1) (pgUUIDToStr (ap_tenantID A)) (pgUUIDToStr hid)"
    and "getBundle (ap_q A) (cr_builder cr) (wb_store w1) (pgUUIDToStr (ap_tenantID A)) (pgUUIDToStr hid) = Inr b"
    and "reg_accepts flt (registry (wb_cp w)) (pgUUIDToStr hid)" and "reg_ok (registry (wb_cp w))"
  shows "\<exists>v j. wb_jobs w1 = wb_jobs w @ [v, j] \<and>
    reg_inbox (registry (wb_cp (run_job A j w1))) (pgUUIDToStr hid) = reg_inbox (registry (wb_cp w)) (pgUUIDToStr hid) @ [b]"
proof -
  let ?Q = "ap_q A" and ?t = "ap_tenantID A" and ?d = "wb_store w" and ?d' = "wb_store w1"
  have "policies_update A rq body w = (Inl (200, resp), w1)"
    using assms(11) by (auto simp: bindH_def RequireRole_def apiError_def retH_def split: option.splits if_splits)
  from policies_update_done [OF this assms(1)] assms(10) obtain pid req p v where
    pid: "uuid_Scan ?Q (rq_id rq) = Inr pid" and u: "update_tx A pid ?t req ?d = (Inr p, ?d')" and reg: "registry (wb_cp w1) = registry (wb_cp w)"
    and jobs: "wb_jobs w1 = wb_jobs w @ [v, JobPolicyOld (pgUUIDToStr ?t) (pgUUIDToStr pid)
        (case GetPolicy ?Q ?d pid ?t of Inl _ \<Rightarrow> [] | Inr cur \<Rightarrow> p_Selector cur)]"
    by auto
  from update_tx_change [OF u assms(9)] obtain q where ch: "policy_change pid ?d ?d'" "map p_ID (t_policies ?d') = map p_ID (t_policies ?d)"
    and p: "p \<in> set (t_policies ?d')" "policy_is pid ?t p" and q: "q \<in> set (t_policies ?d)" "policy_is pid ?t q" by blast
  have g: "GetPolicy ?Q ?d pid ?t = Inr q" by (rule GetPolicy_unique [OF assms(5,8) q])
  have dist: "distinct (map p_ID (t_policies ?d'))" using assms(8) ch(2) by simp
  have g': "GetPolicy ?Q ?d' pid ?t = Inr p" by (rule GetPolicy_unique [OF assms(5) dist p])
  have old: "p_Selector x = p_Selector q" if "x \<in> set (t_policies ?d)" "p_ID x = pid" for x
    using that q assms(8) by (auto simp: distinct_map policy_is_def dest: inj_onD)
  have new: "GetPolicy ?Q ?d' pid ?t = Inr x" if "x \<in> set (t_policies ?d')" "p_ID x = pid" for x
    using that p dist g' by (auto simp: distinct_map policy_is_def dest: inj_onD)
  have sc: "scan_ok ?Q ?d'" using assms(7) scan_ok_ids [OF ch(2)] by simp
  have pol: "uuid_Scan ?Q (pgUUIDToStr pid) = Inr pid" using assms(7) q by (auto simp: scan_ok_def list_all_iff policy_is_def)
  obtain sel where "ParseSelector ?Q (p_Selector p) = (sel, None)" using assms(12) [OF p(1)] pid p(2) by (metis policy_is_def prod.collapse)
  then obtain ids where ids: "new_policy_hosts ?Q ?d' (pgUUIDToStr ?t) ?t pid = Inr ids"
    using assms(5,6) g'
    by (auto simp: new_policy_hosts_def ResolveHostIDs_def ResolveHosts_def ListHosts_def query_def)
  have "reg_inbox (registry (snd (OnPolicyChangedWithOldSelector cr (pgUUIDToStr ?t) (pgUUIDToStr pid) (p_Selector q) (wb_cp w1)))) (pgUUIDToStr hid) =
      reg_inbox (registry (wb_cp w1)) (pgUUIDToStr hid) @ [b]"
    by (rule sr.OnPolicyChangedWithOldSelector_delivers [OF assms(3,4,2) ch(1) assms(7) sc assms(6,14,13,15) old new pol ids _ _ assms(16)])
       (simp_all add: reg assms(17,18))
  then show ?thesis using jobs g reg by (simp add: runCascade_def assms(1))
qed


text \<open>The witness: a connected host that a changed selector no longer selects.\<close>

definition ex_cascade :: "StreamRegistry CascadeRecompiler" where
  "ex_cascade = \<lparr>cr_queries = ex_Q, cr_builder = \<lparr>bb_crypto = ex_crypto, bb_signer = None, bb_now = 0\<rparr>,
     cr_dispatcher = Some (Dispatch (\<lambda>_ _. False)), cr_iter = id\<rparr>"

definition ex_Ac :: api where
  "ex_Ac = ex_A\<lparr>ap_cascade := Some ex_cascade\<rparr>"

definition ex_put :: updatePolicyRequest where
  "ex_put = \<lparr>cpr_Name = ''ssh'', cpr_Description = [], cpr_Priority = 10, cpr_Selector = [2], upr_Rules = []\<rparr>"

definition ex_put_rq :: http_Request where
  "ex_put_rq = ex_rq\<lparr>rq_claims := Some \<lparr>cl_UserID = pgUUIDToStr (ex_id 7), cl_TenantID = pgUUIDToStr (ex_id 9), cl_Username = ''root'',
     cl_Email = ''root@qf'', cl_Role = ''admin''\<rparr>, rq_id := pgUUIDToStr (ex_id 2)\<rparr>"

definition ex_conn :: web where
  "ex_conn = \<lparr>wb_cp = \<lparr>store = ex_db, registry = register (pgUUIDToStr (ex_id 1)) 0 NewStreamRegistry\<rparr>, wb_jobs = [], wb_before = None, wb_logins = Map.empty\<rparr>"

definition ex_db_put :: db where
  "ex_db_put = ex_db\<lparr>t_seq := Suc (Suc (Suc (Suc 0))), t_policies := [(hd (t_policies ex_db))\<lparr>p_Selector := [2], p_CurrentVersion := 1\<rparr>, hd (tl (t_policies ex_db))],
     t_rules := [hd (tl (t_rules ex_db))]\<rparr>"

lemma ex_Ac [simp]: "ap_q ex_Ac = ex_Q" "ap_tenantID ex_Ac = ex_id 9" "ap_cascade ex_Ac = Some ex_cascade"
  by (simp_all add: ex_Ac_def)

lemma ex_jsonb: "jsonb ex_Q b = Inr b"
  by (simp add: ex_Q_def)

lemma ex_put_tx: "update_tx ex_Ac (ex_id 2) (ex_id 9) ex_put ex_db = (Inr (hd (t_policies ex_db_put)), ex_db_put)"
  by (simp add: update_tx_def bindS_def wrapS_def writeS_def ex_errs UpdatePolicy_def ex_put_def rawJSONOrEmpty_def replace_rules_def
      ListRulesByPolicy_def query_def DeleteRule_def ex_db_put_def ex_db_def empty_db_def update_rows_def policy_is_def int4_max_def
      Let_def ex_jsonb)


lemma ex_put_route:
  "\<exists>resp v. route ex_Ac ex_put_rq (PoliciesUpdate (Inr ex_put)) ex_conn = (Inl (200, resp), v) \<and> wb_store v = ex_db_put"
  by (simp add: ex_put_rq_def ex_conn_def bindH_def RequireRole_def retH_def policies_update_def tenantFromRequest_def pgUUIDToStr_ne ex_scan
      uuidParam_def decodeJSON_def readH_def SetAuditBefore_def stmtH_def ex_put_tx spawn_def dispatchCascadeWithOldSelector_def writeJSON_def
      Let_def split: sum.split, simp add: ex_put_def)

lemma ex_put_store:
  "GetHost ex_Q ex_db_put (ex_id 1) (ex_id 9) = Inr ex_host"
  "GetDefaultPolicy ex_Q ex_db_put (ex_id 9) = Inr \<lparr>dp_TenantID = ex_id 9, dp_Ingress = ''allow'', dp_Egress = ''allow''\<rparr>"
  by (simp_all add: GetHost_def GetDefaultPolicy_def query_one_def query_def ex_errs ex_db_put_def ex_db_def)

lemma ex_put_Compile: "Compile ex_Q ex_db_put (pgUUIDToStr (ex_id 9)) (pgUUIDToStr (ex_id 1)) =
    Inr \<lparr>rs_Rules = [], rs_DefaultIngress = ''allow'', rs_DefaultEgress = ''allow''\<rparr>"
proof -
  obtain ps where ps: "ListPolicies ex_Q ex_db_put (ex_id 9) = Inr ps" "set ps \<subseteq> set (t_policies ex_db_put)"
    by (auto simp: ListPolicies_def query_def ex_errs)
  have "\<not> policy_selects ex_Q (fst (parseLabels ex_Q (h_Labels ex_host))) p" if "p \<in> set (t_policies ex_db_put)" for p
    using that by (auto simp: ex_db_put_def ex_db_def policy_selects_def parseLabels_def ParseSelector_def ex_Q_def MatchesLabels_def label_get_def)
  then have "filter (policy_selects ex_Q (fst (parseLabels ex_Q (h_Labels ex_host)))) ps = []"
    using ps(2) by (auto simp: filter_empty_conv)
  then show ?thesis by (simp add: Compile_def collectRules_def ex_scan ex_put_store ps(1))
qed

theorem policy_update_reaches_hosts_witness:
  "\<exists>resp w1 v j b. route ex_Ac ex_put_rq (PoliciesUpdate (Inr ex_put)) ex_conn = (Inl (200, resp), w1)
     \<and> getBundle ex_Q (cr_builder ex_cascade) (wb_store w1) (pgUUIDToStr (ex_id 9)) (pgUUIDToStr (ex_id 1)) = Inr b
     \<and> wb_jobs w1 = wb_jobs ex_conn @ [v, j]
     \<and> reg_inbox (registry (wb_cp (run_job ex_Ac j w1))) (pgUUIDToStr (ex_id 1)) =
       reg_inbox (registry (wb_cp ex_conn)) (pgUUIDToStr (ex_id 1)) @ [b]"
proof -
  obtain resp w1 where r: "route ex_Ac ex_put_rq (PoliciesUpdate (Inr ex_put)) ex_conn = (Inl (200, resp), w1)" "wb_store w1 = ex_db_put"
    using ex_put_route by blast
  obtain b where b: "getBundle ex_Q (cr_builder ex_cascade) ex_db_put (pgUUIDToStr (ex_id 9)) (pgUUIDToStr (ex_id 1)) = Inr b"
    by (simp add: getBundle_def GetBundle_def ex_scan ex_put_store Build_def ex_put_Compile ex_cascade_def)
  have "\<exists>v j. wb_jobs w1 = wb_jobs ex_conn @ [v, j] \<and>
      reg_inbox (registry (wb_cp (run_job ex_Ac j w1))) (pgUUIDToStr (ex_id 1)) =
      reg_inbox (registry (wb_cp ex_conn)) (pgUUIDToStr (ex_id 1)) @ [b]"
  proof (rule policy_update_reaches_hosts [where A = ex_Ac, OF _ _ _ _ _ _ _ _ _ _ r(1)])
    show "live_host (ap_q ex_Ac) (wb_store w1) (ap_tenantID ex_Ac) (ex_id 1) ex_host"
      by (simp add: live_host_def r(2) ex_put_store) (simp add: ex_db_def parseLabels_def ex_Q_def)
    show "Compile (ap_q ex_Ac) (wb_store ex_conn) (pgUUIDToStr (ap_tenantID ex_Ac)) (pgUUIDToStr (ex_id 1)) \<noteq>
        Compile (ap_q ex_Ac) (wb_store w1) (pgUUIDToStr (ap_tenantID ex_Ac)) (pgUUIDToStr (ex_id 1))"
      by (simp add: r(2) ex_put_Compile) (simp add: ex_conn_def ex_Compile ex_rs_def)
    show "getBundle (ap_q ex_Ac) (cr_builder ex_cascade) (wb_store w1) (pgUUIDToStr (ap_tenantID ex_Ac)) (pgUUIDToStr (ex_id 1)) = Inr b"
      using b by (simp add: r(2))
    show "scan_ok (ap_q ex_Ac) (wb_store ex_conn)" by (simp add: scan_ok_def ex_conn_def ex_db_def ex_scan)
    show "tenantFromRequest ex_Ac ex_put_rq ex_conn = (Inr (ap_tenantID ex_Ac), ex_conn)"
      by (simp add: tenantFromRequest_def ex_put_rq_def pgUUIDToStr_ne ex_scan retH_def Let_def)
    show "snd (ParseSelector (ap_q ex_Ac) (p_Selector p)) = None" if "p \<in> set (t_policies (wb_store w1))" for p
      using that by (auto simp: r(2) ex_db_put_def ex_db_def ParseSelector_def ex_Q_def)
    show "distinct (map p_ID (t_policies (wb_store ex_conn)))" "distinct (map r_ID (t_rules (wb_store ex_conn)))"
      by (simp_all add: ex_conn_def ex_db_def)
    show "reg_accepts (\<lambda>_ _. False) (registry (wb_cp ex_conn)) (pgUUIDToStr (ex_id 1))" "reg_ok (registry (wb_cp ex_conn))"
      by (simp_all add: ex_conn_def reg_accepts_def reg_ok_def register_def NewStreamRegistry_def)
  qed (simp_all add: ex_cascade_def ex_errs ex_scan)
  then show ?thesis using r b by auto
qed

end
