(* ===== verification/Qf_DryRun.thy ===== *)
theory Qf_DryRun
  imports Qf_Cascade
begin

text \<open>
  The preview of a policy change (cp/internal/policy/dryrun.go): the ruleset of a host with
  the rules of one policy replaced in memory, the differences per host, and that the preview
  shows what the change would do.
\<close>

section \<open>dryrun.go\<close>

record DryRunRuleSpec =
  dr_ID :: string
  dr_Name :: string
  dr_Priority :: i32
  dr_Direction :: string
  dr_Match :: bytes
  dr_State :: "string option"
  dr_Action :: string
  dr_Log :: bool
  dr_Silent :: bool

record HostDiff =
  hd_ID :: string
  hd_Hostname :: string
  hd_Added :: "string list"
  hd_Removed :: "string list"
  hd_Changed :: "string list"

record PreviewResult =
  pv_AffectedCount :: nat
  pv_Hosts :: "HostDiff list"

text \<open>The rule made from a specification; an id that is empty or does not scan is zero.\<close>

definition override_rule :: "Queries \<Rightarrow> bytes \<Rightarrow> DryRunRuleSpec \<Rightarrow> Rule" where
  "override_rule Q pid spec =
     \<lparr>r_ID = (if dr_ID spec = '''' then replicate 16 0 else case uuid_Scan Q (dr_ID spec) of Inl _ \<Rightarrow> replicate 16 0 | Inr u \<Rightarrow> u),
      r_PolicyID = pid, r_Name = dr_Name spec, r_Priority = dr_Priority spec,
      r_Direction = (if dr_Direction spec = '''' then ''ingress'' else dr_Direction spec), r_Match = dr_Match spec, r_State = dr_State spec,
      r_Action = (if dr_Action spec = '''' then ''deny'' else dr_Action spec), r_Log = dr_Log spec, r_Silent = dr_Silent spec\<rparr>"

definition resolveOverrideRules :: "Queries \<Rightarrow> db \<Rightarrow> string \<Rightarrow> Policy \<Rightarrow> DryRunRuleSpec list \<Rightarrow> ResolvedRule list res" where
  "resolveOverrideRules Q d tenantID p specs = mapR (\<lambda>spec. resolveRule Q d tenantID p (override_rule Q (p_ID p) spec)) specs"

definition CompileWithOverride ::
  "Queries \<Rightarrow> db \<Rightarrow> string \<Rightarrow> string \<Rightarrow> string \<Rightarrow> DryRunRuleSpec list \<Rightarrow> EffectiveRuleset res" where
  "CompileWithOverride Q d tenantID hostID overridePolicyID overrideRules =
     bindR (uuid_Scan Q tenantID) (\<lambda>tid.
     bindR (GetDefaultPolicy Q d tid) (\<lambda>dp.
     bindR (ListPolicies Q d tid) (\<lambda>policies.
     bindR (uuid_Scan Q hostID) (\<lambda>hid.
     bindR (GetHost Q d hid tid) (\<lambda>h.
     bindR (collectRules Q d tenantID (fst (parseLabels Q (h_Labels h)))
              (\<lambda>p. if pgUUIDToStr (p_ID p) = overridePolicyID then resolveOverrideRules Q d tenantID p overrideRules
                   else resolveRulesForPolicy Q d tenantID p) policies) (\<lambda>resolved.
       Inr \<lparr>rs_Rules = sort_key rule_key resolved, rs_DefaultIngress = dp_Ingress dp, rs_DefaultEgress = dp_Egress dp\<rparr>))))))"

text \<open>The map from rule ids to action and direction; of equal ids the last one counts.\<close>

definition rule_id :: "ResolvedRule \<Rightarrow> string" where
  "rule_id rr = pgUUIDToStr (r_ID (rr_Rule rr))"

definition rule_map :: "EffectiveRuleset \<Rightarrow> string \<rightharpoonup> string \<times> string" where
  "rule_map rs = map_of (rev (map (\<lambda>rr. (rule_id rr, (r_Action (rr_Rule rr), r_Direction (rr_Rule rr)))) (rs_Rules rs)))"

text \<open>The keys of a map in sorted order, which do not depend on the order of iteration.\<close>

definition rule_ids :: "EffectiveRuleset \<Rightarrow> string list" where
  "rule_ids rs = sort (remdups (map rule_id (rs_Rules rs)))"

definition diffRulesets :: "string \<Rightarrow> string \<Rightarrow> EffectiveRuleset \<Rightarrow> EffectiveRuleset \<Rightarrow> HostDiff" where
  "diffRulesets hostID hostname before after =
     \<lparr>hd_ID = hostID, hd_Hostname = hostname,
      hd_Added = filter (\<lambda>i. rule_map before i = None) (rule_ids after),
      hd_Removed = filter (\<lambda>i. rule_map after i = None) (rule_ids before),
      hd_Changed = filter (\<lambda>i. rule_map before i \<noteq> None \<and> rule_map before i \<noteq> rule_map after i) (rule_ids after)\<rparr>"

definition preview_host :: "Queries \<Rightarrow> db \<Rightarrow> string \<Rightarrow> string \<Rightarrow> DryRunRuleSpec list \<Rightarrow> Host \<Rightarrow> HostDiff option" where
  "preview_host Q d tenantID overridePolicyID overrideRules h =
     (let hostID = pgUUIDToStr (h_ID h) in
      case Compile Q d tenantID hostID of
        Inl _ \<Rightarrow> None
      | Inr before \<Rightarrow>
          (case CompileWithOverride Q d tenantID hostID overridePolicyID overrideRules of
             Inl _ \<Rightarrow> None
           | Inr after \<Rightarrow>
               let diff = diffRulesets hostID (h_Hostname h) before after
               in if hd_Added diff = [] \<and> hd_Removed diff = [] \<and> hd_Changed diff = [] then None else Some diff))"

definition DryRunPreview :: "Queries \<Rightarrow> db \<Rightarrow> string \<Rightarrow> string \<Rightarrow> DryRunRuleSpec list \<Rightarrow> PreviewResult res" where
  "DryRunPreview Q d tenantID overridePolicyID overrideRules =
     bindR (uuid_Scan Q tenantID) (\<lambda>tid.
     bindR (ListHosts Q d tid) (\<lambda>hosts.
       let diffs = List.map_filter (preview_host Q d tenantID overridePolicyID overrideRules) hosts
       in Inr \<lparr>pv_AffectedCount = length diffs, pv_Hosts = diffs\<rparr>))"


section \<open>The preview shows the update\<close>

lemma mapR_map: "mapR f (map g xs) = mapR (\<lambda>x. f (g x)) xs"
  by (induction xs) (simp_all split: sum.split)

lemma mapR_mset:
  assumes "mapR f xs = Inr ys" and "mset xs' = mset xs"
  shows "\<exists>ys'. mapR f xs' = Inr ys' \<and> mset ys' = mset ys"
proof -
  have l: "list_all2 (\<lambda>x y. f x = Inr y) xs ys" using assms(1) by (simp add: mapR_Inr)
  define g where "g x = (case f x of Inr y \<Rightarrow> y | Inl e \<Rightarrow> undefined)" for x
  have g: "f x = Inr (g x)" if "x \<in> set xs" for x using mapR_each_ok [OF assms(1) that] by (auto simp: g_def)
  have "set xs' = set xs" using assms(2) mset_eq_setD by blast
  then have "mapR f xs' = Inr (map g xs')" "mapR f xs = Inr (map g xs)" by (auto intro!: mapR_ok g)
  then show ?thesis using assms by auto
qed

lemma mapR_concat_mset:
  assumes "mapR f ps = Inr rss" and "\<And>p zs. p \<in> set ps \<Longrightarrow> f p = Inr zs \<Longrightarrow> \<exists>zs'. g p = Inr zs' \<and> mset zs' = mset zs"
  shows "\<exists>rss'. mapR g ps = Inr rss' \<and> mset (concat rss') = mset (concat rss)"
  using assms
proof (induction ps arbitrary: rss)
  case (Cons p ps)
  from Cons.prems(1) obtain zs rss1 where z: "f p = Inr zs" "mapR f ps = Inr rss1" "rss = zs # rss1" by (auto split: sum.splits)
  from Cons.IH [OF z(2)] Cons.prems(2) obtain rss' where "mapR g ps = Inr rss'" "mset (concat rss') = mset (concat rss1)" by auto
  moreover from Cons.prems(2) [of p] z(1) obtain zs' where "g p = Inr zs'" "mset zs' = mset zs" by auto
  ultimately show ?case by (simp add: z(3))
qed simp

lemma sort_rule_key_unique:
  assumes "mset xs = mset ys" and "distinct (map rule_id xs)"
  shows "sort_key rule_key xs = sort_key rule_key ys"
proof -
  have k: "distinct (map rule_key xs)"
    using assms(2) by (auto simp: distinct_map rule_key_def rule_id_def inj_on_def)
  have s: "set xs = set ys" using assms(1) mset_eq_setD by blast
  have "mset (map rule_key ys) = mset (map rule_key xs)" using assms(1) by simp
  then have k': "distinct (map rule_key ys)" using k mset_eq_imp_distinct_iff by blast
  show ?thesis
    by (rule map_sorted_distinct_set_unique [of rule_key])
       (use k k' s in \<open>auto simp: distinct_map inj_on_def\<close>)
qed

lemma resolveRulesForPolicy_replaced:
  assumes other: "filter (\<lambda>r. r_PolicyID r \<noteq> pid) R = filter (\<lambda>r. r_PolicyID r \<noteq> pid) (t_rules d)"
    and new: "mset (filter (\<lambda>r. r_PolicyID r = pid) R) = mset (map (override_rule Q pid) specs)"
    and sc: "uuid_Scan Q (pgUUIDToStr (p_ID p)) = Inr (p_ID p)" "uuid_Scan Q (pgUUIDToStr pid) = Inr pid"
    and z: "resolveRulesForPolicy Q (d\<lparr>t_rules := R\<rparr>) tenantID p = Inr zs"
  shows "\<exists>zs'. (if pgUUIDToStr (p_ID p) = pgUUIDToStr pid then resolveOverrideRules Q d tenantID p specs
      else resolveRulesForPolicy Q d tenantID p) = Inr zs' \<and> mset zs' = mset zs"
proof -
  have eq: "pgUUIDToStr (p_ID p) = pgUUIDToStr pid \<longleftrightarrow> p_ID p = pid" using sc by (metis sum.inject(2))
  have same: "hosts_same (d\<lparr>t_rules := R\<rparr>) d" "t_object_groups (d\<lparr>t_rules := R\<rparr>) = t_object_groups d"
    by (simp_all add: hosts_same_def list_all2_same)
  have res: "resolveRule Q (d\<lparr>t_rules := R\<rparr>) tenantID p = resolveRule Q d tenantID p" by (intro ext resolveRule_same same)
  show ?thesis
  proof (cases "p_ID p = pid")
    case True
    from z obtain rules where l: "ListRulesByPolicy Q (d\<lparr>t_rules := R\<rparr>) pid = Inr rules" and m: "mapR (resolveRule Q d tenantID p) rules = Inr zs"
      by (auto simp: resolveRulesForPolicy_def bindR_eq_Inr sc True res)
    have "mset (map (override_rule Q pid) specs) = mset rules" using l new by (auto simp: ListRulesByPolicy_def query_def split: option.splits)
    from mapR_mset [OF m this] obtain zs' where "mapR (resolveRule Q d tenantID p) (map (override_rule Q pid) specs) = Inr zs'" "mset zs' = mset zs"
      by blast
    then show ?thesis by (simp add: resolveOverrideRules_def True mapR_map)
  next
    case False
    have "policy_change pid (d\<lparr>t_rules := R\<rparr>) d" using other same(1) by (simp add: policy_change_def)
    from ListRulesByPolicy_other [OF this False, of Q] z show ?thesis
      by (simp add: eq False resolveRulesForPolicy_def sc(1) res)
  qed
qed

lemma CompileWithOverride_replaced:
  assumes "filter (\<lambda>r. r_PolicyID r \<noteq> pid) R = filter (\<lambda>r. r_PolicyID r \<noteq> pid) (t_rules d)"
    and "mset (filter (\<lambda>r. r_PolicyID r = pid) R) = mset (map (override_rule Q pid) specs)"
    and "scan_ok Q d" "uuid_Scan Q (pgUUIDToStr pid) = Inr pid"
    and "Compile Q (d\<lparr>t_rules := R\<rparr>) tenantID hostID = Inr rs" and "distinct (map rule_id (rs_Rules rs))"
  shows "CompileWithOverride Q d tenantID hostID (pgUUIDToStr pid) specs = Inr rs"
proof -
  let ?d = "d\<lparr>t_rules := R\<rparr>"
  have same: "GetDefaultPolicy Q ?d tid = GetDefaultPolicy Q d tid" "ListPolicies Q ?d tid = ListPolicies Q d tid"
    "GetHost Q ?d hid tid = GetHost Q d hid tid" for tid hid
    by (simp_all add: GetDefaultPolicy_def ListPolicies_def GetHost_def)
  from assms(5) obtain tid dp policies hid and h :: Host and rss where
    c: "uuid_Scan Q tenantID = Inr tid" "GetDefaultPolicy Q d tid = Inr dp" "ListPolicies Q d tid = Inr policies"
      "uuid_Scan Q hostID = Inr hid" "GetHost Q d hid tid = Inr h"
    and m: "mapR (resolveRulesForPolicy Q ?d tenantID) (filter (policy_selects Q (fst (parseLabels Q (h_Labels h)))) policies) = Inr rss"
    and rs: "rs = \<lparr>rs_Rules = sort_key rule_key (concat rss), rs_DefaultIngress = dp_Ingress dp, rs_DefaultEgress = dp_Egress dp\<rparr>"
    by (auto simp: Compile_def collectRules_def bindR_eq_Inr same)
  let ?g = "\<lambda>p. if pgUUIDToStr (p_ID p) = pgUUIDToStr pid then resolveOverrideRules Q d tenantID p specs else resolveRulesForPolicy Q d tenantID p"
  have "set policies \<subseteq> set (t_policies d)" using c(3) by (auto simp: ListPolicies_def query_def split: option.splits)
  then have "uuid_Scan Q (pgUUIDToStr (p_ID p)) = Inr (p_ID p)" if "p \<in> set policies" for p
    using assms(3) that by (auto simp: scan_ok_def list_all_iff)
  then have "\<exists>rss'. mapR ?g (filter (policy_selects Q (fst (parseLabels Q (h_Labels h)))) policies) = Inr rss' \<and> mset (concat rss') = mset (concat rss)"
    by (intro mapR_concat_mset [OF m] resolveRulesForPolicy_replaced [OF assms(1,2)]) (auto simp: assms(4))
  then obtain rss' where r: "mapR ?g (filter (policy_selects Q (fst (parseLabels Q (h_Labels h)))) policies) = Inr rss'"
    "mset (concat rss') = mset (concat rss)" by blast
  have "mset (map rule_id (sort_key rule_key (concat rss))) = mset (map rule_id (concat rss))" by simp
  then have "distinct (map rule_id (concat rss))" using assms(6) mset_eq_imp_distinct_iff by (fastforce simp: rs)
  from sort_rule_key_unique [OF r(2) [symmetric] this] show ?thesis
    by (simp add: CompileWithOverride_def collectRules_def c r(1) rs)
qed


text \<open>What the preview compares of a ruleset: ids with action and direction.\<close>

definition seen :: "EffectiveRuleset \<Rightarrow> (string \<times> string \<times> string) set" where
  "seen rs = (\<lambda>rr. (rule_id rr, r_Action (rr_Rule rr), r_Direction (rr_Rule rr))) ` set (rs_Rules rs)"

lemma dom_rule_map: "dom (rule_map rs) = rule_id ` set (rs_Rules rs)" "set (rule_ids rs) = rule_id ` set (rs_Rules rs)"
  by (simp_all add: rule_map_def rule_ids_def dom_map_of_conv_image_fst image_image)

lemma rule_map_None: "rule_map rs k = None \<longleftrightarrow> k \<notin> rule_id ` set (rs_Rules rs)"
  using dom_rule_map(1) [of rs] by (metis domIff)

lemma rule_map_seen:
  assumes "distinct (map rule_id (rs_Rules rs))"
  shows "rule_map rs i = Some x \<longleftrightarrow> (i, x) \<in> seen rs"
proof -
  have "distinct (map fst (rev (map (\<lambda>rr. (rule_id rr, (r_Action (rr_Rule rr), r_Direction (rr_Rule rr)))) (rs_Rules rs))))"
    using assms by (simp add: rev_map [symmetric] comp_def)
  from map_of_eq_Some_iff [OF this] show ?thesis by (auto simp: rule_map_def seen_def)
qed

lemma seen_eq:
  assumes "distinct (map rule_id (rs_Rules a))" and "distinct (map rule_id (rs_Rules b))"
  shows "seen a = seen b \<longleftrightarrow> rule_map a = rule_map b"
proof
  assume "seen a = seen b"
  then have "rule_map a i = Some x \<longleftrightarrow> rule_map b i = Some x" for i x using rule_map_seen assms by simp
  then show "rule_map a = rule_map b" by (intro ext) (metis option.exhaust)
next
  assume "rule_map a = rule_map b"
  then have "(i, x) \<in> seen a \<longleftrightarrow> (i, x) \<in> seen b" for i x using rule_map_seen assms by metis
  then show "seen a = seen b" by auto
qed

lemma diffRulesets_sets:
  "set (hd_Added (diffRulesets i n a b)) = dom (rule_map b) - dom (rule_map a)"
  "set (hd_Removed (diffRulesets i n a b)) = dom (rule_map a) - dom (rule_map b)"
  "set (hd_Changed (diffRulesets i n a b)) = {k \<in> dom (rule_map a) \<inter> dom (rule_map b). rule_map a k \<noteq> rule_map b k}"
  unfolding diffRulesets_def by (simp_all add: dom_rule_map(2) dom_rule_map(1) [symmetric] set_eq_iff domIff del: not_None_eq) blast+

lemma diffRulesets_changed:
  assumes "distinct (map rule_id (rs_Rules a))" and "distinct (map rule_id (rs_Rules b))"
  shows "set (hd_Changed (diffRulesets i n a b)) = {k. \<exists>x y. (k, x) \<in> seen a \<and> (k, y) \<in> seen b \<and> x \<noteq> y}"
  unfolding diffRulesets_sets(3) rule_map_seen [OF assms(1), symmetric] rule_map_seen [OF assms(2), symmetric] by auto

lemma diffRulesets_empty:
  "hd_Added (diffRulesets i n a b) = [] \<and> hd_Removed (diffRulesets i n a b) = [] \<and> hd_Changed (diffRulesets i n a b) = []
     \<longleftrightarrow> rule_map a = rule_map b"
proof -
  have "dom (rule_map b) - dom (rule_map a) = {} \<and> dom (rule_map a) - dom (rule_map b) = {}
      \<and> {k \<in> dom (rule_map a) \<inter> dom (rule_map b). rule_map a k \<noteq> rule_map b k} = {} \<longleftrightarrow> rule_map a = rule_map b"
  proof
    assume e: "dom (rule_map b) - dom (rule_map a) = {} \<and> dom (rule_map a) - dom (rule_map b) = {}
      \<and> {k \<in> dom (rule_map a) \<inter> dom (rule_map b). rule_map a k \<noteq> rule_map b k} = {}"
    then have d: "dom (rule_map a) = dom (rule_map b)" by blast
    show "rule_map a = rule_map b"
    proof
      fix k show "rule_map a k = rule_map b k"
        using e d by (cases "k \<in> dom (rule_map a)") (blast, metis domIff)
    qed
  qed simp
  then show ?thesis unfolding diffRulesets_sets [of i n a b, symmetric] set_empty .
qed

text \<open>
  C18. The preview of a policy change is exact. Let \<open>R\<close> be the rules after the rules of one
  policy were replaced by those of the preview, and let a host compile to \<open>before\<close> and, with
  \<open>R\<close>, to \<open>after\<close>. The preview lists the host if and only if the change alters which rules
  it has or the action or direction of one, and then with exactly the ids that only the new
  ruleset has, those that only the old one has, and those of the rules both have with another
  action or direction. Ids are keys that the scanner reads back. In particular the ids of the
  rules after the change are assumed distinct, which excludes previews with two or more new
  rules: each of these has the same all-zero id, and the preview merges them.
\<close>

theorem preview_exact:
  assumes "filter (\<lambda>r. r_PolicyID r \<noteq> pid) R = filter (\<lambda>r. r_PolicyID r \<noteq> pid) (t_rules d)"
    and "mset (filter (\<lambda>r. r_PolicyID r = pid) R) = mset (map (override_rule Q pid) specs)"
    and "scan_ok Q d" and "uuid_Scan Q (pgUUIDToStr pid) = Inr pid" and "hosts_keyed d"
    and "DryRunPreview Q d tenantID (pgUUIDToStr pid) specs = Inr res"
    and "uuid_Scan Q tenantID = Inr tid" and "h \<in> set (t_hosts d)" and "h_TenantID h = tid"
    and "Compile Q d tenantID (pgUUIDToStr (h_ID h)) = Inr before" and "distinct (map rule_id (rs_Rules before))"
    and "Compile Q (d\<lparr>t_rules := R\<rparr>) tenantID (pgUUIDToStr (h_ID h)) = Inr after" and "distinct (map rule_id (rs_Rules after))"
  shows "filter (\<lambda>x. hd_ID x = pgUUIDToStr (h_ID h)) (pv_Hosts res) =
      (if seen before = seen after then [] else [diffRulesets (pgUUIDToStr (h_ID h)) (h_Hostname h) before after])
    \<and> set (hd_Added (diffRulesets (pgUUIDToStr (h_ID h)) (h_Hostname h) before after)) = rule_id ` set (rs_Rules after) - rule_id ` set (rs_Rules before)
    \<and> set (hd_Removed (diffRulesets (pgUUIDToStr (h_ID h)) (h_Hostname h) before after)) = rule_id ` set (rs_Rules before) - rule_id ` set (rs_Rules after)
    \<and> set (hd_Changed (diffRulesets (pgUUIDToStr (h_ID h)) (h_Hostname h) before after)) =
        {i. \<exists>x y. (i, x) \<in> seen before \<and> (i, y) \<in> seen after \<and> x \<noteq> y}"
proof -
  let ?i = "pgUUIDToStr (h_ID h)" and ?f = "preview_host Q d tenantID (pgUUIDToStr pid) specs"
  have o: "CompileWithOverride Q d tenantID ?i (pgUUIDToStr pid) specs = Inr after"
    by (rule CompileWithOverride_replaced [OF assms(1-4,12,13)])
  have fh: "?f h = (if seen before = seen after then None else Some (diffRulesets ?i (h_Hostname h) before after))"
    using diffRulesets_empty [of ?i "h_Hostname h" before after] seen_eq [OF assms(11,13)]
    by (simp add: preview_host_def assms(10) o Let_def)
  have id: "hd_ID x = pgUUIDToStr (h_ID k)" if "?f k = Some x" for k x
    using that by (auto simp: preview_host_def Let_def diffRulesets_def split: sum.splits if_splits)
  from assms(6,7) obtain hosts where l: "ListHosts Q d tid = Inr hosts" and res: "pv_Hosts res = List.map_filter ?f hosts"
    by (auto simp: DryRunPreview_def bindR_eq_Inr Let_def)
  have hosts: "h \<in> set hosts" "distinct (map (\<lambda>k. pgUUIDToStr (h_ID k)) hosts)"
    using l assms(5,8,9) by (auto simp: ListHosts_def query_def hosts_keyed_def distinct_map_sort_key distinct_map_filter split: option.splits)
  have "filter (\<lambda>x. hd_ID x = ?i) (List.map_filter ?f ks) = (if h \<in> set ks then case ?f h of None \<Rightarrow> [] | Some x \<Rightarrow> [x] else [])"
    if "distinct (map (\<lambda>k. pgUUIDToStr (h_ID k)) ks)" "\<And>k. k \<in> set ks \<Longrightarrow> pgUUIDToStr (h_ID k) = ?i \<Longrightarrow> k = h" for ks
    using that
  proof (induction ks)
    case (Cons k ks)
    show ?case
    proof (cases "k = h")
      case True
      then have "h \<notin> set ks" using Cons.prems(1) by auto
      then show ?thesis using True Cons id [of h] by (cases "?f h") (simp_all add: List.map_filter_simps)
    next
      case False
      then have "pgUUIDToStr (h_ID k) \<noteq> ?i" using Cons.prems(2) by auto
      then show ?thesis using False Cons id [of k] by (cases "?f k") (auto simp: List.map_filter_simps)
    qed
  qed (simp add: List.map_filter_simps)
  moreover have "k = h" if "k \<in> set hosts" "pgUUIDToStr (h_ID k) = ?i" for k
    using that hosts by (auto simp: distinct_map dest: inj_onD)
  ultimately have "filter (\<lambda>x. hd_ID x = ?i) (pv_Hosts res) = (case ?f h of None \<Rightarrow> [] | Some x \<Rightarrow> [x])"
    using hosts by (simp add: res)
  then show ?thesis
    by (simp add: fh diffRulesets_sets(1,2) dom_rule_map(1) diffRulesets_changed [OF assms(11,13)])
qed


text \<open>The witness: the rule of the policy that selects the host is removed.\<close>

abbreviation ex_R :: "Rule list" where
  "ex_R \<equiv> [hd (tl (t_rules ex_db))]"

lemma ex_preview_store:
  "GetHost ex_Q (ex_db\<lparr>t_rules := ex_R\<rparr>) (ex_id 1) (ex_id 9) = Inr ex_host"
  "GetDefaultPolicy ex_Q (ex_db\<lparr>t_rules := ex_R\<rparr>) (ex_id 9) = Inr \<lparr>dp_TenantID = ex_id 9, dp_Ingress = ''allow'', dp_Egress = ''allow''\<rparr>"
  "ListPolicies ex_Q (ex_db\<lparr>t_rules := ex_R\<rparr>) (ex_id 9) = Inr [hd (tl (t_policies ex_db)), hd (t_policies ex_db)]"
  "ListRulesByPolicy ex_Q (ex_db\<lparr>t_rules := ex_R\<rparr>) (ex_id 2) = Inr []"
  by (simp_all add: GetHost_def GetDefaultPolicy_def ListPolicies_def ListRulesByPolicy_def query_one_def query_def ex_Q_def ex_db_def)

lemma ex_preview_Compile: "Compile ex_Q (ex_db\<lparr>t_rules := ex_R\<rparr>) (pgUUIDToStr (ex_id 9)) (pgUUIDToStr (ex_id 1)) =
    Inr \<lparr>rs_Rules = [], rs_DefaultIngress = ''allow'', rs_DefaultEgress = ''allow''\<rparr>"
proof -
  have "p_ID (hd (t_policies ex_db)) = ex_id 2" by (simp add: ex_db_def)
  then show ?thesis by (simp add: Compile_def collectRules_def resolveRulesForPolicy_def ex_scan ex_preview_store ex_selects)
qed

theorem preview_exact_witness:
  "\<exists>res. DryRunPreview ex_Q ex_db (pgUUIDToStr (ex_id 9)) (pgUUIDToStr (ex_id 2)) [] = Inr res
     \<and> map hd_Removed (filter (\<lambda>x. hd_ID x = pgUUIDToStr (h_ID ex_host)) (pv_Hosts res)) = [[pgUUIDToStr (ex_id 4)]]"
proof -
  let ?after = "\<lparr>rs_Rules = [], rs_DefaultIngress = ''allow'', rs_DefaultEgress = ''allow''\<rparr> :: EffectiveRuleset"
  obtain res where res: "DryRunPreview ex_Q ex_db (pgUUIDToStr (ex_id 9)) (pgUUIDToStr (ex_id 2)) [] = Inr res"
    by (simp add: DryRunPreview_def ex_scan ListHosts_def query_def Let_def) (simp add: ex_Q_def)
  have h: "h_ID ex_host = ex_id 1" "h_TenantID ex_host = ex_id 9" "ex_host \<in> set (t_hosts ex_db)" by (simp_all add: ex_db_def)
  have id: "rule_id ex_rr = pgUUIDToStr (ex_id 4)" by (simp add: rule_id_def ex_rr_def ex_db_def)
  have ne: "seen ex_rs \<noteq> seen ?after" by (simp add: seen_def ex_rs_def)
  have "filter (\<lambda>x. hd_ID x = pgUUIDToStr (h_ID ex_host)) (pv_Hosts res) =
      (if seen ex_rs = seen ?after then [] else [diffRulesets (pgUUIDToStr (h_ID ex_host)) (h_Hostname ex_host) ex_rs ?after])
    \<and> set (hd_Added (diffRulesets (pgUUIDToStr (h_ID ex_host)) (h_Hostname ex_host) ex_rs ?after)) = rule_id ` set (rs_Rules ?after) - rule_id ` set (rs_Rules ex_rs)
    \<and> set (hd_Removed (diffRulesets (pgUUIDToStr (h_ID ex_host)) (h_Hostname ex_host) ex_rs ?after)) = rule_id ` set (rs_Rules ex_rs) - rule_id ` set (rs_Rules ?after)
    \<and> set (hd_Changed (diffRulesets (pgUUIDToStr (h_ID ex_host)) (h_Hostname ex_host) ex_rs ?after)) =
        {i. \<exists>x y. (i, x) \<in> seen ex_rs \<and> (i, y) \<in> seen ?after \<and> x \<noteq> y}"
  proof (rule preview_exact [where pid = "ex_id 2" and R = ex_R and Q = ex_Q and specs = "[]", OF _ _ _ _ _ res])
    show "scan_ok ex_Q ex_db" by (simp add: scan_ok_def ex_db_def ex_scan)
    show "hosts_keyed ex_db" by (simp add: hosts_keyed_def ex_db_def)
  qed (simp_all add: ex_scan h ex_Compile ex_preview_Compile, simp_all add: ex_db_def ex_rs_def)
  then show ?thesis using res ne
    by (simp add: diffRulesets_def rule_ids_def rule_map_def id ex_rs_def)
qed

end
