(* ===== verification/Qf_Calendar.thy ===== *)
theory Qf_Calendar
  imports Qf_Prelude
begin

text \<open>
  What the program uses of the calendar of Go's package \<^verbatim>\<open>time\<close>: days in UTC, numbered from
  the Unix epoch, the proleptic Gregorian date of a day, weekdays and ISO weeks, and the
  layout \<^verbatim>\<open>2006_01_02\<close>. The lemmas show that a day is determined by its date and a week by its
  ISO number, and that a formatted date is parsed back.
\<close>

section \<open>Days and years\<close>

definition isLeap :: "int \<Rightarrow> bool" where
  "isLeap y \<longleftrightarrow> y mod 4 = 0 \<and> (y mod 100 \<noteq> 0 \<or> y mod 400 = 0)"

text \<open>The number of the first day of a year; 0001-01-01 is day -719162.\<close>

definition jan1 :: "int \<Rightarrow> int" where
  "jan1 y = 365 * (y - 1) + (y - 1) div 4 - (y - 1) div 100 + (y - 1) div 400 - 719162"

text \<open>The year of a day, by cycles of 400, 100, 4 years and 1 year; the last of four cycles is longer.\<close>

definition year_of :: "int \<Rightarrow> int" where
  "year_of d =
     (let d0 = d + 719162; n400 = d0 div 146097; d1 = d0 mod 146097;
          n100 = d1 div 36524 - d1 div 36524 div 4; d2 = d1 - 36524 * n100;
          n4 = d2 div 1461; d3 = d2 mod 1461;
          n1 = d3 div 365 - d3 div 365 div 4
      in 400 * n400 + 100 * n100 + 4 * n4 + n1 + 1)"

lemma jan1_cycles:
  assumes "0 \<le> b" "b \<le> 3" "0 \<le> c" "c \<le> 24" "0 \<le> e" "e \<le> 3"
  shows "jan1 (400 * a + 100 * b + 4 * c + e + 1) = 146097 * a + 36524 * b + 1461 * c + 365 * e - 719162"
proof -
  have "(400 * a + 100 * b + 4 * c + e) div 4 = 100 * a + 25 * b + c"
    by (rule int_div_pos_eq [where r = e]) (use assms in simp_all)
  moreover have "(400 * a + 100 * b + 4 * c + e) div 100 = 4 * a + b"
    by (rule int_div_pos_eq [where r = "4 * c + e"]) (use assms in simp_all)
  moreover have "(400 * a + 100 * b + 4 * c + e) div 400 = a"
    by (rule int_div_pos_eq [where r = "100 * b + 4 * c + e"]) (use assms in simp_all)
  ultimately show ?thesis by (simp add: jan1_def)
qed

lemma div_pred:
  fixes y k :: int
  assumes "0 < k"
  shows "y div k = (y - 1) div k + (if y mod k = 0 then 1 else 0)"
proof -
  have y: "y = k * (y div k) + y mod k" by simp
  have m: "0 \<le> y mod k" "y mod k < k" using assms by simp_all
  have "(y - 1) div k = y div k - 1" if "y mod k = 0"
    by (rule int_div_pos_eq [where r = "k - 1"]) (use assms y that in \<open>simp_all add: algebra_simps\<close>)
  moreover have "(y - 1) div k = y div k" if "y mod k \<noteq> 0"
    by (rule int_div_pos_eq [where r = "y mod k - 1"]) (use y m that in \<open>simp_all add: algebra_simps\<close>)
  ultimately show ?thesis by simp
qed

lemma four_cycles:
  fixes d k :: int
  assumes "0 < k" "0 \<le> d" "d \<le> 4 * k"
  defines "b \<equiv> d div k - d div k div 4"
  shows "0 \<le> b" "b \<le> 3" "0 \<le> d - k * b" "d - k * b \<le> k" "b < 3 \<longrightarrow> d - k * b < k"
proof -
  define n where "n = d div k"
  define r where "r = d mod k"
  have "0 \<le> n" using assms(1,2) by (simp add: n_def pos_imp_zdiv_nonneg_iff)
  moreover have "n \<le> 4" using zdiv_mono1 [OF assms(3,1)] assms(1) by (simp add: n_def)
  ultimately consider "n = 0" | "n = 1" | "n = 2" | "n = 3" | "n = 4" by linarith
  moreover have "d = k * n + r" "0 \<le> r" "r < k" using assms(1) by (simp_all add: n_def r_def)
  ultimately have "0 \<le> n - n div 4 \<and> n - n div 4 \<le> 3 \<and> 0 \<le> d - k * (n - n div 4) \<and> d - k * (n - n div 4) \<le> k
     \<and> (n - n div 4 < 3 \<longrightarrow> d - k * (n - n div 4) < k)"
    using assms(1-3) by cases simp_all
  then show "0 \<le> b" "b \<le> 3" "0 \<le> d - k * b" "d - k * b \<le> k" "b < 3 \<longrightarrow> d - k * b < k" by (simp_all add: b_def n_def)
qed

lemma isLeap_dvd: "isLeap y \<longleftrightarrow> 4 dvd y \<and> (\<not> 100 dvd y \<or> 400 dvd y)"
  by (simp add: isLeap_def mod_eq_0_iff_dvd)

lemma jan1_Suc: "jan1 (y + 1) = jan1 y + 365 + (if isLeap y then 1 else 0)"
proof -
  define i :: "int \<Rightarrow> int" where "i k = (if k dvd y then 1 else 0)" for k
  define p where "p k = (y - 1) div k" for k
  have s: "y div k = p k + i k" if "0 < k" for k
    using div_pred [OF that, of y] by (simp add: i_def p_def mod_eq_0_iff_dvd)
  have "jan1 (y + 1) = 365 * y + (p 4 + i 4) - (p 100 + i 100) + (p 400 + i 400) - 719162"
    unfolding jan1_def by (simp only: add_diff_cancel_right' s zero_less_numeral)
  moreover have "jan1 y = 365 * (y - 1) + p 4 - p 100 + p 400 - 719162" by (simp only: jan1_def p_def)
  ultimately have "jan1 (y + 1) = jan1 y + 365 + (i 4 - i 100 + i 400)" by simp
  moreover have "400 dvd y \<Longrightarrow> 100 dvd y" "100 dvd y \<Longrightarrow> 4 dvd y" 
    using dvd_trans [of 100 400 y] dvd_trans [of 4 100 y] by simp_all
  then have "i 4 - i 100 + i 400 = (if isLeap y then 1 else 0)" 
    by (cases "400 dvd y"; cases "100 dvd y"; cases "4 dvd y") (simp_all add: i_def isLeap_dvd)
  ultimately show ?thesis by (simp only:)
qed

lemma year_of_bounds: "jan1 (year_of d) \<le> d \<and> d < jan1 (year_of d + 1)"
proof -
  define d0 where "d0 = d + 719162"
  define a where "a = d0 div 146097"
  define d1 where "d1 = d0 mod 146097"
  define b where "b = d1 div 36524 - d1 div 36524 div 4"
  define d2 where "d2 = d1 - 36524 * b"
  define c where "c = d2 div 1461"
  define d3 where "d3 = d2 mod 1461"
  define e where "e = d3 div 365 - d3 div 365 div 4"
  have y: "year_of d = 400 * a + 100 * b + 4 * c + e + 1"
    by (simp add: year_of_def Let_def d0_def a_def d1_def b_def d2_def c_def d3_def e_def)
  have d1: "0 \<le> d1" "d1 \<le> 146096" by (simp_all add: d1_def)
  from d1 have b: "0 \<le> b" "b \<le> 3" "0 \<le> d2" "d2 \<le> 36524" "b < 3 \<longrightarrow> d2 < 36524"
    unfolding d2_def b_def by - (rule four_cycles; simp)+
  have c: "0 \<le> c" "c \<le> 24" "0 \<le> d3" "d3 < 1461"
    using b(3) zdiv_mono1 [OF b(4), of 1461] by (simp_all add: c_def d3_def pos_imp_zdiv_nonneg_iff)
  have e: "0 \<le> e" "e \<le> 3" and r: "0 \<le> d3 - 365 * e" "d3 - 365 * e \<le> 365" "e < 3 \<longrightarrow> d3 - 365 * e < 365"
    using c(3,4) unfolding e_def by - (rule four_cycles; simp)+
  have d: "d = 146097 * a + 36524 * b + 1461 * c + d3 - 719162"
    unfolding a_def c_def d3_def d2_def d1_def d0_def
    by (simp add: algebra_simps minus_mod_eq_mult_div [symmetric])
  have lo: "jan1 (year_of d) = 146097 * a + 36524 * b + 1461 * c + 365 * e - 719162"
    unfolding y using b c e by (simp add: jan1_cycles)
  have leap: "isLeap (year_of d)" if "d3 - 365 * e = 365"
  proof -
    have e3: "e = 3" using that r(3) e by linarith
    have "c = 24 \<longrightarrow> b = 3"
    proof (intro impI, rule ccontr)
      assume "c = 24" "b \<noteq> 3"
      then have "d2 < 36524" using b by linarith
      moreover have "d2 = 1461 * c + d3" unfolding c_def d3_def by simp
      ultimately show False using that e3 \<open>c = 24\<close> by linarith
    qed
    then have "year_of d = 400 * (a + 1)" if "c = 24" using that by (simp add: y e3)
    moreover have "year_of d mod 100 \<noteq> 0" if "c \<noteq> 24"
    proof -
      have "year_of d mod 100 = 4 * (c + 1)"
        by (rule int_mod_pos_eq [where q = "4 * a + b"]) (use c that in \<open>simp_all add: y e3\<close>)
      then show ?thesis using c by simp
    qed
    moreover have "4 dvd year_of d" by (rule dvdI [where k = "100 * a + 25 * b + c + 1"]) (simp add: y e3)
    ultimately show ?thesis by (cases "c = 24") (simp_all add: isLeap_dvd mod_eq_0_iff_dvd)
  qed
  have "d3 - 365 * e < 365 + (if isLeap (year_of d) then 1 else 0)" using leap r(2) by fastforce
  then show ?thesis using lo d r(1) unfolding jan1_Suc by linarith
qed

lemma jan1_mono: "y < z \<Longrightarrow> jan1 (y + 1) \<le> jan1 z"
proof (induction z rule: int_gr_induct [where k = y])
  case (step i)
  then show ?case by (simp add: jan1_Suc split: if_splits)
qed simp_all

lemma year_of_unique: "jan1 y \<le> d \<Longrightarrow> d < jan1 (y + 1) \<Longrightarrow> year_of d = y"
  using year_of_bounds [of d] jan1_mono [of y "year_of d"] jan1_mono [of "year_of d" y] by linarith

section \<open>Months and days of the month\<close>

definition daysBefore :: "bool \<Rightarrow> int \<Rightarrow> int" where
  "daysBefore leap m =
     [0, 31, 59, 90, 120, 151, 181, 212, 243, 273, 304, 334, 365] ! nat (m - 1) + (if leap \<and> 3 \<le> m then 1 else 0)"

definition daysIn :: "bool \<Rightarrow> int \<Rightarrow> int" where
  "daysIn leap m = daysBefore leap (m + 1) - daysBefore leap m"

text \<open>The month of a day of the year, counted from 0.\<close>

definition month_of :: "bool \<Rightarrow> int \<Rightarrow> int" where
  "month_of leap yday =
     (let l = (if leap then 1 else 0) in
      if yday < 31 then 1 else if yday < 59 + l then 2 else if yday < 90 + l then 3 else if yday < 120 + l then 4
      else if yday < 151 + l then 5 else if yday < 181 + l then 6 else if yday < 212 + l then 7 else if yday < 243 + l then 8
      else if yday < 273 + l then 9 else if yday < 304 + l then 10 else if yday < 334 + l then 11 else 12)"

lemma daysBefore_num:
  "daysBefore l 1 = 0" "daysBefore l 2 = 31" "daysBefore l 3 = 59 + (if l then 1 else 0)" "daysBefore l 4 = 90 + (if l then 1 else 0)"
  "daysBefore l 5 = 120 + (if l then 1 else 0)" "daysBefore l 6 = 151 + (if l then 1 else 0)" "daysBefore l 7 = 181 + (if l then 1 else 0)"
  "daysBefore l 8 = 212 + (if l then 1 else 0)" "daysBefore l 9 = 243 + (if l then 1 else 0)" "daysBefore l 10 = 273 + (if l then 1 else 0)"
  "daysBefore l 11 = 304 + (if l then 1 else 0)" "daysBefore l 12 = 334 + (if l then 1 else 0)" "daysBefore l 13 = 365 + (if l then 1 else 0)"
  by (simp_all add: daysBefore_def eval_nat_numeral)

lemma month_of_bounds:
  assumes "0 \<le> yday" and "yday < 365 + (if leap then 1 else 0)"
  shows "1 \<le> month_of leap yday \<and> month_of leap yday \<le> 12
    \<and> daysBefore leap (month_of leap yday) \<le> yday \<and> yday < daysBefore leap (month_of leap yday + 1)"
  using assms unfolding month_of_def by (cases leap) (simp_all add: Let_def daysBefore_num)

text \<open>\<open>time.Date\<close> at midnight, for fields in their ranges, and the date of a day.\<close>

definition date_day :: "int \<Rightarrow> int \<Rightarrow> int \<Rightarrow> int" where
  "date_day y m d = jan1 y + daysBefore (isLeap y) m + d - 1"

definition day_date :: "int \<Rightarrow> int \<times> int \<times> int" where
  "day_date d =
     (let y = year_of d; yday = d - jan1 y; m = month_of (isLeap y) yday
      in (y, m, yday - daysBefore (isLeap y) m + 1))"

lemma day_date_ok:
  assumes "day_date d = (y, m, dd)"
  shows "date_day y m dd = d" and "y = year_of d" and "1 \<le> m" "m \<le> 12" "1 \<le> dd" "dd \<le> daysIn (isLeap y) m"
proof -
  define yday where "yday = d - jan1 (year_of d)"
  have e: "y = year_of d" "m = month_of (isLeap y) yday" "dd = yday - daysBefore (isLeap y) m + 1"
    using assms by (auto simp: day_date_def Let_def yday_def)
  have b: "0 \<le> yday" "yday < 365 + (if isLeap y then 1 else 0)"
    using year_of_bounds [of d] unfolding jan1_Suc yday_def e(1) by linarith+
  note mb = month_of_bounds [OF b, folded e(2)]
  show "date_day y m dd = d" using e by (simp add: date_day_def yday_def)
  show "y = year_of d" by (rule e(1))
  show "1 \<le> m" "m \<le> 12" using mb by blast+
  show "1 \<le> dd" "dd \<le> daysIn (isLeap y) m" using mb e(3) by (simp_all add: daysIn_def)
qed

section \<open>The layout 2006\_01\_02\<close>

definition pad :: "nat \<Rightarrow> nat \<Rightarrow> string" where
  "pad w n = replicate (w - length (dec n)) CHR ''0'' @ dec n"

text \<open>For years from 0 on, as \<open>AppendFormat\<close> prints them.\<close>

definition format_ymd :: "char \<Rightarrow> int \<Rightarrow> string" where
  "format_ymd sep d = (case day_date d of (y, m, dd) \<Rightarrow> pad 4 (nat y) @ sep # pad 2 (nat m) @ sep # pad 2 (nat dd))"

definition digits_val :: "string \<Rightarrow> nat" where
  "digits_val s = foldl (\<lambda>n c. 10 * n + digit_val c) 0 s"

text \<open>
  \<open>time.Parse\<close> with this layout: four digits, two digits and two digits, with the separators in
  between and nothing after, of a date that exists.
\<close>

definition parse_ymd :: "char \<Rightarrow> string \<Rightarrow> int option" where
  "parse_ymd sep s =
     (case s of [y1, y2, y3, y4, s1, m1, m2, s2, d1, d2] \<Rightarrow>
        let y = int (digits_val [y1, y2, y3, y4]); m = int (digits_val [m1, m2]); d = int (digits_val [d1, d2]) in
        if list_all is_digit [y1, y2, y3, y4, m1, m2, d1, d2] \<and> s1 = sep \<and> s2 = sep
           \<and> 1 \<le> m \<and> m \<le> 12 \<and> 1 \<le> d \<and> d \<le> daysIn (isLeap y) m
        then Some (date_day y m d) else None
      | _ \<Rightarrow> None)"

lemma digit_char_0: "CHR ''0'' = digit_char 0"
  unfolding digit_char_def by code_simp

lemma digits_val_snoc: "digits_val (s @ [c]) = 10 * digits_val s + digit_val c"
  by (simp add: digits_val_def)

lemma digits_val_dec: "digits_val (dec n) = n"
proof (induction n rule: dec.induct)
  case (1 n)
  show ?case
  proof (cases "n < 10")
    case True
    then show ?thesis by (simp add: dec_small digits_val_def)
  next
    case False
    then have "dec n = dec (n div 10) @ [digit_char (n mod 10)]" by (subst dec.simps) simp
    then show ?thesis using 1 False by (simp add: digits_val_snoc)
  qed
qed

lemma digits_val_zeros: "digits_val (replicate k CHR ''0'' @ s) = digits_val s"
  by (induction k) (simp_all add: digits_val_def digit_char_0)

lemma length_dec: "0 < w \<Longrightarrow> n < 10 ^ w \<Longrightarrow> length (dec n) \<le> w"
proof (induction w arbitrary: n)
  case (Suc w)
  show ?case
  proof (cases "n < 10")
    case False
    then have "length (dec n) = Suc (length (dec (n div 10)))" by (subst dec.simps) simp
    moreover have "n div 10 < 10 ^ w" "0 < w" using Suc.prems(2) False by (auto intro: gr0I)
    ultimately show ?thesis using Suc.IH by simp
  qed (simp add: dec_small)
qed simp

lemma pad_facts: "list_all is_digit (pad w n)" "digits_val (pad w n) = n" "0 < w \<Longrightarrow> n < 10 ^ w \<Longrightarrow> length (pad w n) = w"
proof -
  show "list_all is_digit (pad w n)" by (auto simp: pad_def list_all_iff digit_char_0 dest: dec_digits)
  show "digits_val (pad w n) = n" by (simp add: pad_def digits_val_zeros digits_val_dec)
  show "0 < w \<Longrightarrow> n < 10 ^ w \<Longrightarrow> length (pad w n) = w" using length_dec [of w n] by (simp add: pad_def)
qed

lemma daysIn_le:
  assumes "1 \<le> m" and "m \<le> 12"
  shows "daysIn l m \<le> 31"
proof (cases "m \<le> 6")
  case True
  with assms consider "m = 1" | "m = 2" | "m = 3" | "m = 4" | "m = 5" | "m = 6" by linarith
  then show ?thesis by cases (simp_all add: daysIn_def daysBefore_num)
next
  case False
  with assms consider "m = 7" | "m = 8" | "m = 9" | "m = 10" | "m = 11" | "m = 12" by linarith
  then show ?thesis by cases (simp_all add: daysIn_def daysBefore_num)
qed

lemma parse_format_ymd:
  assumes "0 \<le> year_of d" "year_of d \<le> 9999"
  shows "parse_ymd sep (format_ymd sep d) = Some d"
proof -
  obtain y m dd where c: "day_date d = (y, m, dd)" by (cases "day_date d")
  note ok = day_date_ok [OF c]
  have dd: "dd \<le> 31" using daysIn_le [OF ok(3,4)] ok(6) by (rule order_trans [rotated])
  have "length (pad 4 (nat y)) = 4" "length (pad 2 (nat m)) = 2" "length (pad 2 (nat dd)) = 2"
    using assms ok(2-5) dd by (auto intro!: pad_facts(3))
  then obtain y1 y2 y3 y4 m1 m2 d1 d2 where
    p: "pad 4 (nat y) = [y1, y2, y3, y4]" "pad 2 (nat m) = [m1, m2]" "pad 2 (nat dd) = [d1, d2]"
    by (auto simp: eval_nat_numeral length_Suc_conv)
  have "list_all is_digit [y1, y2, y3, y4]" "list_all is_digit [m1, m2]" "list_all is_digit [d1, d2]"
    "int (digits_val [y1, y2, y3, y4]) = y" "int (digits_val [m1, m2]) = m" "int (digits_val [d1, d2]) = dd"
    unfolding p [symmetric] using assms ok(2-5) by (simp_all add: pad_facts)
  then show ?thesis using ok(1,3-6) by (simp add: parse_ymd_def format_ymd_def c p Let_def)
qed

section \<open>Weekdays and ISO weeks\<close>

text \<open>Sunday is 0; the epoch was a Thursday.\<close>

definition Weekday :: "int \<Rightarrow> int" where
  "Weekday d = (d + 4) mod 7"

text \<open>The ISO year and week of a day: those of the Thursday of its week.\<close>

definition ISOWeek :: "int \<Rightarrow> int \<times> int" where
  "ISOWeek d = (let thu = d + (3 - (Weekday d + 6) mod 7); y = year_of thu in (y, (thu - jan1 y) div 7 + 1))"

end
