(* ===== verification/Qf_Partitions.thy ===== *)
theory Qf_Partitions
  imports Qf_Calendar Qf_Ingest
begin

text \<open>
  The partition manager of cp/internal/ingest/partitions.go. The telemetry tables are
  partitioned by time; the manager creates the partitions of the coming days and weeks and drops
  those whose rows are past their time to live. The catalog holds the partitions, the
  timestamps of the rows by table, and the timestamps of the system events; each statement may fail.
  Instants are nanoseconds since the epoch and the session of the database is in UTC.
\<close>

section \<open>The catalog\<close>

record partition =
  pt_name :: string
  pt_parent :: string
  pt_from :: int
  pt_to :: int

record catalog =
  cg_parts :: "partition list"
  cg_rows :: "(string \<times> int) list"
  cg_system :: "int list"
  cg_n :: nat

text \<open>
  Faults by the number of the statement: whether it fails, and for a listing, after how
  many rows it breaks off.
\<close>

record pg_faults =
  pf_exec :: "nat \<Rightarrow> bool"
  pf_list :: "nat \<Rightarrow> nat option"

definition pool_Exec :: "pg_faults \<Rightarrow> (catalog \<Rightarrow> catalog) \<Rightarrow> catalog \<Rightarrow> catalog" where
  "pool_Exec F f c = (if pf_exec F (cg_n c) then c else f c)\<lparr>cg_n := Suc (cg_n c)\<rparr>"

definition dayNs :: int where "dayNs = 24 * 3600 * 1000000000"

abbreviation midnight :: "int \<Rightarrow> int" where "midnight d \<equiv> d * dayNs"

definition ttlLog :: int where "ttlLog = 7 * dayNs"
definition ttlFlow :: int where "ttlFlow = 14 * dayNs"
definition ttlCounter :: int where "ttlCounter = 30 * dayNs"
definition ttlSystem :: int where "ttlSystem = 30 * dayNs"
definition lookaheadDays :: nat where "lookaheadDays = 7"
definition lookaheadWeeks :: nat where "lookaheadWeeks = 2"

section \<open>The statements\<close>

definition overlaps :: "partition \<Rightarrow> partition \<Rightarrow> bool" where
  "overlaps p q \<longleftrightarrow> pt_parent p = pt_parent q \<and> pt_from p < pt_to q \<and> pt_from q < pt_to p"

text \<open>\<open>CREATE TABLE IF NOT EXISTS\<close>: a relation of that name is left alone, overlapping bounds are an error.\<close>

definition create_stmt :: "partition \<Rightarrow> catalog \<Rightarrow> catalog" where
  "create_stmt p c =
     (if pt_name p \<in> set (map pt_name (cg_parts c)) \<or> list_ex (overlaps p) (cg_parts c) then c
      else c\<lparr>cg_parts := cg_parts c @ [p]\<rparr>)"

definition createPartition :: "pg_faults \<Rightarrow> string \<Rightarrow> string \<Rightarrow> int \<Rightarrow> int \<Rightarrow> catalog \<Rightarrow> catalog" where
  "createPartition F parent name from to =
     pool_Exec F (create_stmt \<lparr>pt_name = name, pt_parent = parent, pt_from = midnight from, pt_to = midnight to\<rparr>)"

definition in_part :: "partition \<Rightarrow> string \<times> int \<Rightarrow> bool" where
  "in_part p r \<longleftrightarrow> fst r = pt_parent p \<and> pt_from p \<le> snd r \<and> snd r < pt_to p"

text \<open>Dropping a partition drops its rows.\<close>

definition drop_stmt :: "string \<Rightarrow> catalog \<Rightarrow> catalog" where
  "drop_stmt name c =
     c\<lparr>cg_parts := filter (\<lambda>p. pt_name p \<noteq> name) (cg_parts c),
       cg_rows := filter (\<lambda>r. \<not> list_ex (\<lambda>p. pt_name p = name \<and> in_part p r) (cg_parts c)) (cg_rows c)\<rparr>"

definition lower :: "char \<Rightarrow> bool" where
  "lower c \<longleftrightarrow> 97 \<le> (of_char c :: nat) \<and> (of_char c :: nat) \<le> 122"

definition validPartitionName :: "string \<Rightarrow> bool" where
  "validPartitionName s =
     (case s of [] \<Rightarrow> False | c # cs \<Rightarrow> lower c \<and> list_all (\<lambda>x. lower x \<or> is_digit x \<or> x = CHR ''_'') cs)"

definition dropPartition :: "pg_faults \<Rightarrow> string \<Rightarrow> catalog \<Rightarrow> catalog" where
  "dropPartition F name c = (if validPartitionName name then pool_Exec F (drop_stmt name) c else c)"

definition listPartitions :: "pg_faults \<Rightarrow> string \<Rightarrow> catalog \<Rightarrow> string list \<times> catalog" where
  "listPartitions F parent c =
     (let names = map pt_name (filter (\<lambda>p. pt_parent p = parent) (cg_parts c)) in
      (case pf_list F (cg_n c) of None \<Rightarrow> names | Some k \<Rightarrow> take k names, c\<lparr>cg_n := Suc (cg_n c)\<rparr>))"

definition pruneSystemEvents :: "pg_faults \<Rightarrow> int \<Rightarrow> catalog \<Rightarrow> catalog" where
  "pruneSystemEvents F before = pool_Exec F (\<lambda>c. c\<lparr>cg_system := filter (\<lambda>t. \<not> t < before) (cg_system c)\<rparr>)"

section \<open>Names and dates\<close>

definition parseDailyPartitionDate :: "string \<Rightarrow> string \<Rightarrow> int option" where
  "parseDailyPartitionDate name bs =
     (let prefix = bs @ ''_'' in
      if length name \<le> length prefix then None else parse_ymd CHR ''_'' (drop (length prefix) name))"

text \<open>\<open>%d\<close> of \<open>fmt.Sscanf\<close> on ASCII input: blanks, a sign and digits that fit an int.\<close>

definition scan_d :: "string \<Rightarrow> (int \<times> string) option" where
  "scan_d s =
     (let s1 = dropWhile (\<lambda>c. of_char c \<in> {9, 11, 12, 13, 32 :: nat}) s;
          neg = (case s1 of c # _ \<Rightarrow> c = CHR ''-'' | [] \<Rightarrow> False);
          s2 = (case s1 of c # cs \<Rightarrow> if c \<in> {CHR ''-'', CHR ''+''} then cs else s1 | [] \<Rightarrow> []);
          ds = takeWhile is_digit s2;
          v = (if neg then - int (digits_val ds) else int (digits_val ds))
      in if ds = [] \<or> v < - (2 ^ 63) \<or> 2 ^ 63 \<le> v then None else Some (v, dropWhile is_digit s2))"

definition isoWeekStart :: "int \<Rightarrow> int" where
  "isoWeekStart t = (let wd = (if Weekday t = 0 then 7 else Weekday t) in t - (wd - 1))"

definition isoWeekStartYW :: "int \<Rightarrow> int \<Rightarrow> int" where
  "isoWeekStartYW year week =
     (let jan4 = date_day year 1 4;
          wd = (if Weekday jan4 = 0 then 7 else Weekday jan4);
          mondayWeek1 = jan4 - (wd - 1)
      in mondayWeek1 + (week - 1) * 7)"

definition weekly_prefix :: string where "weekly_prefix = ''counter_snapshots_''"

definition parseWeeklyPartitionDate :: "string \<Rightarrow> int option" where
  "parseWeeklyPartitionDate name =
     (if length name \<le> length weekly_prefix then None
      else case scan_d (drop (length weekly_prefix) name) of
             Some (year, CHR ''_'' # s) \<Rightarrow> map_option (\<lambda>(week, _). isoWeekStartYW year week) (scan_d s)
           | _ \<Rightarrow> None)"

section \<open>The manager\<close>

definition drop_expired :: "pg_faults \<Rightarrow> (string \<Rightarrow> bool) \<Rightarrow> string list \<Rightarrow> catalog \<Rightarrow> catalog" where
  "drop_expired F expired names c = fold (\<lambda>name c. if expired name then dropPartition F name c else c) names c"

definition daily_expired :: "string \<Rightarrow> int \<Rightarrow> string \<Rightarrow> bool" where
  "daily_expired bs cutoff name = (case parseDailyPartitionDate name bs of None \<Rightarrow> False | Some t \<Rightarrow> midnight t < cutoff)"

definition weekly_expired :: "int \<Rightarrow> string \<Rightarrow> bool" where
  "weekly_expired cutoff name = (case parseWeeklyPartitionDate name of None \<Rightarrow> False | Some t \<Rightarrow> midnight (t + 7) < cutoff)"

definition dropExpiredDaily :: "pg_faults \<Rightarrow> string \<Rightarrow> int \<Rightarrow> int \<Rightarrow> catalog \<Rightarrow> catalog" where
  "dropExpiredDaily F bs today ttl c =
     (case listPartitions F bs c of (names, c1) \<Rightarrow> drop_expired F (daily_expired bs (midnight today - ttl)) names c1)"

definition dropExpiredWeekly :: "pg_faults \<Rightarrow> int \<Rightarrow> int \<Rightarrow> catalog \<Rightarrow> catalog" where
  "dropExpiredWeekly F today ttl c =
     (case listPartitions F ''counter_snapshots'' c of (names, c1) \<Rightarrow>
        drop_expired F (weekly_expired (midnight today - ttl)) names c1)"

definition daily_name :: "string \<Rightarrow> int \<Rightarrow> string" where
  "daily_name bs d = bs @ ''_'' @ format_ymd CHR ''_'' d"

definition weekly_name :: "int \<Rightarrow> string" where
  "weekly_name w = (case ISOWeek w of (year, week) \<Rightarrow> weekly_prefix @ pad 4 (nat year) @ ''_'' @ pad 2 (nat week))"

definition create_day :: "pg_faults \<Rightarrow> int \<Rightarrow> catalog \<Rightarrow> catalog" where
  "create_day F d c =
     createPartition F ''flow_events'' (daily_name ''flow_events'' d) d (d + 1)
       (createPartition F ''log_events'' (daily_name ''log_events'' d) d (d + 1) c)"

definition create_week :: "pg_faults \<Rightarrow> int \<Rightarrow> catalog \<Rightarrow> catalog" where
  "create_week F w = createPartition F ''counter_snapshots'' (weekly_name w) w (w + 7)"

definition partitions_run :: "pg_faults \<Rightarrow> int \<Rightarrow> catalog \<Rightarrow> catalog" where
  "partitions_run F now c0 =
     (let today = now div dayNs;
          c1 = fold (\<lambda>i. create_day F (today + int i)) [0..<Suc lookaheadDays] c0;
          c2 = fold (\<lambda>i. create_week F (isoWeekStart today + 7 * int i)) [0..<Suc lookaheadWeeks] c1;
          c3 = dropExpiredDaily F ''log_events'' today ttlLog c2;
          c4 = dropExpiredDaily F ''flow_events'' today ttlFlow c3;
          c5 = dropExpiredWeekly F today ttlCounter c4
      in pruneSystemEvents F (now - ttlSystem) c5)"


section \<open>Names determine their dates\<close>

definition year_ok :: "int \<Rightarrow> bool" where
  "year_ok d \<longleftrightarrow> jan1 0 \<le> d \<and> d < jan1 10000"

lemma year_okD: "year_ok d \<Longrightarrow> 0 \<le> year_of d \<and> year_of d \<le> 9999"
  using year_of_bounds [of d] jan1_mono [of "year_of d" 0] jan1_mono [of 9999 "year_of d"]
  by (fastforce simp: year_ok_def not_le [symmetric])

lemma parse_daily_name: "year_ok d \<Longrightarrow> parseDailyPartitionDate (daily_name bs d) bs = Some d"
  using year_okD [of d] parse_format_ymd [of d "CHR ''_''"]
  by (simp add: parseDailyPartitionDate_def daily_name_def format_ymd_def split: prod.splits)

lemma mondayE:
  assumes "Weekday w = 1"
  obtains k where "w = 7 * k - 3"
proof -
  have "w = 7 * ((w + 3) div 7) - 3" using assms unfolding Weekday_def by presburger
  then show ?thesis by (rule that)
qed

lemma isoWeek_roundtrip:
  assumes "Weekday w = 1"
  shows "(case ISOWeek w of (y, k) \<Rightarrow> isoWeekStartYW y k) = w"
proof -
  define J where "J = jan1 (year_of (w + 3))"
  have J: "J \<le> w + 3" using year_of_bounds [of "w + 3"] by (simp add: J_def)
  have i: "ISOWeek w = (year_of (w + 3), (w + 3 - J) div 7 + 1)"
    using assms by (simp add: ISOWeek_def Let_def J_def)
  have "isoWeekStartYW (year_of (w + 3)) ((w + 3 - J) div 7 + 1) =
      (let wd = (if (J + 7) mod 7 = 0 then 7 else (J + 7) mod 7) in J + 3 - (wd - 1) + ((w + 3 - J) div 7) * 7)"
    by (simp add: isoWeekStartYW_def date_day_def daysBefore_num Weekday_def J_def Let_def)
  also have "\<dots> = w"
  proof -
    define a r where "a = J div 7" and "r = J mod 7"
    have Jr: "J = 7 * a + r" "0 \<le> r" "r < 7" by (simp_all add: a_def r_def)
    obtain c where w: "w = 7 * c - 3" using mondayE [OF assms] .
    have m: "(J + 7) mod 7 = r" by (simp add: r_def)
    have "(w + 3 - J) div 7 = (if r = 0 then c - a else c - a - 1)"
      by (rule int_div_pos_eq [where r = "if r = 0 then 0 else 7 - r"]) (use Jr w in \<open>auto simp: algebra_simps\<close>)
    then show ?thesis unfolding m using Jr(1) w by (simp add: Let_def)
  qed
  finally show ?thesis by (simp add: i)
qed

lemma isoWeekStart_monday: "Weekday (isoWeekStart t) = 1" "isoWeekStart t \<le> t" "t < isoWeekStart t + 7"
  unfolding isoWeekStart_def Weekday_def Let_def by presburger+

lemma scan_d_pad:
  assumes "n < 2 ^ 63" and "0 < w" and "\<And>c cs. s = c # cs \<Longrightarrow> \<not> is_digit c"
  shows "scan_d (pad w n @ s) = Some (int n, s)"
proof -
  have ds: "\<forall>c\<in>set (pad w n). is_digit c" using pad_facts(1) by (simp add: list_all_iff)
  have ne: "pad w n \<noteq> []" by (simp add: pad_def)
  then obtain c cs where c: "pad w n = c # cs" by (cases "pad w n") auto
  with ds have dc: "is_digit c" by simp
  then have nb: "of_char c \<notin> {9, 11, 12, 13, 32 :: nat}" "c \<notin> {CHR ''-'', CHR ''+''}" by (auto simp: is_digit_def)
  have tw: "takeWhile is_digit (pad w n @ s) = pad w n" "dropWhile is_digit (pad w n @ s) = s"
    using ds assms(3) by (simp_all add: takeWhile_append2 dropWhile_append2, cases s, auto)+
  have "scan_d (pad w n @ s) = (let ds = takeWhile is_digit (pad w n @ s); v = int (digits_val ds) in
      if ds = [] \<or> v < - (2 ^ 63) \<or> 2 ^ 63 \<le> v then None else Some (v, dropWhile is_digit (pad w n @ s)))"
    using nb by (simp add: scan_d_def c Let_def)
  then show ?thesis using assms(1) ne by (simp add: tw Let_def pad_facts(2))
qed

lemma parse_weekly_name:
  assumes "Weekday w = 1" and "0 \<le> year_of (w + 3)" and "year_of (w + 3) \<le> 9999"
  shows "parseWeeklyPartitionDate (weekly_name w) = Some w"
proof -
  obtain y k where i: "ISOWeek w = (y, k)" by (cases "ISOWeek w")
  then have y: "y = year_of (w + 3)" and k: "k = (w + 3 - jan1 y) div 7 + 1"
    using assms(1) by (auto simp: ISOWeek_def Let_def)
  have b: "jan1 y \<le> w + 3" "w + 3 < jan1 y + 366 + 1" using year_of_bounds [of "w + 3"] jan1_Suc [of y] by (auto simp: y split: if_splits)
  then have k': "1 \<le> k" "k \<le> 53" unfolding k by presburger+
  have "\<not> is_digit (CHR ''_'')" by (simp add: is_digit_def)
  then have "scan_d (pad 4 (nat y) @ CHR ''_'' # pad 2 (nat k)) = Some (y, CHR ''_'' # pad 2 (nat k))"
    using scan_d_pad [of "nat y" 4 "CHR ''_'' # pad 2 (nat k)"] assms(2,3) y by simp
  moreover have "scan_d (pad 2 (nat k)) = Some (k, [])" using scan_d_pad [of "nat k" 2 "[]"] k' by simp
  ultimately show ?thesis
    using isoWeek_roundtrip [OF assms(1)] by (simp add: parseWeeklyPartitionDate_def weekly_name_def i pad_def)
qed


section \<open>The invariant of the catalog\<close>

definition daily_part :: "string \<Rightarrow> int \<Rightarrow> partition" where
  "daily_part bs d = \<lparr>pt_name = daily_name bs d, pt_parent = bs, pt_from = midnight d, pt_to = midnight (d + 1)\<rparr>"

definition weekly_part :: "int \<Rightarrow> partition" where
  "weekly_part w = \<lparr>pt_name = weekly_name w, pt_parent = ''counter_snapshots'', pt_from = midnight w, pt_to = midnight (w + 7)\<rparr>"

text \<open>Every partition is one of a day or of an ISO week and carries its name.\<close>

definition part_ok :: "partition \<Rightarrow> bool" where
  "part_ok p \<longleftrightarrow>
     (\<exists>d bs. year_ok d \<and> bs \<in> {''log_events'', ''flow_events''} \<and> p = daily_part bs d)
     \<or> (\<exists>w. Weekday w = 1 \<and> year_ok (w + 3) \<and> p = weekly_part w)"

definition catalog_ok :: "catalog \<Rightarrow> bool" where
  "catalog_ok c \<longleftrightarrow> (\<forall>p\<in>set (cg_parts c). part_ok p)"

lemma part_okE:
  assumes "part_ok p"
  obtains (day) d bs where "year_ok d" "bs = ''log_events'' \<or> bs = ''flow_events''" "p = daily_part bs d"
  | (week) w where "Weekday w = 1" "year_ok (w + 3)" "p = weekly_part w"
  using assms by (auto simp: part_ok_def)

lemma name_heads:
  "hd (daily_name ''log_events'' d) = CHR ''l''" "hd (daily_name ''flow_events'' d) = CHR ''f''" "hd (weekly_name w) = CHR ''c''"
  by (simp_all add: daily_name_def weekly_name_def weekly_prefix_def split: prod.splits)

lemma daily_not_weekly: "daily_name ''log_events'' d \<noteq> weekly_name w" "daily_name ''flow_events'' d \<noteq> weekly_name w"
  by (rule notI, drule arg_cong [where f = hd], simp add: name_heads)+

lemma part_by_name:
  assumes "part_ok p" "part_ok q" "pt_name p = pt_name q"
  shows "p = q"
proof (rule part_okE [OF assms(1)]; rule part_okE [OF assms(2)])
  fix d bs d' bs'
  assume "year_ok d" "bs = ''log_events'' \<or> bs = ''flow_events''" "p = daily_part bs d"
    "year_ok d'" "bs' = ''log_events'' \<or> bs' = ''flow_events''" "q = daily_part bs' d'"
  moreover from this have "bs = bs'" using assms(3) name_heads(1,2) [of d] name_heads(1,2) [of d']
    by (auto simp: daily_part_def)
  ultimately show ?thesis using assms(3) parse_daily_name [of d bs] parse_daily_name [of d' bs] by (simp add: daily_part_def)
next
  fix w w'
  assume w: "Weekday w = 1" "year_ok (w + 3)" "p = weekly_part w" "Weekday w' = 1" "year_ok (w' + 3)" "q = weekly_part w'"
  have "weekly_name w = weekly_name w'" using assms(3) w(3,6) by (simp add: weekly_part_def)
  moreover have "parseWeeklyPartitionDate (weekly_name w) = Some w" "parseWeeklyPartitionDate (weekly_name w') = Some w'"
    using w year_okD [of "w + 3"] year_okD [of "w' + 3"] by (simp_all add: parse_weekly_name)
  ultimately show ?thesis using w(3,6) by (metis option.inject)
qed (use assms(3) daily_not_weekly daily_not_weekly [symmetric] in \<open>auto simp: daily_part_def weekly_part_def\<close>)

lemma midnight_less [simp]: "midnight a < midnight b \<longleftrightarrow> a < b" "midnight a \<le> midnight b \<longleftrightarrow> a \<le> b"
  by (simp_all add: dayNs_def)

lemma part_no_overlap:
  assumes "part_ok p" "part_ok q" "overlaps p q"
  shows "p = q"
proof (rule part_okE [OF assms(1)]; rule part_okE [OF assms(2)])
  fix w w'
  assume w: "Weekday w = 1" "p = weekly_part w" "Weekday w' = 1" "q = weekly_part w'"
  then have "w < w' + 7" "w' < w + 7" using assms(3) by (simp_all add: overlaps_def weekly_part_def)
  moreover obtain k k' where k: "w = 7 * k - 3" "w' = 7 * k' - 3" using mondayE [OF w(1)] mondayE [OF w(3)] by metis
  ultimately have "k < k' + 1" "k' < k + 1" by linarith+
  then have "w = w'" using k by simp
  then show ?thesis using w by simp
qed (use assms(3) in \<open>auto simp: overlaps_def daily_part_def weekly_part_def\<close>)

section \<open>Creating\<close>

lemma create_keeps:
  assumes "catalog_ok c" and "part_ok p"
  shows "catalog_ok (pool_Exec F (create_stmt p) c)" "set (cg_parts c) \<subseteq> set (cg_parts (pool_Exec F (create_stmt p) c))"
    "cg_rows (pool_Exec F (create_stmt p) c) = cg_rows c" "cg_system (pool_Exec F (create_stmt p) c) = cg_system c"
    "\<not> pf_exec F (cg_n c) \<Longrightarrow> p \<in> set (cg_parts (pool_Exec F (create_stmt p) c))"
proof -
  show "catalog_ok (pool_Exec F (create_stmt p) c)" "set (cg_parts c) \<subseteq> set (cg_parts (pool_Exec F (create_stmt p) c))"
    "cg_rows (pool_Exec F (create_stmt p) c) = cg_rows c" "cg_system (pool_Exec F (create_stmt p) c) = cg_system c"
    using assms by (auto simp: pool_Exec_def create_stmt_def catalog_ok_def)
  assume "\<not> pf_exec F (cg_n c)"
  moreover have "p \<in> set (cg_parts c)" if "q \<in> set (cg_parts c)" "pt_name p = pt_name q \<or> overlaps p q" for q
    using that assms part_by_name [of p q] part_no_overlap [of p q] by (auto simp: catalog_ok_def)
  ultimately show "p \<in> set (cg_parts (pool_Exec F (create_stmt p) c))"
    by (auto simp: pool_Exec_def create_stmt_def list_ex_iff)
qed

text \<open>What a sequence of creations does: it keeps the rows and, without faults, adds the partitions.\<close>

definition creates :: "pg_faults \<Rightarrow> partition set \<Rightarrow> (catalog \<Rightarrow> catalog) \<Rightarrow> bool" where
  "creates F ps f \<longleftrightarrow> (\<forall>c. catalog_ok c \<longrightarrow> catalog_ok (f c) \<and> set (cg_parts c) \<subseteq> set (cg_parts (f c))
     \<and> cg_rows (f c) = cg_rows c \<and> cg_system (f c) = cg_system c
     \<and> ((\<forall>n. \<not> pf_exec F n) \<longrightarrow> ps \<subseteq> set (cg_parts (f c))))"

lemma creates_one: "part_ok p \<Longrightarrow> creates F {p} (pool_Exec F (create_stmt p))"
  using create_keeps [of _ p F] by (simp add: creates_def)

lemma creates_comp: "creates F ps f \<Longrightarrow> creates F qs g \<Longrightarrow> creates F (ps \<union> qs) (\<lambda>c. g (f c))"
  unfolding creates_def by (simp add: subset_iff)

lemma creates_fold: "(\<And>i. i \<in> set is \<Longrightarrow> creates F (P i) (f i)) \<Longrightarrow> creates F (\<Union>i\<in>set is. P i) (fold f is)"
proof (induction "is")
  case Nil
  then show ?case by (simp add: creates_def)
next
  case (Cons i "is")
  then have "creates F (P i \<union> (\<Union>i\<in>set is. P i)) (\<lambda>c. fold f is (f i c))" by (intro creates_comp) simp_all
  then show ?case by (simp add: comp_def)
qed

lemma creates_day: "year_ok d \<Longrightarrow> creates F {daily_part ''log_events'' d, daily_part ''flow_events'' d} (create_day F d)"
proof -
  assume "year_ok d"
  then have p: "part_ok (daily_part ''log_events'' d)" "part_ok (daily_part ''flow_events'' d)" by (auto simp: part_ok_def)
  show ?thesis
    using creates_comp [OF creates_one [OF p(1)] creates_one [OF p(2)], of F]
    by (simp add: create_day_def [abs_def] createPartition_def daily_part_def insert_commute)
qed

lemma creates_week: "Weekday w = 1 \<Longrightarrow> year_ok (w + 3) \<Longrightarrow> creates F {weekly_part w} (create_week F w)"
  using creates_one [of "weekly_part w" F]
  by (auto simp: part_ok_def create_week_def [abs_def] createPartition_def weekly_part_def)


section \<open>Dropping\<close>

lemma dropPartition_spec:
  "set (cg_parts (dropPartition F name c)) \<subseteq> set (cg_parts c)"
  "p \<in> set (cg_parts c) \<Longrightarrow> pt_name p \<noteq> name \<Longrightarrow> p \<in> set (cg_parts (dropPartition F name c))"
  "(\<And>p r. p \<in> set (cg_parts c) \<Longrightarrow> pt_name p = name \<Longrightarrow> in_part p r \<Longrightarrow> \<not> Y r) \<Longrightarrow>
     filter Y (cg_rows (dropPartition F name c)) = filter Y (cg_rows c)"
  "cg_system (dropPartition F name c) = cg_system c"
  by (auto simp: dropPartition_def pool_Exec_def drop_stmt_def list_ex_iff intro!: filter_cong)

lemma dropPartition_drops:
  "validPartitionName name \<Longrightarrow> \<not> pf_exec F (cg_n c) \<Longrightarrow> p \<in> set (cg_parts (dropPartition F name c)) \<Longrightarrow> pt_name p \<noteq> name"
  by (simp add: dropPartition_def pool_Exec_def drop_stmt_def)

lemma drop_expired_simps [simp]:
  "drop_expired F ex [] c = c"
  "drop_expired F ex (name # names) c = drop_expired F ex names (if ex name then dropPartition F name c else c)"
  by (simp_all add: drop_expired_def)

lemma drop_expired_parts: "set (cg_parts (drop_expired F ex names c)) \<subseteq> set (cg_parts c)"
proof (induction names arbitrary: c)
  case (Cons name names)
  then show ?case using dropPartition_spec(1) [of F name c] by (auto split: if_splits)
qed simp

lemma drop_expired_keeps:
  "p \<in> set (cg_parts c) \<Longrightarrow> \<not> ex (pt_name p) \<Longrightarrow> p \<in> set (cg_parts (drop_expired F ex names c))"
proof (induction names arbitrary: c)
  case (Cons name names)
  then have "p \<in> set (cg_parts (if ex name then dropPartition F name c else c))"
    using dropPartition_spec(2) [of p c name F] by auto
  then show ?case using Cons.IH Cons.prems(2) by simp
qed simp

lemma drop_expired_unlisted:
  "p \<in> set (cg_parts c) \<Longrightarrow> pt_name p \<notin> set names \<Longrightarrow> p \<in> set (cg_parts (drop_expired F ex names c))"
proof (induction names arbitrary: c)
  case (Cons name names)
  then have "p \<in> set (cg_parts (if ex name then dropPartition F name c else c))"
    using dropPartition_spec(2) [of p c name F] by auto
  then show ?case using Cons.IH Cons.prems(2) by simp
qed simp

lemma drop_expired_system: "cg_system (drop_expired F ex names c) = cg_system c"
  by (induction names arbitrary: c) (simp_all add: dropPartition_spec(4))

lemma drop_expired_rows:
  "(\<And>p r. p \<in> set (cg_parts c) \<Longrightarrow> pt_name p \<in> set names \<Longrightarrow> ex (pt_name p) \<Longrightarrow> in_part p r \<Longrightarrow> \<not> Y r) \<Longrightarrow>
     filter Y (cg_rows (drop_expired F ex names c)) = filter Y (cg_rows c)"
proof (induction names arbitrary: c)
  case (Cons name names)
  let ?c = "if ex name then dropPartition F name c else c"
  have "filter Y (cg_rows (drop_expired F ex names ?c)) = filter Y (cg_rows ?c)"
  proof (rule Cons.IH)
    fix p r
    assume "p \<in> set (cg_parts ?c)" "pt_name p \<in> set names" "ex (pt_name p)" "in_part p r"
    then show "\<not> Y r" using Cons.prems [of p r] dropPartition_spec(1) [of F name c] by (auto split: if_splits)
  qed
  also have "\<dots> = filter Y (cg_rows c)" using Cons.prems dropPartition_spec(3) [of c name Y F] by auto
  finally show ?case by simp
qed simp

lemma drop_expired_drops:
  assumes "\<And>n. \<not> pf_exec F n"
  shows "p \<in> set (cg_parts (drop_expired F ex names c)) \<Longrightarrow> pt_name p \<in> set names \<Longrightarrow> validPartitionName (pt_name p) \<Longrightarrow> \<not> ex (pt_name p)"
proof (induction names arbitrary: c)
  case (Cons name names)
  let ?c = "if ex name then dropPartition F name c else c"
  have p: "p \<in> set (cg_parts (drop_expired F ex names ?c))" using Cons.prems(1) by (simp add: drop_expired_def)
  then have c: "p \<in> set (cg_parts ?c)" using drop_expired_parts by blast
  show ?case
  proof (cases "pt_name p = name")
    case True
    then show ?thesis using c dropPartition_drops [OF Cons.prems(3) assms, of p c] by (auto split: if_splits)
  next
    case False
    then show ?thesis using Cons.IH [OF p] Cons.prems(2,3) by simp
  qed
qed simp

lemma listPartitions_names:
  assumes "listPartitions F parent c = (names, c1)"
  shows "set names \<subseteq> pt_name ` {p \<in> set (cg_parts c). pt_parent p = parent}" "cg_parts c1 = cg_parts c" "cg_rows c1 = cg_rows c"
    "cg_system c1 = cg_system c" "pf_list F (cg_n c) = None \<Longrightarrow> set names = pt_name ` {p \<in> set (cg_parts c). pt_parent p = parent}"
  using assms by (auto simp: listPartitions_def Let_def dest: in_set_takeD split: option.splits)


section \<open>One run\<close>

text \<open>The time to live of the rows of a table, and the rows that are still within it.\<close>

definition table_ttl :: "string \<Rightarrow> int" where
  "table_ttl t = (if t = ''log_events'' then ttlLog else if t = ''flow_events'' then ttlFlow else ttlCounter)"

definition within_ttl :: "int \<Rightarrow> string \<times> int \<Rightarrow> bool" where
  "within_ttl now r \<longleftrightarrow> now - table_ttl (fst r) \<le> snd r"

text \<open>A phase that drops partitions of one table, those with the given property.\<close>

definition drops :: "pg_faults \<Rightarrow> (partition \<Rightarrow> bool) \<Rightarrow> (catalog \<Rightarrow> catalog) \<Rightarrow> bool" where
  "drops F D f \<longleftrightarrow> (\<forall>c. catalog_ok c \<longrightarrow>
     set (cg_parts (f c)) \<subseteq> set (cg_parts c) \<and> {p \<in> set (cg_parts c). \<not> D p} \<subseteq> set (cg_parts (f c)) \<and> cg_system (f c) = cg_system c
     \<and> (\<forall>Y. (\<forall>p r. part_ok p \<and> D p \<and> in_part p r \<longrightarrow> \<not> Y r) \<longrightarrow> filter Y (cg_rows (f c)) = filter Y (cg_rows c))
     \<and> ((\<forall>n. \<not> pf_exec F n \<and> pf_list F n = None) \<longrightarrow> set (cg_parts (f c)) = {p \<in> set (cg_parts c). \<not> D p}))"

lemma name_valid: "part_ok p \<Longrightarrow> validPartitionName (pt_name p)"
proof -
  have pd: "\<forall>x\<in>set (pad w n). is_digit x" for w n using pad_facts(1) by (simp add: list_all_iff)
  assume "part_ok p"
  then show ?thesis
    by (cases rule: part_okE)
      (auto simp: daily_part_def weekly_part_def daily_name_def weekly_name_def weekly_prefix_def format_ymd_def
        validPartitionName_def lower_def list_all_iff pd split: prod.splits)
qed

lemma drops_listed:
  assumes "\<And>p. part_ok p \<Longrightarrow> D p \<longleftrightarrow> pt_parent p = parent \<and> ex (pt_name p)"
  shows "drops F D (\<lambda>c. case listPartitions F parent c of (names, c1) \<Rightarrow> drop_expired F ex names c1)"
  unfolding drops_def
proof (intro allI impI)
  fix c
  assume ok: "catalog_ok c"
  obtain names c1 where l: "listPartitions F parent c = (names, c1)" by fastforce
  note lp = listPartitions_names [OF l]
  have pok: "part_ok p" if "p \<in> set (cg_parts c)" for p using ok that by (simp add: catalog_ok_def)
  have named: "pt_parent p = parent" if "p \<in> set (cg_parts c)" "pt_name p \<in> set names" for p
    using that lp(1) pok part_by_name by blast
  let ?c = "drop_expired F ex names c1"
  have sub: "set (cg_parts ?c) \<subseteq> set (cg_parts c)" using drop_expired_parts [of F ex names c1] by (simp add: lp(2))
  have keep: "p \<in> set (cg_parts ?c)" if p: "p \<in> set (cg_parts c)" "\<not> D p" for p
  proof (cases "ex (pt_name p)")
    case True
    then have "pt_name p \<notin> set names" using named [OF p(1)] assms [OF pok [OF p(1)]] p(2) by blast
    then show ?thesis using drop_expired_unlisted p(1) lp(2) by metis
  next
    case False
    then show ?thesis using drop_expired_keeps [of p c1 ex F names] p(1) by (simp add: lp(2))
  qed
  have rows: "filter Y (cg_rows ?c) = filter Y (cg_rows c)" if Y: "\<forall>p r. part_ok p \<and> D p \<and> in_part p r \<longrightarrow> \<not> Y r" for Y
    unfolding lp(3) [symmetric]
  proof (rule drop_expired_rows)
    fix p r
    assume "p \<in> set (cg_parts c1)" "pt_name p \<in> set names" "ex (pt_name p)" "in_part p r"
    then show "\<not> Y r" using Y assms [of p] named [of p] pok [of p] unfolding lp(2) by blast
  qed
  have all: "set (cg_parts ?c) = {p \<in> set (cg_parts c). \<not> D p}" if F: "\<forall>n. \<not> pf_exec F n \<and> pf_list F n = None"
  proof -
    have "\<not> D p" if p: "p \<in> set (cg_parts ?c)" for p
    proof
      assume "D p"
      have pc: "p \<in> set (cg_parts c)" using p sub by blast
      then have "pt_name p \<in> set names" using lp(5) F assms [OF pok [OF pc]] \<open>D p\<close> by simp
      then have "\<not> ex (pt_name p)" using drop_expired_drops [OF _ p _ name_valid [OF pok [OF pc]]] F by blast
      then show False using assms [OF pok [OF pc]] \<open>D p\<close> by blast
    qed
    then show ?thesis using sub keep by blast
  qed
  show "set (cg_parts (case listPartitions F parent c of (names, c1) \<Rightarrow> drop_expired F ex names c1)) \<subseteq> set (cg_parts c)
      \<and> {p \<in> set (cg_parts c). \<not> D p} \<subseteq> set (cg_parts (case listPartitions F parent c of (names, c1) \<Rightarrow> drop_expired F ex names c1))
      \<and> cg_system (case listPartitions F parent c of (names, c1) \<Rightarrow> drop_expired F ex names c1) = cg_system c
      \<and> (\<forall>Y. (\<forall>p r. part_ok p \<and> D p \<and> in_part p r \<longrightarrow> \<not> Y r) \<longrightarrow>
           filter Y (cg_rows (case listPartitions F parent c of (names, c1) \<Rightarrow> drop_expired F ex names c1)) = filter Y (cg_rows c))
      \<and> ((\<forall>n. \<not> pf_exec F n \<and> pf_list F n = None) \<longrightarrow>
           set (cg_parts (case listPartitions F parent c of (names, c1) \<Rightarrow> drop_expired F ex names c1)) = {p \<in> set (cg_parts c). \<not> D p})"
    unfolding l prod.case using sub keep rows all lp(4) drop_expired_system [of F ex names c1] by (intro conjI) auto
qed


lemma drops_daily:
  assumes "bs = ''log_events'' \<or> bs = ''flow_events''"
  shows "drops F (\<lambda>p. pt_parent p = bs \<and> pt_from p < midnight today - ttl) (dropExpiredDaily F bs today ttl)"
  unfolding dropExpiredDaily_def [abs_def]
proof (rule drops_listed)
  fix p
  assume "part_ok p"
  then show "pt_parent p = bs \<and> pt_from p < midnight today - ttl
      \<longleftrightarrow> pt_parent p = bs \<and> daily_expired bs (midnight today - ttl) (pt_name p)"
    using assms by (cases rule: part_okE)
      (auto simp: daily_part_def weekly_part_def daily_expired_def parse_daily_name)
qed

lemma drops_weekly:
  "drops F (\<lambda>p. pt_parent p = ''counter_snapshots'' \<and> pt_to p < midnight today - ttl) (dropExpiredWeekly F today ttl)"
  unfolding dropExpiredWeekly_def [abs_def]
proof (rule drops_listed)
  fix p
  assume "part_ok p"
  then show "pt_parent p = ''counter_snapshots'' \<and> pt_to p < midnight today - ttl
      \<longleftrightarrow> pt_parent p = ''counter_snapshots'' \<and> weekly_expired (midnight today - ttl) (pt_name p)"
  proof (cases rule: part_okE)
    case (week w)
    then have "parseWeeklyPartitionDate (weekly_name w) = Some w" using year_okD [of "w + 3"] by (simp add: parse_weekly_name)
    then show ?thesis using week(3) by (simp add: weekly_part_def weekly_expired_def)
  qed (auto simp: daily_part_def)
qed

lemma drops_comp:
  assumes "drops F D f" and "drops F E g"
  shows "drops F (\<lambda>p. D p \<or> E p) (\<lambda>c. g (f c))"
  unfolding drops_def
proof (intro allI impI)
  fix c
  assume ok: "catalog_ok c"
  have f: "set (cg_parts (f c)) \<subseteq> set (cg_parts c)" "{p \<in> set (cg_parts c). \<not> D p} \<subseteq> set (cg_parts (f c))" "cg_system (f c) = cg_system c"
    "\<And>Y. (\<forall>p r. part_ok p \<and> D p \<and> in_part p r \<longrightarrow> \<not> Y r) \<Longrightarrow> filter Y (cg_rows (f c)) = filter Y (cg_rows c)"
    "(\<forall>n. \<not> pf_exec F n \<and> pf_list F n = None) \<Longrightarrow> set (cg_parts (f c)) = {p \<in> set (cg_parts c). \<not> D p}"
    using assms(1) ok unfolding drops_def by blast+
  have "catalog_ok (f c)" using ok f(1) by (auto simp: catalog_ok_def)
  then have g: "set (cg_parts (g (f c))) \<subseteq> set (cg_parts (f c))" "{p \<in> set (cg_parts (f c)). \<not> E p} \<subseteq> set (cg_parts (g (f c)))"
    "cg_system (g (f c)) = cg_system (f c)"
    "\<And>Y. (\<forall>p r. part_ok p \<and> E p \<and> in_part p r \<longrightarrow> \<not> Y r) \<Longrightarrow> filter Y (cg_rows (g (f c))) = filter Y (cg_rows (f c))"
    "(\<forall>n. \<not> pf_exec F n \<and> pf_list F n = None) \<Longrightarrow> set (cg_parts (g (f c))) = {p \<in> set (cg_parts (f c)). \<not> E p}"
    using assms(2) unfolding drops_def by blast+
  have "filter Y (cg_rows (g (f c))) = filter Y (cg_rows c)"
    if Y: "\<forall>p r. part_ok p \<and> (D p \<or> E p) \<and> in_part p r \<longrightarrow> \<not> Y r" for Y
  proof -
    have "filter Y (cg_rows (g (f c))) = filter Y (cg_rows (f c))" using Y by (intro g(4)) blast
    also have "\<dots> = filter Y (cg_rows c)" using Y by (intro f(4)) blast
    finally show ?thesis .
  qed
  then show "set (cg_parts (g (f c))) \<subseteq> set (cg_parts c) \<and> {p \<in> set (cg_parts c). \<not> (D p \<or> E p)} \<subseteq> set (cg_parts (g (f c)))
      \<and> cg_system (g (f c)) = cg_system c
      \<and> (\<forall>Y. (\<forall>p r. part_ok p \<and> (D p \<or> E p) \<and> in_part p r \<longrightarrow> \<not> Y r) \<longrightarrow> filter Y (cg_rows (g (f c))) = filter Y (cg_rows c))
      \<and> ((\<forall>n. \<not> pf_exec F n \<and> pf_list F n = None) \<longrightarrow> set (cg_parts (g (f c))) = {p \<in> set (cg_parts c). \<not> (D p \<or> E p)})"
    using f(1,2,3,5) g(1,2,3,5) by (intro conjI) auto
qed

text \<open>The partitions a run creates and those it drops.\<close>

definition run_created :: "int \<Rightarrow> partition set" where
  "run_created today =
     (\<Union>i\<in>{..<8}. {daily_part ''log_events'' (today + int i), daily_part ''flow_events'' (today + int i)})
     \<union> (\<Union>i\<in>{..<3}. {weekly_part (isoWeekStart today + 7 * int i)})"

definition run_dropped :: "int \<Rightarrow> partition \<Rightarrow> bool" where
  "run_dropped today p \<longleftrightarrow>
     pt_parent p = ''log_events'' \<and> pt_from p < midnight today - ttlLog
     \<or> pt_parent p = ''flow_events'' \<and> pt_from p < midnight today - ttlFlow
     \<or> pt_parent p = ''counter_snapshots'' \<and> pt_to p < midnight today - ttlCounter"

lemma run_phases:
  assumes "0 \<le> today" and "today < jan1 9999"
  shows "\<exists>f g. creates F (run_created today) f \<and> drops F (run_dropped today) g
    \<and> (\<forall>now c. now div dayNs = today \<longrightarrow> partitions_run F now c = pruneSystemEvents F (now - ttlSystem) (g (f c)))"
proof -
  let ?f1 = "fold (\<lambda>i. create_day F (today + int i)) [0..<Suc lookaheadDays]"
  let ?f2 = "fold (\<lambda>i. create_week F (isoWeekStart today + 7 * int i)) [0..<Suc lookaheadWeeks]"
  have j: "jan1 0 \<le> -10" "jan1 10000 = jan1 9999 + 365" by (simp_all add: jan1_def)
  have yd: "year_ok (today + int i)" if "i < 8" for i using that assms j by (simp add: year_ok_def)
  have yw: "year_ok (isoWeekStart today + 7 * int i + 3)" if "i < 3" for i
    using that assms j isoWeekStart_monday(2,3) [of today] by (simp add: year_ok_def)
  have wd: "Weekday (isoWeekStart today + 7 * int i) = 1" for i
  proof -
    have "Weekday (isoWeekStart today + 7 * int i) = Weekday (isoWeekStart today)"
      using mod_mult_self2 [of "isoWeekStart today + 4" 7 "int i"] by (simp add: Weekday_def algebra_simps)
    then show ?thesis by (simp add: isoWeekStart_monday(1))
  qed
  have a: "creates F (\<Union>i\<in>set [0..<Suc lookaheadDays]. {daily_part ''log_events'' (today + int i), daily_part ''flow_events'' (today + int i)}) ?f1"
    by (rule creates_fold, rule creates_day, rule yd) (simp add: lookaheadDays_def)
  have b: "creates F (\<Union>i\<in>set [0..<Suc lookaheadWeeks]. {weekly_part (isoWeekStart today + 7 * int i)}) ?f2"
    by (rule creates_fold, rule creates_week, rule wd, rule yw) (simp add: lookaheadWeeks_def)
  have s: "set [0..<Suc lookaheadDays] = {..<8}" "set [0..<Suc lookaheadWeeks] = {..<3}"
    by (auto simp: lookaheadDays_def lookaheadWeeks_def)
  have c: "creates F (run_created today) (\<lambda>c. ?f2 (?f1 c))"
    using creates_comp [OF a b] unfolding s run_created_def .
  have "drops F (\<lambda>p. (pt_parent p = ''log_events'' \<and> pt_from p < midnight today - ttlLog
      \<or> pt_parent p = ''flow_events'' \<and> pt_from p < midnight today - ttlFlow)
      \<or> pt_parent p = ''counter_snapshots'' \<and> pt_to p < midnight today - ttlCounter)
    (\<lambda>c. dropExpiredWeekly F today ttlCounter (dropExpiredDaily F ''flow_events'' today ttlFlow (dropExpiredDaily F ''log_events'' today ttlLog c)))"
    by (intro drops_comp drops_daily drops_weekly) simp_all
  then have d: "drops F (run_dropped today)
    (\<lambda>c. dropExpiredWeekly F today ttlCounter (dropExpiredDaily F ''flow_events'' today ttlFlow (dropExpiredDaily F ''log_events'' today ttlLog c)))"
    by (simp add: run_dropped_def [abs_def] disj_assoc)
  show ?thesis using c d by (intro exI conjI) (auto simp: partitions_run_def Let_def)
qed


definition covered :: "string \<Rightarrow> catalog \<Rightarrow> int \<Rightarrow> bool" where
  "covered parent c t = list_ex (\<lambda>p. in_part p (parent, t)) (cg_parts c)"

lemma run_dropped_old:
  assumes "part_ok p" and "run_dropped today p" and "in_part p r" and "midnight today \<le> now"
  shows "\<not> within_ttl now r"
proof (rule part_okE [OF assms(1)])
  fix d bs
  assume p: "bs = ''log_events'' \<or> bs = ''flow_events''" "p = daily_part bs d"
  define k where "k = (if bs = ''log_events'' then 7 else 14 :: int)"
  have "midnight d < midnight (today - k)" using assms(2) p
    by (auto simp: run_dropped_def daily_part_def ttlLog_def ttlFlow_def k_def left_diff_distrib)
  then have "midnight (d + 1) \<le> midnight (today - k)" by simp
  then have "snd r < midnight today - k * dayNs" using assms(3) p by (simp add: in_part_def daily_part_def left_diff_distrib)
  moreover have "table_ttl (fst r) = k * dayNs"
    using assms(3) p by (auto simp: in_part_def daily_part_def table_ttl_def k_def ttlLog_def ttlFlow_def)
  ultimately show ?thesis using assms(4) by (simp add: within_ttl_def)
next
  fix w
  assume "p = weekly_part w"
  then show ?thesis using assms(2-4) by (auto simp: run_dropped_def weekly_part_def in_part_def within_ttl_def table_ttl_def)
qed

lemma run_created_kept: "p \<in> run_created today \<Longrightarrow> \<not> run_dropped today p"
  using isoWeekStart_monday(3) [of today]
  by (auto simp: run_created_def run_dropped_def daily_part_def weekly_part_def ttlLog_def ttlFlow_def ttlCounter_def dayNs_def)

lemma run_created_covers:
  "midnight today \<le> t \<Longrightarrow> t < midnight (today + 8) \<Longrightarrow> bs = ''log_events'' \<or> bs = ''flow_events'' \<Longrightarrow> \<exists>p\<in>run_created today. in_part p (bs, t)"
  "midnight (isoWeekStart today) \<le> t \<Longrightarrow> t < midnight (isoWeekStart today + 21) \<Longrightarrow> \<exists>p\<in>run_created today. in_part p (''counter_snapshots'', t)"
proof -
  have D: "0 < dayNs" by (simp add: dayNs_def)
  define d where "d = t div dayNs"
  have d: "midnight d \<le> t" "t < midnight (d + 1)"
  proof -
    have "t = midnight d + t mod dayNs" "0 \<le> t mod dayNs" "t mod dayNs < dayNs" using D by (simp_all add: d_def)
    moreover have "midnight (d + 1) = midnight d + dayNs" by (simp add: distrib_right)
    ultimately show "midnight d \<le> t" "t < midnight (d + 1)" by linarith+
  qed
  {
    assume t: "midnight today \<le> t" "t < midnight (today + 8)" and bs: "bs = ''log_events'' \<or> bs = ''flow_events''"
    then have "midnight today < midnight (d + 1)" "midnight d < midnight (today + 8)" using d by linarith+
    then have n: "d = today + int (nat (d - today))" "nat (d - today) \<in> {..<8}" by simp_all
    have "daily_part bs (today + int (nat (d - today))) \<in> run_created today"
      unfolding run_created_def using bs n(2) by (intro UnI1 UN_I [OF n(2)]) auto
    then have "daily_part bs d \<in> run_created today" unfolding n(1) [symmetric] .
    moreover have "in_part (daily_part bs d) (bs, t)" using d by (simp add: in_part_def daily_part_def)
    ultimately show "\<exists>p\<in>run_created today. in_part p (bs, t)" by blast
  next
    let ?m = "isoWeekStart today"
    assume t: "midnight ?m \<le> t" "t < midnight (?m + 21)"
    then have m: "midnight ?m < midnight (d + 1)" "midnight d < midnight (?m + 21)" using d by linarith+
    define i where "i = (d - ?m) div 7"
    have i: "0 \<le> i" "i < 3" "?m + 7 * i \<le> d" "d < ?m + 7 * i + 7" using m unfolding i_def by simp_all
    then have n: "nat i \<in> {..<3}" "int (nat i) = i" by simp_all
    have "weekly_part (?m + 7 * int (nat i)) \<in> run_created today"
      unfolding run_created_def by (intro UnI2 UN_I [OF n(1)]) simp
    moreover note n(2)
    moreover have "midnight (?m + 7 * i) \<le> midnight d" "midnight (d + 1) \<le> midnight (?m + 7 * i + 7)" using i by simp_all
    then have "in_part (weekly_part (?m + 7 * i)) (''counter_snapshots'', t)"
      using d by (simp add: in_part_def weekly_part_def del: midnight_less)
    ultimately show "\<exists>p\<in>run_created today. in_part p (''counter_snapshots'', t)" by metis
  }
qed

text \<open>
  C19. One run of the partition manager, from any catalog whose partitions are those of days and ISO
  weeks: it keeps this invariant; whatever statements fail, no row within its time to
  live is deleted, in any table; when statements succeed, every instant from the start of today
  to the end of the seventh day after has a partition for log and flow events, and three weeks from
  Monday on have one for counters; and when the listings succeed too, no partition that is past
  its time to live is left. The proof rests on the names: a date or an ISO week that is printed into
  a name is the one read back from it.
\<close>

theorem partition_run_retains_and_covers:
  assumes "catalog_ok c" and "0 \<le> now" and "now < midnight (jan1 9999)"
  shows "let c' = partitions_run F now c; today = now div dayNs in
    catalog_ok c'
    \<and> filter (within_ttl now) (cg_rows c') = filter (within_ttl now) (cg_rows c)
    \<and> filter (\<lambda>t. now - ttlSystem \<le> t) (cg_system c') = filter (\<lambda>t. now - ttlSystem \<le> t) (cg_system c)
    \<and> ((\<forall>n. \<not> pf_exec F n) \<longrightarrow>
         (\<forall>t. midnight today \<le> t \<and> t < midnight (today + 8) \<longrightarrow> covered ''log_events'' c' t \<and> covered ''flow_events'' c' t)
         \<and> (\<forall>t. midnight (isoWeekStart today) \<le> t \<and> t < midnight (isoWeekStart today + 21) \<longrightarrow> covered ''counter_snapshots'' c' t))
    \<and> ((\<forall>n. \<not> pf_exec F n \<and> pf_list F n = None) \<longrightarrow> (\<forall>p\<in>set (cg_parts c'). \<not> run_dropped today p))"
proof -
  define today where "today = now div dayNs"
  have today: "0 \<le> today" "today < jan1 9999" "midnight today \<le> now"
  proof -
    have D: "0 < dayNs" by (simp add: dayNs_def)
    then show "0 \<le> today" using assms(2) by (simp add: today_def pos_imp_zdiv_nonneg_iff)
    show m: "midnight today \<le> now" using D by (simp add: today_def minus_mod_eq_div_mult [symmetric])
    then have "midnight today < midnight (jan1 9999)" using assms(3) by linarith
    then show "today < jan1 9999" by simp
  qed
  obtain f g where f: "creates F (run_created today) f" and g: "drops F (run_dropped today) g"
    and "\<forall>now c. now div dayNs = today \<longrightarrow> partitions_run F now c = pruneSystemEvents F (now - ttlSystem) (g (f c))"
    using run_phases [OF today(1,2)] by blast
  then have run: "partitions_run F now c = pruneSystemEvents F (now - ttlSystem) (g (f c))" by (simp add: today_def)
  have fc: "catalog_ok (f c)" "cg_rows (f c) = cg_rows c" "cg_system (f c) = cg_system c"
    "(\<forall>n. \<not> pf_exec F n) \<Longrightarrow> run_created today \<subseteq> set (cg_parts (f c))" using f assms(1) by (simp_all add: creates_def)
  have gc: "set (cg_parts (g (f c))) \<subseteq> set (cg_parts (f c))" "{p \<in> set (cg_parts (f c)). \<not> run_dropped today p} \<subseteq> set (cg_parts (g (f c)))"
    "cg_system (g (f c)) = cg_system (f c)"
    "\<And>Y. (\<forall>p r. part_ok p \<and> run_dropped today p \<and> in_part p r \<longrightarrow> \<not> Y r) \<Longrightarrow> filter Y (cg_rows (g (f c))) = filter Y (cg_rows (f c))"
    "(\<forall>n. \<not> pf_exec F n \<and> pf_list F n = None) \<Longrightarrow> set (cg_parts (g (f c))) = {p \<in> set (cg_parts (f c)). \<not> run_dropped today p}"
    using g fc(1) unfolding drops_def by blast+
  let ?c = "partitions_run F now c"
  have p: "cg_parts ?c = cg_parts (g (f c))" "cg_rows ?c = cg_rows (g (f c))"
    "filter (\<lambda>t. now - ttlSystem \<le> t) (cg_system ?c) = filter (\<lambda>t. now - ttlSystem \<le> t) (cg_system (g (f c)))"
    by (simp_all add: run pruneSystemEvents_def pool_Exec_def not_less conj_commute cong: filter_cong)
  have "catalog_ok ?c" using fc(1) gc(1) by (auto simp: catalog_ok_def p(1))
  moreover have "filter (within_ttl now) (cg_rows ?c) = filter (within_ttl now) (cg_rows c)"
    unfolding p(2) fc(2) [symmetric] using run_dropped_old [OF _ _ _ today(3)] by (intro gc(4)) blast
  moreover have "covered bs ?c t" if "\<forall>n. \<not> pf_exec F n" "\<exists>p\<in>run_created today. in_part p (bs, t)" for bs t
    using that fc(4) gc(2) run_created_kept [of _ today] unfolding covered_def p(1) list_ex_iff by blast
  moreover have "\<forall>p\<in>set (cg_parts ?c). \<not> run_dropped today p" if "\<forall>n. \<not> pf_exec F n \<and> pf_list F n = None"
    using gc(5) [OF that] by (simp add: p(1))
  ultimately show ?thesis
    unfolding Let_def today_def [symmetric] using run_created_covers p(3) gc(3) fc(3) by (intro conjI impI allI) auto
qed


text \<open>What the ingester needs of the partitions: a batch of fresh rows is accepted by \<open>COPY\<close>.\<close>

lemma batch_within_window_stored:
  assumes "\<forall>t. midnight today \<le> t \<and> t < midnight (today + 8) \<longrightarrow> covered ''log_events'' c t"
    and "list_all (\<lambda>r. midnight today \<le> lr_CreatedAt r \<and> lr_CreatedAt r < midnight (today + 8)) rows"
  shows "InsertLogEventsBatch (covered ''log_events'' c) None rows t = (Inr (length rows), t @ rows)"
  using assms by (auto simp: InsertLogEventsBatch_def copyfrom_def list_all_iff)

definition ex_catalog :: catalog where
  "ex_catalog = \<lparr>cg_parts = [daily_part ''log_events'' 20000, daily_part ''log_events'' 19990], cg_rows = [(''log_events'', 20000 * dayNs + 5), (''log_events'', 19990 * dayNs)],
     cg_system = [0], cg_n = 0\<rparr>"

lemma ex_catalog_ok: "catalog_ok ex_catalog"
proof -
  have "year_ok 20000" "year_ok 19990" by (simp_all add: year_ok_def jan1_def)
  then show ?thesis by (auto simp: catalog_ok_def ex_catalog_def part_ok_def)
qed

theorem partition_run_retains_and_covers_witness:
  "\<exists>c'. c' = partitions_run \<lparr>pf_exec = (\<lambda>_. False), pf_list = (\<lambda>_. None)\<rparr> (20000 * dayNs + 7) ex_catalog
     \<and> covered ''log_events'' c' (20007 * dayNs) \<and> covered ''counter_snapshots'' c' (20000 * dayNs)
     \<and> (''log_events'', 20000 * dayNs + 5) \<in> set (cg_rows c') \<and> daily_part ''log_events'' 19990 \<notin> set (cg_parts c')"
proof -
  let ?F = "\<lparr>pf_exec = (\<lambda>_. False), pf_list = (\<lambda>_. None)\<rparr>" and ?now = "20000 * dayNs + 7"
  let ?c = "partitions_run ?F ?now ex_catalog"
  have now: "0 \<le> ?now" "?now < midnight (jan1 9999)" "?now div dayNs = 20000" by (simp_all add: dayNs_def jan1_def)
  note t = partition_run_retains_and_covers [OF ex_catalog_ok now(1,2), of ?F, unfolded Let_def now(3)]
  note rows = t [THEN conjunct2, THEN conjunct1]
    and cov = t [THEN conjunct2, THEN conjunct2, THEN conjunct2, THEN conjunct1, THEN mp]
    and gone = t [THEN conjunct2, THEN conjunct2, THEN conjunct2, THEN conjunct2, THEN mp]
  have "within_ttl ?now (''log_events'', 20000 * dayNs + 5)" by (simp add: within_ttl_def table_ttl_def ttlLog_def dayNs_def)
  then have "(''log_events'', 20000 * dayNs + 5) \<in> set (filter (within_ttl ?now) (cg_rows ex_catalog))" by (simp add: ex_catalog_def)
  then have "(''log_events'', 20000 * dayNs + 5) \<in> set (filter (within_ttl ?now) (cg_rows ?c))" unfolding rows .
  then have "(''log_events'', 20000 * dayNs + 5) \<in> set (cg_rows ?c)" by simp
  moreover have "run_dropped 20000 (daily_part ''log_events'' 19990)" by (simp add: run_dropped_def daily_part_def ttlLog_def dayNs_def)
  then have "daily_part ''log_events'' 19990 \<notin> set (cg_parts ?c)" using gone by auto
  moreover have "covered ''log_events'' ?c (20007 * dayNs)"
    using cov [THEN conjunct1, rule_format, of "20007 * dayNs"] by (simp add: dayNs_def)
  moreover have "isoWeekStart 20000 \<le> 20000" "20000 < isoWeekStart 20000 + 21" using isoWeekStart_monday(2,3) [of 20000] by simp_all
  then have "covered ''counter_snapshots'' ?c (20000 * dayNs)"
    using cov [THEN conjunct2, rule_format, of "20000 * dayNs"] by (simp add: dayNs_def)
  ultimately show ?thesis by blast
qed

end
