(* ===== verification/Qf_Syslog.thy ===== *)
theory Qf_Syslog
  imports Qf_Calendar Qf_Ingest Qf_Reconnect
begin

text \<open>
  The syslog forwarder of cp/internal/forwarder: opening it from a parsed DSN, the RFC 5424
  line of an event, and the connection that is reopened once when a write fails. The network
  decides which dials and writes fail and how much of the data a failing write passed on. The
  lemmas show that a reader that splits the byte streams of the connections at newlines and
  reads RFC 5424 structured data gets back the fields of the events, and which lines it has
  got when \<open>Forward\<close> returns.
\<close>

section \<open>Strings\<close>


definition ascii_space :: "char \<Rightarrow> bool" where
  "ascii_space c \<longleftrightarrow> of_char c \<in> {9, 10, 11, 12, 13, 32 :: nat}"

definition strings_TrimSpace :: "string \<Rightarrow> string" where
  "strings_TrimSpace s = rev (dropWhile ascii_space (rev (dropWhile ascii_space s)))"




section \<open>The line of an event\<close>







definition facility_names :: "(string \<times> int) list" where
  "facility_names = [(''kern'', 0), (''user'', 1), (''mail'', 2), (''daemon'', 3), (''auth'', 4), (''syslog'', 5), (''lpr'', 6),
     (''news'', 7), (''uucp'', 8), (''cron'', 9), (''authpriv'', 10), (''ftp'', 11), (''local1'', 17), (''local2'', 18),
     (''local3'', 19), (''local4'', 20), (''local5'', 21), (''local6'', 22), (''local7'', 23)]"

definition parseFacility :: "string \<Rightarrow> int" where
  "parseFacility name = (case map_of facility_names (strings_ToLower (strings_TrimSpace name)) of Some f \<Rightarrow> f | None \<Rightarrow> 16)"

section \<open>The connection\<close>

text \<open>
  Calls are numbered; a write that fails may have passed on a part of its data. Each connection has a
  number, in the order in which they were opened, and \<open>sy_wire\<close> holds the bytes that were sent on it:
  a stream, in which nothing marks the ends of the writes. (A UDP socket is dialled for each
  datagram and so carries one write.)
\<close>

record network =
  nt_dial :: "nat \<Rightarrow> goerr option"
  nt_write :: "nat \<Rightarrow> (nat \<times> goerr) option"
  nt_close :: "nat \<Rightarrow> goerr option"

datatype proto = TCP | UDP

record syslogForwarder =
  sy_addr :: string
  sy_proto :: proto
  sy_facility :: int
  sy_conn :: "nat option"
  sy_calls :: nat
  sy_next :: nat
  sy_wire :: "nat \<Rightarrow> string"

definition sy_dial :: "network \<Rightarrow> (syslogForwarder, nat) st" where
  "sy_dial N s =
     (let s1 = s\<lparr>sy_calls := Suc (sy_calls s)\<rparr> in
      case nt_dial N (sy_calls s) of Some e \<Rightarrow> (Inl e, s1)
      | None \<Rightarrow> (Inr (sy_next s), s1\<lparr>sy_next := Suc (sy_next s)\<rparr>))"



definition dial :: "network \<Rightarrow> (syslogForwarder, nat) st" where
  "dial N = bindS (sy_dial N) (\<lambda>cn s. (Inr cn, s\<lparr>sy_conn := Some cn\<rparr>))"




definition sy_Close :: "network \<Rightarrow> (syslogForwarder, unit) st" where
  "sy_Close N s =
     (case sy_conn s of None \<Rightarrow> (Inr (), s)
      | Some _ \<Rightarrow> (case nt_close N (sy_calls s) of Some e \<Rightarrow> Inl e | None \<Rightarrow> Inr (), s\<lparr>sy_conn := None, sy_calls := Suc (sy_calls s)\<rparr>))"

text \<open>Opening, from the parts of the parsed DSN.\<close>

definition sy_Open :: "network \<Rightarrow> (string \<times> string \<times> string) res \<Rightarrow> syslogForwarder res" where
  "sy_Open N dsn = bindR (wrapR ''forwarder: parse DSN'' dsn) (\<lambda>(scheme, host, facility).
     bindR (if scheme = ''syslog'' then Inr TCP else if scheme = ''syslog+udp'' then Inr UDP
            else Inl (Errorf ''forwarder: unknown scheme'')) (\<lambda>pr.
     if host = '''' then Inl (Errorf ''forwarder: missing host in DSN'')
     else let sf = \<lparr>sy_addr = host, sy_proto = pr, sy_facility = parseFacility facility, sy_conn = None, sy_calls = 0, sy_next = 0, sy_wire = (\<lambda>_. [])\<rparr>
          in if pr = TCP then (case dial N sf of (Inl e, _) \<Rightarrow> Inl (Wrapf ''forwarder: initial connect'' e) | (Inr _, s) \<Rightarrow> Inr s)
             else Inr sf))"


section \<open>Reading structured data\<close>

























section \<open>Delivery\<close>





text \<open>Between two lines: no stream of a connection to come has data, and the current one does not end within a line.\<close>

definition at_line_start :: "string \<Rightarrow> bool" where
  "at_line_start x \<longleftrightarrow> x = [] \<or> last x = CHR 0x0A"

definition wire_fresh :: "syslogForwarder \<Rightarrow> bool" where
  "wire_fresh s \<longleftrightarrow> (\<forall>cn. sy_next s \<le> cn \<longrightarrow> sy_wire s cn = [])"

definition wire_clean :: "syslogForwarder \<Rightarrow> bool" where
  "wire_clean s \<longleftrightarrow> wire_fresh s \<and> (sy_proto s = UDP \<longrightarrow> sy_conn s = None)
     \<and> (\<forall>cn. sy_conn s = Some cn \<longrightarrow> sy_next s = Suc cn \<and> at_line_start (sy_wire s cn))"

















text \<open>\<open>Open\<close> returns a forwarder between two lines.\<close>

lemma sy_Open_clean: "sy_Open N dsn = Inr s \<Longrightarrow> wire_clean s"
  by (auto simp: sy_Open_def bindR_eq_Inr dial_def sy_dial_def bindS_def wire_clean_def wire_fresh_def at_line_start_def Let_def
      split: if_splits option.splits sum.splits prod.splits)






end
