(* ===== verification/Qf_Keys.thy ===== *)
theory Qf_Keys
  imports Qf_Reconnect
begin

text \<open>
  The key files of the control plane: its certificate authority and server certificate
  (cp/internal/pki/ca.go) and the key that signs bundles (cp/internal/pki/bundle_signer.go). Each is
  loaded when its first file exists and generated otherwise. The lemmas show that what was generated is
  loaded again at every later start, and what is left when a start is interrupted.
\<close>

section \<open>Library code\<close>

text \<open>
  The template of a certificate with the fields that differ between the authority and the server.
  Cryptography, encodings and randomness are arguments. \<open>cl_ParsePKCS8\<close> returns \<open>None\<close> for
  a key of another type. A panic is the error \<open>go_panic\<close>: the process ends as it does on
  any other error of these functions.
\<close>

record CATemplate = CertTemplate +
  tm_IsCA :: bool
  tm_KeyUsage :: "string list"
  tm_ExtKeyUsage :: "string list"
  tm_DNSNames :: "string list"
  tm_IPAddresses :: "bytes list"

record 'k ca_lib =
  cl_x509 :: x509
  cl_GenerateKey :: "'k res"
  cl_rand :: "nat res"
  cl_CreateCertificate :: "CATemplate \<Rightarrow> CATemplate \<Rightarrow> 'k \<Rightarrow> 'k \<Rightarrow> bytes res"
  cl_ParseCertificate :: "bytes \<Rightarrow> CATemplate res"
  cl_MarshalPKCS8 :: "'k \<Rightarrow> bytes res"
  cl_ParsePKCS8 :: "bytes \<Rightarrow> 'k option res"
  cl_NewGCM :: "bytes \<Rightarrow> unit res"
  cl_nonce :: "bytes res"
  cl_Seal :: "bytes \<Rightarrow> bytes \<Rightarrow> bytes \<Rightarrow> bytes"
  cl_Open :: "bytes \<Rightarrow> bytes \<Rightarrow> bytes \<Rightarrow> bytes res"

definition go_panic :: goerr where
  "go_panic = Sentinel ''panic''"

text \<open>
  Files. A failing \<open>os.WriteFile\<close> leaves the file as it was when it could not be opened
  (\<open>None\<close>), and a prefix of the data otherwise. A failing \<open>os.Stat\<close> reads as an
  absent file. File modes are not kept. Directories are clean paths, so \<open>filepath.Join\<close> appends.
\<close>

definition pki_WriteFile :: "(nat \<Rightarrow> bool) \<Rightarrow> nat option \<Rightarrow> string \<Rightarrow> bytes \<Rightarrow> (fs, unit) st" where
  "pki_WriteFile flt short path bs = fsS flt
     (\<lambda>s. (Inl (Errorf ''i/o error''), case short of None \<Rightarrow> s | Some n \<Rightarrow> s\<lparr>files := (files s)(path \<mapsto> take n bs)\<rparr>))
     (\<lambda>s. (Inr (), s\<lparr>files := (files s)(path \<mapsto> bs)\<rparr>))"

definition pki_ReadFile :: "(nat \<Rightarrow> bool) \<Rightarrow> string \<Rightarrow> (fs, bytes) st" where
  "pki_ReadFile flt path = fsS flt io_err
     (\<lambda>s. case files s path of None \<Rightarrow> (Inl (Sentinel ''os.ErrNotExist''), s) | Some b \<Rightarrow> (Inr b, s))"

definition os_exists :: "(nat \<Rightarrow> bool) \<Rightarrow> string \<Rightarrow> (fs, bool) st" where
  "os_exists flt path = fsS flt (retS False) (\<lambda>s. (Inr (files s path \<noteq> None), s))"

definition os_MkdirAll :: "(nat \<Rightarrow> bool) \<Rightarrow> (fs, unit) st" where
  "os_MkdirAll flt = fsS flt io_err (retS ())"

definition filepath_Join :: "string \<Rightarrow> string \<Rightarrow> string" where
  "filepath_Join dir name = dir @ ''/'' @ name"

section \<open>ca.go\<close>

record 'k CA =
  ca_Cert :: CATemplate
  ca_CertPEM :: bytes
  ca_key :: 'k

definition randSerial :: "'k ca_lib \<Rightarrow> nat res" where
  "randSerial L = bindR (cl_rand L) (\<lambda>n. Inr (n mod 2 ^ 128))"

definition gcm_NonceSize :: nat where
  "gcm_NonceSize = 12"

definition encryptKey :: "'k ca_lib \<Rightarrow> bytes \<Rightarrow> bytes \<Rightarrow> bytes res" where
  "encryptKey L keyDER masterKey =
     (if length masterKey < 32 then Inl (Errorf ''pki: masterKey too short'')
      else bindR (cl_NewGCM L (take 32 masterKey)) (\<lambda>_.
           bindR (cl_nonce L) (\<lambda>nonce. Inr (nonce @ cl_Seal L (take 32 masterKey) nonce keyDER))))"

definition decryptKey :: "'k ca_lib \<Rightarrow> bytes \<Rightarrow> bytes \<Rightarrow> bytes res" where
  "decryptKey L data masterKey =
     (if length masterKey < 32 then Inl (Errorf ''pki: masterKey too short'')
      else bindR (cl_NewGCM L (take 32 masterKey)) (\<lambda>_.
           if length data < gcm_NonceSize then Inl (Errorf ''pki: encrypted key data too short'')
           else cl_Open L (take 32 masterKey) (take gcm_NonceSize data) (drop gcm_NonceSize data)))"

definition loadCA :: "'k ca_lib \<Rightarrow> (nat \<Rightarrow> bool) \<Rightarrow> string \<Rightarrow> string \<Rightarrow> bytes \<Rightarrow> (fs, 'k CA) st" where
  "loadCA L flt certPath keyPath masterKey =
     bindS (pki_ReadFile flt certPath) (\<lambda>certPEM.
     case pem_Decode (cl_x509 L) certPEM of None \<Rightarrow> failS go_panic
     | Some (_, bs) \<Rightarrow>
         bindS (liftS (cl_ParseCertificate L bs)) (\<lambda>cert.
         bindS (pki_ReadFile flt keyPath) (\<lambda>encrypted.
         bindS (liftS (decryptKey L encrypted masterKey)) (\<lambda>keyDER.
         bindS (liftS (cl_ParsePKCS8 L keyDER)) (\<lambda>priv.
         case priv of None \<Rightarrow> failS go_panic
         | Some k \<Rightarrow> retS \<lparr>ca_Cert = cert, ca_CertPEM = certPEM, ca_key = k\<rparr>)))))"

definition ca_template :: "int \<Rightarrow> nat \<Rightarrow> CATemplate" where
  "ca_template now serial =
     \<lparr>SerialNumber = serial, CommonName = ''qf-ca'', OrganizationalUnit = [], NotBefore = now - 60000000000,
      NotAfter = now + 10 * 365 * 24 * 3600000000000, tm_IsCA = True, tm_KeyUsage = [''CertSign'', ''CRLSign''],
      tm_ExtKeyUsage = [], tm_DNSNames = [], tm_IPAddresses = []\<rparr>"

definition generateCA :: "'k ca_lib \<Rightarrow> (nat \<Rightarrow> bool) \<Rightarrow> nat option \<Rightarrow> int \<Rightarrow> string \<Rightarrow> string \<Rightarrow> bytes \<Rightarrow> (fs, 'k CA) st" where
  "generateCA L flt short now certPath keyPath masterKey =
     bindS (liftS (cl_GenerateKey L)) (\<lambda>priv.
     bindS (liftS (randSerial L)) (\<lambda>serial.
     let tmpl = ca_template now serial in
     bindS (liftS (cl_CreateCertificate L tmpl tmpl priv priv)) (\<lambda>certDER.
     let certPEM = pem_EncodeToMemory (cl_x509 L) ''CERTIFICATE'' certDER in
     bindS (pki_WriteFile flt short certPath certPEM) (\<lambda>_.
     bindS (liftS (cl_MarshalPKCS8 L priv)) (\<lambda>keyDER.
     bindS (liftS (encryptKey L keyDER masterKey)) (\<lambda>encrypted.
     bindS (pki_WriteFile flt short keyPath encrypted) (\<lambda>_.
     bindS (liftS (cl_ParseCertificate L certDER)) (\<lambda>cert.
       retS \<lparr>ca_Cert = cert, ca_CertPEM = certPEM, ca_key = priv\<rparr>))))))))"

definition LoadOrInit :: "'k ca_lib \<Rightarrow> (nat \<Rightarrow> bool) \<Rightarrow> nat option \<Rightarrow> int \<Rightarrow> string \<Rightarrow> bytes \<Rightarrow> (fs, 'k CA) st" where
  "LoadOrInit L flt short now dir masterKey =
     bindS (os_MkdirAll flt) (\<lambda>_.
     let certPath = filepath_Join dir ''ca.crt''; keyPath = filepath_Join dir ''ca.key'' in
     bindS (os_exists flt certPath) (\<lambda>ex.
       if ex then loadCA L flt certPath keyPath masterKey
       else generateCA L flt short now certPath keyPath masterKey))"

text \<open>The pair that \<open>tls.X509KeyPair\<close> makes; its check that the key fits the certificate is an argument.\<close>

definition tls_pair :: "'k ca_lib \<Rightarrow> (CATemplate \<Rightarrow> 'k \<Rightarrow> bool) \<Rightarrow> bytes \<Rightarrow> bytes \<Rightarrow> (CATemplate \<times> 'k) res" where
  "tls_pair L fits certPEM keyPEM =
     (case pem_Decode (cl_x509 L) certPEM of None \<Rightarrow> Inl (Errorf ''tls: failed to find any PEM data in certificate input'')
      | Some (_, cd) \<Rightarrow>
         (case pem_Decode (cl_x509 L) keyPEM of None \<Rightarrow> Inl (Errorf ''tls: failed to find any PEM data in key input'')
          | Some (_, kd) \<Rightarrow>
             bindR (cl_ParseCertificate L cd) (\<lambda>cert.
             bindR (cl_ParsePKCS8 L kd) (\<lambda>k.
             case k of None \<Rightarrow> Inl (Errorf ''tls: found unknown private key type'')
             | Some p \<Rightarrow> if fits cert p then Inr (cert, p) else Inl (Errorf ''tls: private key does not match public key'')))))"

definition server_template :: "int \<Rightarrow> nat \<Rightarrow> string list \<Rightarrow> CATemplate" where
  "server_template now serial hosts =
     \<lparr>SerialNumber = serial, CommonName = ''qf-cp'', OrganizationalUnit = [], NotBefore = now - 60000000000,
      NotAfter = now + 365 * 24 * 3600000000000, tm_IsCA = False, tm_KeyUsage = [''DigitalSignature''],
      tm_ExtKeyUsage = [''ServerAuth''], tm_DNSNames = filter (\<lambda>h. netParseIP h = None) hosts,
      tm_IPAddresses = List.map_filter netParseIP hosts\<rparr>"

definition LoadOrGenerateServerCert ::
  "'k ca_lib \<Rightarrow> (CATemplate \<Rightarrow> 'k \<Rightarrow> bool) \<Rightarrow> (nat \<Rightarrow> bool) \<Rightarrow> nat option \<Rightarrow> int \<Rightarrow> 'k CA \<Rightarrow> string \<Rightarrow> string list \<Rightarrow> (fs, CATemplate \<times> 'k) st" where
  "LoadOrGenerateServerCert L fits flt short now ca dir hosts =
     (let certPath = filepath_Join dir ''server.crt''; keyPath = filepath_Join dir ''server.key'' in
      bindS (os_exists flt certPath) (\<lambda>ex.
        if ex then
          bindS (pki_ReadFile flt certPath) (\<lambda>certPEM.
          bindS (pki_ReadFile flt keyPath) (\<lambda>keyPEM. liftS (tls_pair L fits certPEM keyPEM)))
        else
          bindS (liftS (cl_GenerateKey L)) (\<lambda>priv.
          bindS (liftS (randSerial L)) (\<lambda>serial.
          bindS (liftS (cl_CreateCertificate L (server_template now serial hosts) (ca_Cert ca) priv (ca_key ca))) (\<lambda>certDER.
          let certPEM = pem_EncodeToMemory (cl_x509 L) ''CERTIFICATE'' certDER in
          bindS (pki_WriteFile flt short certPath certPEM) (\<lambda>_.
          bindS (liftS (cl_MarshalPKCS8 L priv)) (\<lambda>keyDER.
          let keyPEM = pem_EncodeToMemory (cl_x509 L) ''PRIVATE KEY'' keyDER in
          bindS (pki_WriteFile flt short keyPath keyPEM) (\<lambda>_.
            liftS (tls_pair L fits certPEM keyPEM)))))))))"

definition TLSCertificate :: "'k ca_lib \<Rightarrow> (CATemplate \<Rightarrow> 'k \<Rightarrow> bool) \<Rightarrow> 'k CA \<Rightarrow> (CATemplate \<times> 'k) res" where
  "TLSCertificate L fits ca =
     bindR (cl_MarshalPKCS8 L (ca_key ca)) (\<lambda>keyDER.
       tls_pair L fits (ca_CertPEM ca) (pem_EncodeToMemory (cl_x509 L) ''PRIVATE KEY'' keyDER))"

section \<open>bundle_signer.go\<close>

text \<open>The Ed25519 keys: generation, the public half, and the encodings.\<close>

record 'k ed_lib =
  ed_x509 :: x509
  ed_GenerateKey :: "'k res"
  ed_Public :: "'k \<Rightarrow> bytes"
  ed_MarshalPKCS8 :: "'k \<Rightarrow> bytes res"
  ed_ParsePKCS8 :: "bytes \<Rightarrow> 'k option res"
  ed_MarshalPKIX :: "bytes \<Rightarrow> bytes res"

record 'k BundleSigner =
  bs_PublicKey :: bytes
  bs_privateKey :: 'k

definition loadBundleSigner :: "'k ed_lib \<Rightarrow> (nat \<Rightarrow> bool) \<Rightarrow> string \<Rightarrow> (fs, 'k BundleSigner) st" where
  "loadBundleSigner L flt keyPath =
     bindS (pki_ReadFile flt keyPath) (\<lambda>keyPEMBytes.
     case pem_Decode (ed_x509 L) keyPEMBytes of None \<Rightarrow> failS (Errorf ''pki: invalid PEM'')
     | Some (_, bs) \<Rightarrow>
         bindS (liftS (ed_ParsePKCS8 L bs)) (\<lambda>priv.
         case priv of None \<Rightarrow> failS (Errorf ''pki: bundle-signing.key is not Ed25519'')
         | Some ed \<Rightarrow> retS \<lparr>bs_PublicKey = ed_Public L ed, bs_privateKey = ed\<rparr>))"

definition generateBundleSigner :: "'k ed_lib \<Rightarrow> (nat \<Rightarrow> bool) \<Rightarrow> nat option \<Rightarrow> string \<Rightarrow> string \<Rightarrow> (fs, 'k BundleSigner) st" where
  "generateBundleSigner L flt short keyPath pubPath =
     bindS (liftS (ed_GenerateKey L)) (\<lambda>priv.
     bindS (liftS (ed_MarshalPKCS8 L priv)) (\<lambda>keyDER.
     bindS (pki_WriteFile flt short keyPath (pem_EncodeToMemory (ed_x509 L) ''PRIVATE KEY'' keyDER)) (\<lambda>_.
     bindS (liftS (ed_MarshalPKIX L (ed_Public L priv))) (\<lambda>pubDER.
     bindS (pki_WriteFile flt short pubPath (pem_EncodeToMemory (ed_x509 L) ''PUBLIC KEY'' pubDER)) (\<lambda>_.
       retS \<lparr>bs_PublicKey = ed_Public L priv, bs_privateKey = priv\<rparr>)))))"

definition LoadOrInitBundleSigner :: "'k ed_lib \<Rightarrow> (nat \<Rightarrow> bool) \<Rightarrow> nat option \<Rightarrow> string \<Rightarrow> (fs, 'k BundleSigner) st" where
  "LoadOrInitBundleSigner L flt short dir =
     bindS (os_MkdirAll flt) (\<lambda>_.
     let keyPath = filepath_Join dir ''bundle-signing.key''; pubPath = filepath_Join dir ''bundle-signing.pub'' in
     bindS (os_exists flt keyPath) (\<lambda>ex.
       if ex then loadBundleSigner L flt keyPath else generateBundleSigner L flt short keyPath pubPath))"

section \<open>Starts\<close>

text \<open>
  What the code relies on: a PEM block of the types in use decodes to what was encoded, a certificate that was
  created from the authority's template parses, a marshalled private key parses to itself, and AES-GCM opens what it
  sealed with a nonce of 12 bytes.
\<close>

definition ca_lib_ok :: "'k ca_lib \<Rightarrow> bool" where
  "ca_lib_ok L \<longleftrightarrow> pem_ok (cl_x509 L)
     \<and> (\<forall>now n k der. cl_CreateCertificate L (ca_template now n) (ca_template now n) k k = Inr der \<longrightarrow>
          (\<exists>cert. cl_ParseCertificate L der = Inr cert))
     \<and> (\<forall>k der. cl_MarshalPKCS8 L k = Inr der \<longrightarrow> cl_ParsePKCS8 L der = Inr (Some k))
     \<and> (\<forall>n. cl_nonce L = Inr n \<longrightarrow> length n = gcm_NonceSize)
     \<and> (\<forall>k n p. cl_NewGCM L k = Inr () \<longrightarrow> length n = gcm_NonceSize \<longrightarrow> cl_Open L k n (cl_Seal L k n p) = Inr p)"

text \<open>The library at a later start: the same functions, other random choices.\<close>

definition later_lib :: "'k ca_lib \<Rightarrow> 'k res \<Rightarrow> nat res \<Rightarrow> bytes res \<Rightarrow> 'k ca_lib" where
  "later_lib L g r n = L\<lparr>cl_GenerateKey := g, cl_rand := r, cl_nonce := n\<rparr>"

lemma later_lib_simps [simp]:
  "cl_x509 (later_lib L g r n) = cl_x509 L" "cl_ParseCertificate (later_lib L g r n) = cl_ParseCertificate L"
  "cl_ParsePKCS8 (later_lib L g r n) = cl_ParsePKCS8 L" "decryptKey (later_lib L g r n) = decryptKey L"
  by (simp_all add: later_lib_def decryptKey_def fun_eq_iff)

lemma decryptKey_encryptKey:
  assumes "ca_lib_ok L" and "encryptKey L keyDER masterKey = Inr bs"
  shows "decryptKey L bs masterKey = Inr keyDER"
  using assms by (auto simp: encryptKey_def decryptKey_def ca_lib_ok_def bindR_def split: sum.splits if_splits)

lemma fs_ops_Inr:
  "pki_WriteFile flt short path bs s = (Inr (), s') \<longleftrightarrow> \<not> flt (fsops s) \<and> s' = s\<lparr>fsops := Suc (fsops s), files := (files s)(path \<mapsto> bs)\<rparr>"
  "pki_ReadFile flt path s = (Inr bs, s') \<longleftrightarrow> \<not> flt (fsops s) \<and> files s path = Some bs \<and> s' = s\<lparr>fsops := Suc (fsops s)\<rparr>"
  "os_MkdirAll flt s = (Inr (), s') \<longleftrightarrow> \<not> flt (fsops s) \<and> s' = s\<lparr>fsops := Suc (fsops s)\<rparr>"
  "os_exists flt path s = (Inr ex, s') \<longleftrightarrow> ex = (\<not> flt (fsops s) \<and> files s path \<noteq> None) \<and> s' = s\<lparr>fsops := Suc (fsops s)\<rparr>"
  by (auto simp: pki_WriteFile_def pki_ReadFile_def os_MkdirAll_def os_exists_def fsS_def io_err_def Let_def split: option.splits if_splits)

lemma fs_ops_ok:
  "\<not> flt (fsops s) \<Longrightarrow> pki_WriteFile flt short path bs s = (Inr (), s\<lparr>fsops := Suc (fsops s), files := (files s)(path \<mapsto> bs)\<rparr>)"
  "\<not> flt (fsops s) \<Longrightarrow> pki_ReadFile flt path s = (case files s path of None \<Rightarrow> Inl (Sentinel ''os.ErrNotExist'') | Some b \<Rightarrow> Inr b, s\<lparr>fsops := Suc (fsops s)\<rparr>)"
  "\<not> flt (fsops s) \<Longrightarrow> os_MkdirAll flt s = (Inr (), s\<lparr>fsops := Suc (fsops s)\<rparr>)"
  "\<not> flt (fsops s) \<Longrightarrow> os_exists flt path s = (Inr (files s path \<noteq> None), s\<lparr>fsops := Suc (fsops s)\<rparr>)"
  by (simp_all add: pki_WriteFile_def pki_ReadFile_def os_MkdirAll_def os_exists_def fsS_def Let_def split: option.split)

lemma ca_paths [simp]:
  "filepath_Join dir ''ca.crt'' \<noteq> filepath_Join dir ''ca.key''" "filepath_Join dir ''ca.key'' \<noteq> filepath_Join dir ''ca.crt''"
  "filepath_Join dir ''server.crt'' \<noteq> filepath_Join dir ''server.key''"
  "filepath_Join dir ''bundle-signing.key'' \<noteq> filepath_Join dir ''bundle-signing.pub''"
  by (simp_all add: filepath_Join_def)

text \<open>The certificate and the key on disk are those of the authority.\<close>

definition ca_on_disk :: "'k ca_lib \<Rightarrow> string \<Rightarrow> bytes \<Rightarrow> 'k CA \<Rightarrow> fs \<Rightarrow> bool" where
  "ca_on_disk L dir masterKey ca s \<longleftrightarrow>
     (\<exists>ty bs enc der. files s (filepath_Join dir ''ca.crt'') = Some (ca_CertPEM ca) \<and> pem_Decode (cl_x509 L) (ca_CertPEM ca) = Some (ty, bs)
        \<and> cl_ParseCertificate L bs = Inr (ca_Cert ca) \<and> files s (filepath_Join dir ''ca.key'') = Some enc
        \<and> decryptKey L enc masterKey = Inr der \<and> cl_ParsePKCS8 L der = Inr (Some (ca_key ca)))"

lemma loadCA_on_disk:
  "loadCA L flt (filepath_Join dir ''ca.crt'') (filepath_Join dir ''ca.key'') masterKey s = (Inr ca, s') \<Longrightarrow>
   ca_on_disk L dir masterKey ca s'"
  by (auto simp: loadCA_def ca_on_disk_def bindS_Inr fs_ops_Inr split: option.splits)

lemma generateCA_on_disk:
  assumes "ca_lib_ok L"
    and "generateCA L flt short now (filepath_Join dir ''ca.crt'') (filepath_Join dir ''ca.key'') masterKey s = (Inr ca, s')"
  shows "ca_on_disk L dir masterKey ca s'"
  using assms decryptKey_encryptKey [OF assms(1)]
  by (fastforce simp: generateCA_def ca_on_disk_def ca_lib_ok_def pem_ok_types bindS_Inr fs_ops_Inr Let_def)

lemma LoadOrInit_on_disk:
  assumes "ca_lib_ok L" and "LoadOrInit L flt short now dir masterKey s = (Inr ca, s')"
  shows "ca_on_disk L dir masterKey ca s'"
  using assms(2) loadCA_on_disk generateCA_on_disk [OF assms(1)]
  by (auto simp: LoadOrInit_def bindS_Inr fs_ops_Inr Let_def split: if_splits)

lemma on_disk_LoadOrInit:
  assumes "ca_on_disk L dir masterKey ca s" and "\<And>i. \<not> flt i"
  shows "\<exists>s'. LoadOrInit (later_lib L g r n) flt short now dir masterKey s = (Inr ca, s') \<and> files s' = files s"
  using assms by (auto simp: LoadOrInit_def loadCA_def ca_on_disk_def bindS_apply fs_ops_ok Let_def)

text \<open>A certificate without a key file is refused at every start.\<close>

lemma no_key_LoadOrInit:
  assumes "files s (filepath_Join dir ''ca.crt'') = Some (pem_EncodeToMemory (cl_x509 L) ty der)"
    and "pem_Decode (cl_x509 L) (pem_EncodeToMemory (cl_x509 L) ty der) = Some (ty, der)" "cl_ParseCertificate L der = Inr cert"
    and "files s (filepath_Join dir ''ca.key'') = None" and "\<And>i. \<not> flt i"
  shows "\<exists>s'. LoadOrInit (later_lib L g r n) flt short now dir masterKey s = (Inl (Sentinel ''os.ErrNotExist''), s') \<and> files s' = files s"
  using assms by (auto simp: LoadOrInit_def loadCA_def bindS_apply fs_ops_ok Let_def)

text \<open>
  C26. The certificate authority survives restarts: when a start has loaded or generated it, every
  later start with the same master key in which no file operation fails returns the same certificate and key and
  changes no file, whatever failed before and whatever random choices a generation would make. (A later start in
  which \<open>os.Stat\<close> itself fails takes the certificate for absent and generates a new authority.)
\<close>

theorem CA_restart:
  assumes "ca_lib_ok L" and "LoadOrInit L flt short now dir masterKey s = (Inr ca, s')" and "\<And>i. \<not> flt' i"
  shows "\<exists>s''. LoadOrInit (later_lib L g r n) flt' short' now' dir masterKey s' = (Inr ca, s'') \<and> files s'' = files s'"
  by (rule on_disk_LoadOrInit [OF LoadOrInit_on_disk [OF assms(1,2)] assms(3)])

definition ex_ca_lib :: "nat ca_lib" where
  "ex_ca_lib = \<lparr>cl_x509 = ex_X, cl_GenerateKey = Inr 5, cl_rand = Inr 7,
     cl_CreateCertificate = (\<lambda>t _ _ _. if t = ca_template 0 7 then Inr [48] else Inl (Errorf ''x509'')),
     cl_ParseCertificate = (\<lambda>der. if der = [48] then Inr (ca_template 0 7) else Inl (Errorf ''x509: malformed certificate'')),
     cl_MarshalPKCS8 = (\<lambda>k. Inr (replicate k 1)), cl_ParsePKCS8 = (\<lambda>der. Inr (Some (length der))), cl_NewGCM = (\<lambda>_. Inr ()),
     cl_nonce = Inr (replicate 12 3), cl_Seal = (\<lambda>_ _ p. 9 # p), cl_Open = (\<lambda>_ _ c. Inr (drop 1 c))\<rparr>"

lemma ex_ca_lib_ok: "ca_lib_ok ex_ca_lib"
  using ex_x509_ok by (auto simp: ca_lib_ok_def ex_ca_lib_def x509_ok_def gcm_NonceSize_def split: if_splits)

definition ex_ca :: "nat CA" where
  "ex_ca = \<lparr>ca_Cert = ca_template 0 7, ca_CertPEM = pem_EncodeToMemory ex_X ''CERTIFICATE'' [48], ca_key = 5\<rparr>"

lemma ex_generate:
  "LoadOrInit ex_ca_lib (\<lambda>_. False) None 0 ''/pki'' (replicate 32 8) \<lparr>files = Map.empty, fsops = 0\<rparr> =
    (Inr ex_ca, \<lparr>files = [''/pki/ca.crt'' \<mapsto> pem_EncodeToMemory ex_X ''CERTIFICATE'' [48], ''/pki/ca.key'' \<mapsto> replicate 12 3 @ 9 # replicate 5 1], fsops = 4\<rparr>)"
  by (simp add: LoadOrInit_def generateCA_def bindS_apply fs_ops_ok ex_ca_lib_def randSerial_def encryptKey_def bindR_def ex_ca_def filepath_Join_def Let_def)

theorem CA_restart_witness:
  "\<exists>s' s''. LoadOrInit ex_ca_lib (\<lambda>_. False) None 0 ''/pki'' (replicate 32 8) \<lparr>files = Map.empty, fsops = 0\<rparr> = (Inr ex_ca, s')
     \<and> LoadOrInit (later_lib ex_ca_lib (Inr 6) (Inr 2) (Inr [])) (\<lambda>_. False) None 99 ''/pki'' (replicate 32 8) s' = (Inr ex_ca, s'')"
  using CA_restart [OF ex_ca_lib_ok ex_generate, of "\<lambda>_. False" "Inr 6" "Inr 2" "Inr []" None 99] ex_generate by blast

text \<open>
  C27. \<open>generateCA\<close> writes the certificate before the key and \<open>LoadOrInit\<close> looks only for the
  certificate: when the first start fails after the certificate was written and before the key is, every later start in
  which no file operation fails is refused because the key is missing, with any master key, and nothing is repaired.
\<close>

theorem CA_half_written_locks_out:
  assumes "ca_lib_ok L" and "files s (filepath_Join dir ''ca.crt'') = None" "files s (filepath_Join dir ''ca.key'') = None"
    and "LoadOrInit L flt None now dir masterKey s = (Inl e, s')" and "files s' (filepath_Join dir ''ca.crt'') \<noteq> None"
    and "\<And>i. \<not> flt' i"
  shows "\<exists>s''. LoadOrInit (later_lib L g r n) flt' short now' dir masterKey' s' = (Inl (Sentinel ''os.ErrNotExist''), s'') \<and> files s'' = files s'"
proof -
  have created: "\<exists>t. cl_ParseCertificate L der = Inr t"
    if "cl_CreateCertificate L (ca_template now m) (ca_template now m) k k = Inr der" for m k der
    using that assms(1) by (auto simp: ca_lib_ok_def)
  have pem: "pem_ok (cl_x509 L)" using assms(1) by (simp add: ca_lib_ok_def)
  then have inj: "pem_EncodeToMemory (cl_x509 L) ''CERTIFICATE'' a = pem_EncodeToMemory (cl_x509 L) ''CERTIFICATE'' b \<longleftrightarrow> a = b" for a b
    using pem_ok_types(1) by (metis option.inject prod.inject)
  obtain t der where der: "cl_ParseCertificate L der = Inr t" "files s' (filepath_Join dir ''ca.key'') = None"
    "files s' (filepath_Join dir ''ca.crt'') = Some (pem_EncodeToMemory (cl_x509 L) ''CERTIFICATE'' der)"
    using assms(2-5) by (auto simp: LoadOrInit_def generateCA_def bindS_apply os_MkdirAll_def os_exists_def pki_WriteFile_def fsS_def io_err_def
        inj Let_def split: prod.splits sum.splits if_splits dest!: created)
  show ?thesis by (rule no_key_LoadOrInit [OF der(3) _ der(1,2) assms(6)]) (simp add: pem_ok_types [OF pem])
qed

lemma ex_half:
  "LoadOrInit ex_ca_lib (\<lambda>i. i = 3) None 0 ''/pki'' (replicate 32 8) \<lparr>files = Map.empty, fsops = 0\<rparr> =
    (Inl (Errorf ''i/o error''), \<lparr>files = [''/pki/ca.crt'' \<mapsto> pem_EncodeToMemory ex_X ''CERTIFICATE'' [48]], fsops = 4\<rparr>)"
  by (simp add: LoadOrInit_def generateCA_def bindS_apply fs_ops_ok ex_ca_lib_def randSerial_def encryptKey_def bindR_def filepath_Join_def
      pki_WriteFile_def fsS_def Let_def)

theorem CA_half_written_locks_out_witness:
  "\<exists>e s' s''. LoadOrInit ex_ca_lib (\<lambda>i. i = 3) None 0 ''/pki'' (replicate 32 8) \<lparr>files = Map.empty, fsops = 0\<rparr> = (Inl e, s')
     \<and> LoadOrInit (later_lib ex_ca_lib (Inr 6) (Inr 2) (Inr [])) (\<lambda>_. False) None 99 ''/pki'' (replicate 32 8) s' = (Inl (Sentinel ''os.ErrNotExist''), s'')"
  using CA_half_written_locks_out [OF ex_ca_lib_ok _ _ ex_half, of "\<lambda>_. False" "Inr 6" "Inr 2" "Inr []" None 99 "replicate 32 8"] ex_half
  by (simp add: filepath_Join_def) blast

text \<open>The bundle key survives restarts too, and so does a start that could write only the private key.\<close>

definition ed_lib_ok :: "'k ed_lib \<Rightarrow> bool" where
  "ed_lib_ok L \<longleftrightarrow> pem_ok (ed_x509 L)
     \<and> (\<forall>k der. ed_MarshalPKCS8 L k = Inr der \<longrightarrow> ed_ParsePKCS8 L der = Inr (Some k))"

definition signer_on_disk :: "'k ed_lib \<Rightarrow> string \<Rightarrow> 'k BundleSigner \<Rightarrow> fs \<Rightarrow> bool" where
  "signer_on_disk L dir sg s \<longleftrightarrow>
     (\<exists>pm ty der. files s (filepath_Join dir ''bundle-signing.key'') = Some pm \<and> pem_Decode (ed_x509 L) pm = Some (ty, der)
        \<and> ed_ParsePKCS8 L der = Inr (Some (bs_privateKey sg)) \<and> bs_PublicKey sg = ed_Public L (bs_privateKey sg))"

lemma LoadOrInitBundleSigner_on_disk:
  assumes "ed_lib_ok L" and "LoadOrInitBundleSigner L flt short dir s = (Inr sg, s')"
  shows "signer_on_disk L dir sg s'"
  using assms
  by (auto simp: LoadOrInitBundleSigner_def loadBundleSigner_def generateBundleSigner_def signer_on_disk_def ed_lib_ok_def pem_ok_types bindS_Inr fs_ops_Inr Let_def
      split: if_splits option.splits)

lemma bundle_signer_restart:
  assumes "ed_lib_ok L" and "LoadOrInitBundleSigner L flt short dir s = (Inr sg, s')" and "\<And>i. \<not> flt' i"
  shows "\<exists>s''. LoadOrInitBundleSigner (L\<lparr>ed_GenerateKey := g\<rparr>) flt' short' dir s' = (Inr sg, s'') \<and> files s'' = files s'"
  using LoadOrInitBundleSigner_on_disk [OF assms(1,2)] assms(3)
  by (cases sg) (auto simp: LoadOrInitBundleSigner_def loadBundleSigner_def signer_on_disk_def bindS_apply fs_ops_ok Let_def)

text \<open>A stored server certificate is served whatever the time: it is not renewed after its year.\<close>

lemma server_cert_not_renewed:
  assumes "files s (filepath_Join dir ''server.crt'') \<noteq> None" and "\<And>i. \<not> flt i"
  shows "LoadOrGenerateServerCert L fits flt short now ca dir hosts s = LoadOrGenerateServerCert L fits flt short now' ca dir hosts s"
  using assms by (auto simp: LoadOrGenerateServerCert_def bindS_apply fs_ops_ok Let_def)

end
