(* ===== verification/Qf_Startup.thy ===== *)
theory Qf_Startup
  imports Qf_Syslog Qf_Keys Qf_Total
begin

text \<open>
  The start of the agent: its configuration (agent/internal/config), the attachment of the BPF programs
  (agent/internal/loader/loader.go) and the steps of \<open>main\<close> before its loop (agent/cmd/qf-agent).
  The lemmas show which value of a setting is in force, that a start attaches both
  directions or neither, and that in fail-closed mode no packet passes before a bundle is applied.
\<close>

section \<open>config.go\<close>

record AgentConfig =
  ac_CPEndpoint :: string
  ac_Interface :: string
  ac_PKIDir :: string
  ac_LogLevel :: string
  ac_EnrollEndpoint :: string
  ac_EnrollToken :: string
  ac_EnrollCA :: string
  ac_FailClosed :: bool

definition DefaultConfigFile :: string where
  "DefaultConfigFile = ''/etc/qf/agent.conf''"

definition config_defaults :: AgentConfig where
  "config_defaults = \<lparr>ac_CPEndpoint = ''localhost:8443'', ac_Interface = ''eth0'', ac_PKIDir = ''/etc/qf'', ac_LogLevel = ''info'',
     ac_EnrollEndpoint = ''localhost:8444'', ac_EnrollToken = '''', ac_EnrollCA = '''', ac_FailClosed = False\<rparr>"

definition applyKV :: "AgentConfig \<Rightarrow> string \<Rightarrow> string \<Rightarrow> AgentConfig" where
  "applyKV cfg k v =
     (if k = ''QF_CP_ENDPOINT'' then cfg\<lparr>ac_CPEndpoint := v\<rparr>
      else if k = ''QF_IFACE'' then cfg\<lparr>ac_Interface := v\<rparr>
      else if k = ''QF_PKI_DIR'' then cfg\<lparr>ac_PKIDir := v\<rparr>
      else if k = ''QF_LOG_LEVEL'' then cfg\<lparr>ac_LogLevel := v\<rparr>
      else if k = ''QF_ENROLL_ENDPOINT'' then cfg\<lparr>ac_EnrollEndpoint := v\<rparr>
      else if k = ''QF_ENROLL_TOKEN'' then cfg\<lparr>ac_EnrollToken := v\<rparr>
      else if k = ''QF_ENROLL_CA'' then cfg\<lparr>ac_EnrollCA := v\<rparr>
      else if k = ''QF_FAIL_CLOSED'' then cfg\<lparr>ac_FailClosed := v = ''1'' \<or> v = ''true''\<rparr>
      else cfg)"

text \<open>
  \<open>bufio.Scanner\<close> with \<open>ScanLines\<close>: lines without their newline, no empty last line, a
  carriage return at the end dropped. A line of 64 KiB or more does not fit the buffer and ends the scan.
\<close>

fun scan_from :: "string \<Rightarrow> string \<Rightarrow> string list" where
  "scan_from acc [] = (if acc = [] then [] else [rev acc])"
| "scan_from acc (c # cs) = (if c = CHR 0x0A then rev acc # scan_from [] cs else scan_from (c # acc) cs)"

definition dropCR :: "string \<Rightarrow> string" where
  "dropCR l = (if l \<noteq> [] \<and> last l = CHR 0x0D then butlast l else l)"

definition MaxScanTokenSize :: nat where
  "MaxScanTokenSize = 65536"

text \<open>The setting of a line, if it has one.\<close>

definition line_kv :: "string \<Rightarrow> (string \<times> string) option" where
  "line_kv text =
     (let line = strings_TrimSpace text in
      if line = '''' \<or> hd line = CHR ''#'' then None
      else case strCut (CHR ''='') line of None \<Rightarrow> None
           | Some (k, v) \<Rightarrow> Some (strings_TrimSpace k, strings_TrimSpace v))"

fun load_lines :: "string list \<Rightarrow> AgentConfig \<Rightarrow> unit res \<times> AgentConfig" where
  "load_lines [] cfg = (Inr (), cfg)"
| "load_lines (l # ls) cfg =
     (if MaxScanTokenSize \<le> length l then (Inl (Errorf ''bufio.Scanner: token too long''), cfg)
      else load_lines ls (case line_kv (dropCR l) of None \<Rightarrow> cfg | Some (k, v) \<Rightarrow> applyKV cfg k v))"

text \<open>The file: absent, not to be opened, or bytes followed by the end or a read error.\<close>

datatype config_file = FileNotExist | FileOpenError goerr | FileBytes string "goerr option"

definition loadFile :: "config_file \<Rightarrow> AgentConfig \<Rightarrow> unit res \<times> AgentConfig" where
  "loadFile f cfg =
     (case f of FileNotExist \<Rightarrow> (Inr (), cfg) | FileOpenError e \<Rightarrow> (Inl e, cfg)
      | FileBytes s err \<Rightarrow>
          (case load_lines (scan_from [] s) cfg of
             (Inl e, c) \<Rightarrow> (Inl e, c)
           | (Inr _, c) \<Rightarrow> (case err of None \<Rightarrow> Inr () | Some e \<Rightarrow> Inl e, c)))"

definition config_keys :: "string list" where
  "config_keys = [''QF_CP_ENDPOINT'', ''QF_IFACE'', ''QF_PKI_DIR'', ''QF_LOG_LEVEL'',
     ''QF_ENROLL_ENDPOINT'', ''QF_ENROLL_TOKEN'', ''QF_ENROLL_CA'', ''QF_FAIL_CLOSED'']"

definition applyEnv :: "(string \<Rightarrow> string) \<Rightarrow> AgentConfig \<Rightarrow> AgentConfig" where
  "applyEnv getenv cfg = foldl (\<lambda>c k. if getenv k \<noteq> '''' then applyKV c k (getenv k) else c) cfg config_keys"

definition config_Load :: "(string \<Rightarrow> string) \<Rightarrow> config_file \<Rightarrow> AgentConfig res" where
  "config_Load getenv f =
     (case loadFile f config_defaults of
        (Inl e, _) \<Rightarrow> Inl (Wrapf ''config: load file'' e)
      | (Inr _, cfg) \<Rightarrow> Inr (applyEnv getenv cfg))"

definition config_LoadDefault :: "(string \<Rightarrow> string) \<Rightarrow> (string \<Rightarrow> config_file) \<Rightarrow> AgentConfig res" where
  "config_LoadDefault getenv open_file = config_Load getenv (open_file DefaultConfigFile)"

section \<open>loader.go\<close>

text \<open>
  The hooks of the interface at which this process has attached a program, with the calls that may fail, each with
  an error of its own. Closing a link detaches its program.
\<close>

datatype hook = TcxIngress | TcxEgress | TcIngress | TcEgress

record Loader =
  ld_links :: "hook list"
  ld_tcFilters :: "hook list"
  ld_attached :: "hook set"
  ld_clsact :: bool
  ld_calls :: nat

type_synonym kfaults = "nat \<Rightarrow> goerr option"

definition kcall :: "kfaults \<Rightarrow> (Loader \<Rightarrow> unit res \<times> Loader) \<Rightarrow> (Loader, unit) st" where
  "kcall flt op = (\<lambda>l. let l' = l\<lparr>ld_calls := Suc (ld_calls l)\<rparr> in case flt (ld_calls l) of Some e \<Rightarrow> (Inl e, l') | None \<Rightarrow> op l')"

definition attach_at :: "kfaults \<Rightarrow> hook \<Rightarrow> (Loader, unit) st" where
  "attach_at flt h = kcall flt (\<lambda>l. (Inr (), l\<lparr>ld_attached := insert h (ld_attached l)\<rparr>))"

definition link_Close :: "hook \<Rightarrow> Loader \<Rightarrow> Loader" where
  "link_Close h l = l\<lparr>ld_attached := ld_attached l - {h}\<rparr>"

definition FilterDel :: "kfaults \<Rightarrow> hook \<Rightarrow> Loader \<Rightarrow> Loader" where
  "FilterDel flt h l = snd (kcall flt (\<lambda>l. (Inr (), l\<lparr>ld_attached := ld_attached l - {h}\<rparr>)) l)"

definition QdiscAdd :: "kfaults \<Rightarrow> (Loader, unit) st" where
  "QdiscAdd flt = kcall flt (\<lambda>l. if ld_clsact l then (Inl (Sentinel ''EEXIST''), l) else (Inr (), l\<lparr>ld_clsact := True\<rparr>))"

definition isTCXUnsupported :: "goerr \<Rightarrow> bool" where
  "isTCXUnsupported err \<longleftrightarrow> errors_Is err ''EOPNOTSUPP'' \<or> errors_Is err ''ENOSYS'' \<or> errors_Is err ''ENOENT''"

definition attachTCX :: "kfaults \<Rightarrow> (Loader, unit) st" where
  "attachTCX flt =
     bindS (wrapS ''attach ingress tcx'' (attach_at flt TcxIngress)) (\<lambda>_ l.
     let l1 = l\<lparr>ld_links := ld_links l @ [TcxIngress]\<rparr> in
     case wrapS ''attach egress tcx'' (attach_at flt TcxEgress) l1 of
       (Inl e, l2) \<Rightarrow> let l3 = link_Close TcxIngress l2 in (Inl e, l3\<lparr>ld_links := butlast (ld_links l3)\<rparr>)
     | (Inr _, l2) \<Rightarrow> (Inr (), l2\<lparr>ld_links := ld_links l2 @ [TcxEgress]\<rparr>))"

definition attachClassicTC :: "kfaults \<Rightarrow> (Loader, unit) st" where
  "attachClassicTC flt =
     bindS (\<lambda>l. case QdiscAdd flt l of
              (Inl e, l') \<Rightarrow> (if errors_Is e ''EEXIST'' then Inr () else Inl (Wrapf ''add clsact qdisc'' e), l')
            | (Inr _, l') \<Rightarrow> (Inr (), l')) (\<lambda>_.
     bindS (wrapS ''attach ingress tc filter'' (attach_at flt TcIngress)) (\<lambda>_ l.
     let l1 = l\<lparr>ld_tcFilters := ld_tcFilters l @ [TcIngress]\<rparr> in
     case wrapS ''attach egress tc filter'' (attach_at flt TcEgress) l1 of
       (Inl e, l2) \<Rightarrow> (Inl e, FilterDel flt TcIngress l2)
     | (Inr _, l2) \<Rightarrow> (Inr (), l2\<lparr>ld_tcFilters := ld_tcFilters l2 @ [TcEgress]\<rparr>)))"

text \<open>
  \<open>Load\<close> with the faults of the system calls on maps (\<open>mflt\<close>) and of the other calls. It
  returns the maps of the new object; on an error they are closed.
\<close>

definition loader_Load :: "u32 \<Rightarrow> nat \<Rightarrow> faults \<Rightarrow> kfaults \<Rightarrow> (Loader, bpf) st" where
  "loader_Load kver cpus mflt flt =
     bindS (wrapS ''remove memlock'' (kcall flt (\<lambda>l. (Inr (), l)))) (\<lambda>_.
     bindS (wrapS ''load bpf objects'' (kcall flt (\<lambda>l. (Inr (), l)))) (\<lambda>_.
     case SetConfig mflt DefaultConfig (init_bpf (loadBpfObjects_maxRules kver) cpus) of
       (Inl e, _) \<Rightarrow> failS (Wrapf ''init config'' e)
     | (Inr _, s) \<Rightarrow>
         bindS (wrapS ''interface'' (kcall flt (\<lambda>l. (Inr (), l)))) (\<lambda>_ l.
         case attachTCX flt l of
           (Inr _, l1) \<Rightarrow> (Inr s, l1)
         | (Inl e, l1) \<Rightarrow>
             if \<not> isTCXUnsupported e then (Inl e, l1)
             else bindS (attachClassicTC flt) (\<lambda>_. retS s) l1)))"

definition loader_Close :: "kfaults \<Rightarrow> Loader \<Rightarrow> Loader" where
  "loader_Close flt l = foldl (\<lambda>l h. FilterDel flt h l) (foldl (\<lambda>l h. link_Close h l) l (ld_links l)) (ld_tcFilters l)"

section \<open>main.go\<close>

text \<open>
  The process up to the attached and configured loader; an error is an exit with status 1. The version check comes before anything
  is attached.
\<close>

definition failClosedConfig :: Config where
  "failClosedConfig = DefaultConfig\<lparr>DefaultIngress := ActionDeny, DefaultEgress := ActionDeny\<rparr>"

definition main_start :: "AgentConfig res \<Rightarrow> u32 \<Rightarrow> nat \<Rightarrow> faults \<Rightarrow> kfaults \<Rightarrow> (Loader, AgentConfig \<times> bpf) st" where
  "main_start cfg kver cpus mflt flt =
     bindS (wrapS ''config load failed'' (liftS cfg)) (\<lambda>c.
     if kver < KernelVer 5 15 0 then failS (Errorf ''kernel too old: qf-agent requires Linux 5.15 or newer'')
     else bindS (wrapS ''BPF load failed'' (loader_Load kver cpus mflt flt)) (\<lambda>s.
       if ac_FailClosed c then
         (case SetConfig mflt failClosedConfig s of
            (Inl e, _) \<Rightarrow> (\<lambda>l. (Inl (Wrapf ''agent: failed to apply fail-closed config'' e), l))
          | (Inr _, s') \<Rightarrow> retS (c, s'))
       else retS (c, s)))"

definition isCertExpiredError :: "string \<Rightarrow> bool" where
  "isCertExpiredError text =
     (let msg = strings_ToLower text; contains = (\<lambda>p. \<exists>i\<le>length msg. take (length p) (drop i msg) = p)
      in contains ''expired'' \<or> contains ''not yet valid'')"

definition loadBundleSigningKey :: "x509 \<Rightarrow> (bytes \<Rightarrow> bytes option res) \<Rightarrow> (nat \<Rightarrow> bool) \<Rightarrow> string \<Rightarrow> (fs, bytes) st" where
  "loadBundleSigningKey X parsePKIX flt path =
     bindS (pki_ReadFile flt path) (\<lambda>data.
     case pem_Decode X data of None \<Rightarrow> failS (Errorf ''no PEM block'')
     | Some (_, bs) \<Rightarrow>
         bindS (liftS (parsePKIX bs)) (\<lambda>pub.
         case pub of None \<Rightarrow> failS (Errorf ''not an Ed25519 public key'') | Some ed \<Rightarrow> retS ed))"

section \<open>The settings in force\<close>

definition file_kvs :: "config_file \<Rightarrow> (string \<times> string) list" where
  "file_kvs f = (case f of FileBytes s _ \<Rightarrow> List.map_filter (\<lambda>l. line_kv (dropCR l)) (scan_from [] s) | _ \<Rightarrow> [])"

definition apply_kvs :: "(string \<times> string) list \<Rightarrow> AgentConfig \<Rightarrow> AgentConfig" where
  "apply_kvs kvs cfg = foldl (\<lambda>c (k, v). applyKV c k v) cfg kvs"

lemma apply_kvs_simps [simp]:
  "apply_kvs [] cfg = cfg" "apply_kvs ((k, v) # kvs) cfg = apply_kvs kvs (applyKV cfg k v)"
  "apply_kvs (xs @ ys) cfg = apply_kvs ys (apply_kvs xs cfg)"
  by (simp_all add: apply_kvs_def)

lemma load_lines_kvs:
  "load_lines ls cfg = (Inr (), c) \<Longrightarrow> c = apply_kvs (List.map_filter (\<lambda>l. line_kv (dropCR l)) ls) cfg"
  by (induction ls arbitrary: cfg) (auto simp: map_filter_simps split: if_splits option.splits)

lemma applyEnv_kvs: "applyEnv getenv cfg = apply_kvs (map (\<lambda>k. (k, getenv k)) (filter (\<lambda>k. getenv k \<noteq> '''') config_keys)) cfg"
proof -
  have "foldl (\<lambda>c k. if getenv k \<noteq> '''' then applyKV c k (getenv k) else c) c ks =
      apply_kvs (map (\<lambda>k. (k, getenv k)) (filter (\<lambda>k. getenv k \<noteq> '''') ks)) c" for c ks
    by (induction ks arbitrary: c) auto
  then show ?thesis by (simp add: applyEnv_def)
qed

text \<open>The value of a key: the environment's if it is not empty, else the last one of the file, else the default.\<close>

definition setting :: "(string \<Rightarrow> string) \<Rightarrow> config_file \<Rightarrow> string \<Rightarrow> string \<Rightarrow> string" where
  "setting getenv f k d = (if getenv k \<noteq> '''' then getenv k else case map_of (rev (file_kvs f)) k of None \<Rightarrow> d | Some v \<Rightarrow> v)"

text \<open>A field that one key assigns and all others leave has the last assigned value.\<close>

lemma apply_kvs_field:
  assumes "\<And>c v. fld (applyKV c key v) = conv v" and "\<And>c k v. k \<noteq> key \<Longrightarrow> fld (applyKV c k v) = fld c"
  shows "fld (apply_kvs kvs cfg) = (case map_of (rev kvs) key of None \<Rightarrow> fld cfg | Some v \<Rightarrow> conv v)"
proof (induction kvs rule: rev_induct)
  case (snoc kv kvs)
  obtain k v where "kv = (k, v)" by fastforce
  then show ?case using snoc assms by (cases "k = key") (simp_all split: option.splits)
qed simp

lemma map_of_env:
  assumes "key \<in> set ks"
  shows "map_of (rev (map (\<lambda>k. (k, getenv k)) (filter (\<lambda>k. getenv k \<noteq> '''') ks))) key = (if getenv key \<noteq> '''' then Some (getenv key) else None)"
  using assms by (auto simp: rev_map map_of_map_restrict restrict_map_def simp flip: rev_filter)

lemma config_Load_field:
  assumes "config_Load getenv f = Inr cfg" and "key \<in> set config_keys"
    and "\<And>c v. fld (applyKV c key v) = conv v" and "\<And>c k v. k \<noteq> key \<Longrightarrow> fld (applyKV c k v) = fld c"
    and "fld config_defaults = conv d"
  shows "fld cfg = conv (setting getenv f key d)"
proof -
  have "cfg = applyEnv getenv (apply_kvs (file_kvs f) config_defaults)"
    using assms(1) load_lines_kvs
    by (cases f) (auto simp: config_Load_def loadFile_def file_kvs_def split: prod.splits sum.splits option.splits)
  then show ?thesis
    using assms(5) by (simp add: applyEnv_kvs apply_kvs_field [of fld key conv, OF assms(3,4)] map_of_env [OF assms(2)] setting_def split: option.split)
qed

lemma config_Load_settings:
  assumes "config_Load getenv f = Inr cfg"
  shows "ac_CPEndpoint cfg = setting getenv f ''QF_CP_ENDPOINT'' ''localhost:8443''" "ac_Interface cfg = setting getenv f ''QF_IFACE'' ''eth0''"
    "ac_PKIDir cfg = setting getenv f ''QF_PKI_DIR'' ''/etc/qf''" "ac_LogLevel cfg = setting getenv f ''QF_LOG_LEVEL'' ''info''"
    "ac_EnrollEndpoint cfg = setting getenv f ''QF_ENROLL_ENDPOINT'' ''localhost:8444''" "ac_EnrollToken cfg = setting getenv f ''QF_ENROLL_TOKEN'' ''''"
    "ac_EnrollCA cfg = setting getenv f ''QF_ENROLL_CA'' ''''"
    "ac_FailClosed cfg \<longleftrightarrow> setting getenv f ''QF_FAIL_CLOSED'' '''' \<in> {''1'', ''true''}"
  by (rule config_Load_field [OF assms, where conv = "\<lambda>v. v"] config_Load_field [OF assms, where conv = "\<lambda>v. v \<in> {''1'', ''true''}"];
      simp add: config_keys_def applyKV_def config_defaults_def)+

section \<open>Both directions or neither\<close>

lemma attachTCX_result:
  assumes "attachTCX flt l = (r, l')" and "ld_attached l = {}"
  shows "if r = Inr () then ld_attached l' = {TcxIngress, TcxEgress} \<and> ld_links l' = ld_links l @ [TcxIngress, TcxEgress]
     else ld_attached l' = {} \<and> ld_links l' = ld_links l" "ld_tcFilters l' = ld_tcFilters l"
  using assms
  by (auto simp: attachTCX_def bindS_apply wrapS_def attach_at_def kcall_def link_Close_def Let_def split: option.splits)

lemma attachClassicTC_result:
  assumes "attachClassicTC flt l = (r, l')" and "ld_attached l = {}"
  shows "if r = Inr () then ld_attached l' = {TcIngress, TcEgress} \<and> ld_tcFilters l' = ld_tcFilters l @ [TcIngress, TcEgress]
     else ld_attached l' = {} \<or> flt (ld_calls l' - 1) \<noteq> None \<and> flt (ld_calls l' - 2) \<noteq> None" "ld_links l' = ld_links l"
  using assms
  by (auto simp: attachClassicTC_def bindS_apply wrapS_def attach_at_def kcall_def QdiscAdd_def FilterDel_def Let_def split: option.splits if_splits)

definition no_hooks :: Loader where
  "no_hooks = \<lparr>ld_links = [], ld_tcFilters = [], ld_attached = {}, ld_clsact = False, ld_calls = 0\<rparr>"

text \<open>
  A start with an interface that carries no program of the agent ends with one program in each direction, attached the
  same way and recorded for \<open>Close\<close>, and the default configuration, or with none, unless removing the first of two classic filters fails too.
\<close>

lemma loader_Load_attaches:
  assumes "loader_Load kver cpus mflt flt l = (r, l')" and "ld_attached l = {}" "ld_links l = []" "ld_tcFilters l = []"
  shows "case r of
      Inr s \<Rightarrow> (ld_attached l' = {TcxIngress, TcxEgress} \<and> ld_links l' = [TcxIngress, TcxEgress] \<and> ld_tcFilters l' = []
                \<or> ld_attached l' = {TcIngress, TcEgress} \<and> ld_links l' = [] \<and> ld_tcFilters l' = [TcIngress, TcEgress])
              \<and> SetConfig mflt DefaultConfig (init_bpf (loadBpfObjects_maxRules kver) cpus) = (Inr (), s)
    | Inl e \<Rightarrow> ld_attached l' = {} \<or> flt (ld_calls l' - 1) \<noteq> None \<and> flt (ld_calls l' - 2) \<noteq> None"
proof (cases "\<exists>s. SetConfig mflt DefaultConfig (init_bpf (loadBpfObjects_maxRules kver) cpus) = (Inr (), s)")
  case False
  then show ?thesis using assms
    by (auto simp: loader_Load_def bindS_apply wrapS_def kcall_def Let_def split: prod.splits sum.splits option.splits)
next
  case True
  then obtain s where s: "SetConfig mflt DefaultConfig (init_bpf (loadBpfObjects_maxRules kver) cpus) = (Inr (), s)" by blast
  define l3 where "l3 = l\<lparr>ld_calls := Suc (Suc (Suc (ld_calls l)))\<rparr>"
  have l3: "ld_attached l3 = {}" "ld_links l3 = []" "ld_tcFilters l3 = []" using assms(2-4) by (simp_all add: l3_def)
  obtain r1 l1 where a: "attachTCX flt l3 = (r1, l1)" by fastforce
  note t = attachTCX_result [OF a l3(1)]
  consider e where "r = Inl e" "ld_attached l' = {}" | "r1 = Inr ()" "r = Inr s" "l' = l1"
    | e r2 where "r1 = Inl e" "attachClassicTC flt l1 = (r2, l')" "r = (case r2 of Inl e \<Rightarrow> Inl e | Inr _ \<Rightarrow> Inr s)"
    using assms(1,2) l3(1) a t by (auto simp: loader_Load_def bindS_apply wrapS_def kcall_def s Let_def l3_def [symmetric] split: option.splits sum.splits prod.splits if_splits)
  then show ?thesis
  proof cases
    case (3 e r2)
    then have "ld_attached l1 = {}" "ld_links l1 = []" "ld_tcFilters l1 = []" using t l3 by simp_all
    then show ?thesis using 3 attachClassicTC_result [OF 3(2)] s by (cases r2) auto
  qed (use t l3 s in simp_all)
qed

lemma loader_Close_detaches:
  assumes "ld_attached l = set (ld_links l) \<union> set (ld_tcFilters l)" and "\<And>i. flt i = None"
  shows "ld_attached (loader_Close flt l) = {}"
proof -
  have a: "ld_attached (foldl (\<lambda>l h. link_Close h l) l hs) = ld_attached l - set hs" for l hs
    by (induction hs arbitrary: l) (auto simp: link_Close_def)
  have b: "ld_attached (foldl (\<lambda>l h. FilterDel flt h l) l hs) = ld_attached l - set hs" for l hs
    by (induction hs arbitrary: l) (auto simp: FilterDel_def kcall_def assms(2) Let_def)
  show ?thesis using assms(1) by (auto simp: loader_Close_def a b)
qed

section \<open>Fail-closed mode\<close>

lemma no_rules_default: "qf_rule_count s = 0 \<Longrightarrow> eval_rules s p = None"
  by (simp add: eval_rules_def eval_bound_def)

lemma fresh_config:
  assumes "SetConfig mflt DefaultConfig (init_bpf n cpus) = (Inr (), s)"
  shows "qf_rule_count s = 0" "ct_enabled s = False" "qf_config s 1 = ucast ActionAllow" "qf_config s 2 = ucast ActionAllow"
  unfolding SetConfig_Inr [OF assms] by (simp_all add: init_bpf_def ct_enabled_def configFlags_def DefaultConfig_def)

lemma fail_closed_config:
  assumes "SetConfig mflt failClosedConfig s = (Inr (), t)"
  shows "qf_rule_count t = qf_rule_count s" "ct_enabled t = False" "qf_config t 1 = ucast ActionDeny" "qf_config t 2 = ucast ActionDeny"
  unfolding SetConfig_Inr [OF assms] by (simp_all add: ct_enabled_def configFlags_def failClosedConfig_def DefaultConfig_def ActionDeny_def)

text \<open>
  What no step of the agent changes before it handles a bundle that verifies: a property of the maps
  that the readers, the connection table's collector, packets and the switching on of connection tracking keep.
\<close>

locale quiet_invariant =
  fixes P :: "bpf \<Rightarrow> bool"
  assumes reads: "P s \<Longrightarrow> P (snd (ReadCounters flt s))" "P s \<Longrightarrow> P (snd (ReadSuppressedCount flt s))"
      "P s \<Longrightarrow> P (snd (ResetSuppressedCount flt s))" "P s \<Longrightarrow> P (snd (ConntrackDump flt ord s))" "P s \<Longrightarrow> P (snd (GetConfig flt s))"
    and sweeps: "P s \<Longrightarrow> P (sweepConntrack flt ord c udp icmp s)"
    and packets: "P s \<Longrightarrow> P (snd (run_datapath env pk s))"
    and tracking: "P s \<Longrightarrow> GetConfig flt s = (Inr cfg, s1) \<Longrightarrow> P (snd (SetConfig flt (cfg\<lparr>ConntrackEnabled := True\<rparr>) s1))"
begin

lemma quiet_onLdr: "(\<And>s. P s \<Longrightarrow> P (snd (m s))) \<Longrightarrow> P (ldr z) \<Longrightarrow> P (ldr (snd (onLdr m z)))"
  by (auto simp: onLdr_def split: prod.splits) (metis snd_conv)

lemma quiet_onLdrD: "onLdr m z = (r, z') \<Longrightarrow> (\<And>s. P s \<Longrightarrow> P (snd (m s))) \<Longrightarrow> P (ldr z) \<Longrightarrow> P (ldr z')"
  using quiet_onLdr [of m z] by simp

lemma quiet_SendD: "stream_Send f msg z = (r, z') \<Longrightarrow> ldr z' = ldr z"
  using peer_stream_Send [of f msg z] by simp

lemma quiet_onBuf [simp]: "ldr (snd (onBuf m z)) = ldr z"
  by (simp add: onBuf_def split: prod.splits)

lemma quiet_flush:
  assumes "P (ldr z)"
  shows "P (ldr (snd (flush V now z)))"
proof (cases "eb_batch (lv_eb (peer z)) = []")
  case False
  obtain r z1 where 1: "onLdr (ReadSuppressedCount (en_flt V)) z = (r, z1)" by fastforce
  then have f1: "P (ldr z1)" using reads(2) assms by (rule quiet_onLdrD)
  define m where "m = LogEventsMsg \<lparr>les_events = eb_batch (lv_eb (peer z)), les_suppressed_count = (case r of Inl _ \<Rightarrow> 0 | Inr n \<Rightarrow> n)\<rparr>"
  obtain e z3 where 3: "stream_Send (en_sflt V) m (snd (onLdr (ResetSuppressedCount (en_flt V)) z1)) = (e, z3)" by fastforce
  have "P (ldr z3)" unfolding quiet_SendD [OF 3] by (rule quiet_onLdr [OF reads(3) f1])
  then show ?thesis using False 1 3 by (simp add: flush_def m_def [symmetric] Let_def)
qed (simp add: flush_def assms)

lemma quiet_batch: "P (ldr z) \<Longrightarrow> P (ldr (snd (batch_step V now ev z)))"
proof -
  assume z: "P (ldr z)"
  have "P (ldr z2)" if "flush V now u = (r, z2)" "P (ldr u)" for r z2 u using quiet_flush [of u V now] that by simp
  then show ?thesis using z
    by (cases "(V, now, ev, z)" rule: batch_step.cases) (auto simp: wrapS_def quiet_flush Let_def split: prod.splits sum.splits)
qed

lemma quiet_poll:
  assumes "P (ldr z)"
  shows "P (ldr (snd (poll V now z)))"
proof -
  obtain r z1 where 1: "onLdr (ReadCounters (en_flt V)) z = (r, z1)" by fastforce
  then have "P (ldr z1)" using reads(1) assms by (rule quiet_onLdrD)
  then show ?thesis using 1 by (cases r) (simp_all add: poll_def Let_def)
qed

lemma quiet_scan:
  assumes "P (ldr z)"
  shows "P (ldr (snd (scan V now z)))"
proof -
  obtain r z1 where 1: "onLdr (ConntrackDump (en_flt V) (en_ord V)) z = (r, z1)" by fastforce
  then have "P (ldr z1)" using reads(4) assms by (rule quiet_onLdrD)
  then show ?thesis using 1 by (cases r) (auto simp: scan_def Let_def split: prod.splits)
qed

lemma quiet_SetEnabled:
  assumes "P (ldr z)"
  shows "P (ldr (SetEnabled V v z))"
proof -
  let ?z = "z\<lparr>peer := (peer z)\<lparr>lv_fc := (lv_fc (peer z))\<lparr>fc_enabled := v\<rparr>\<rparr>\<rparr>"
  obtain r s1 where g: "GetConfig (en_flt V) (ldr z) = (r, s1)" by fastforce
  then have "P s1" using reads(5) [OF assms, of "en_flt V"] by simp
  moreover have "P (snd (SetConfig (en_flt V) (cfg\<lparr>ConntrackEnabled := True\<rparr>) s1))" if "r = Inr cfg" for cfg
    using tracking [OF assms] g that by blast
  ultimately show ?thesis using g assms
    by (cases r; cases v) (simp_all add: SetEnabled_def onLdr_def Let_def case_prod_unfold)
qed

lemma quiet_ApplyConfigUpdate: "P (ldr z) \<Longrightarrow> P (ldr (ApplyConfigUpdate V c z))"
  by (simp add: ApplyConfigUpdate_def quiet_SetEnabled Let_def split: option.splits)

lemma quiet_session_start:
  assumes "P (ldr z)"
  shows "P (ldr (snd (session_start V oa g w rest z)))"
proof -
  have rp: "ldr z1 = ldr u" if "replayBuf V ctx u = (r, z1)" for ctx u r z1
    using peer_Replay [of "en_codec V" "en_dflt V" ctx "en_sflt V" "(lv_buf (peer u), u)"] that
    by (auto simp: replayBuf_def split: prod.splits)
  show ?thesis using assms
    by (auto simp: session_start_def SendSystemEvent_def new_components_def Let_def rp split: prod.splits intro!: quiet_ApplyConfigUpdate)
qed

lemma quiet_session_open:
  assumes "P (ldr z)" and "\<And>b. PolicyBundleMsg b \<in> set inbox \<Longrightarrow> VerifyBundle (en_crypto V) b (en_pub V) \<noteq> Inr ()"
  shows "P (ldr (snd (session_open V oa inbox z)))"
proof -
  let ?h = "(oa_hello oa)\<lparr>hl_current_generation := currentGen (lv_policy (peer z))\<rparr>"
  obtain r z1 where h: "Handshake (en_sflt V) ?h inbox z = (r, z1)" by fastforce
  then have z1: "ldr z1 = ldr z"
    by (auto simp: Handshake_def bindS_def wrapS_def liftS_def dest: quiet_SendD split: prod.splits sum.splits)
  show ?thesis
  proof (cases r)
    case (Inl e)
    then show ?thesis using h z1 assms(1) by (simp add: session_open_def bindS_def Let_def)
  next
    case (Inr x)
    obtain w bo rs where x: "x = (w, bo, rs)" by (cases x)
    define m where "m = (case bo of None \<Rightarrow> retS () | Some b \<Rightarrow> handleBundle V b)"
    have "PolicyBundleMsg b \<in> set inbox" if "bo = Some b" for b
      using h Inr x that by (auto simp: Handshake_def bindS_Inr liftS_def intro: recv_welcome_bundle)
    then have "peer (snd (m z1)) = peer z1"
      using assms(2) by (cases bo) (auto simp: m_def retS_def handleBundle_def intro: HandleBundle_unverified)
    moreover obtain q z2 where "m z1 = (q, z2)" by fastforce
    moreover have "snd (session_open V oa inbox z) = snd (bindS m (\<lambda>_. session_start V oa (currentGen (lv_policy (peer z))) w rs) z1)"
      using h Inr x by (simp add: session_open_def bindS_apply [of "Handshake _ _ _"] m_def Let_def)
    ultimately show ?thesis using z1 assms(1) quiet_session_start by (cases q) (simp_all add: bindS_apply)
  qed
qed

lemma quiet_step:
  assumes "P (ldr z)" and "\<And>b. delivers a b \<Longrightarrow> VerifyBundle (en_crypto V) b (en_pub V) \<noteq> Inr ()"
  shows "P (ldr (agent_step V a z))"
proof (cases a)
  case (EvOpen oa inbox)
  have "P (ldr (snd (session_open V oa inbox z)))"
    by (rule quiet_session_open [OF assms(1)]) (rule assms(2), simp add: delivers_def EvOpen)
  then show ?thesis by (simp add: EvOpen)
next
  case (EvRecv now msg)
  show ?thesis
  proof (cases msg)
    case (PolicyBundleMsg b)
    then have "peer (snd (handleBundle V b z)) = peer z"
      unfolding handleBundle_def by (intro HandleBundle_unverified assms(2)) (simp add: delivers_def EvRecv)
    then show ?thesis using assms(1) by (auto simp: EvRecv PolicyBundleMsg split: prod.splits sum.splits)
  qed (simp_all add: EvRecv quiet_ApplyConfigUpdate DeliverResponse_def SendSystemEvent_def assms(1) split: option.splits)
next
  case (EvSweep c udp icmp)
  then show ?thesis using assms(1) by (auto intro!: quiet_onLdr sweeps)
next
  case (EvPacket env pk)
  then show ?thesis using assms(1) by (auto intro!: quiet_onLdr packets)
qed (simp_all add: heartbeat_send_def quiet_poll quiet_batch quiet_scan assms(1))

lemma quiet_steps:
  assumes "P (ldr z)" and "\<And>V a b. (V, a) \<in> set steps \<Longrightarrow> delivers a b \<Longrightarrow> VerifyBundle (en_crypto V) b (en_pub V) \<noteq> Inr ()"
  shows "P (ldr (foldl (\<lambda>z (V, a). agent_step V a z) z steps))"
  using assms
proof (induction steps arbitrary: z)
  case (Cons x steps)
  obtain V a where x: "x = (V, a)" by (cases x)
  have step: "P (ldr (agent_step V a z))" by (rule quiet_step [OF Cons.prems(1)]) (rule Cons.prems(2) [of V a], simp_all add: x)
  have "P (ldr (foldl (\<lambda>z (V, a). agent_step V a z) (agent_step V a z) steps))"
    by (rule Cons.IH [OF step]) (rule Cons.prems(2), auto)
  then show ?case by (simp add: x)
qed simp

end

text \<open>The maps of a fail-closed agent: no rule is published, and both default actions are deny.\<close>

definition fc_closed :: "bpf \<Rightarrow> bool" where
  "fc_closed s \<longleftrightarrow> qf_rule_count s = 0 \<and> qf_config s 1 = ucast ActionDeny \<and> qf_config s 2 = ucast ActionDeny"

lemma config_reads:
  "qf_config (snd (qf_rule_counters_Lookup flt i s)) = qf_config s" "qf_config (snd (qf_rule_count_Lookup flt s)) = qf_config s"
  "qf_config (snd (qf_suppressed_Lookup flt s)) = qf_config s" "qf_config (snd (qf_suppressed_Put flt vs s)) = qf_config s"
  "qf_config (snd (qf_conntrack_Iterate flt ord s)) = qf_config s" "qf_config (snd (qf_conntrack_Delete flt k s)) = qf_config s"
  "qf_config (snd (qf_config_Lookup flt j s)) = qf_config s"
  by (auto simp: qf_rule_counters_Lookup_def qf_rule_count_Lookup_def qf_suppressed_Lookup_def qf_suppressed_Put_def
      qf_conntrack_Iterate_def qf_conntrack_Delete_def qf_config_Lookup_def sysS_def Let_def split: option.splits)

lemma config_ReadCounter: "qf_config (snd (ReadCounter flt i s)) = qf_config s"
  unfolding ReadCounter_def
  by (intro bindS_invariant [where P = "\<lambda>u. qf_config u = qf_config s"]) (auto simp: config_reads)

lemma config_ops:
  "qf_config (snd (ReadCounters flt s)) = qf_config s" "qf_config (snd (ReadSuppressedCount flt s)) = qf_config s"
  "qf_config (snd (ResetSuppressedCount flt s)) = qf_config s" "qf_config (snd (ConntrackDump flt ord s)) = qf_config s"
  "qf_config (snd (GetConfig flt s)) = qf_config s"
  unfolding ReadCounters_def ReadSuppressedCount_def ResetSuppressedCount_def ConntrackDump_def GetConfig_def Let_def
  by (intro bindS_invariant [where P = "\<lambda>u. qf_config u = qf_config s"]
        mapS_invariant [where P = "\<lambda>u. qf_config u = qf_config s"];
      simp add: config_reads config_ReadCounter)+

lemma config_sweep_loop: "qf_config (snd (sweep_loop flt now udp icmp es n s)) = qf_config s"
proof (induction es arbitrary: n s)
  case (Cons e es)
  have "qf_config u = qf_config s" if "qf_conntrack_Delete flt (canonicalCtKey (Key e)) s = (r, u)" for r u
    using config_reads(6) [of flt "canonicalCtKey (Key e)" s] that by simp
  then show ?case using Cons by (auto split: prod.splits sum.splits)
qed simp

lemma config_sweep: "qf_config (sweepConntrack flt ord c udp icmp s) = qf_config s"
  using config_ops(4) [of flt ord s] by (auto simp: sweepConntrack_def config_sweep_loop Let_def split: prod.splits sum.splits)

lemma closed_Put:
  assumes "fc_closed s" and "i = 1 \<or> i = 2 \<Longrightarrow> v = ucast ActionDeny"
  shows "fc_closed (snd (qf_config_Put flt i v s))"
  using assms by (auto simp: fc_closed_def qf_config_Put_def sysS_def Let_def)

lemma closed_SetConfig:
  assumes "fc_closed s" and "DefaultIngress cfg = ActionDeny" "DefaultEgress cfg = ActionDeny"
  shows "fc_closed (snd (SetConfig flt cfg s))"
  unfolding SetConfig_def Let_def using assms
  by (intro bindS_invariant [where P = fc_closed]) (auto intro!: closed_Put simp: ActionDeny_def)

lemma closed_GetConfig:
  assumes "fc_closed s" and "GetConfig flt s = (Inr cfg, s1)"
  shows "DefaultIngress cfg = ActionDeny \<and> DefaultEgress cfg = ActionDeny"
  using assms
  by (auto simp: GetConfig_def bindS_Inr wrapS_Inr qf_config_Lookup_def sysS_Inr fc_closed_def ActionDeny_def Let_def)

interpretation cl: quiet_invariant fc_closed
proof
  fix s :: bpf and flt :: faults
  assume s: "fc_closed s"
  have keep: "fc_closed t" if "qf_config t = qf_config s" "policy_tab t = policy_tab s" for t
    using s that by (simp add: fc_closed_def policy_tab_def)
  show "fc_closed (snd (ReadCounters flt s))" "fc_closed (snd (ReadSuppressedCount flt s))" "fc_closed (snd (ResetSuppressedCount flt s))"
    "fc_closed (snd (ConntrackDump flt ord s))" "fc_closed (snd (GetConfig flt s))" "fc_closed (sweepConntrack flt ord c udp icmp s)"
    for ord c udp icmp
    by (rule keep; simp add: config_ops config_sweep policy_tab_ops policy_tab_sweep)+
  show "fc_closed (snd (run_datapath env pk s))" for env pk
    using policy_part_run [of env pk s] by (intro keep) (simp_all add: policy_part_def policy_tab_def)
  show "fc_closed (snd (SetConfig flt (cfg\<lparr>ConntrackEnabled := True\<rparr>) s1))" if g: "GetConfig flt s = (Inr cfg, s1)" for cfg s1
  proof (rule closed_SetConfig)
    show "fc_closed s1" using keep [of s1] config_ops(5) [of flt s] policy_tab_ops(5) [of flt s] g by simp
  qed (use closed_GetConfig [OF s g] in simp_all)
qed

lemma closed_drops: "fc_closed s \<Longrightarrow> fst (run_datapath env (Some p) s) = TC_ACT_SHOT"
  by (simp add: fc_closed_def run_datapath_def no_rules_default default_action_def ActionDeny_def Let_def)

lemma main_start_Inr:
  assumes "main_start cfg kver cpus mflt flt l = (Inr (c, s), l')"
  obtains s0 where "cfg = Inr c" and "loader_Load kver cpus mflt flt l = (Inr s0, l')"
    and "if ac_FailClosed c then SetConfig mflt failClosedConfig s0 = (Inr (), s) else s = s0"
proof -
  from assms obtain c1 s0 l1 where c: "cfg = Inr c1" and L: "loader_Load kver cpus mflt flt l = (Inr s0, l1)"
    and rest: "(if ac_FailClosed c1 then
         (case SetConfig mflt failClosedConfig s0 of
            (Inl e, _) \<Rightarrow> (\<lambda>l. (Inl (Wrapf ''agent: failed to apply fail-closed config'' e), l))
          | (Inr _, s') \<Rightarrow> retS (c1, s'))
       else retS (c1, s0)) l1 = (Inr (c, s), l')"
    unfolding main_start_def by (auto simp: bindS_Inr wrapS_Inr split: if_splits)
  obtain r t where "SetConfig mflt failClosedConfig s0 = (r, t)" by fastforce
  then show ?thesis using that c L rest by (cases r) (auto split: if_splits)
qed

text \<open>
  C25. An agent whose setting \<open>QF_FAIL_CLOSED\<close> is \<open>1\<close> or \<open>true\<close>, in the environment or else the
  last time in the file, has after its start a program attached in each direction. From then on, through any steps of the
  agent (sessions, messages of any kind, goroutines, sweeps of the connection table, packets, with any failing
  calls) it drops every packet that the parser accepts, as long as no bundle it is handed verifies under its key. The first
  bundle that verifies can open the interface even when it is rejected later, since its configuration is written before
  its rules are checked, and packets the parser does not accept always pass. And the programs were attached with
  a configuration that lets every packet pass: the start opens the interface until the second configuration is written.
\<close>

theorem fail_closed_start:
  assumes "main_start (config_Load getenv f) kver cpus mflt flt l = (Inr (c, s), l')"
    and "setting getenv f ''QF_FAIL_CLOSED'' '''' \<in> {''1'', ''true''}"
    and "ld_attached l = {}" "ld_links l = []" "ld_tcFilters l = []"
    and "lv_policy (peer z) = NewPolicyHandler s"
    and "\<And>V a b. (V, a) \<in> set steps \<Longrightarrow> delivers a b \<Longrightarrow> VerifyBundle (en_crypto V) b (en_pub V) \<noteq> Inr ()"
  shows "(ld_attached l' = {TcxIngress, TcxEgress} \<or> ld_attached l' = {TcIngress, TcEgress})
    \<and> fst (run_datapath env (Some p) (ldr (foldl (\<lambda>z (V, a). agent_step V a z) z steps))) = TC_ACT_SHOT
    \<and> (\<exists>s0. loader_Load kver cpus mflt flt l = (Inr s0, l') \<and> fst (run_datapath env (Some p) s0) = TC_ACT_OK)"
proof -
  obtain s0 where c: "config_Load getenv f = Inr c" and s0: "loader_Load kver cpus mflt flt l = (Inr s0, l')"
    and s: "if ac_FailClosed c then SetConfig mflt failClosedConfig s0 = (Inr (), s) else s = s0"
    using main_start_Inr [OF assms(1)] .
  have "ac_FailClosed c" using config_Load_settings(8) [OF c] assms(2) by simp
  then have s: "SetConfig mflt failClosedConfig s0 = (Inr (), s)" using s by simp
  note att = loader_Load_attaches [OF s0 assms(3-5), simplified]
  have f: "SetConfig mflt DefaultConfig (init_bpf (loadBpfObjects_maxRules kver) cpus) = (Inr (), s0)" using att by simp
  note fresh = fresh_config [OF f]
  have "fst (run_datapath env (Some p) s0) = TC_ACT_OK"
    using fresh by (simp add: run_datapath_def no_rules_default default_action_def ActionAllow_def ActionDeny_def Let_def)
  moreover have "fc_closed s" using fail_closed_config [OF s] fresh(1) by (simp add: fc_closed_def)
  then have "fc_closed (ldr z)" by (simp add: assms(6) NewPolicyHandler_def)
  then have "fst (run_datapath env (Some p) (ldr (foldl (\<lambda>z (V, a). agent_step V a z) z steps))) = TC_ACT_SHOT"
    by (intro closed_drops cl.quiet_steps assms(7))
  ultimately show ?thesis using att s0 by blast
qed

definition ex_conf :: config_file where
  "ex_conf = FileBytes (''# agent'' @ [CHR 0x0A] @ '' QF_FAIL_CLOSED = true '' @ [CHR 0x0D, CHR 0x0A] @ ''QF_IFACE=eth1'') None"

lemma ex_conf_kvs: "file_kvs ex_conf = [(''QF_FAIL_CLOSED'', ''true''), (''QF_IFACE'', ''eth1'')]"
  by (simp add: file_kvs_def ex_conf_def line_kv_def dropCR_def strings_TrimSpace_def ascii_space_def strCut_def map_filter_simps Let_def)

definition ex_started :: "(AgentConfig \<times> bpf) res \<times> Loader" where
  "ex_started = main_start (config_Load (\<lambda>_. '''') ex_conf) (KernelVer 6 8 0) 1 (\<lambda>_. False) (\<lambda>_. None) no_hooks"

lemma ex_load: "\<exists>c. config_Load (\<lambda>_. '''') ex_conf = Inr c \<and> ac_FailClosed c"
proof -
  have "\<exists>c. config_Load (\<lambda>_. '''') ex_conf = Inr c"
    by (simp add: config_Load_def loadFile_def ex_conf_def MaxScanTokenSize_def)
  then obtain c where c: "config_Load (\<lambda>_. '''') ex_conf = Inr c" by blast
  have "setting (\<lambda>_. '''') ex_conf ''QF_FAIL_CLOSED'' '''' = ''true''" by (simp add: setting_def ex_conf_kvs)
  then show ?thesis using c config_Load_settings(8) [OF c] by simp
qed

lemma ex_started_ok: "\<exists>c s l'. ex_started = (Inr (c, s), l')"
proof -
  obtain c where c: "config_Load (\<lambda>_. '''') ex_conf = Inr c" "ac_FailClosed c" using ex_load by blast
  have ok: "\<exists>t. SetConfig (\<lambda>_. False) cf s = (Inr (), t)" for cf s using SetConfig_ok [of cf s] by (metis prod.collapse)
  obtain s0 where s0: "SetConfig (\<lambda>_. False) DefaultConfig (init_bpf (loadBpfObjects_maxRules (KernelVer 6 8 0)) 1) = (Inr (), s0)" using ok by blast
  obtain s where s: "SetConfig (\<lambda>_. False) failClosedConfig s0 = (Inr (), s)" using ok by blast
  have "\<not> KernelVer 6 8 0 < KernelVer 5 15 0" by (simp add: KernelVer_def)
  then show ?thesis using c s0 s
    by (simp add: ex_started_def main_start_def loader_Load_def bindS_apply wrapS_def kcall_def attachTCX_def attach_at_def Let_def)
qed

text \<open>A bundle that does not verify, a packet and a request to track connections leave every packet dropped.\<close>

definition ex_quiet :: "(senv \<times> agent_ev) list" where
  "ex_quiet = [(ex_V, EvNewStream), (ex_V, EvRecv 0 (PolicyBundleMsg (ex_signed\<lparr>pb_signature := []\<rparr>))), (ex_V, EvPacket ex_env (Some ex_query)),
     (ex_V, EvRecv 1 (ConfigUpdateMsg \<lparr>cfg_heartbeat_interval_ms = 0, cfg_counter_report_interval_ms = 0, cfg_event_batch_size = 0,
        cfg_event_batch_max_age_ms = 0, cfg_default_log_rate_limit_per_sec = 0, cfg_flow_events_enabled = True\<rparr>))]"

theorem fail_closed_start_witness:
  "\<exists>c s l'. ex_started = (Inr (c, s), l')
     \<and> fst (run_datapath ex_env (Some ex_query) (ldr (foldl (\<lambda>z (V, a). agent_step V a z)
          (ex_live\<lparr>peer := (peer ex_live)\<lparr>lv_policy := NewPolicyHandler s\<rparr>\<rparr>) ex_quiet))) = TC_ACT_SHOT"
proof -
  obtain c s l' where e: "ex_started = (Inr (c, s), l')" using ex_started_ok by blast
  have f: "setting (\<lambda>_. '''') ex_conf ''QF_FAIL_CLOSED'' '''' \<in> {''1'', ''true''}" by (simp add: setting_def ex_conf_kvs)
  have q: "VerifyBundle (en_crypto V) b (en_pub V) \<noteq> Inr ()" if "(V, a) \<in> set ex_quiet" "delivers a b" for V a b
    using that by (auto simp: ex_quiet_def delivers_def VerifyBundle_def)
  let ?z = "ex_live\<lparr>peer := (peer ex_live)\<lparr>lv_policy := NewPolicyHandler s\<rparr>\<rparr>"
  have "fst (run_datapath ex_env (Some ex_query) (ldr (foldl (\<lambda>z (V, a). agent_step V a z) ?z ex_quiet))) = TC_ACT_SHOT"
    using fail_closed_start [OF e [unfolded ex_started_def] f _ _ _ _ q, of ?z] by (simp add: no_hooks_def)
  then show ?thesis using e by blast
qed

end
