(* ===== verification/Qf_Hub.thy ===== *)
theory Qf_Hub
  imports Qf_Prelude
begin

text \<open>
  The hub of cp/internal/pubsub that fans events out to live tails. Channels are buffered and
  numbered; \<open>Publish\<close> copies the list of subscribers under the lock and sends after it has
  released it, so its sends interleave with subscriptions, cancellations and receivers.
\<close>

section \<open>Channels\<close>

record 'm channel =
  ch_cap :: nat
  ch_buf :: "'m list"
  ch_closed :: bool

record 'm Hub =
  hb_subs :: "string \<Rightarrow> nat list"
  hb_chans :: "nat \<Rightarrow> 'm channel"
  hb_next :: nat

definition NewHub :: "'m Hub" where
  "NewHub = \<lparr>hb_subs = (\<lambda>_. []), hb_chans = (\<lambda>_. \<lparr>ch_cap = 0, ch_buf = [], ch_closed = False\<rparr>), hb_next = 0\<rparr>"

definition Subscribe :: "string \<Rightarrow> nat \<Rightarrow> 'm Hub \<Rightarrow> nat \<times> 'm Hub" where
  "Subscribe key bufSize h =
     (let c = hb_next h in
      (c, h\<lparr>hb_next := Suc c, hb_chans := (hb_chans h)(c := \<lparr>ch_cap = bufSize, ch_buf = [], ch_closed = False\<rparr>),
            hb_subs := (hb_subs h)(key := hb_subs h key @ [c])\<rparr>))"

text \<open>The function that \<open>Subscribe\<close> returns; a second call finds nothing.\<close>

definition cancel :: "string \<Rightarrow> nat \<Rightarrow> 'm Hub \<Rightarrow> 'm Hub" where
  "cancel key c h =
     (if c \<in> set (hb_subs h key)
      then h\<lparr>hb_subs := (hb_subs h)(key := remove1 c (hb_subs h key)),
             hb_chans := (hb_chans h)(c := (hb_chans h c)\<lparr>ch_closed := True\<rparr>)\<rparr>
      else h)"

text \<open>A send that does not block; on a closed channel it panics (\<open>None\<close>).\<close>

definition try_send :: "nat \<Rightarrow> 'm \<Rightarrow> 'm Hub \<Rightarrow> 'm Hub option" where
  "try_send c m h =
     (let ch = hb_chans h c in
      if ch_closed ch then None
      else if length (ch_buf ch) < ch_cap ch
      then Some (h\<lparr>hb_chans := (hb_chans h)(c := ch\<lparr>ch_buf := ch_buf ch @ [m]\<rparr>)\<rparr>)
      else Some h)"

fun send_all :: "nat list \<Rightarrow> 'm \<Rightarrow> 'm Hub \<Rightarrow> 'm Hub option" where
  "send_all [] m h = Some h"
| "send_all (c # cs) m h = (case try_send c m h of None \<Rightarrow> None | Some h' \<Rightarrow> send_all cs m h')"

definition Publish :: "string \<Rightarrow> 'm \<Rightarrow> 'm Hub \<Rightarrow> 'm Hub option" where
  "Publish key m h = send_all (hb_subs h key) m h"

section \<open>Interleavings\<close>

text \<open>
  The hub with the publications that are under way (the channels still to be sent to) and whether one has
  panicked. The first argument says whether \<open>Publish\<close> holds the lock while it sends, in which case nothing
  is cancelled meanwhile; in the code it does not.
\<close>

record 'm hub_sys =
  hs_hub :: "'m Hub"
  hs_pending :: "(nat list \<times> 'm) list"
  hs_panic :: bool

inductive hub_step :: "bool \<Rightarrow> 'm hub_sys \<Rightarrow> 'm hub_sys \<Rightarrow> bool" for locked where
  subscribe: "hub_step locked s (s\<lparr>hs_hub := snd (Subscribe key n (hs_hub s))\<rparr>)"
| cancel: "locked \<Longrightarrow> hs_pending s = [] \<Longrightarrow> hub_step locked s (s\<lparr>hs_hub := cancel key c (hs_hub s)\<rparr>)"
| cancel_unlocked: "\<not> locked \<Longrightarrow> hub_step locked s (s\<lparr>hs_hub := cancel key c (hs_hub s)\<rparr>)"
| publish: "hub_step locked s (s\<lparr>hs_pending := hs_pending s @ [(hb_subs (hs_hub s) key, m)]\<rparr>)"
| send: "hs_pending s = ps @ (c # cs, m) # qs \<Longrightarrow> try_send c m (hs_hub s) = Some h' \<Longrightarrow>
    hub_step locked s (s\<lparr>hs_hub := h', hs_pending := ps @ (cs, m) # qs\<rparr>)"
| panic: "hs_pending s = ps @ (c # cs, m) # qs \<Longrightarrow> try_send c m (hs_hub s) = None \<Longrightarrow> hub_step locked s (s\<lparr>hs_panic := True\<rparr>)"
| sent: "hs_pending s = ps @ ([], m) # qs \<Longrightarrow> hub_step locked s (s\<lparr>hs_pending := ps @ qs\<rparr>)"
| recv: "ch_buf (hb_chans (hs_hub s) c) = m # ms \<Longrightarrow>
    hub_step locked s (s\<lparr>hs_hub := (hs_hub s)\<lparr>hb_chans := (hb_chans (hs_hub s))(c := (hb_chans (hs_hub s) c)\<lparr>ch_buf := ms\<rparr>)\<rparr>\<rparr>)"

inductive hub_reach :: "bool \<Rightarrow> 'm hub_sys \<Rightarrow> bool" for locked where
  init: "hub_reach locked \<lparr>hs_hub = NewHub, hs_pending = [], hs_panic = False\<rparr>"
| step: "hub_reach locked s \<Longrightarrow> hub_step locked s s' \<Longrightarrow> hub_reach locked s'"

section \<open>The invariant\<close>

text \<open>
  A channel is listed at most once and under one key, listed channels exist and are open, and
  buffers stay within their capacity.
\<close>

definition hub_ok :: "'m Hub \<Rightarrow> bool" where
  "hub_ok h \<longleftrightarrow>
     (\<forall>k. distinct (hb_subs h k)) \<and> (\<forall>k k' c. c \<in> set (hb_subs h k) \<longrightarrow> c \<in> set (hb_subs h k') \<longrightarrow> k = k')
     \<and> (\<forall>k c. c \<in> set (hb_subs h k) \<longrightarrow> c < hb_next h \<and> \<not> ch_closed (hb_chans h c))
     \<and> (\<forall>c. length (ch_buf (hb_chans h c)) \<le> ch_cap (hb_chans h c))"

lemma hub_ok_New: "hub_ok NewHub"
  by (simp add: hub_ok_def NewHub_def)

lemma hub_ok_Subscribe: "hub_ok h \<Longrightarrow> hub_ok (snd (Subscribe key n h))"
  by (fastforce simp: hub_ok_def Subscribe_def Let_def)

lemma hub_ok_cancel: "hub_ok h \<Longrightarrow> hub_ok (cancel key c h)"
  by (auto simp: hub_ok_def cancel_def dest: notin_set_remove1)

lemma try_send_facts:
  assumes "try_send c m h = Some h'"
  shows "hb_subs h' = hb_subs h" "hb_next h' = hb_next h" "ch_closed (hb_chans h' x) = ch_closed (hb_chans h x)"
    "hub_ok h \<Longrightarrow> hub_ok h'"
  using assms by (auto simp: try_send_def Let_def hub_ok_def split: if_splits)

lemma send_all_ok:
  assumes "hub_ok h" and "\<And>c. c \<in> set cs \<Longrightarrow> \<not> ch_closed (hb_chans h c)"
  shows "\<exists>h'. send_all cs m h = Some h' \<and> hub_ok h'"
  using assms
proof (induction cs arbitrary: h)
  case (Cons c cs)
  have "\<not> ch_closed (hb_chans h c)" using Cons.prems(2) by simp
  then have "try_send c m h \<noteq> None" by (simp add: try_send_def Let_def)
  then obtain h1 where t: "try_send c m h = Some h1" by blast
  then show ?case using Cons.IH [of h1] Cons.prems try_send_facts [OF t] by simp
qed simp

text \<open>A publication that runs without interruption does not panic.\<close>

lemma Publish_ok: "hub_ok h \<Longrightarrow> \<exists>h'. Publish key m h = Some h' \<and> hub_ok h'"
  unfolding Publish_def by (rule send_all_ok) (auto simp: hub_ok_def)

definition hub_sys_ok :: "'m hub_sys \<Rightarrow> bool" where
  "hub_sys_ok s \<longleftrightarrow> hub_ok (hs_hub s) \<and> \<not> hs_panic s
     \<and> (\<forall>(cs, m)\<in>set (hs_pending s). \<forall>c\<in>set cs. c < hb_next (hs_hub s) \<and> \<not> ch_closed (hb_chans (hs_hub s) c))"

lemma hub_reach_ok: "hub_reach locked s \<Longrightarrow> hub_ok (hs_hub s)"
proof (induction rule: hub_reach.induct)
  case (step s s')
  show ?case using step(2)
  proof (cases rule: hub_step.cases)
    case (recv c m ms)
    then show ?thesis using step(3) by (auto simp: hub_ok_def) (metis Suc_leD length_Cons)
  qed (use step(3) in \<open>simp_all add: hub_ok_Subscribe hub_ok_cancel try_send_facts(4)\<close>)
qed (simp add: hub_ok_New)

lemma hub_reach_locked: "hub_reach True s \<Longrightarrow> hub_sys_ok s"
proof (induction rule: hub_reach.induct)
  case (step s s')
  have ok: "hub_ok (hs_hub s')" using step(1,2) hub_reach_ok hub_reach.step by blast
  show ?case using step(2)
  proof (cases rule: hub_step.cases)
    case (subscribe key n)
    then show ?thesis using step(3) ok by (fastforce simp: hub_sys_ok_def Subscribe_def Let_def)
  next
    case (cancel key c)
    then show ?thesis using step(3) ok by (simp add: hub_sys_ok_def)
  next
    case (publish key m)
    then show ?thesis using step(3) ok by (auto simp: hub_sys_ok_def hub_ok_def)
  next
    case (send ps c cs m qs h')
    then show ?thesis using step(3) ok try_send_facts [OF send(3)] by (auto simp: hub_sys_ok_def)
  next
    case (panic ps c cs m qs)
    then show ?thesis using step(3) by (auto simp: hub_sys_ok_def try_send_def Let_def split: if_splits)
  next
    case (sent ps m qs)
    then show ?thesis using step(3) ok by (auto simp: hub_sys_ok_def)
  next
    case (recv c m ms)
    then show ?thesis using step(3) ok by (auto simp: hub_sys_ok_def)
  qed simp
qed (simp add: hub_sys_ok_def hub_ok_New)

text \<open>
  C36. The hub can panic, and only because \<open>Publish\<close> sends after releasing the lock: there is an
  interleaving of a subscription, a publication and a cancellation in which a message is
  sent on the channel that the cancellation has closed, which ends the process; if the lock were held
  while sending, no reachable state has panicked. In both cases the registered channels are open and
  the buffers keep within their capacity.
\<close>

theorem publish_cancel_race:
  "(\<exists>s. hub_reach False s \<and> hs_panic (s :: 'm hub_sys))
   \<and> (\<forall>s. hub_reach True s \<longrightarrow> \<not> hs_panic (s :: 'm hub_sys))
   \<and> (\<forall>locked s. hub_reach locked s \<longrightarrow> hub_ok (hs_hub (s :: 'm hub_sys)))"
proof -
  let ?s0 = "\<lparr>hs_hub = NewHub, hs_pending = [], hs_panic = False\<rparr> :: 'm hub_sys"
  define m where "m = (undefined :: 'm)"
  let ?s1 = "?s0\<lparr>hs_hub := snd (Subscribe ''h'' 64 (hs_hub ?s0))\<rparr>"
  let ?s2 = "?s1\<lparr>hs_pending := hs_pending ?s1 @ [(hb_subs (hs_hub ?s1) ''h'', m)]\<rparr>"
  let ?s3 = "?s2\<lparr>hs_hub := cancel ''h'' 0 (hs_hub ?s2)\<rparr>"
  let ?s4 = "?s3\<lparr>hs_panic := True\<rparr>"
  have "hub_reach False ?s0" by (rule init)
  then have "hub_reach False ?s1" by (rule hub_reach.step) (rule hub_step.subscribe)
  then have "hub_reach False ?s2" by (rule hub_reach.step) (rule hub_step.publish)
  then have "hub_reach False ?s3" by (rule hub_reach.step) (rule hub_step.cancel_unlocked, simp)
  then have "hub_reach False ?s4"
    by (rule hub_reach.step, intro hub_step.panic [of _ "[]" 0 "[]" m "[]"])
      (simp_all add: NewHub_def Subscribe_def cancel_def try_send_def Let_def)
  then show ?thesis using hub_reach_locked hub_reach_ok by (fastforce simp: hub_sys_ok_def)
qed


theorem publish_cancel_race_witness:
  "\<exists>s. hub_reach True s \<and> hb_subs (hs_hub s) ''h'' = [0] \<and> \<not> hs_panic (s :: nat hub_sys) \<and> hub_ok (hs_hub s)"
proof -
  let ?s0 = "\<lparr>hs_hub = NewHub, hs_pending = [], hs_panic = False\<rparr> :: nat hub_sys"
  let ?s1 = "?s0\<lparr>hs_hub := snd (Subscribe ''h'' 64 (hs_hub ?s0))\<rparr>"
  have "hub_reach True ?s0" by (rule init)
  then have "hub_reach True ?s1" by (rule hub_reach.step) (rule hub_step.subscribe)
  moreover have "hb_subs (hs_hub ?s1) ''h'' = [0]" by (simp add: Subscribe_def NewHub_def Let_def)
  ultimately show ?thesis using publish_cancel_race [where ?'m = nat] by blast
qed

end
