(* ===== verification/Qf_Edge.thy ===== *)
theory Qf_Edge
  imports Qf_Hub Qf_RateLimit Qf_Syslog Qf_Addr
begin

text \<open>
  The edge of the API: the address a login attempt is counted under (cp/internal/api/ratelimit.go) and the
  hub that notifies the browsers (cp/internal/ws/hub.go). The lemmas show that a client chooses its address, and
  that the hub, which sends under its lock, does not panic in any order of operations.
\<close>

section \<open>The address of a client\<close>

text \<open>The index of the last occurrence of a character.\<close>

definition last_index :: "char \<Rightarrow> string \<Rightarrow> nat option" where
  "last_index c s = (if c \<in> set s then Some (length s - 1 - length (takeWhile (\<lambda>x. x \<noteq> c) (rev s))) else None)"

text \<open>\<open>net.SplitHostPort\<close>, the host only.\<close>

definition SplitHost :: "string \<Rightarrow> string res" where
  "SplitHost hostport =
     (case last_index (CHR '':'') hostport of None \<Rightarrow> Inl (Errorf ''missing port in address'')
      | Some i \<Rightarrow>
          bindR (if hd hostport = CHR ''['' then
               (let e = length (takeWhile (\<lambda>c. c \<noteq> CHR '']'') hostport) in
                if e = length hostport then Inl (Errorf ''missing ']' in address'')
                else if e + 1 = length hostport then Inl (Errorf ''missing port in address'')
                else if e + 1 = i then Inr (drop 1 (take e hostport), 1, e + 1)
                else if hostport ! (e + 1) = CHR '':'' then Inl (Errorf ''too many colons in address'')
                else Inl (Errorf ''missing port in address''))
             else if CHR '':'' \<in> set (take i hostport) then Inl (Errorf ''too many colons in address'')
             else Inr (take i hostport, 0, 0)) (\<lambda>(host, j, k).
          if CHR ''['' \<in> set (drop j hostport) then Inl (Errorf ''unexpected '[' in address'')
          else if CHR '']'' \<in> set (drop k hostport) then Inl (Errorf ''unexpected ']' in address'')
          else Inr host))"

definition clientIP :: "(string \<Rightarrow> string) \<Rightarrow> string \<Rightarrow> string" where
  "clientIP header remoteAddr =
     (let direct = (case SplitHost remoteAddr of Inl _ \<Rightarrow> remoteAddr | Inr ip \<Rightarrow> ip);
          v = header ''X-Forwarded-For'';
          fwd = (if v = '''' then direct
                 else case netParseIP (strings_TrimSpace (takeWhile (\<lambda>c. c \<noteq> CHR '','') v)) of None \<Rightarrow> direct | Some ip \<Rightarrow> IP_String ip);
          w = header ''X-Real-IP''
      in if w = '''' then fwd
         else case netParseIP (strings_TrimSpace w) of None \<Rightarrow> fwd | Some ip \<Rightarrow> IP_String ip)"

lemma clientIP_examples:
  "clientIP (\<lambda>_. '''') ''10.0.0.1:4711'' = ''10.0.0.1''" "clientIP (\<lambda>_. '''') ''[::1]:80'' = ''::1''" "clientIP (\<lambda>_. '''') ''pipe'' = ''pipe''"
  by (simp_all add: clientIP_def SplitHost_def last_index_def bindR_def)

text \<open>
  Whatever the address of the connection, a client is counted under any IPv4 address it writes into the header.
  An address that has no window is admitted, so a client that writes a new one each time is never refused.
\<close>

lemma trim_ip4String: "strings_TrimSpace (ip4String b) = ip4String b"
proof -
  have ns: "\<not> ascii_space c" if "c \<in> set (dec n)" for c n
  proof -
    have "is_digit c" using dec_digits that by blast
    then show ?thesis by (auto simp: is_digit_def ascii_space_def)
  qed
  then have "\<not> ascii_space c" if "c \<in> set (ip4String b)" for c
    using that by (auto simp: ip4String_def ascii_space_def)
  then show ?thesis
    unfolding strings_TrimSpace_def by (metis dropWhile_id rev_rev_ident set_rev list.set_sel(1) dropWhile_eq_self_iff)
qed

lemma clientIP_chosen:
  assumes "length b = 4" and "header ''X-Real-IP'' = ip4String b"
  shows "clientIP header remoteAddr = ip4String b"
proof -
  have "netParseIP (ip4String b) = Some (v4InV6Prefix @ b)"
    using netipParseAddr_ip4String [OF assms(1)] assms(1) by (simp add: netParseIP_def To16_def)
  moreover have "IP_String (v4InV6Prefix @ b) = ip4String b" using assms(1) by (simp add: IP_String_def To4_def v4InV6Prefix_def)
  moreover have "ip4String b \<noteq> []" by (simp add: ip4String_def)
  ultimately show ?thesis using assms(2) by (simp add: clientIP_def trim_ip4String Let_def)
qed

lemma fresh_address_admitted:
  assumes "distinct (map fst calls)" and "\<And>a. a \<in> fst ` set calls \<Longrightarrow> l a = None" and "(a, now) \<in> set calls"
  shows "granted a l calls = [now]"
  using assms
proof (induction calls arbitrary: l)
  case (Cons c calls)
  obtain b t where c: "c = (b, t)" by fastforce
  have none: "Allow t b l = (True, (prune t l)(b \<mapsto> \<lparr>lw_count = 1, lw_start = t\<rparr>))" using Cons.prems(2) c by (simp add: Allow_def)
  show ?case
  proof (cases "a = b")
    case True
    have "granted b l' calls = []" for l'
    proof -
      have "granted b l' cs = []" if "b \<notin> fst ` set cs" for cs l'
        using that by (induction cs arbitrary: l') (auto split: prod.splits)
      then show ?thesis using Cons.prems(1) c by simp
    qed
    moreover have "now = t" using Cons.prems(1,3) c True by (force simp: image_iff)
    ultimately show ?thesis using True c none by simp
  next
    case False
    define l1 where "l1 = (prune t l)(b \<mapsto> \<lparr>lw_count = 1, lw_start = t\<rparr>)"
    have d: "distinct (map fst calls)" "b \<notin> fst ` set calls" using Cons.prems(1) c by auto
    have n: "l1 x = None" if "x \<in> fst ` set calls" for x
    proof -
      have "x \<noteq> b" "l x = None" using that d(2) Cons.prems(2) [of x] by auto
      then show ?thesis by (simp add: l1_def prune_def)
    qed
    have m: "(a, now) \<in> set calls" using Cons.prems(3) c False by auto
    have "granted a l1 calls = [now]" by (rule Cons.IH [OF d(1)]) (simp_all only: n m)
    then show ?thesis using False by (simp add: c none l1_def [symmetric])
  qed
qed simp

section \<open>ws/hub.go\<close>

text \<open>
  Clients are numbered; their channels hold 64 messages. \<open>None\<close> is a panic. Every operation holds the lock
  from its first to its last access, so an interleaving is a sequence of operations.
\<close>

record WsHub =
  wh_clients :: "nat list"
  wh_send :: "nat \<Rightarrow> string channel"
  wh_next :: nat

definition ws_NewHub :: WsHub where
  "ws_NewHub = \<lparr>wh_clients = [], wh_send = (\<lambda>_. \<lparr>ch_cap = 0, ch_buf = [], ch_closed = False\<rparr>), wh_next = 0\<rparr>"

definition checkOrigin :: "(string \<Rightarrow> string res) \<Rightarrow> string \<Rightarrow> string \<Rightarrow> bool" where
  "checkOrigin url_Host origin host = (origin = '''' \<or> (case url_Host origin of Inl _ \<Rightarrow> False | Inr h \<Rightarrow> h = host))"

definition ws_register :: "nat \<Rightarrow> WsHub \<Rightarrow> WsHub" where
  "ws_register c h = h\<lparr>wh_clients := List.insert c (wh_clients h)\<rparr>"

text \<open>\<open>ServeHTTP\<close> up to the pumps: a new client with its channel, when the upgrade succeeds.\<close>

definition ws_accept :: "bool \<Rightarrow> WsHub \<Rightarrow> WsHub" where
  "ws_accept upgraded h =
     (if \<not> upgraded then h
      else let c = wh_next h in
        ws_register c (h\<lparr>wh_next := Suc c, wh_send := (wh_send h)(c := \<lparr>ch_cap = 64, ch_buf = [], ch_closed = False\<rparr>)\<rparr>))"

definition close_chan :: "'m channel \<Rightarrow> 'm channel option" where
  "close_chan ch = (if ch_closed ch then None else Some (ch\<lparr>ch_closed := True\<rparr>))"

definition ws_unregister :: "nat \<Rightarrow> WsHub \<Rightarrow> WsHub option" where
  "ws_unregister c h =
     (if c \<in> set (wh_clients h)
      then (case close_chan (wh_send h c) of None \<Rightarrow> None
            | Some ch \<Rightarrow> Some (h\<lparr>wh_clients := remove1 c (wh_clients h), wh_send := (wh_send h)(c := ch)\<rparr>))
      else Some h)"

definition send_or_drop :: "'m \<Rightarrow> 'm channel \<Rightarrow> 'm channel option" where
  "send_or_drop m ch = (if ch_closed ch then None else if length (ch_buf ch) < ch_cap ch then Some (ch\<lparr>ch_buf := ch_buf ch @ [m]\<rparr>) else Some ch)"

definition topic_msg :: "string \<Rightarrow> string" where
  "topic_msg topic = ''{\"topic\":\"'' @ topic @ ''\"}''"

fun notify_all :: "string \<Rightarrow> nat list \<Rightarrow> WsHub \<Rightarrow> WsHub option" where
  "notify_all m [] h = Some h"
| "notify_all m (c # cs) h =
     (case send_or_drop m (wh_send h c) of None \<Rightarrow> None
      | Some ch \<Rightarrow> notify_all m cs (h\<lparr>wh_send := (wh_send h)(c := ch)\<rparr>))"

definition Notify :: "string \<Rightarrow> WsHub \<Rightarrow> WsHub option" where
  "Notify topic h = notify_all (topic_msg topic) (wh_clients h) h"

text \<open>What the write pump takes from the channel of its client: a message, the end, or nothing yet.\<close>

datatype pump = PumpText string | PumpClose | PumpWait

definition writePump :: "nat \<Rightarrow> WsHub \<Rightarrow> pump \<times> WsHub" where
  "writePump c h =
     (case ch_buf (wh_send h c) of
        m # ms \<Rightarrow> (PumpText m, h\<lparr>wh_send := (wh_send h)(c := (wh_send h c)\<lparr>ch_buf := ms\<rparr>)\<rparr>)
      | [] \<Rightarrow> (if ch_closed (wh_send h c) then PumpClose else PumpWait, h))"

datatype ws_op = WsAccept bool | WsUnregister nat | WsNotify string | WsPump nat

fun ws_step :: "ws_op \<Rightarrow> WsHub \<Rightarrow> WsHub option" where
  "ws_step (WsAccept b) h = Some (ws_accept b h)"
| "ws_step (WsUnregister c) h = ws_unregister c h"
| "ws_step (WsNotify t) h = Notify t h"
| "ws_step (WsPump c) h = Some (snd (writePump c h))"

fun ws_run :: "ws_op list \<Rightarrow> WsHub \<Rightarrow> WsHub option" where
  "ws_run [] h = Some h"
| "ws_run (x # xs) h = (case ws_step x h of None \<Rightarrow> None | Some h' \<Rightarrow> ws_run xs h')"

definition ws_ok :: "WsHub \<Rightarrow> bool" where
  "ws_ok h \<longleftrightarrow> distinct (wh_clients h) \<and> (\<forall>c\<in>set (wh_clients h). c < wh_next h \<and> \<not> ch_closed (wh_send h c))
     \<and> (\<forall>c. length (ch_buf (wh_send h c)) \<le> ch_cap (wh_send h c) \<and> ch_cap (wh_send h c) \<le> 64)"

lemma notify_all_ok:
  assumes "ws_ok h" and "set cs \<subseteq> set (wh_clients h)"
  shows "\<exists>h'. notify_all m cs h = Some h' \<and> ws_ok h' \<and> wh_clients h' = wh_clients h"
  using assms
proof (induction cs arbitrary: h)
  case (Cons c cs)
  have "\<not> ch_closed (wh_send h c)" using Cons.prems by (auto simp: ws_ok_def)
  then have "send_or_drop m (wh_send h c) \<noteq> None" by (simp add: send_or_drop_def)
  then obtain ch where ch: "send_or_drop m (wh_send h c) = Some ch" by blast
  have "ws_ok (h\<lparr>wh_send := (wh_send h)(c := ch)\<rparr>)"
    using Cons.prems(1) ch by (auto simp: ws_ok_def send_or_drop_def intro: antisym split: if_splits)
  then show ?case using Cons.IH [of "h\<lparr>wh_send := (wh_send h)(c := ch)\<rparr>"] Cons.prems(2) ch by simp
qed simp

lemma ws_step_ok:
  assumes "ws_ok h"
  shows "\<exists>h'. ws_step x h = Some h' \<and> ws_ok h'"
proof (cases x)
  case (WsAccept b)
  then show ?thesis using assms by (auto simp: ws_accept_def ws_register_def ws_ok_def less_Suc_eq Let_def)
next
  case (WsUnregister c)
  then show ?thesis using assms by (auto simp: ws_unregister_def close_chan_def ws_ok_def dest: notin_set_remove1)
next
  case (WsNotify t)
  then show ?thesis using notify_all_ok [OF assms order_refl, of "topic_msg t"] by (auto simp: Notify_def)
next
  case (WsPump c)
  have "length ms \<le> ch_cap (wh_send h c)" if "ch_buf (wh_send h c) = m # ms" for m ms
    using assms that unfolding ws_ok_def by (metis Suc_leD length_Cons)
  then show ?thesis using WsPump assms by (auto simp: writePump_def ws_ok_def split: list.split)
qed

text \<open>No order of operations makes the hub panic, and no channel holds more than 64 messages.\<close>

lemma ws_run_ok: "ws_ok h \<Longrightarrow> \<exists>h'. ws_run xs h = Some h' \<and> ws_ok h'"
proof (induction xs arbitrary: h)
  case (Cons x xs)
  then obtain h1 where "ws_step x h = Some h1" "ws_ok h1" using ws_step_ok by blast
  then show ?case using Cons.IH by simp
qed simp

lemma ws_hub_never_panics: "\<exists>h'. ws_run xs ws_NewHub = Some h' \<and> ws_ok h'"
  by (rule ws_run_ok) (simp add: ws_ok_def ws_NewHub_def)

text \<open>A connected client whose channel has room is sent the topic.\<close>

lemma notify_all_delivers:
  assumes "notify_all m cs h = Some h'" and "distinct cs"
  shows "wh_send h' c = (if c \<in> set cs \<and> length (ch_buf (wh_send h c)) < ch_cap (wh_send h c)
     then (wh_send h c)\<lparr>ch_buf := ch_buf (wh_send h c) @ [m]\<rparr> else wh_send h c)"
  using assms
proof (induction cs arbitrary: h)
  case (Cons d cs)
  then obtain ch where ch: "send_or_drop m (wh_send h d) = Some ch" and r: "notify_all m cs (h\<lparr>wh_send := (wh_send h)(d := ch)\<rparr>) = Some h'"
    by (auto split: option.splits)
  show ?case using Cons.IH [OF r] Cons.prems(2) ch by (auto simp: send_or_drop_def split: if_splits)
qed simp

lemma Notify_delivers:
  assumes "ws_ok h" and "Notify topic h = Some h'" and "c \<in> set (wh_clients h)" and "length (ch_buf (wh_send h c)) < 64" and "ch_cap (wh_send h c) = 64"
  shows "ch_buf (wh_send h' c) = ch_buf (wh_send h c) @ [topic_msg topic]"
  using notify_all_delivers [OF assms(2) [unfolded Notify_def], of c] assms by (simp add: ws_ok_def)

end
