(* ===== verification/Qf_Events.thy ===== *)
theory Qf_Events
  imports Qf_Api Qf_Ingest Qf_Hub
begin

text \<open>
  Reading telemetry: the list queries of store/gen/telemetry.sql.go and the handlers of api/events.go
  and api/audit.go. A row of a telemetry table is the inserted row with the id the database
  gave it. Rows of equal time are returned in the order they were inserted, one of the orders
  \<open>ORDER BY\<close> permits. The parsing of RFC 3339 times is an argument.
\<close>

section \<open>Query parameters\<close>

type_synonym url_Values = "string \<Rightarrow> string"

definition defaultLimit :: int where "defaultLimit = 500"
definition maxLimit :: int where "maxLimit = 1000"

text \<open>\<open>strconv.Atoi\<close>: a sign, digits, and a value that fits 64 bits.\<close>

definition strconv_Atoi :: "string \<Rightarrow> int option" where
  "strconv_Atoi s =
     (let neg = (case s of c # _ \<Rightarrow> c = CHR ''-'' | [] \<Rightarrow> False);
          ds = (case s of c # cs \<Rightarrow> if c \<in> {CHR ''-'', CHR ''+''} then cs else s | [] \<Rightarrow> []);
          n = int (foldl (\<lambda>n c. 10 * n + digit_val c) 0 ds); v = (if neg then - n else n)
      in if ds = [] \<or> \<not> list_all is_digit ds \<or> v < - (2 ^ 63) \<or> 2 ^ 63 \<le> v then None else Some v)"

definition parseLimit :: "url_Values \<Rightarrow> int" where
  "parseLimit q =
     (let s = q ''limit'' in
      if s = '''' then defaultLimit
      else case strconv_Atoi s of
             None \<Rightarrow> defaultLimit
           | Some n \<Rightarrow> if n \<le> 0 then defaultLimit else if maxLimit < n then maxLimit else n)"

definition parseTimestampParam :: "(string \<Rightarrow> int option) \<Rightarrow> url_Values \<Rightarrow> string \<Rightarrow> int option" where
  "parseTimestampParam parse q key = (let s = q key in if s = '''' then None else parse s)"

definition parseUUIDParam :: "Queries \<Rightarrow> url_Values \<Rightarrow> string \<Rightarrow> bytes option" where
  "parseUUIDParam Q q key = (let s = q key in if s = '''' then None else case uuid_Scan Q s of Inl _ \<Rightarrow> None | Inr u \<Rightarrow> Some u)"

definition addrToStr :: "bytes option \<Rightarrow> string" where
  "addrToStr a = (case a of None \<Rightarrow> '''' | Some b \<Rightarrow> netip_String b)"

section \<open>The queries\<close>

text \<open>
  The conditions: an absent parameter is NULL and does not restrict; a column that is NULL is
  equal to nothing; and \<open>$n = '' OR c = $n\<close> is not true when the parameter itself is NULL.
\<close>

definition is_null_or :: "('b \<Rightarrow> bool) \<Rightarrow> 'b option \<Rightarrow> bool" where
  "is_null_or P x = (case x of None \<Rightarrow> True | Some v \<Rightarrow> P v)"

definition empty_or_eq :: "string option \<Rightarrow> string \<Rightarrow> bool" where
  "empty_or_eq p c = (case p of None \<Rightarrow> False | Some s \<Rightarrow> s = '''' \<or> c = s)"

definition newest :: "('r \<Rightarrow> int) \<Rightarrow> i32 \<Rightarrow> ('r \<Rightarrow> bool) \<Rightarrow> 'r list \<Rightarrow> 'r list res" where
  "newest time lim cond t =
     (if lim <s 0 then Inl (Errorf ''LIMIT must not be negative'')
      else Inr (take (unat lim) (sort_key (\<lambda>r. - time r) (filter cond t))))"

record ListLogEventsParams =
  lp_TenantID :: bytes
  lp_HostID :: bytes
  lp_Column3 :: "int option"
  lp_Column4 :: "int option"
  lp_Column5 :: "bytes option"
  lp_Column6 :: "string option"
  lp_Limit :: i32

definition log_cond :: "ListLogEventsParams \<Rightarrow> bytes \<times> logRow \<Rightarrow> bool" where
  "log_cond p = (\<lambda>(i, r). lr_TenantID r = lp_TenantID p \<and> lr_HostID r = lp_HostID p
     \<and> is_null_or (\<lambda>t. t \<le> lr_CreatedAt r) (lp_Column3 p) \<and> is_null_or (\<lambda>t. lr_CreatedAt r < t) (lp_Column4 p)
     \<and> is_null_or (\<lambda>u. lr_RuleID r = Some u) (lp_Column5 p) \<and> empty_or_eq (lp_Column6 p) (lr_Action r))"

definition ListLogEvents :: "Queries \<Rightarrow> (bytes \<times> logRow) list \<Rightarrow> ListLogEventsParams \<Rightarrow> (bytes \<times> logRow) list res" where
  "ListLogEvents Q t p = bindR (query Q ''ListLogEvents'' ()) (\<lambda>_. newest (\<lambda>(i, r). lr_CreatedAt r) (lp_Limit p) (log_cond p) t)"

record ListFlowEventsParams =
  fp_TenantID :: bytes
  fp_HostID :: bytes
  fp_Column3 :: "int option"
  fp_Column4 :: "int option"
  fp_Limit :: i32

definition flow_cond :: "ListFlowEventsParams \<Rightarrow> bytes \<times> flowRow \<Rightarrow> bool" where
  "flow_cond p = (\<lambda>(i, r). fr_TenantID r = fp_TenantID p \<and> fr_HostID r = fp_HostID p
     \<and> is_null_or (\<lambda>t. t \<le> fr_CreatedAt r) (fp_Column3 p) \<and> is_null_or (\<lambda>t. fr_CreatedAt r < t) (fp_Column4 p))"

definition ListFlowEvents :: "Queries \<Rightarrow> (bytes \<times> flowRow) list \<Rightarrow> ListFlowEventsParams \<Rightarrow> (bytes \<times> flowRow) list res" where
  "ListFlowEvents Q t p = bindR (query Q ''ListFlowEvents'' ()) (\<lambda>_. newest (\<lambda>(i, r). fr_CreatedAt r) (fp_Limit p) (flow_cond p) t)"

record ListCounterSnapshotsParams =
  cp_TenantID :: bytes
  cp_HostID :: bytes
  cp_Column3 :: "bytes option"
  cp_Column4 :: "int option"
  cp_Column5 :: "int option"
  cp_Limit :: i32

definition counter_cond :: "ListCounterSnapshotsParams \<Rightarrow> bytes \<times> counterRow \<Rightarrow> bool" where
  "counter_cond p = (\<lambda>(i, r). kr_TenantID r = cp_TenantID p \<and> kr_HostID r = cp_HostID p
     \<and> is_null_or (\<lambda>u. kr_RuleID r = Some u) (cp_Column3 p)
     \<and> is_null_or (\<lambda>t. t \<le> kr_Ts r) (cp_Column4 p) \<and> is_null_or (\<lambda>t. kr_Ts r < t) (cp_Column5 p))"

definition ListCounterSnapshots :: "Queries \<Rightarrow> (bytes \<times> counterRow) list \<Rightarrow> ListCounterSnapshotsParams \<Rightarrow> (bytes \<times> counterRow) list res" where
  "ListCounterSnapshots Q t p =
     bindR (query Q ''ListCounterSnapshots'' ()) (\<lambda>_. newest (\<lambda>(i, r). kr_Ts r) (cp_Limit p) (counter_cond p) t)"

text \<open>\<open>SELECT DISTINCT ON\<close> keeps the first row of each group of the sorted rows; \<open>rule_id\<close> is not null.\<close>

fun distinct_on :: "('r \<Rightarrow> 'k) \<Rightarrow> 'r list \<Rightarrow> 'r list" where
  "distinct_on f [] = []"
| "distinct_on f (r # rs) = r # distinct_on f (filter (\<lambda>r'. f r' \<noteq> f r) rs)"

definition rule_key_of :: "bytes \<times> counterRow \<Rightarrow> bytes" where
  "rule_key_of x = (case kr_RuleID (snd x) of Some u \<Rightarrow> u | None \<Rightarrow> [])"

definition GetLatestCounterSnapshotsForHost :: "Queries \<Rightarrow> (bytes \<times> counterRow) list \<Rightarrow> bytes \<Rightarrow> bytes \<Rightarrow> (bytes \<times> counterRow) list res" where
  "GetLatestCounterSnapshotsForHost Q t tid hid = query Q ''GetLatestCounterSnapshotsForHost''
     (distinct_on rule_key_of (sort_key (\<lambda>x. (rule_key_of x, - kr_Ts (snd x)))
        (filter (\<lambda>(i, r). kr_TenantID r = tid \<and> kr_HostID r = hid) t)))"

record ListAuditLogParams =
  au_TenantID :: bytes
  au_Column2 :: string
  au_Column3 :: "bytes option"
  au_Column4 :: string
  au_Column5 :: "bytes option"
  au_Column6 :: "int option"
  au_Column7 :: "int option"
  au_Limit :: i32

definition audit_cond :: "ListAuditLogParams \<Rightarrow> AuditLog \<Rightarrow> bool" where
  "audit_cond p l \<longleftrightarrow> al_TenantID l = au_TenantID p
     \<and> (au_Column2 p = '''' \<or> al_ActorType l = au_Column2 p) \<and> is_null_or (\<lambda>u. al_ActorID l = Some u) (au_Column3 p)
     \<and> (au_Column4 p = '''' \<or> al_ObjectType l = au_Column4 p) \<and> is_null_or (\<lambda>u. al_ObjectID l = Some u) (au_Column5 p)
     \<and> is_null_or (\<lambda>t. t \<le> al_CreatedAt l) (au_Column6 p) \<and> is_null_or (\<lambda>t. al_CreatedAt l < t) (au_Column7 p)"

text \<open>The left join with the users: ids are unique.\<close>

definition actor_username :: "db \<Rightarrow> AuditLog \<Rightarrow> string option" where
  "actor_username d l = (case al_ActorID l of None \<Rightarrow> None | Some u \<Rightarrow> map_option u_Username (find (\<lambda>x. u_ID x = u) (t_users d)))"

definition ListAuditLog :: "Queries \<Rightarrow> db \<Rightarrow> ListAuditLogParams \<Rightarrow> (AuditLog \<times> string option) list res" where
  "ListAuditLog Q d p = bindR (query Q ''ListAuditLog'' ()) (\<lambda>_.
     bindR (newest al_CreatedAt (au_Limit p) (audit_cond p) (t_audit d)) (\<lambda>ls. Inr (map (\<lambda>l. (l, actor_username d l)) ls)))"

section \<open>Responses\<close>

record LogEventResponse =
  ler_ID :: string
  ler_HostID :: string
  ler_RuleID :: string
  ler_PolicyID :: string
  ler_Direction :: string
  ler_Action :: string
  ler_Protocol :: "16 word"
  ler_SrcIP :: string
  ler_SrcPort :: "i32 option"
  ler_DstIP :: string
  ler_DstPort :: "i32 option"
  ler_PacketSize :: "i32 option"
  ler_TCPFlags :: "i32 option"
  ler_CTState :: "string option"
  ler_CreatedAt :: int

record FlowEventResponse =
  fer_ID :: string
  fer_HostID :: string
  fer_Protocol :: "16 word"
  fer_SrcIP :: string
  fer_SrcPort :: "i32 option"
  fer_DstIP :: string
  fer_DstPort :: "i32 option"
  fer_BytesOrig :: i64
  fer_BytesReply :: i64
  fer_PacketsOrig :: i64
  fer_PacketsReply :: i64
  fer_FinalState :: "string option"
  fer_StartedAt :: "int option"
  fer_EndedAt :: "int option"
  fer_CreatedAt :: int

record CounterResponse =
  cor_ID :: string
  cor_HostID :: string
  cor_RuleID :: string
  cor_PolicyID :: string
  cor_Packets :: i64
  cor_Bytes :: i64
  cor_Ts :: int

record AuditLogResponse =
  alr_ID :: string
  alr_TenantID :: string
  alr_ActorType :: string
  alr_ActorID :: string
  alr_ActorUsername :: string
  alr_Action :: string
  alr_ObjectType :: string
  alr_ObjectID :: string
  alr_Before :: bytes
  alr_After :: bytes
  alr_CreatedAt :: int

definition toSingleLogEvent :: "bytes \<times> logRow \<Rightarrow> LogEventResponse" where
  "toSingleLogEvent = (\<lambda>(i, r).
     \<lparr>ler_ID = uuidToString (Some i), ler_HostID = uuidToString (Some (lr_HostID r)), ler_RuleID = uuidToString (lr_RuleID r),
      ler_PolicyID = uuidToString (lr_PolicyID r), ler_Direction = lr_Direction r, ler_Action = lr_Action r, ler_Protocol = lr_Protocol r,
      ler_SrcIP = addrToStr (lr_SrcIp r), ler_SrcPort = lr_SrcPort r, ler_DstIP = addrToStr (lr_DstIp r), ler_DstPort = lr_DstPort r,
      ler_PacketSize = lr_PacketSize r, ler_TCPFlags = lr_TcpFlags r, ler_CTState = lr_CtState r, ler_CreatedAt = lr_CreatedAt r\<rparr>)"

definition toLogEventResponses :: "(bytes \<times> logRow) list \<Rightarrow> LogEventResponse list" where
  "toLogEventResponses rows = map toSingleLogEvent rows"

definition toFlowEventResponses :: "(bytes \<times> flowRow) list \<Rightarrow> FlowEventResponse list" where
  "toFlowEventResponses rows = map (\<lambda>(i, r).
     \<lparr>fer_ID = uuidToString (Some i), fer_HostID = uuidToString (Some (fr_HostID r)), fer_Protocol = fr_Protocol r,
      fer_SrcIP = addrToStr (fr_SrcIp r), fer_SrcPort = fr_SrcPort r, fer_DstIP = addrToStr (fr_DstIp r), fer_DstPort = fr_DstPort r,
      fer_BytesOrig = fr_BytesOrig r, fer_BytesReply = fr_BytesReply r, fer_PacketsOrig = fr_PacketsOrig r, fer_PacketsReply = fr_PacketsReply r,
      fer_FinalState = fr_FinalState r, fer_StartedAt = fr_StartedAt r, fer_EndedAt = fr_EndedAt r, fer_CreatedAt = fr_CreatedAt r\<rparr>) rows"

definition toCounterResponses :: "(bytes \<times> counterRow) list \<Rightarrow> CounterResponse list" where
  "toCounterResponses rows = map (\<lambda>(i, r).
     \<lparr>cor_ID = uuidToString (Some i), cor_HostID = uuidToString (Some (kr_HostID r)), cor_RuleID = uuidToString (kr_RuleID r),
      cor_PolicyID = uuidToString (kr_PolicyID r), cor_Packets = kr_Packets r, cor_Bytes = kr_Bytes r, cor_Ts = kr_Ts r\<rparr>) rows"

definition toLatestCounterResponses :: "(bytes \<times> counterRow) list \<Rightarrow> CounterResponse list" where
  "toLatestCounterResponses rows = toCounterResponses rows"

definition toAuditLogResponses :: "(AuditLog \<times> string option) list \<Rightarrow> AuditLogResponse list" where
  "toAuditLogResponses rows = map (\<lambda>(l, name).
     \<lparr>alr_ID = uuidToString (Some (al_ID l)), alr_TenantID = uuidToString (Some (al_TenantID l)), alr_ActorType = al_ActorType l,
      alr_ActorID = uuidToString (al_ActorID l), alr_ActorUsername = (case name of None \<Rightarrow> '''' | Some n \<Rightarrow> n), alr_Action = al_Action l,
      alr_ObjectType = al_ObjectType l, alr_ObjectID = uuidToString (al_ObjectID l),
      alr_Before = jsonOrNull (case al_Before l of None \<Rightarrow> [] | Some b \<Rightarrow> b),
      alr_After = jsonOrNull (case al_After l of None \<Rightarrow> [] | Some b \<Rightarrow> b), alr_CreatedAt = al_CreatedAt l\<rparr>) rows"

section \<open>The handlers\<close>

text \<open>The telemetry tables and the parser of times; a handler returns the list it writes with status 200.\<close>

record telemetry =
  tm_log :: "(bytes \<times> logRow) list"
  tm_flow :: "(bytes \<times> flowRow) list"
  tm_counter :: "(bytes \<times> counterRow) list"
  tm_parse :: "string \<Rightarrow> int option"

definition host_request :: "api \<Rightarrow> http_Request \<Rightarrow> (bytes \<Rightarrow> bytes \<Rightarrow> 'a handler) \<Rightarrow> 'a handler" where
  "host_request A rq f = bindH (tenantFromRequest A rq) (\<lambda>tid. bindH (uuidParam A (rq_id rq)) (\<lambda>hid. f tid hid))"

definition listEvents :: "api \<Rightarrow> telemetry \<Rightarrow> http_Request \<Rightarrow> url_Values \<Rightarrow> LogEventResponse list handler" where
  "listEvents A T rq q = host_request A rq (\<lambda>tid hid.
     bindH (queryH 500 (Wrapf ''list events'') (\<lambda>_. ListLogEvents (ap_q A) (tm_log T)
       \<lparr>lp_TenantID = tid, lp_HostID = hid, lp_Column3 = parseTimestampParam (tm_parse T) q ''start'',
        lp_Column4 = parseTimestampParam (tm_parse T) q ''end'', lp_Column5 = parseUUIDParam (ap_q A) q ''rule_id'',
        lp_Column6 = Some (q ''action''), lp_Limit = word_of_int (parseLimit q)\<rparr>)) (\<lambda>rows.
     retH (toLogEventResponses rows)))"

definition listFlows :: "api \<Rightarrow> telemetry \<Rightarrow> http_Request \<Rightarrow> url_Values \<Rightarrow> FlowEventResponse list handler" where
  "listFlows A T rq q = host_request A rq (\<lambda>tid hid.
     bindH (queryH 500 (Wrapf ''list flows'') (\<lambda>_. ListFlowEvents (ap_q A) (tm_flow T)
       \<lparr>fp_TenantID = tid, fp_HostID = hid, fp_Column3 = parseTimestampParam (tm_parse T) q ''start'',
        fp_Column4 = parseTimestampParam (tm_parse T) q ''end'', fp_Limit = word_of_int (parseLimit q)\<rparr>)) (\<lambda>rows.
     retH (toFlowEventResponses rows)))"

definition listCounters :: "api \<Rightarrow> telemetry \<Rightarrow> http_Request \<Rightarrow> url_Values \<Rightarrow> CounterResponse list handler" where
  "listCounters A T rq q = host_request A rq (\<lambda>tid hid.
     bindH (queryH 500 (Wrapf ''list counters'') (\<lambda>_. ListCounterSnapshots (ap_q A) (tm_counter T)
       \<lparr>cp_TenantID = tid, cp_HostID = hid, cp_Column3 = parseUUIDParam (ap_q A) q ''rule_id'',
        cp_Column4 = parseTimestampParam (tm_parse T) q ''start'', cp_Column5 = parseTimestampParam (tm_parse T) q ''end'',
        cp_Limit = word_of_int (parseLimit q)\<rparr>)) (\<lambda>rows.
     retH (toCounterResponses rows)))"

definition latestCounters :: "api \<Rightarrow> telemetry \<Rightarrow> http_Request \<Rightarrow> CounterResponse list handler" where
  "latestCounters A T rq = host_request A rq (\<lambda>tid hid.
     bindH (queryH 500 (Wrapf ''latest counters'') (\<lambda>_. GetLatestCounterSnapshotsForHost (ap_q A) (tm_counter T) tid hid)) (\<lambda>rows.
     retH (toLatestCounterResponses rows)))"

definition audit_list :: "api \<Rightarrow> telemetry \<Rightarrow> http_Request \<Rightarrow> url_Values \<Rightarrow> AuditLogResponse list handler" where
  "audit_list A T rq q = bindH (tenantFromRequest A rq) (\<lambda>tid.
     bindH (queryH 500 (Wrapf ''list audit log'') (\<lambda>d. ListAuditLog (ap_q A) d
       \<lparr>au_TenantID = tid, au_Column2 = q ''actor_type'', au_Column3 = parseUUIDParam (ap_q A) q ''actor_id'',
        au_Column4 = q ''object_type'', au_Column5 = parseUUIDParam (ap_q A) q ''object_id'',
        au_Column6 = parseTimestampParam (tm_parse T) q ''start'', au_Column7 = parseTimestampParam (tm_parse T) q ''end'',
        au_Limit = word_of_int (parseLimit q)\<rparr>)) (\<lambda>rows.
     retH (toAuditLogResponses rows)))"


text \<open>
  The live tail. A client that reconnects sends the id of the last event it saw and is first written the
  rows since then; \<open>parseNano\<close> parses the id. Then the handler subscribes to the hub under
  the id of the host and passes on what it receives, until the request ends or the channel is closed.
\<close>

definition stream_history :: "api \<Rightarrow> telemetry \<Rightarrow> (string \<Rightarrow> int option) \<Rightarrow> string \<Rightarrow> bytes \<Rightarrow> bytes \<Rightarrow> (int \<times> LogEventResponse) list" where
  "stream_history A T parseNano lastEventID tid hid =
     (if lastEventID = '''' then []
      else case parseNano lastEventID of
             None \<Rightarrow> []
           | Some since \<Rightarrow>
               (case ListLogEvents (ap_q A) (tm_log T)
                  \<lparr>lp_TenantID = tid, lp_HostID = hid, lp_Column3 = Some since, lp_Column4 = None, lp_Column5 = None,
                   lp_Column6 = None, lp_Limit = 500\<rparr> of
                  Inl _ \<Rightarrow> []
                | Inr rows \<Rightarrow> map (\<lambda>row. (lr_CreatedAt (snd row), toSingleLogEvent row)) rows))"

definition streamEvents ::
  "api \<Rightarrow> telemetry \<Rightarrow> (string \<Rightarrow> int option) \<Rightarrow> bool \<Rightarrow> http_Request \<Rightarrow> string \<Rightarrow> 'm Hub option \<Rightarrow> web
   \<Rightarrow> (response + (int \<times> LogEventResponse) list \<times> nat) \<times> 'm Hub option \<times> web" where
  "streamEvents A T parseNano flusher rq lastEventID hub w =
     (case hub of
        None \<Rightarrow> (Inl (503, ErrorBody (Errorf ''SSE not available'')), None, w)
      | Some h \<Rightarrow>
          (case host_request A rq (\<lambda>tid hid. retH (tid, hid)) w of
             (Inl resp, w') \<Rightarrow> (Inl resp, Some h, w')
           | (Inr (tid, hid), w') \<Rightarrow>
               let hist = stream_history A T parseNano lastEventID tid hid in
               if \<not> flusher then (Inl (500, ErrorBody (Errorf ''streaming not supported'')), Some h, w')
               else (case Subscribe (pgUUIDToStr hid) 64 h of (c, h') \<Rightarrow> (Inr (hist, c), Some h', w'))))"

section \<open>Pages\<close>

text \<open>
  A page: rows of the table that meet the conditions, newest first, within the limit; a row that
  meets them and is missing is no newer than any of them, and the page is full.
\<close>

definition page :: "('r \<Rightarrow> bool) \<Rightarrow> ('r \<Rightarrow> int) \<Rightarrow> nat \<Rightarrow> 'r list \<Rightarrow> 'r list \<Rightarrow> bool" where
  "page cond time lim t rs \<longleftrightarrow>
     (\<forall>r\<in>set rs. r \<in> set t \<and> cond r) \<and> sorted_wrt (\<lambda>a b. time b \<le> time a) rs \<and> length rs \<le> lim
     \<and> (\<forall>r\<in>set t. cond r \<longrightarrow> r \<in> set rs \<or> length rs = lim \<and> (\<forall>x\<in>set rs. time r \<le> time x))"

text \<open>What a list query promises, whatever its table.\<close>

locale listing =
  fixes lister :: "'p \<Rightarrow> 'r list \<Rightarrow> 'r list res"
    and cond :: "'p \<Rightarrow> 'r \<Rightarrow> bool" and time :: "'r \<Rightarrow> int" and lim :: "'p \<Rightarrow> nat"
  assumes rows: "lister p t = Inr rs \<Longrightarrow> rs = take (lim p) (sort_key (\<lambda>r. - time r) (filter (cond p) t))"
begin

lemma sorted_newest: "sorted_wrt (\<lambda>a b. time b \<le> time a) (sort_key (\<lambda>r. - time r) rs)"
  using sorted_sort_key [of "\<lambda>r. - time r" rs] by (simp add: sorted_wrt_map)

lemma page_rows:
  assumes "lister p t = Inr rs"
  shows "page (cond p) time (lim p) t rs"
proof -
  let ?s = "sort_key (\<lambda>r. - time r) (filter (cond p) t)"
  have rs: "rs = take (lim p) ?s" using assms by (rule rows)
  have app: "sorted_wrt (\<lambda>a b. time b \<le> time a) (take (lim p) ?s @ drop (lim p) ?s)" using sorted_newest by simp
  have "r \<in> set rs \<or> length rs = lim p \<and> (\<forall>x\<in>set rs. time r \<le> time x)" if "r \<in> set t" "cond p r" for r
  proof (cases "r \<in> set rs")
    case False
    have "r \<in> set (take (lim p) ?s @ drop (lim p) ?s)" using that by simp
    then have r: "r \<in> set (drop (lim p) ?s)" using False unfolding rs set_append by blast
    then have "lim p < length ?s" by (metis drop_all empty_iff list.set(1) not_le)
    then have "length rs = lim p" by (simp add: rs)
    moreover have "\<forall>x\<in>set rs. time r \<le> time x" using app r unfolding rs sorted_wrt_append by blast
    ultimately show ?thesis by blast
  qed simp
  moreover have "\<forall>r\<in>set rs. r \<in> set t \<and> cond p r" unfolding rs by (auto dest: in_set_takeD)
  moreover have "sorted_wrt (\<lambda>a b. time b \<le> time a) rs" using app unfolding rs sorted_wrt_append by blast
  moreover have "length rs \<le> lim p" unfolding rs by simp
  ultimately show ?thesis unfolding page_def by blast
qed

end

lemma newest_Inr: "newest time lim cond t = Inr rs \<Longrightarrow> rs = take (unat lim) (sort_key (\<lambda>r. - time r) (filter cond t))"
  by (simp add: newest_def split: if_splits)

interpretation log_page: listing "\<lambda>p t. ListLogEvents Q t p" log_cond "\<lambda>x. lr_CreatedAt (snd x)" "\<lambda>p. unat (lp_Limit p)"
  by unfold_locales (auto simp: ListLogEvents_def bindR_eq_Inr case_prod_unfold dest: newest_Inr)

interpretation flow_page: listing "\<lambda>p t. ListFlowEvents Q t p" flow_cond "\<lambda>x. fr_CreatedAt (snd x)" "\<lambda>p. unat (fp_Limit p)"
  by unfold_locales (auto simp: ListFlowEvents_def bindR_eq_Inr case_prod_unfold dest: newest_Inr)

interpretation counter_page: listing "\<lambda>p t. ListCounterSnapshots Q t p" counter_cond "\<lambda>x. kr_Ts (snd x)" "\<lambda>p. unat (cp_Limit p)"
  by unfold_locales (auto simp: ListCounterSnapshots_def bindR_eq_Inr case_prod_unfold dest: newest_Inr)

interpretation audit_page: listing "\<lambda>p t. newest al_CreatedAt (au_Limit p) (audit_cond p) t" audit_cond al_CreatedAt "\<lambda>p. unat (au_Limit p)"
  by unfold_locales (rule newest_Inr)


section \<open>What the handlers return\<close>

lemma parseLimit_range: "1 \<le> parseLimit q \<and> parseLimit q \<le> 1000"
  by (auto simp: parseLimit_def defaultLimit_def maxLimit_def Let_def split: option.splits)

lemma limit_word: "unat (word_of_int (parseLimit q) :: i32) = nat (parseLimit q)"
proof -
  have "parseLimit q mod 2 ^ 32 = parseLimit q" using parseLimit_range [of q] by simp
  then show ?thesis by (simp add: unat_eq_nat_uint uint_word_of_int)
qed

lemma host_request_Inr:
  assumes "host_request A rq f w = (Inr x, w')"
  obtains tid hid w1 w2 where "tenantFromRequest A rq w = (Inr tid, w1)" "uuidParam A (rq_id rq) w1 = (Inr hid, w2)" "f tid hid w2 = (Inr x, w')"
  using assms by (auto simp: host_request_def bindH_def split: prod.splits sum.splits)

lemma queryH_Inr: "queryH code msg f w = (Inr x, w') \<Longrightarrow> f (wb_store w) = Inr x"
  by (auto simp: queryH_def apiError_def split: sum.splits)

lemma bindH_queryH_Inr:
  assumes "bindH (queryH code msg f) (\<lambda>rows. retH (g rows)) w = (Inr x, w')"
  obtains rows where "f (wb_store w) = Inr rows" "x = g rows"
  using assms by (auto simp: bindH_def retH_def split: prod.splits sum.splits dest!: queryH_Inr)

lemma stays_tenant: "tenantFromRequest A rq w = (Inr tid, w1) \<Longrightarrow> w1 = w"
  by (auto simp: tenantFromRequest_def retH_def apiError_def Let_def split: option.splits if_splits sum.splits)

lemma uuidParam_Inr: "uuidParam A s w = (Inr u, w1) \<Longrightarrow> uuid_Scan (ap_q A) s = Inr u \<and> w1 = w"
  by (auto simp: uuidParam_def retH_def apiError_def split: sum.splits)

text \<open>
  C21. What \<open>GET /hosts/{id}/events\<close> returns: the log events of exactly the host in the path and the tenant
  of the caller that meet the filters of the request (from, until, rule, action), newest first, never
  more than the limit asked for nor than 1000, and if one is missing the page is full and everything
  on it is at least as new. Rows of another tenant or host are never returned.
\<close>

theorem listEvents_page:
  assumes "listEvents A T rq q w = (Inr evs, w')" and "tenantFromRequest A rq w = (Inr tid, w)" and "uuid_Scan (ap_q A) (rq_id rq) = Inr hid"
  shows "\<exists>rows. evs = map toSingleLogEvent rows \<and> length rows \<le> 1000
    \<and> page (\<lambda>(i, r). lr_TenantID r = tid \<and> lr_HostID r = hid
         \<and> is_null_or (\<lambda>t. t \<le> lr_CreatedAt r) (parseTimestampParam (tm_parse T) q ''start'')
         \<and> is_null_or (\<lambda>t. lr_CreatedAt r < t) (parseTimestampParam (tm_parse T) q ''end'')
         \<and> is_null_or (\<lambda>u. lr_RuleID r = Some u) (parseUUIDParam (ap_q A) q ''rule_id'')
         \<and> (q ''action'' = '''' \<or> lr_Action r = q ''action''))
       (\<lambda>x. lr_CreatedAt (snd x)) (nat (parseLimit q)) (tm_log T) rows"
proof -
  let ?p = "\<lparr>lp_TenantID = tid, lp_HostID = hid, lp_Column3 = parseTimestampParam (tm_parse T) q ''start'',
        lp_Column4 = parseTimestampParam (tm_parse T) q ''end'', lp_Column5 = parseUUIDParam (ap_q A) q ''rule_id'',
        lp_Column6 = Some (q ''action''), lp_Limit = word_of_int (parseLimit q)\<rparr>"
  from assms(1) obtain t h w1 w2 where "tenantFromRequest A rq w = (Inr t, w1)" "uuidParam A (rq_id rq) w1 = (Inr h, w2)"
    and b: "bindH (queryH 500 (Wrapf ''list events'') (\<lambda>_. ListLogEvents (ap_q A) (tm_log T)
       \<lparr>lp_TenantID = t, lp_HostID = h, lp_Column3 = parseTimestampParam (tm_parse T) q ''start'',
        lp_Column4 = parseTimestampParam (tm_parse T) q ''end'', lp_Column5 = parseUUIDParam (ap_q A) q ''rule_id'',
        lp_Column6 = Some (q ''action''), lp_Limit = word_of_int (parseLimit q)\<rparr>)) (\<lambda>rows. retH (toLogEventResponses rows)) w2 = (Inr evs, w')"
    unfolding listEvents_def by (rule host_request_Inr)
  then have "t = tid" "h = hid" using assms(2,3) uuidParam_Inr by fastforce+
  with b obtain rows where r: "ListLogEvents (ap_q A) (tm_log T) ?p = Inr rows" "evs = toLogEventResponses rows"
    by (auto elim: bindH_queryH_Inr)
  have "page (log_cond ?p) (\<lambda>x. lr_CreatedAt (snd x)) (nat (parseLimit q)) (tm_log T) rows"
    using log_page.page_rows [OF r(1)] by (simp add: limit_word)
  moreover from this have "length rows \<le> nat (parseLimit q)" unfolding page_def by blast
  then have "length rows \<le> 1000" using parseLimit_range [of q] by linarith
  ultimately show ?thesis
    using r(2) by (intro exI [of _ rows]) (simp add: toLogEventResponses_def log_cond_def empty_or_eq_def eq_commute)
qed


section \<open>The latest counters\<close>

lemma distinct_on_set: "set (distinct_on f rs) \<subseteq> set rs" "f ` set (distinct_on f rs) = f ` set rs"
proof (induction f rs rule: distinct_on.induct)
  case (2 f r rs)
  have "f ` set (distinct_on f (filter (\<lambda>r'. f r' \<noteq> f r) rs)) = {k \<in> f ` set rs. k \<noteq> f r}" using 2(2) by auto
  then show "f ` set (distinct_on f (r # rs)) = f ` set (r # rs)" by auto
qed auto

lemma distinct_on_distinct: "distinct (map f (distinct_on f rs))"
proof (induction f rs rule: distinct_on.induct)
  case (2 f r rs)
  have "f r \<notin> f ` set (distinct_on f (filter (\<lambda>r'. f r' \<noteq> f r) rs))" using distinct_on_set(1) [of f "filter (\<lambda>r'. f r' \<noteq> f r) rs"] by auto
  then show ?case using 2 by simp
qed simp

lemma distinct_on_least:
  "sorted (map key rs) \<Longrightarrow> x \<in> set (distinct_on f rs) \<Longrightarrow> y \<in> set rs \<Longrightarrow> f y = f x \<Longrightarrow> key x \<le> key y"
proof (induction f rs rule: distinct_on.induct)
  case (2 f r rs)
  show ?case
  proof (cases "x = r")
    case True
    then show ?thesis using 2(2,4) by auto
  next
    case False
    then have x: "x \<in> set (distinct_on f (filter (\<lambda>r'. f r' \<noteq> f r) rs))" using 2(3) by simp
    then have "f x \<noteq> f r" using distinct_on_set(1) by fastforce
    then have "y \<in> set (filter (\<lambda>r'. f r' \<noteq> f r) rs)" using 2(4,5) by auto
    moreover have "sorted (map key (filter (\<lambda>r'. f r' \<noteq> f r) rs))" using 2(2) by (auto intro: sorted_filter)
    ultimately show ?thesis using 2(1) x 2(5) by blast
  qed
qed simp

text \<open>One row for every rule that has a snapshot on the host, and the newest of them.\<close>

lemma latest_counters_exact:
  assumes "GetLatestCounterSnapshotsForHost Q t tid hid = Inr rows"
  defines "mine \<equiv> filter (\<lambda>(i, r). kr_TenantID r = tid \<and> kr_HostID r = hid) t"
  shows "set rows \<subseteq> set mine" "distinct (map rule_key_of rows)" "rule_key_of ` set rows = rule_key_of ` set mine"
    "x \<in> set rows \<Longrightarrow> y \<in> set mine \<Longrightarrow> rule_key_of y = rule_key_of x \<Longrightarrow> kr_Ts (snd y) \<le> kr_Ts (snd x)"
proof -
  let ?s = "sort_key (\<lambda>x. (rule_key_of x, - kr_Ts (snd x))) mine"
  have rows: "rows = distinct_on rule_key_of ?s"
    using assms(1) by (auto simp: GetLatestCounterSnapshotsForHost_def query_def mine_def split: option.splits)
  show "set rows \<subseteq> set mine" using distinct_on_set(1) [of rule_key_of ?s] by (simp add: rows)
  show "distinct (map rule_key_of rows)" unfolding rows by (rule distinct_on_distinct)
  show "rule_key_of ` set rows = rule_key_of ` set mine" using distinct_on_set(2) [of rule_key_of ?s] by (simp add: rows)
  assume xy: "x \<in> set rows" "y \<in> set mine" "rule_key_of y = rule_key_of x"
  have "(rule_key_of x, - kr_Ts (snd x)) \<le> (rule_key_of y, - kr_Ts (snd y))"
    using distinct_on_least [of "\<lambda>x. (rule_key_of x, - kr_Ts (snd x))" ?s x rule_key_of y] xy by (simp add: rows)
  then show "kr_Ts (snd y) \<le> kr_Ts (snd x)" using xy(3) by simp
qed

section \<open>The history of a live tail\<close>

text \<open>
  C37. A client that reconnects to the live tail is never written the events it missed, although the handler
  reads the table for them: it leaves the action filter of the query unset, which the
  driver sends as NULL, and no row satisfies \<open>NULL = '' OR action = NULL\<close>. This holds for every table, tenant,
  host and event id.
\<close>

theorem stream_history_empty:
  "stream_history A T parseNano lastEventID tid hid = []"
  by (simp add: stream_history_def ListLogEvents_def newest_def log_cond_def empty_or_eq_def bindR_def query_def case_prod_unfold
      split: option.splits sum.splits)

end
