(* ===== verification/Qf_Reads.thy ===== *)
theory Qf_Reads
  imports Qf_Events Qf_DryRun Qf_Calendar
begin

text \<open>
  Further reads of the API: the effective ruleset of a host and the preview of a policy, both of
  which compile from the store, and the queries on system events. The lemmas show that
  what the ruleset response prints of a rule is read back by the parsers of the policy code.
\<close>

section \<open>The effective ruleset of a host\<close>

record RulesetRuleItem =
  ri_RuleID :: string
  ri_RuleName :: string
  ri_PolicyID :: string
  ri_PolicyName :: string
  ri_Priority :: i32
  ri_Direction :: string
  ri_Action :: string
  ri_Protocol :: string
  ri_SrcCIDRs :: "string list"
  ri_DstCIDRs :: "string list"
  ri_SrcPorts :: "string list"
  ri_DstPorts :: "string list"

record RulesetResponse =
  rsr_HostID :: string
  rsr_DefaultIngress :: string
  rsr_DefaultEgress :: string
  rsr_Rules :: "RulesetRuleItem list"

definition cidrSliceToStr :: "qfv1_CIDR list \<Rightarrow> string list" where
  "cidrSliceToStr cidrs = map (\<lambda>c. IP_String (cidr_ip c) @ ''/'' @ dec (unat (cidr_prefix_len c))) cidrs"

definition portRangeSliceToStr :: "qfv1_PortRange list \<Rightarrow> string list" where
  "portRangeSliceToStr ports = map (\<lambda>p.
     if pr_start p = pr_end p then dec (unat (pr_start p)) else dec (unat (pr_start p)) @ ''-'' @ dec (unat (pr_end p))) ports"

definition ruleset_item :: "ResolvedRule \<Rightarrow> RulesetRuleItem" where
  "ruleset_item rr =
     \<lparr>ri_RuleID = pgUUIDToStr (r_ID (rr_Rule rr)), ri_RuleName = r_Name (rr_Rule rr), ri_PolicyID = pgUUIDToStr (p_ID (rr_Policy rr)),
      ri_PolicyName = p_Name (rr_Policy rr), ri_Priority = r_Priority (rr_Rule rr), ri_Direction = r_Direction (rr_Rule rr),
      ri_Action = r_Action (rr_Rule rr), ri_Protocol = ms_Protocol (ResolvedRule.rr_Match rr), ri_SrcCIDRs = cidrSliceToStr (rr_SrcCIDRs rr),
      ri_DstCIDRs = cidrSliceToStr (rr_DstCIDRs rr), ri_SrcPorts = portRangeSliceToStr (rr_SrcPorts rr), ri_DstPorts = portRangeSliceToStr (rr_DstPorts rr)\<rparr>"

definition hosts_getRuleset :: "api \<Rightarrow> http_Request \<Rightarrow> RulesetResponse handler" where
  "hosts_getRuleset A rq = host_request A rq (\<lambda>tid hid.
     let tenantID = pgUUIDToStr tid; hostID = pgUUIDToStr hid in
     bindH (queryH 500 (\<lambda>e. e) (\<lambda>d. Compile (ap_q A) d tenantID hostID)) (\<lambda>rs.
     retH \<lparr>rsr_HostID = hostID, rsr_DefaultIngress = rs_DefaultIngress rs, rsr_DefaultEgress = rs_DefaultEgress rs,
           rsr_Rules = map ruleset_item (rs_Rules rs)\<rparr>))"

section \<open>The preview of a policy\<close>

definition policies_preview :: "api \<Rightarrow> http_Request \<Rightarrow> DryRunRuleSpec list res \<Rightarrow> PreviewResult handler" where
  "policies_preview A rq body =
     bindH (tenantFromRequest A rq) (\<lambda>tid.
     bindH (uuidParam A (rq_id rq)) (\<lambda>pid.
     bindH (queryH 404 (\<lambda>_. Errorf ''policy not found'') (\<lambda>d. GetPolicy (ap_q A) d pid tid)) (\<lambda>_.
     bindH (decodeJSON body) (\<lambda>rules.
     queryH 500 (Wrapf ''preview'') (\<lambda>d. DryRunPreview (ap_q A) d (pgUUIDToStr tid) (pgUUIDToStr pid) rules)))))"

section \<open>System events\<close>

text \<open>A row of the table: its id, the time of its insertion and the inserted columns.\<close>

record ListSystemEventsParams =
  sp_TenantID :: bytes
  sp_HostID :: bytes
  sp_Column3 :: "int option"
  sp_Column4 :: "int option"
  sp_Limit :: i32

definition system_cond :: "ListSystemEventsParams \<Rightarrow> bytes \<times> int \<times> systemRow \<Rightarrow> bool" where
  "system_cond p = (\<lambda>(i, at, r). sr_TenantID r = sp_TenantID p \<and> sr_HostID r = sp_HostID p
     \<and> is_null_or (\<lambda>t. t \<le> at) (sp_Column3 p) \<and> is_null_or (\<lambda>t. at < t) (sp_Column4 p))"

definition ListSystemEvents :: "Queries \<Rightarrow> (bytes \<times> int \<times> systemRow) list \<Rightarrow> ListSystemEventsParams \<Rightarrow> (bytes \<times> int \<times> systemRow) list res" where
  "ListSystemEvents Q t p = bindR (query Q ''ListSystemEvents'' ()) (\<lambda>_. newest (\<lambda>x. fst (snd x)) (sp_Limit p) (system_cond p) t)"

interpretation system_page: listing "\<lambda>p t. ListSystemEvents Q t p" system_cond "\<lambda>x. fst (snd x)" "\<lambda>p. unat (sp_Limit p)"
  by unfold_locales (auto simp: ListSystemEvents_def bindR_eq_Inr dest: newest_Inr)

definition DeleteOldSystemEvents :: "goerr option \<Rightarrow> int \<Rightarrow> (bytes \<times> int \<times> systemRow) list \<Rightarrow> unit res \<times> (bytes \<times> int \<times> systemRow) list" where
  "DeleteOldSystemEvents err createdAt t =
     (case err of Some e \<Rightarrow> (Inl e, t) | None \<Rightarrow> (Inr (), filter (\<lambda>(i, at, r). \<not> at < createdAt) t))"

section \<open>The printed ruleset is read back\<close>

lemma parseUint_loop_digits:
  "list_all is_digit s \<Longrightarrow> foldl (\<lambda>n c. 10 * n + digit_val c) n s < 2 ^ 32 \<Longrightarrow>
   parseUint_loop s n = Inr (foldl (\<lambda>n c. 10 * n + digit_val c) n s)"
proof (induction s arbitrary: n)
  case (Cons c s)
  have mono: "n \<le> foldl (\<lambda>n c. 10 * n + digit_val c) n s" for n
  proof (induction s arbitrary: n)
    case (Cons a s)
    have "n \<le> 10 * n + digit_val a" by simp
    also have "\<dots> \<le> foldl (\<lambda>n c. 10 * n + digit_val c) (10 * n + digit_val a) s" by (rule Cons)
    finally show ?case by simp
  qed simp
  have "10 * n + digit_val c < 2 ^ 32" using Cons.prems(2) mono [of "10 * n + digit_val c"] by simp
  then show ?case using Cons by (simp add: Let_def mult.commute)
qed simp

lemma parseUint32_dec: "n < 2 ^ 32 \<Longrightarrow> parseUint32 (dec n) = Inr (of_nat n)"
proof -
  assume "n < 2 ^ 32"
  moreover have "list_all is_digit (dec n)" using dec_digits by (auto simp: list_all_iff)
  ultimately show ?thesis
    using parseUint_loop_digits [of "dec n" 0] digits_val_dec [of n] by (simp add: parseUint32_def digits_val_def bindR_def)
qed

lemma unat_u32: "unat (x :: u32) < 2 ^ 32"
  using unsigned_less [of x, where ?'a = nat] by simp

text \<open>A port range is printed so that the parser of the policy code reads the same range.\<close>

lemma ports_read_back:
  assumes "\<forall>p\<in>set ports. pr_start p \<le> pr_end p"
  shows "mapR parsePortRange (portRangeSliceToStr ports) = Inr ports"
proof -
  have nd: "CHR ''-'' \<notin> set (dec n)" for n using dec_digits [of "CHR ''-''" n] by (auto simp: is_digit_def)
  have u: "parseUint32 (dec (unat x)) = Inr x" for x :: u32 using parseUint32_dec [OF unat_u32, of x] by simp
  have one: "parsePortRange (dec (unat (pr_start p))) = Inr \<lparr>pr_start = pr_start p, pr_end = pr_start p\<rparr>"
    "pr_start p \<le> pr_end p \<Longrightarrow> parsePortRange (dec (unat (pr_start p)) @ ''-'' @ dec (unat (pr_end p))) =
      Inr \<lparr>pr_start = pr_start p, pr_end = pr_end p\<rparr>" for p :: qfv1_PortRange
    by (simp_all add: parsePortRange_def strCut_append strCut_def [of _ "dec _"] nd u bindR_def)
  have "parsePortRange (if pr_start p = pr_end p then dec (unat (pr_start p)) else dec (unat (pr_start p)) @ ''-'' @ dec (unat (pr_end p))) = Inr p"
    if "pr_start p \<le> pr_end p" for p :: qfv1_PortRange
    using one [of p] that by auto
  then show ?thesis using assms unfolding portRangeSliceToStr_def by (induction ports) simp_all
qed

text \<open>An IPv4 prefix too.\<close>

lemma cidrs_read_back:
  assumes "\<forall>c\<in>set cidrs. length (cidr_ip c) = 4 \<and> cidr_prefix_len c \<le> 32"
  shows "mapR parseCIDR (cidrSliceToStr cidrs) = Inr cidrs"
proof -
  have "parseCIDR (IP_String (cidr_ip c) @ ''/'' @ dec (unat (cidr_prefix_len c))) = Inr c"
    if "length (cidr_ip c) = 4" "cidr_prefix_len c \<le> 32" for c :: qfv1_CIDR
  proof -
    have n: "unat (cidr_prefix_len c) \<le> 32" using that(2) by (simp add: word_le_nat_alt)
    have "maskOnes (CIDRMask (unat (cidr_prefix_len c)) 32) = unat (cidr_prefix_len c)" using n by (rule maskOnes_CIDRMask)
    moreover have "To4 (cidr_ip c) = Some (cidr_ip c)" "To4 (v4InV6Prefix @ cidr_ip c) = Some (cidr_ip c)"
      using that(1) by (simp_all add: To4_def v4InV6Prefix_def)
    moreover from this have "IP_String (cidr_ip c) = ip4String (cidr_ip c)" using that(1) by (auto simp: IP_String_def)
    ultimately show ?thesis using netParseCIDR_ip4String [OF that(1), of "unat (cidr_prefix_len c)"] n by (simp add: parseCIDR_def bindR_def)
  qed
  then show ?thesis using assms unfolding cidrSliceToStr_def by (induction cidrs) simp_all
qed

end
