(* ===== verification/Spec2Isabelle.thy ===== *)
theory Spec2Isabelle
  imports Qf_Delivery Qf_DryRun Qf_Partitions Qf_Startup Qf_Edge Qf_Reads
begin

text \<open>
  \<^bold>\<open>qf: an eBPF host firewall and its control plane.\<close>

  The repository holds an agent that runs on every host (\<^verbatim>\<open>src/agent\<close>) and a control plane
  (\<^verbatim>\<open>src/cp\<close>). Operators store policies, rules, object groups and defaults through a REST API.
  The control plane compiles the policies that select a host to a ruleset, turns it into a signed
  bundle and sends it over a stream to the agent of the host. The agent verifies the bundle, compiles
  it to the loader's rules and writes them to BPF maps, where a classifier evaluates them for every
  packet. The agent reports heartbeats, log events, counters and flows, which the control plane
  stores, forwards to syslog and serves to the UI.

  \<^bold>\<open>The theories and the code they model.\<close>

  \<^item> \<^verbatim>\<open>Qf_Prelude\<close>: results (\<open>error + 'a\<close>), state with errors, sorting and list lemmas, decimal and
    hexadecimal printing; \<^verbatim>\<open>Qf_Net\<close>, \<^verbatim>\<open>Qf_Addr\<close>: what the code uses of Go's \<^verbatim>\<open>net\<close>, \<^verbatim>\<open>net/netip\<close>,
    \<^verbatim>\<open>strconv\<close> and \<^verbatim>\<open>strings\<close>; \<^verbatim>\<open>Qf_Proto\<close>: the messages of \<^verbatim>\<open>proto/qf/v1\<close>, with open enums as 32-bit
    words.
  \<^item> Agent. \<^verbatim>\<open>Qf_Loader\<close>: \<^verbatim>\<open>agent/internal/loader\<close>, the BPF maps as a record with capacities, every
    write and read with system calls that may fail; \<^verbatim>\<open>Qf_Datapath\<close>: \<^verbatim>\<open>agent/bpf\<close>, the classifier on a parsed
    packet; \<^verbatim>\<open>Qf_Compiler\<close>: \<^verbatim>\<open>policy/compiler.go\<close>; \<^verbatim>\<open>Qf_Applier\<close>, \<^verbatim>\<open>Qf_Policy\<close>, \<^verbatim>\<open>Qf_Handler\<close>,
    \<^verbatim>\<open>Qf_Total\<close>: \<^verbatim>\<open>handler/policy.go\<close>, its interface \<open>RuleApplier\<close> as a record and a locale interpreted
    on the loader; \<^verbatim>\<open>Qf_Telemetry\<close>: counters, events, connection dump and sweep; \<^verbatim>\<open>Qf_Agent\<close>:
    bundle files, signatures, boot and \<open>HandleBundle\<close>; \<^verbatim>\<open>Qf_DiskBuffer\<close>: \<^verbatim>\<open>grpcclient/diskbuffer.go\<close>;
    \<^verbatim>\<open>Qf_Session\<close>: one session of the agent with its goroutines as interleaved steps;
    \<^verbatim>\<open>Qf_Reconnect\<close>: the reconnect loop, certificate rotation and enrolment of the agent;
    \<^verbatim>\<open>Qf_Startup\<close>: its configuration (\<^verbatim>\<open>config/config.go\<close>), the attachment of the programs
    (\<^verbatim>\<open>loader/loader.go\<close>) and the start of \<^verbatim>\<open>cmd/qf-agent\<close>.
  \<^item> Control plane. \<^verbatim>\<open>Qf_Store\<close>, \<^verbatim>\<open>Qf_Writes\<close>, \<^verbatim>\<open>Qf_Accounts\<close>: the tables as lists of rows with the
    constraints of the schema and the queries of \<^verbatim>\<open>store/gen\<close>; \<^verbatim>\<open>Qf_Ruleset\<close>: selectors, groups,
    rulesets and bundles; \<^verbatim>\<open>Qf_Cascade\<close>, \<^verbatim>\<open>Qf_DryRun\<close>: \<^verbatim>\<open>policy/cascade.go\<close> and \<^verbatim>\<open>policy/dryrun.go\<close>;
    \<^verbatim>\<open>Qf_Pki\<close>: tokens, enrolment, certificates, revocation; \<^verbatim>\<open>Qf_Registry\<close>: connected streams;
    \<^verbatim>\<open>Qf_AgentSrv\<close>: the stream server; \<^verbatim>\<open>Qf_Ingest\<close>: telemetry ingestion; \<^verbatim>\<open>Qf_RateLimit\<close>,
    \<^verbatim>\<open>Qf_Api\<close>, \<^verbatim>\<open>Qf_Auth\<close>: the REST handlers, sessions, users and API tokens; \<^verbatim>\<open>Qf_Events\<close>,
    \<^verbatim>\<open>Qf_Reads\<close>: the lists of telemetry and audit rows, the live tail, effective rulesets and previews;
    \<^verbatim>\<open>Qf_Hub\<close>: \<^verbatim>\<open>pubsub/hub.go\<close> with its interleavings; \<^verbatim>\<open>Qf_Edge\<close>: the address of a client and
    \<^verbatim>\<open>ws/hub.go\<close>; \<^verbatim>\<open>Qf_Keys\<close>: the key files of \<^verbatim>\<open>pki/ca.go\<close> and \<^verbatim>\<open>pki/bundle_signer.go\<close>;
    \<^verbatim>\<open>Qf_Calendar\<close>: the dates and ISO weeks of Go's \<^verbatim>\<open>time\<close>; \<^verbatim>\<open>Qf_Partitions\<close>:
    \<^verbatim>\<open>ingest/partitions.go\<close>; \<^verbatim>\<open>Qf_Syslog\<close>: \<^verbatim>\<open>forwarder\<close>; \<^verbatim>\<open>Qf_Typing\<close>: the
    invariant of the tables; \<^verbatim>\<open>Qf_Server\<close>, \<^verbatim>\<open>Qf_Sessions\<close>, \<^verbatim>\<open>Qf_Delivery\<close>: the control plane as a whole,
    requests, goroutines, enrolments and streams as steps of one state.

  \<^bold>\<open>How state and effects correspond.\<close> A struct is a record whose fields keep their names, with a
  prefix where two structs share one; machine integers keep their width. A call that can fail returns
  \<open>error + 'a\<close>, and a stateful one returns it with the new state; the environment decides by an argument
  (\<open>flt\<close>, \<open>sflt\<close>, \<open>qf\<close>) which system calls, sends and queries fail, so a theorem without a hypothesis on it
  holds for every pattern of faults. Goroutines are steps of \<open>inductive\<close> relations, interleaved in any
  order. Code outside the repository is an argument of the definitions: Ed25519, bcrypt and X.509
  (\<open>crypto\<close> and the records beside it), the protobuf and JSON codecs, the scanning of UUIDs, the OIDC provider,
  the clock and random numbers. What is assumed of them is named (\<open>ed25519_pair\<close>, \<open>codec_ok\<close>, ...) and
  each such hypothesis is met by a concrete function in a witness. Go's random map iteration is an
  argument \<open>iter\<close> with \<open>mset (iter xs) = mset xs\<close>.

  \<^bold>\<open>What the lemmas show.\<close> The compiler, handler, loader and classifier compose: an applied bundle is what the
  packets meet, from the stored policies on (this theory), when its rules allow or deny and name no TCP
  flags; for rules that log and for flags the code differs from the protocol files, which is shown too. Only verified bundles change the policy, in
  every interleaving of a session and over reconnects. The loader keeps its invariant and a sweep, a
  dump and a lookup agree on keys. Files and credentials are replaced whole. The disk buffer loses
  nothing on replay, keeps the order and its bound. The batcher and the ingester deliver in order, and
  the ingester counts what it stores and what it drops at a full channel. In the control plane, every reachable state is well typed, policies change only by
  editors, a changed password ends sessions, tokens and login attempts are bounded, a preview shows
  exactly what would change, and an update reaches the connected hosts whose ruleset it changes. Pages of events hold the newest rows
  that meet the filters; forwarded syslog lines are read back; the partition manager deletes nothing that is within its time to
  live and covers the coming week; keys survive restarts; an agent that fails closed drops every packet that its
  parser accepts until a bundle verifies. Theorems whose text
  says so show behaviours that differ from what the documentation or comments promise: the
  hub that panics when a subscriber leaves, the live tail that never sends its history, the
  authority that a half finished start locks out, and others.

  \<^bold>\<open>Bounds and fuel.\<close> The only loop that may not end is the reconnect loop, a
  \<open>partial_function (option)\<close>; \<open>RunFull_returns\<close> shows when it returns. All other loops are structural
  or have a termination proof. Sizes (\<open>MaxRules\<close>, \<open>MaxIPSetEntries\<close>, the capacities of channels and batches)
  are those of the code; \<open>length (pb_rules b) \<le> 2 ^ 31\<close> in the theorems about \<open>Apply\<close> keeps the
  32-bit priorities of the compiler from wrapping and is implied by the size of a message.

  \<^bold>\<open>Not modelled.\<close> Frame parsing in BPF (\<^verbatim>\<open>parser.h\<close>), which works on kernel memory; dialling, listening
  and TLS (\<^verbatim>\<open>grpcclient/client.go\<close> beyond the errors of \<open>Dial\<close>, the servers of \<^verbatim>\<open>agentsrv\<close>), which only call libraries; the command of
  the control plane and the loop of the agent's \<open>main\<close> that enrols again, which wire the parts together;
  metrics and the embedded UI, which carry no state of the firewall; the frames of websockets and the text of event
  streams; migrations beyond their constraints; generated code of protobuf and bpf2go. RFC 3339
  times, JSON bodies and URLs arrive parsed. The texts of errors and log lines are kept only where the code branches on
  them, and \<open>strings.TrimSpace\<close> and \<open>strings.ToLower\<close> only on ASCII.
\<close>

section \<open>A bundle used by the witnesses\<close>

definition ex_uuid :: string where
  "ex_uuid = ''00112233-4455-6677-8899-aabbccddeeff''"

text \<open>Deny TCP to port 22 from 10.0.0.0/8, then allow the rest of ingress, default deny.\<close>

definition ex_rule :: qfv1_EffectiveRule where
  "ex_rule = \<lparr>er_rule_id = ex_uuid, er_policy_id = [], er_rule_name = [], er_policy_name = [],
     er_policy_priority = 0, er_rule_priority = 0, er_direction = 1,
     er_match = Some \<lparr>rm_protocol = 2, rm_src_cidrs = [\<lparr>cidr_ip = [10,0,0,0], cidr_prefix_len = 8\<rparr>],
        rm_dst_cidrs = [], rm_src_ports = [], rm_dst_ports = [\<lparr>pr_start = 22, pr_end = 22\<rparr>],
        rm_tcp_flags_match = 0, rm_tcp_flags_mask = 0\<rparr>,
     er_state = 0, er_action = 2, er_log_enabled = False, er_log_rate_limit_per_sec = 0\<rparr>"

definition ex_bundle :: qfv1_PolicyBundle where
  "ex_bundle = \<lparr>pb_generation = 7, pb_rules = [Some ex_rule], pb_default_ingress_action = 1,
     pb_default_egress_action = 2, pb_requires_conntrack = False, pb_signature = [], pb_signed_at = None\<rparr>"


lemmas ex_defs = ex_rule_def ex_bundle_def GetMatch_def cidr_count_def

lemma ex_bundle_valid: "bundle_valid 64 ex_bundle"
proof -
  have "is_ok (parseUUID ex_uuid)" unfolding ex_uuid_def by code_simp
  then show ?thesis
    by (simp add: bundle_valid_def rule_valid_def ports_valid_def enum_defs MaxIPSetEntries_def ex_defs)
qed

definition ex_clock :: clock3 where
  "ex_clock = \<lparr>clk_start = 0, clk_since = 5000000, clk_applied = 5000000\<rparr>"

definition ex_handler :: "bpf PolicyHandler" where
  "ex_handler = NewPolicyHandler (init_bpf 64 1)"

lemma ex_handler_ok:
  "bpf_ok (applier ex_handler)" "trie_ok (applier ex_handler)" "maxRules (applier ex_handler) = 64"
  by (simp_all add: ex_handler_def NewPolicyHandler_def init_bpf_def bpf_ok_def trie_ok_def)

section \<open>Applying a bundle\<close>

lemma Apply_valid:
  assumes "bpf_ok (applier h)" and "trie_ok (applier h)"
    and v: "bundle_valid (maxRules (applier h)) b" and iter: "\<And>xs. mset (iter xs) = mset xs"
  shows "is_ok (fst (Apply (loader_applier (\<lambda>_. False)) iter clk (Some b) h))"
proof -
  let ?st0 = "\<lparr>nextID = 0, ipsets = []\<rparr> :: compileState"
  have t0: "table_ok 0 ?st0" "table_size ?st0 = 0"
    by (simp_all add: table_ok_def set_keys_def table_size_def)
  have len: "length (pb_rules b) \<le> maxRules (applier h)" using v by (simp add: bundle_valid_def)
  then have l: "0 + 2 * length (pb_rules b) < 2 ^ 32" using assms(1) by (auto simp: bpf_ok_def)
  have rv: "list_all (\<lambda>ero. case ero of None \<Rightarrow> False | Some er \<Rightarrow> rule_valid er) (pb_rules b)"
    using v by (simp add: bundle_valid_def)
  from compileRules_valid [OF rv t0(1) l, of 0] obtain rs ws st where
    c: "compileRules 0 (pb_rules b) ?st0 = Inr (rs, ws, st)" and st1: "table_ok (0 + 2 * length (pb_rules b)) st"
    and st2: "table_size st \<le> table_size ?st0 +
        sum_list (map (\<lambda>ero. case ero of None \<Rightarrow> 0 | Some er \<Rightarrow> cidr_count er) (pb_rules b))"
    and rs: "length rs \<le> length (pb_rules b)" "list_all (\<lambda>r. is_ok (toRuleEntry r)) rs"
    by blast
  have st: "table_size st \<le> MaxIPSetEntries" using st2 v unfolding t0(2) by (simp add: bundle_valid_def)
  define res where "res = \<lparr>Rules = rs, CConfig = bundleConfig b, IPSets = ipsets st, Warnings = ws\<rparr>"
  have res: "CompileBundle (Some b) = Inr res" by (simp add: CompileBundle_def c res_def)
  have "list_all (\<lambda>(i, cs). i \<noteq> 0 \<and> list_all cidr_valid cs) (IPSets res)"
    using st1 unfolding res_def table_ok_def list_all_iff set_keys_def by (simp add: case_prod_unfold) force
  moreover have "sum_list (map (\<lambda>(i, cs). length cs) (IPSets res)) \<le> MaxIPSetEntries"
    using st by (simp add: res_def table_size_def)
  moreover have "list_all (\<lambda>r. is_ok (toRuleEntry r)) (Rules res)" "length (Rules res) \<le> maxRules (applier h)"
    using rs len by (simp_all add: res_def)
  ultimately obtain t where "push_all (loader_applier (\<lambda>_. False)) iter res (applier h) = (Inr (), t)"
    using push_all_ok [OF assms(1,2) _ _ _ _ iter] by blast
  then show ?thesis by (simp add: Apply_def res Let_def)
qed

lemma Apply_verdict:
  assumes "bpf_ok (applier h)" and "\<And>xs. mset (iter xs) = mset xs"
    and "length (pb_rules b) \<le> 2 ^ 31"
    and "is_ok (fst (Apply (loader_applier flt) iter clk (Some b) h))"
  shows "(let s = run_packets pks (applier (snd (Apply (loader_applier flt) iter clk (Some b) h)))
          in fst (run_datapath env (Some p) s) =
             first_match_verdict b (p\<lparr>pkt_ct_state := (if pb_requires_conntrack b then ct_lookup s p else 0)\<rparr>))"
proof -
  define s where "s = run_packets pks (applier (snd (Apply (loader_applier flt) iter clk (Some b) h)))"
  from Apply_views [OF assms(1,2,4)] obtain res where c: "CompileBundle (Some b) = Inr res"
    and v: "mapR toRuleEntry (sortRules (Rules res)) = Inr (rules_view s)"
      "config_view s = config_spec (CConfig res)"
      "\<And>i a. ipset_view s i a \<longleftrightarrow> (\<exists>cs. (i, cs) \<in> set (IPSets res) \<and> list_ex (cidr4_matches a) cs)"
    and z: "0 \<notin> fst ` set (IPSets res)"
    unfolding s_def by (metis policy_part_run_packets)
  have "list_all2 (\<lambda>r e. toRuleEntry r = Inr e) (Rules res) (rules_view s)"
    using v(1) sortRules_compiled [OF c assms(3)] by (simp add: mapR_Inr)
  moreover have "config_view s = config_spec (bundleConfig b)"
    using v(2) c by (auto simp: CompileBundle_def bindR_eq_Inr)
  ultimately show ?thesis
    unfolding s_def [symmetric] Let_def
    by (rule verdict_of_views) (rule CompileBundle_first [OF c z v(3)])
qed

text \<open>
  C2. After a successful \<open>Apply\<close> of a bundle whose rules allow or deny and ask for no TCP flags, the
  datapath enforces it as the protocol files document: whatever traffic has
  passed since, the verdict on a packet is the one of the first rule of the bundle that
  matches it (or the bundle's default action), as \<open>bundle_verdict\<close> states on the messages,
  with the connection state that the tracker has for the packet when the bundle asks
  for tracking. This composes the compiler (IPv6 filtering, spilling to IP sets, skipping,
  32-bit to 8-bit conversions), the handler's sequence of pushes, the loader's encoding
  and the BPF matcher; it holds for any iteration order of the map of sets and any
  pattern of system call faults under which \<open>Apply\<close> reports success. For rules that log and rules with flags
  documentation and datapath differ, as shown below.
\<close>

theorem Apply_enforces_bundle:
  assumes "bpf_ok (applier h)" and "\<And>xs. mset (iter xs) = mset xs"
    and "length (pb_rules b) \<le> 2 ^ 31"
    and "is_ok (fst (Apply (loader_applier flt) iter clk (Some b) h))" and "plain_bundle b"
  shows "(let s = run_packets pks (applier (snd (Apply (loader_applier flt) iter clk (Some b) h)))
          in fst (run_datapath env (Some p) s) =
             bundle_verdict b (p\<lparr>pkt_ct_state := (if pb_requires_conntrack b then ct_lookup s p else 0)\<rparr>))"
  using Apply_verdict [OF assms(1-4)] by (simp add: plain_verdict [OF assms(5)])

theorem Apply_enforces_bundle_witness:
  "fst (run_datapath \<lparr>env_cpu = 0, env_now = 1, env_room = True, env_evict = (\<lambda>_. False)\<rparr>
      (Some \<lparr>src_ip4 = 0x0100000A, dst_ip4 = 0, src_port = 4000, dst_port = 22, pkt_size = 60, tcp_flags = 2,
             proto = 2, pkt_direction = 1, is_ipv6 = False, pkt_ct_state = 0\<rparr>)
      (applier (snd (Apply (loader_applier (\<lambda>_. False)) rev ex_clock (Some ex_bundle) ex_handler)))) = TC_ACT_SHOT"
proof -
  let ?p = "\<lparr>src_ip4 = 0x0100000A, dst_ip4 = 0, src_port = 4000, dst_port = 22, pkt_size = 60, tcp_flags = 2,
             proto = 2, pkt_direction = 1, is_ipv6 = False, pkt_ct_state = 0\<rparr> :: pkt_ctx"
  have "is_ok (fst (Apply (loader_applier (\<lambda>_. False)) rev ex_clock (Some ex_bundle) ex_handler))"
    using ex_bundle_valid ex_handler_ok by (intro Apply_valid) simp_all
  moreover have "bundle_verdict ex_bundle (?p\<lparr>pkt_ct_state := 0\<rparr>) = TC_ACT_SHOT"
    by code_simp
  moreover have "\<not> pb_requires_conntrack ex_bundle" "length (pb_rules ex_bundle) \<le> 2 ^ 31"
    by (simp_all add: ex_bundle_def)
  moreover have "plain_bundle ex_bundle" by (simp add: plain_bundle_def plain_rule_def terminal_rule_def enum_defs ex_defs)
  ultimately show ?thesis
    using Apply_enforces_bundle [of ex_handler rev ex_bundle "\<lambda>_. False" ex_clock "[]" _ ?p] ex_handler_ok(1)
    by (simp add: Let_def)
qed

text \<open>
  A rule that logs ends the evaluation: a packet whose first match is a rule with the action log passes, whatever the
  rules after it say, although the protocol files make log non-terminal. On a bundle that logs and then denies everything
  the documented verdict is to drop.
\<close>

lemma log_rule_ends_evaluation:
  assumes "bpf_ok (applier h)" and "\<And>xs. mset (iter xs) = mset xs"
    and "length (pb_rules b) \<le> 2 ^ 31"
    and "is_ok (fst (Apply (loader_applier flt) iter clk (Some b) h))"
    and "s = run_packets pks (applier (snd (Apply (loader_applier flt) iter clk (Some b) h)))"
    and "first_rule (p\<lparr>pkt_ct_state := (if pb_requires_conntrack b then ct_lookup s p else 0)\<rparr>) (pb_rules b) = Some er"
    and "er_action er = ACTION_LOG"
  shows "fst (run_datapath env (Some p) s) = TC_ACT_OK"
  using Apply_verdict [OF assms(1-4), of pks env p] assms(6,7)
  by (simp add: assms(5) [symmetric] first_match_verdict_def ACTION_LOG_def ActionDeny_def Let_def)

definition ex_log_bundle :: qfv1_PolicyBundle where
  "ex_log_bundle = ex_bundle\<lparr>pb_rules := [Some (ex_rule\<lparr>er_action := 3\<rparr>), Some ex_rule]\<rparr>"

lemma log_then_deny:
  fixes p :: pkt_ctx
  defines "p \<equiv> \<lparr>src_ip4 = 0x0100000A, dst_ip4 = 0, src_port = 4000, dst_port = 22, pkt_size = 60, tcp_flags = 2,
      proto = 2, pkt_direction = 1, is_ipv6 = False, pkt_ct_state = 0\<rparr>"
  shows "first_match_verdict ex_log_bundle p = TC_ACT_OK \<and> bundle_verdict ex_log_bundle p = TC_ACT_SHOT"
  unfolding p_def by code_simp


text \<open>
  C6. \<open>Apply\<close> succeeds on every well-formed bundle that fits the maps when no system call
  fails: it returns the bundle's generation and records the result as current. The trie
  invariant it needs is kept by every operation of the loader.
\<close>

theorem Apply_succeeds:
  assumes "bpf_ok (applier h)" and "trie_ok (applier h)"
    and "bundle_valid (maxRules (applier h)) b" and "\<And>xs. mset (iter xs) = mset xs"
  shows "\<exists>ar. fst (Apply (loader_applier (\<lambda>_. False)) iter clk (Some b) h) = Inr ar
          \<and> ar_Generation ar = pb_generation b
          \<and> current (snd (Apply (loader_applier (\<lambda>_. False)) iter clk (Some b) h)) = Some ar"
proof -
  from Apply_valid [OF assms] obtain ar h' where a: "Apply (loader_applier (\<lambda>_. False)) iter clk (Some b) h = (Inr ar, h')"
    by (metis is_ok_iff prod.collapse)
  then show ?thesis by (rule Apply_Inr) (simp add: a)
qed

theorem Apply_succeeds_witness:
  "\<exists>ar. fst (Apply (loader_applier (\<lambda>_. False)) rev ex_clock (Some ex_bundle) ex_handler) = Inr ar
     \<and> ar_Generation ar = 7
     \<and> current (snd (Apply (loader_applier (\<lambda>_. False)) rev ex_clock (Some ex_bundle) ex_handler)) = Some ar"
proof -
  have "pb_generation ex_bundle = 7" by (simp add: ex_bundle_def)
  then show ?thesis
    using Apply_succeeds [of ex_handler ex_bundle rev ex_clock] ex_bundle_valid ex_handler_ok by simp
qed

lemma Apply_failure_state:
  assumes "Apply A iter clk bo h = (Inl e, h')" and "CompileBundle bo = Inr res"
  shows "h' = h\<lparr>applier := snd (push_all A iter res (applier h))\<rparr>"
  using assms by (auto simp: Apply_def Let_def split: prod.splits sum.splits)

lemma Apply_failure_rules:
  assumes "bpf_ok (applier h)" and "Apply (loader_applier flt) iter clk bo h = (Inl e, h')"
    and "CompileBundle bo = Inr res" and "\<not> is_ok (mapR toRuleEntry (sortRules (Rules res)))"
  shows "rules_view (applier h') = rules_view (applier h)"
proof -
  obtain x where "mapR toRuleEntry (sortRules (Rules res)) = Inl x"
    using assms(4) by (auto simp: is_ok_def split: sum.splits)
  from loader.push_all_invalid_keeps_rules [OF assms(1) this]
  show ?thesis unfolding Apply_failure_state [OF assms(2,3)] by simp
qed

text \<open>
  C8. What a failing \<open>Apply\<close> leaves: the recorded result and the tracked connections are
  always those of before, whatever the applier does; the state is untouched if the bundle
  does not compile; and if a compiled rule is invalid the entries the datapath scans are
  those of before, since \<open>PushRules\<close> converts every rule before it writes.
\<close>

theorem Apply_failure_keeps:
  assumes "bpf_ok (applier h)" and "Apply (loader_applier flt) iter clk bo h = (Inl e, h')"
  shows "current h' = current h \<and> qf_conntrack (applier h') = qf_conntrack (applier h)
    \<and> (\<not> is_ok (CompileBundle bo) \<longrightarrow> h' = h)
    \<and> (\<forall>res. CompileBundle bo = Inr res \<longrightarrow> \<not> is_ok (mapR toRuleEntry (sortRules (Rules res))) \<longrightarrow>
          rules_view (applier h') = rules_view (applier h))"
proof (cases "CompileBundle bo")
  case (Inl x)
  then show ?thesis using assms(2) by (simp add: Apply_def)
next
  case (Inr res)
  note h' = Apply_failure_state [OF assms(2) Inr]
  have "qf_conntrack (applier h') = qf_conntrack (applier h)"
    using loader.push_all_keeps [OF assms(1), of flt iter res] h' by (simp add: base_def)
  moreover have "rules_view (applier h') = rules_view (applier h)"
    if "\<not> is_ok (mapR toRuleEntry (sortRules (Rules res)))"
    using that by (rule Apply_failure_rules [OF assms Inr])
  ultimately show ?thesis using Inr h' by simp
qed

text \<open>A bundle whose only rule has a protocol number the loader refuses, with default deny.\<close>

definition bad_bundle :: qfv1_PolicyBundle where
  "bad_bundle = ex_bundle\<lparr>pb_default_ingress_action := 2,
     pb_rules := [Some (ex_rule\<lparr>er_match := Some (empty_RuleMatch\<lparr>rm_protocol := 9\<rparr>)\<rparr>)]\<rparr>"

lemma ex_parse: "parseUUID ex_uuid = Inr (map of_nat [0, 17, 34, 51, 68, 85, 102, 119, 136, 153, 170, 187, 204, 221, 238, 255])"
  unfolding ex_uuid_def by code_simp

lemma bad_bundle_compiles:
  "\<exists>res. CompileBundle (Some bad_bundle) = Inr res \<and> \<not> is_ok (mapR toRuleEntry (sortRules (Rules res)))"
proof -
  have "\<exists>r. compileRules 0 (pb_rules bad_bundle) \<lparr>nextID = 0, ipsets = []\<rparr> = Inr ([r], [], \<lparr>nextID = 0, ipsets = []\<rparr>)
      \<and> Protocol (Match r) = 9"
    by (simp add: bad_bundle_def ex_bundle_def ex_rule_def empty_RuleMatch_def GetMatch_def ex_parse
        compileRule_def compileCIDRs_def compilePorts_def)
  then obtain r where c: "compileRules 0 (pb_rules bad_bundle) \<lparr>nextID = 0, ipsets = []\<rparr> = Inr ([r], [], \<lparr>nextID = 0, ipsets = []\<rparr>)"
    and p: "Protocol (Match r) = 9" by blast
  have "\<not> is_ok (toRuleEntry r)"
    using toRuleEntry_Inr [of r] p by (auto simp: is_ok_iff validateRule_Inr Let_def loader_consts)
  then show ?thesis using c
    by (cases "toRuleEntry r") (simp_all add: CompileBundle_def sortRules_def)
qed

lemma bad_bundle_fails:
  "\<exists>e h'. Apply (loader_applier (\<lambda>_. False)) rev ex_clock (Some bad_bundle) ex_handler = (Inl e, h')
     \<and> qf_config (applier h') 1 = 2"
proof -
  from bad_bundle_compiles obtain res where c: "CompileBundle (Some bad_bundle) = Inr res"
    and n: "\<not> is_ok (mapR toRuleEntry (sortRules (Rules res)))" by blast
  then obtain e where e: "mapR toRuleEntry (sortRules (Rules res)) = Inl e" by (auto simp: is_ok_def split: sum.splits)
  have r: "CConfig res = bundleConfig bad_bundle" "IPSets res = []"
    using c by (auto simp: CompileBundle_def bindR_eq_Inr bad_bundle_def ex_bundle_def ex_rule_def
        empty_RuleMatch_def GetMatch_def ex_parse compileRule_def compileCIDRs_def compilePorts_def)
  have "DefaultIngress (bundleConfig bad_bundle) = 2"
    by (simp add: bundleConfig_def bad_bundle_def ACTION_UNSPECIFIED_def Let_def)
  then show ?thesis
    by (simp add: Apply_def c push_all_def loader_applier_def bindS_def wrapS_def ClearIPSets_def qf_ipsets_Iterate_def
        sysS_def Let_def ex_handler_def NewPolicyHandler_def init_bpf_def r SetConfig_def qf_config_Put_def
        PushRules_def e split: if_splits)
qed

theorem Apply_failure_keeps_witness:
  "\<exists>h'. current h' = current ex_handler \<and> rules_view (applier h') = rules_view (applier ex_handler)
      \<and> h' = snd (Apply (loader_applier (\<lambda>_. False)) rev ex_clock (Some bad_bundle) ex_handler)"
proof -
  from bad_bundle_fails obtain e h' where
    a: "Apply (loader_applier (\<lambda>_. False)) rev ex_clock (Some bad_bundle) ex_handler = (Inl e, h')" by blast
  from Apply_failure_keeps [OF ex_handler_ok(1) a] bad_bundle_compiles show ?thesis using a by auto
qed

text \<open>
  C39. A failing \<open>Apply\<close> is not atomic, although the comment on \<open>Apply\<close> says that on failure
  the previous generation remains active: the config and the IP sets are written before
  the rules are validated. Here a freshly loaded agent, which accepts a packet, is given a
  bundle that is rejected as invalid, and drops that packet afterwards.
\<close>

theorem Apply_failure_changes_verdict:
  "\<exists>e h' p. Apply (loader_applier (\<lambda>_. False)) rev ex_clock (Some bad_bundle) ex_handler = (Inl e, h')
     \<and> fst (run_datapath env (Some p) (applier ex_handler)) = TC_ACT_OK
     \<and> fst (run_datapath env (Some p) (applier h')) = TC_ACT_SHOT"
proof -
  from bad_bundle_fails obtain e h' where
    a: "Apply (loader_applier (\<lambda>_. False)) rev ex_clock (Some bad_bundle) ex_handler = (Inl e, h')"
    and cfg: "qf_config (applier h') 1 = 2" by blast
  let ?p = "\<lparr>src_ip4 = 0, dst_ip4 = 0, src_port = 0, dst_port = 0, pkt_size = 60, tcp_flags = 0,
             proto = 3, pkt_direction = 1, is_ipv6 = False, pkt_ct_state = 0\<rparr> :: pkt_ctx"
  from bad_bundle_compiles obtain res where "CompileBundle (Some bad_bundle) = Inr res"
    "\<not> is_ok (mapR toRuleEntry (sortRules (Rules res)))" by blast
  then have "rules_view (applier h') = rules_view (applier ex_handler)"
    by (rule Apply_failure_rules [OF ex_handler_ok(1) a])
  then have "rules_view (applier h') = []"
    by (simp add: ex_handler_def NewPolicyHandler_def init_bpf_def rules_view_def eval_bound_def)
  then have z: "eval_bound (applier h') = 0" by (simp add: rules_view_def)
  have "fst (run_datapath env (Some ?p) (applier ex_handler)) = TC_ACT_OK"
    by (simp add: run_datapath_def ex_handler_def NewPolicyHandler_def init_bpf_def ct_enabled_def
        eval_rules_def eval_bound_def default_action_def loader_consts Let_def)
  moreover have "fst (run_datapath env (Some ?p) (applier h')) = TC_ACT_SHOT"
    by (simp add: run_datapath_verdict eval_rules_def z default_action_def cfg loader_consts Let_def)
  ultimately show ?thesis using a by blast
qed

section \<open>From the store to the packet\<close>

lemma HandleBundle_delivers:
  assumes "VerifyBundle C b pub = Inr ()" and "\<And>n. \<not> sflt n"
    and "is_ok (fst (Apply A iter clk (Some b) (peer z)))"
  shows "\<exists>z' ack res. HandleBundle C sflt b pub (applyFn A iter clk) z = (Inr (), z')
     \<and> sent z' = sent z @ [BundleAckMsg ack, BundleAppliedMsg res]
     \<and> ack_generation ack = pb_generation b \<and> ack_signature_verified ack
     \<and> ba_generation res = pb_generation b \<and> ba_success res
     \<and> peer z' = snd (Apply A iter clk (Some b) (peer z))"
proof -
  from assms(3) obtain ar h where a: "Apply A iter clk (Some b) (peer z) = (Inr ar, h)" by (metis is_ok_iff prod.collapse)
  then show ?thesis using assms(1,2)
    by (simp add: HandleBundle_def stream_Send_cases onPeer_def wrapS_def applyFn_def Let_def)
qed

lemma Build_verifies:
  assumes "ed25519_pair C priv pub" and "Build Q C (Some priv) now d tenantID hostID gen = Inr b"
  shows "VerifyBundle C b pub = Inr ()"
proof -
  from assms(2) obtain rs where "BundleSigner_SignBundle C now priv (buildProtoBundle rs gen) = Inr b"
    by (auto simp: Build_def bindR_eq_Inr Let_def)
  with assms(1) show ?thesis by (rule SignBundle_verifies)
qed

lemma bundle_valid_rules: "pb_rules b = pb_rules b' \<Longrightarrow> bundle_valid n b = bundle_valid n b'"
  by (simp add: bundle_valid_def)

text \<open>
  C1. The program end to end. When the control plane builds a bundle from the store and the
  agent that received it reports success, then the stored policies compile to a ruleset
  \<open>rs\<close>, the agent is at that generation, and, if the rules and defaults of \<open>rs\<close> allow or deny and ask for no
  TCP flags, from then on, whatever packets pass, the
  datapath gives every packet the verdict of the first rule of \<open>rs\<close> that matches it, or the
  tenant's default. It holds for any store, any signature scheme, any
  iteration order and any pattern of failing system calls and sends.
\<close>

theorem stored_policy_enforced:
  assumes "Build Q C signer now d tenantID hostID gen = Inr b"
    and "HandleBundle C sflt b pub (applyFn (loader_applier flt) iter clk) z = (r, z')"
    and "BundleAppliedMsg m \<in> set (drop (length (sent z)) (sent z'))" and "ba_success m"
    and "bpf_ok (applier (peer z))" and "\<And>xs. mset (iter xs) = mset xs" and "length (pb_rules b) \<le> 2 ^ 31"
  shows "\<exists>rs. Compile Q d tenantID hostID = Inr rs \<and> currentGen (peer z') = gen
    \<and> (plain_ruleset rs \<longrightarrow> (\<forall>pks env p. let s = run_packets pks (applier (peer z')) in
         fst (run_datapath env (Some p) s) =
         ruleset_verdict rs (p\<lparr>pkt_ct_state := (if list_ex rule_needs_ct (rs_Rules rs) then ct_lookup s p else 0)\<rparr>)))"
proof -
  from assms(1) obtain rs where rs: "Compile Q d tenantID hostID = Inr rs"
    and b: "pb_rules b = pb_rules (buildProtoBundle rs gen)" "pb_generation b = gen"
      "pb_default_ingress_action b = protoAction (rs_DefaultIngress rs)"
      "pb_default_egress_action b = protoAction (rs_DefaultEgress rs)"
      "pb_requires_conntrack b = list_ex rule_needs_ct (rs_Rules rs)"
    by (rule Build_Inr)
  let ?A = "Apply (loader_applier flt) iter clk (Some b) (peer z)"
  have ok: "is_ok (fst ?A)" and z': "peer z' = snd ?A"
    using HandleBundle_applied [OF assms(2-4)] by simp_all
  from ok obtain ar where "?A = (Inr ar, peer z')" unfolding z' by (metis is_ok_iff prod.collapse)
  then have "currentGen (peer z') = gen"
    using applyFn_current [of "loader_applier flt" iter clk b "peer z" "ar_DurationMs ar" "peer z'"] b(2)
    by (simp add: applyFn_def)
  moreover have "let s = run_packets pks (applier (peer z')) in fst (run_datapath env (Some p) s) =
      ruleset_verdict rs (p\<lparr>pkt_ct_state := (if list_ex rule_needs_ct (rs_Rules rs) then ct_lookup s p else 0)\<rparr>)" if "plain_ruleset rs" for pks env p
    using Apply_verdict [OF assms(5,6,7) ok, of pks env p] first_match_verdict_built [OF b(1,3,4)] plain_ruleset_verdict [OF that]
    by (simp add: z' b(5) Let_def)
  ultimately show ?thesis using rs by blast
qed

text \<open>
  C5. Delivery succeeds. If the signing key matches the agent's public key, the bundle that the control plane
  built is well-formed and fits the maps, and no call fails, then \<open>HandleBundle\<close> returns
  without error after acknowledging the bundle as verified and reporting it applied.
\<close>

theorem stored_policy_delivered:
  assumes "ed25519_pair C priv pub" and "Build Q C (Some priv) now d tenantID hostID gen = Inr b"
    and "bundle_valid (maxRules (applier (peer z))) b"
    and "bpf_ok (applier (peer z))" and "trie_ok (applier (peer z))" and "\<And>xs. mset (iter xs) = mset xs"
  shows "\<exists>z' ack res. HandleBundle C (\<lambda>_. False) b pub (applyFn (loader_applier (\<lambda>_. False)) iter clk) z = (Inr (), z')
     \<and> sent z' = sent z @ [BundleAckMsg ack, BundleAppliedMsg res]
     \<and> ack_generation ack = gen \<and> ack_signature_verified ack \<and> ba_generation res = gen \<and> ba_success res"
proof -
  have "pb_generation b = gen" using assms(2) by (rule Build_Inr)
  moreover note HandleBundle_delivers [OF Build_verifies [OF assms(1,2)] _ Apply_valid [OF assms(4,5,3,6)], of "\<lambda>_. False" clk]
  ultimately show ?thesis by blast
qed

definition ex_crypto2 :: crypto where
  "ex_crypto2 = ex_crypto\<lparr>pb_Marshal := (\<lambda>_. Inr [1])\<rparr>"

definition ex_built :: qfv1_PolicyBundle where
  "ex_built = (buildProtoBundle ex_rs 7)\<lparr>pb_signature := ex_key @ [1], pb_signed_at := Some 9\<rparr>"

definition ex_session7 :: "bpf PolicyHandler session" where
  "ex_session7 = \<lparr>sent = [], nsend = 0, peer = ex_handler\<rparr>"

lemma ex_Build: "Build ex_Q ex_crypto2 (Some ex_key) 9 ex_db (pgUUIDToStr (ex_id 9)) (pgUUIDToStr (ex_id 1)) 7 = Inr ex_built"
  by (simp add: Build_def ex_Compile BundleSigner_SignBundle_def ex_crypto2_def ex_crypto_def ex_built_def buildProtoBundle_def)

lemma ex_pair2: "ed25519_pair ex_crypto2 ex_key ex_key"
  using ex_pair by (simp add: ed25519_pair_def ex_crypto2_def)

lemma ex_built_valid: "bundle_valid 64 ex_built"
proof -
  have "is_ok (parseUUID (pgUUIDToStr (ex_id 4)))" unfolding ex_id_def by code_simp
  then show ?thesis
    by (simp add: ex_built_def buildProtoBundle_def buildProtoRule_def ex_rs_def ex_rr_def ex_db_def Let_def protoAction_def
        protoDirection_def protoState_def protoProtocol_def nullableString_def bundle_valid_def rule_valid_def ports_valid_def
        enum_defs MaxIPSetEntries_def GetMatch_def cidr_count_def empty_RuleMatchSpec_def)
qed

theorem stored_policy_delivered_witness:
  "\<exists>z' ack res. HandleBundle ex_crypto2 (\<lambda>_. False) ex_built ex_key (applyFn (loader_applier (\<lambda>_. False)) rev ex_clock) ex_session7 = (Inr (), z')
     \<and> sent z' = [BundleAckMsg ack, BundleAppliedMsg res] \<and> ba_generation res = 7 \<and> ba_success res"
  using stored_policy_delivered [OF ex_pair2 ex_Build, of ex_session7 rev ex_clock] ex_built_valid ex_handler_ok
  by (auto simp: ex_session7_def)

definition ex_pkt :: pkt_ctx where
  "ex_pkt = \<lparr>src_ip4 = 0x0100000A, dst_ip4 = 0, src_port = 4000, dst_port = 22, pkt_size = 60, tcp_flags = 2,
             proto = 2, pkt_direction = 1, is_ipv6 = False, pkt_ct_state = 0\<rparr>"

theorem stored_policy_enforced_witness:
  "\<exists>z'. snd (HandleBundle ex_crypto2 (\<lambda>_. False) ex_built ex_key (applyFn (loader_applier (\<lambda>_. False)) rev ex_clock) ex_session7) = z'
     \<and> currentGen (peer z') = 7
     \<and> fst (run_datapath \<lparr>env_cpu = 0, env_now = 1, env_room = True, env_evict = (\<lambda>_. False)\<rparr> (Some ex_pkt) (applier (peer z'))) = TC_ACT_SHOT"
proof -
  have p: "peer ex_session7 = ex_handler" "sent ex_session7 = []" by (simp_all add: ex_session7_def)
  have "is_ok (fst (Apply (loader_applier (\<lambda>_. False)) rev ex_clock (Some ex_built) (peer ex_session7)))"
    unfolding p using ex_built_valid ex_handler_ok by (intro Apply_valid) simp_all
  from HandleBundle_delivers [OF Build_verifies [OF ex_pair2 ex_Build] _ this, of "\<lambda>_. False"]
  obtain z' ack res where z': "HandleBundle ex_crypto2 (\<lambda>_. False) ex_built ex_key (applyFn (loader_applier (\<lambda>_. False)) rev ex_clock) ex_session7 = (Inr (), z')"
    "sent z' = [BundleAckMsg ack, BundleAppliedMsg res]" "ba_success res" using p by auto
  have m: "BundleAppliedMsg res \<in> set (drop (length (sent ex_session7)) (sent z'))" by (simp add: z' p)
  have "length (pb_rules ex_built) \<le> 2 ^ 31" by (simp add: ex_built_def buildProtoBundle_def ex_rs_def)
  then obtain rs where rs: "Compile ex_Q ex_db (pgUUIDToStr (ex_id 9)) (pgUUIDToStr (ex_id 1)) = Inr rs" "currentGen (peer z') = 7"
    and v: "\<And>pks env p. plain_ruleset rs \<Longrightarrow> let s = run_packets pks (applier (peer z')) in fst (run_datapath env (Some p) s) =
       ruleset_verdict rs (p\<lparr>pkt_ct_state := (if list_ex rule_needs_ct (rs_Rules rs) then ct_lookup s p else 0)\<rparr>)"
    using stored_policy_enforced [OF ex_Build z'(1) m z'(3)] ex_handler_ok(1) unfolding p by auto
  have e: "rs = ex_rs" using rs(1) ex_Compile by simp
  have "\<not> list_ex rule_needs_ct (rs_Rules ex_rs)" "ruleset_verdict ex_rs (ex_pkt\<lparr>pkt_ct_state := 0\<rparr>) = TC_ACT_SHOT" "plain_ruleset ex_rs"
    unfolding ex_rs_def ex_rr_def ex_db_def by code_simp+
  then show ?thesis using v [of "[]" _ ex_pkt] rs(2) e z'(1) by (simp add: Let_def)
qed

section \<open>Where the rules are wider than they read\<close>

text \<open>The bundle without its TCP flag conditions.\<close>

definition no_flags :: "qfv1_EffectiveRule \<Rightarrow> qfv1_EffectiveRule" where
  "no_flags er = er\<lparr>er_match := map_option (\<lambda>m. m\<lparr>rm_tcp_flags_match := 0, rm_tcp_flags_mask := 0\<rparr>) (er_match er)\<rparr>"

lemma no_flags_match:
  "rm_protocol (GetMatch (no_flags er)) = rm_protocol (GetMatch er)"
  "rm_src_cidrs (GetMatch (no_flags er)) = rm_src_cidrs (GetMatch er)"
  "rm_dst_cidrs (GetMatch (no_flags er)) = rm_dst_cidrs (GetMatch er)"
  "rm_src_ports (GetMatch (no_flags er)) = rm_src_ports (GetMatch er)"
  "rm_dst_ports (GetMatch (no_flags er)) = rm_dst_ports (GetMatch er)"
  by (cases "er_match er"; simp add: no_flags_def GetMatch_def empty_RuleMatch_def)+

lemma no_flags_rest:
  "er_action (no_flags er) = er_action er" "er_direction (no_flags er) = er_direction er"
  "er_state (no_flags er) = er_state er" "er_rule_id (no_flags er) = er_rule_id er"
  "er_log_enabled (no_flags er) = er_log_enabled er"
  "er_log_rate_limit_per_sec (no_flags er) = er_log_rate_limit_per_sec er"
  by (simp_all add: no_flags_def)

lemma compileRules_no_flags: "compileRules i (map (map_option no_flags) rs) st = compileRules i rs st"
proof (induction rs arbitrary: i st)
  case (Cons r rs)
  have "compileRule (map_option no_flags r) n st = compileRule r n st" for n
    by (cases r) (simp_all only: compileRule_def option.map option.case no_flags_match no_flags_rest)
  moreover have "GetRuleId (map_option no_flags r) = GetRuleId r"
    by (cases r) (simp_all add: GetRuleId_def no_flags_rest)
  ultimately show ?case by (simp only: list.map compileRules.simps Cons)
qed simp

text \<open>
  C38. TCP flag conditions have no effect. The control plane puts them into the bundle, but
  the agent's compiler does not read them and the loader's rules have no such field: a bundle
  compiles to the same rules with or without them, so a rule that names flags matches
  packets with any flags.
\<close>

theorem tcp_flags_ignored:
  "CompileBundle (Some (b\<lparr>pb_rules := map (map_option no_flags) (pb_rules b)\<rparr>)) = CompileBundle (Some b)"
  by (simp add: CompileBundle_def compileRules_no_flags bundleConfig_def Let_def)


section \<open>A read of log events\<close>

definition ex_row :: "bytes \<Rightarrow> int \<Rightarrow> logRow" where
  "ex_row tid t = \<lparr>lr_TenantID = tid, lr_HostID = ex_id 1, lr_RuleID = None, lr_PolicyID = None, lr_Direction = ''ingress'', lr_Action = ''deny'',
     lr_Protocol = 2, lr_SrcIp = Some [10, 0, 0, 1], lr_SrcPort = Some 4000, lr_DstIp = None, lr_DstPort = Some 22, lr_PacketSize = None,
     lr_TcpFlags = None, lr_CtState = None, lr_CreatedAt = t\<rparr>"

definition ex_telemetry :: telemetry where
  "ex_telemetry = \<lparr>tm_log = [(ex_id 20, ex_row (ex_id 9) 1), (ex_id 21, ex_row (ex_id 8) 2), (ex_id 22, ex_row (ex_id 9) 3)],
     tm_flow = [], tm_counter = [], tm_parse = (\<lambda>_. None)\<rparr>"

definition ex_read :: http_Request where
  "ex_read = ex_rq\<lparr>rq_tenant := pgUUIDToStr (ex_id 9), rq_id := pgUUIDToStr (ex_id 1)\<rparr>"

lemma ex_read_ids:
  "tenantFromRequest ex_A ex_read ex_web = (Inr (ex_id 9), ex_web)" "uuid_Scan (ap_q ex_A) (rq_id ex_read) = Inr (ex_id 1)"
  by (simp_all add: tenantFromRequest_def ex_read_def ex_rq_def pgUUIDToStr_ne ex_scan retH_def Let_def)

theorem listEvents_page_witness:
  "\<exists>rows. fst (listEvents ex_A ex_telemetry ex_read (\<lambda>_. '''') ex_web) = Inr (map toSingleLogEvent rows) \<and> length rows \<le> 1000
     \<and> (ex_id 22, ex_row (ex_id 9) 3) \<in> set rows \<and> (ex_id 21, ex_row (ex_id 8) 2) \<notin> set rows"
proof -
  have lim: "parseLimit (\<lambda>_. '''') = 500" by (simp add: parseLimit_def defaultLimit_def)
  have "query ex_Q ''ListLogEvents'' () = Inr ()" by (simp add: query_def ex_Q_def)
  moreover have "\<not> (500 :: i32) <s 0" by code_simp
  ultimately obtain evs w' where e: "listEvents ex_A ex_telemetry ex_read (\<lambda>_. '''') ex_web = (Inr evs, w')"
    using ex_read_ids(1) ex_read_ids(2) [simplified]
    by (simp add: listEvents_def host_request_def bindH_def uuidParam_def retH_def queryH_def ListLogEvents_def newest_def bindR_def lim)
  from listEvents_page [OF e ex_read_ids] obtain rows where r: "evs = map toSingleLogEvent rows" "length rows \<le> 1000"
    and p: "page (\<lambda>(i, r). lr_TenantID r = ex_id 9 \<and> lr_HostID r = ex_id 1) (\<lambda>x. lr_CreatedAt (snd x)) 500 (tm_log ex_telemetry) rows"
    by (auto simp: parseTimestampParam_def parseUUIDParam_def is_null_or_def lim)
  have sub: "x \<in> set (tm_log ex_telemetry)" "lr_TenantID (snd x) = ex_id 9" if "x \<in> set rows" for x
    using p that unfolding page_def by (auto simp: case_prod_unfold)
  have all: "x \<in> set rows \<or> length rows = 500 \<and> (\<forall>y\<in>set rows. lr_CreatedAt (snd x) \<le> lr_CreatedAt (snd y))"
    if "x \<in> set (tm_log ex_telemetry)" "lr_TenantID (snd x) = ex_id 9" "lr_HostID (snd x) = ex_id 1" for x
    using p that unfolding page_def by (simp add: case_prod_unfold)
  let ?x = "(ex_id 22, ex_row (ex_id 9) 3)"
  have "?x \<in> set rows"
  proof (rule ccontr)
    assume n: "?x \<notin> set rows"
    have "?x \<in> set (tm_log ex_telemetry)" by (simp add: ex_telemetry_def)
    then have l: "length rows = 500" "\<forall>y\<in>set rows. 3 \<le> lr_CreatedAt (snd y)" using all [of ?x] n by (simp_all add: ex_row_def)
    then obtain y where y: "y \<in> set rows" by (metis length_0_conv list.set_intros(1) neq_Nil_conv zero_neq_numeral)
    then have "y = (ex_id 20, ex_row (ex_id 9) 1)" using sub [OF y] n by (auto simp: ex_telemetry_def ex_row_def)
    then show False using l(2) y by (auto simp: ex_row_def)
  qed
  moreover have "(ex_id 21, ex_row (ex_id 8) 2) \<notin> set rows" using sub(2) [of "(ex_id 21, ex_row (ex_id 8) 2)"] by (auto simp: ex_row_def)
  ultimately show ?thesis using e r by auto
qed

end
